(* ===== verification/Go_Prelude.thy ===== *)
theory Go_Prelude
  imports Complex_Main "HOL-Library.Word"
begin

text \<open>
  Shared notions of the development: the theorem collections, the error and result types
  (a Go \<open>(value, error)\<close> pair becomes a sum, a panic is an error value of its own), the
  loop combinators, the ASCII string functions and the machine-integer conversions the Go
  sources use, and the generic lemmas the component theories rely on.
\<close>

named_theorems val_simps \<open>values of decimal expressions\<close>
named_theorems res_simps \<open>inversion of successful result computations\<close>

section \<open>Errors and results\<close>

text \<open>
  \<open>HTTPError\<close> is an \<open>httpx\<close> error with its status, \<open>Failure\<close> a plain
  \<open>errors.New\<close>/\<open>fmt.Errorf\<close> value, \<open>Panic\<close> a run-time panic (nil dereference,
  division by zero), which unwinds past every \<open>err\<close> check of the callers.
\<close>

datatype error = HTTPError nat string | Failure string | Panic string

type_synonym 'a res = "error + 'a"

definition bindR :: "'a res \<Rightarrow> ('a \<Rightarrow> 'b res) \<Rightarrow> 'b res" where
  "bindR m f = (case m of Inl e \<Rightarrow> Inl e | Inr x \<Rightarrow> f x)"

lemma bindR_Inl [simp]: "bindR (Inl e) f = Inl e"
  by (simp add: bindR_def)

lemma bindR_Inr [simp]: "bindR (Inr x) f = f x"
  by (simp add: bindR_def)

lemma bindR_eq_Inr [res_simps]: "bindR m f = Inr y \<longleftrightarrow> (\<exists>x. m = Inr x \<and> f x = Inr y)"
  by (cases m) auto

lemma bindR_eq_Inl: "bindR m f = Inl e \<longleftrightarrow> m = Inl e \<or> (\<exists>x. m = Inr x \<and> f x = Inl e)"
  by (cases m) auto

lemma bindR_cong [fundef_cong]:
  "m = m' \<Longrightarrow> (\<And>x. m' = Inr x \<Longrightarrow> f x = f' x) \<Longrightarrow> bindR m f = bindR m' f'"
  by (cases m') auto

text \<open>
  The loop \<open>for _, x := range xs { y, err := f(x); if err != nil { return err }; out = append(out, y) }\<close>
  and the loop that threads an accumulator and stops at the first error.
\<close>

fun mapR :: "('a \<Rightarrow> 'b res) \<Rightarrow> 'a list \<Rightarrow> 'b list res" where
  "mapR f [] = Inr []"
| "mapR f (x # xs) = bindR (f x) (\<lambda>y. bindR (mapR f xs) (\<lambda>ys. Inr (y # ys)))"

fun foldR :: "('a \<Rightarrow> 'b \<Rightarrow> 'b res) \<Rightarrow> 'a list \<Rightarrow> 'b \<Rightarrow> 'b res" where
  "foldR f [] acc = Inr acc"
| "foldR f (x # xs) acc = bindR (f x acc) (foldR f xs)"

lemma mapR_eq_Inr [res_simps]:
  "mapR f xs = Inr ys \<longleftrightarrow> list_all2 (\<lambda>x y. f x = Inr y) xs ys"
proof (induction xs arbitrary: ys)
  case Nil
  then show ?case by (auto simp: eq_commute)
next
  case (Cons x xs)
  then show ?case by (cases ys) (auto simp: bindR_eq_Inr)
qed

lemma mapR_length: "mapR f xs = Inr ys \<Longrightarrow> length ys = length xs"
  by (auto simp: mapR_eq_Inr dest: list_all2_lengthD)

lemma mapR_total: "(\<And>x. x \<in> set xs \<Longrightarrow> f x = Inr (g x)) \<Longrightarrow> mapR f xs = Inr (map g xs)"
  by (induction xs) auto

lemma mapR_Inl: "x \<in> set xs \<Longrightarrow> f x = Inl e \<Longrightarrow> \<exists>e'. mapR f xs = Inl e'"
proof (induction xs)
  case (Cons y ys)
  then show ?case
    by (cases "f y"; cases "mapR f ys") auto
qed simp

lemma foldR_append: "foldR f (xs @ ys) acc = bindR (foldR f xs acc) (foldR f ys)"
proof (induction xs arbitrary: acc)
  case (Cons x xs)
  then show ?case by (cases "f x acc") auto
qed simp

text \<open>An invariant of the loop body is an invariant of the loop.\<close>

lemma foldR_invariant:
  assumes "foldR f xs acc = Inr acc'" and "I acc"
    and "\<And>x a a'. x \<in> set xs \<Longrightarrow> I a \<Longrightarrow> f x a = Inr a' \<Longrightarrow> I a'"
  shows "I acc'"
  using assms
proof (induction xs arbitrary: acc)
  case (Cons x xs)
  from Cons.prems(1) obtain a where a: "f x acc = Inr a" "foldR f xs a = Inr acc'"
    by (auto simp: bindR_eq_Inr)
  with Cons.prems have "I a" by (meson list.set_intros(1))
  show ?case
    by (rule Cons.IH [OF a(2) \<open>I a\<close>]) (meson Cons.prems(3) list.set_intros(2))
qed simp

text \<open>
  A loop over distinct elements whose steps are idempotent and do not disturb one another is
  idempotent.
\<close>

lemma foldR_quiet:
  assumes "foldR f ys a = Inr b" and "f x a = Inr a"
    and "\<And>y a a'. y \<in> set ys \<Longrightarrow> f x a = Inr a \<Longrightarrow> f y a = Inr a' \<Longrightarrow> f x a' = Inr a'"
  shows "f x b = Inr b"
  using assms
proof (induction ys arbitrary: a)
  case (Cons y ys)
  from Cons.prems(1) obtain a' where a': "f y a = Inr a'" "foldR f ys a' = Inr b" by (auto simp: bindR_eq_Inr)
  have "f x a' = Inr a'" by (rule Cons.prems(3) [OF _ Cons.prems(2) a'(1)]) simp
  show ?case
    by (rule Cons.IH [OF a'(2) \<open>f x a' = Inr a'\<close>]) (rule Cons.prems(3), simp_all)
qed simp

lemma foldR_idem:
  assumes "foldR f xs a = Inr b" and "distinct (map g xs)"
    and "\<And>x a a'. f x a = Inr a' \<Longrightarrow> f x a' = Inr a'"
    and "\<And>x y a a'. g x \<noteq> g y \<Longrightarrow> f x a = Inr a \<Longrightarrow> f y a = Inr a' \<Longrightarrow> f x a' = Inr a'"
  shows "foldR f xs b = Inr b"
proof -
  have "\<forall>x\<in>set xs. f x b = Inr b"
    using assms(1,2)
  proof (induction xs arbitrary: a)
    case (Cons x xs)
    from Cons.prems(1) obtain a' where a': "f x a = Inr a'" "foldR f xs a' = Inr b" by (auto simp: bindR_eq_Inr)
    have "f x b = Inr b"
      using a'(2) assms(3) [OF a'(1)] by (rule foldR_quiet) (use Cons.prems(2) assms(4) in force)
    with Cons.IH [OF a'(2)] Cons.prems(2) show ?case by simp
  qed simp
  then show ?thesis by (induction xs) auto
qed

text \<open>The loop that keeps only the results with \<open>ok == true\<close>.\<close>

definition catR :: "('a \<Rightarrow> 'b option res) \<Rightarrow> 'a list \<Rightarrow> 'b list res" where
  "catR f xs = bindR (mapR f xs) (\<lambda>os. Inr (List.map_filter id os))"

lemma catR_Nil [simp]: "catR f [] = Inr []"
  by (simp add: catR_def List.map_filter_def)

lemma catR_Cons [simp]: "catR f (x # xs) = bindR (f x) (\<lambda>o'. bindR (catR f xs) (\<lambda>ys.
    Inr (case o' of None \<Rightarrow> ys | Some y \<Rightarrow> y # ys)))"
  by (cases "f x"; cases "mapR f xs") (auto simp: catR_def List.map_filter_def split: option.splits)

lemma catR_mem: "catR f xs = Inr ys \<Longrightarrow> y \<in> set ys \<Longrightarrow> \<exists>x\<in>set xs. f x = Inr (Some y)"
  by (induction xs arbitrary: ys) (auto simp: bindR_eq_Inr split: option.splits)

lemma catR_Inr_iff: "(\<exists>ys. catR f xs = Inr ys) \<longleftrightarrow> (\<forall>x\<in>set xs. \<exists>o'. f x = Inr o')"
  by (induction xs) (auto simp: bindR_eq_Inr)

lemma catR_map:
  assumes "catR f xs = Inr ys" and "\<And>x y. x \<in> set xs \<Longrightarrow> f x = Inr (Some y) \<Longrightarrow> g y = x"
  shows "map g ys = filter (\<lambda>x. \<exists>y. f x = Inr (Some y)) xs"
  using assms by (induction xs arbitrary: ys) (auto simp: bindR_eq_Inr split: option.splits)

lemma catR_filter:
  "(\<And>x. x \<in> set xs \<Longrightarrow> \<not> P x \<Longrightarrow> f x = Inr None) \<Longrightarrow> catR f xs = catR f (filter P xs)"
proof (induction xs)
  case (Cons x xs)
  then show ?case by (cases "catR f (filter P xs)") auto
qed simp

section \<open>Strings\<close>

text \<open>
  Strings are byte strings restricted to ASCII, which is what the sources' own comments
  assume (\<open>convert.go\<close>: ``ASCII case-fold''): \<open>strings.ToLower\<close> and
  \<open>strings.EqualFold\<close> fold the letters A--Z only.
\<close>

definition lower_char :: "char \<Rightarrow> char" where
  "lower_char c = (let n = of_char c :: nat in if 65 \<le> n \<and> n \<le> 90 then char_of (n + 32) else c)"

definition toLower :: "string \<Rightarrow> string" where
  "toLower s = map lower_char s"

definition equalFold :: "string \<Rightarrow> string \<Rightarrow> bool" where
  "equalFold a b \<longleftrightarrow> toLower a = toLower b"

fun hasPrefix :: "string \<Rightarrow> string \<Rightarrow> bool" where
  "hasPrefix s [] = True"
| "hasPrefix [] (p # ps) = False"
| "hasPrefix (c # s) (p # ps) = (c = p \<and> hasPrefix s ps)"

fun containsStr :: "string \<Rightarrow> string \<Rightarrow> bool" where
  "containsStr [] p = (p = [])"
| "containsStr (c # s) p = (hasPrefix (c # s) p \<or> containsStr s p)"

text \<open>\<open>strings.TrimSpace\<close>: the ASCII space characters are tab, LF, VT, FF, CR and blank.\<close>

definition isSpace :: "char \<Rightarrow> bool" where
  "isSpace c = (let n = of_char c :: nat in n = 32 \<or> (9 \<le> n \<and> n \<le> 13))"

definition trimSpace :: "string \<Rightarrow> string" where
  "trimSpace s = rev (dropWhile isSpace (rev (dropWhile isSpace s)))"

text \<open>\<open>strconv.Itoa\<close> and \<open>strconv.FormatInt(_, 10)\<close>.\<close>

fun show_nat :: "nat \<Rightarrow> string" where
  "show_nat n = (if n < 10 then [char_of (n + 48)] else show_nat (n div 10) @ [char_of (n mod 10 + 48)])"

declare show_nat.simps [simp del]

definition itoa :: "int \<Rightarrow> string" where
  "itoa n = (if n < 0 then ''-'' @ show_nat (nat (- n)) else show_nat (nat n))"

lemma equalFold_refl [simp]: "equalFold a a"
  by (simp add: equalFold_def)

lemma equalFold_sym: "equalFold a b \<longleftrightarrow> equalFold b a"
  by (auto simp: equalFold_def)

lemma equalFold_trans: "equalFold a b \<Longrightarrow> equalFold b c \<Longrightarrow> equalFold a c"
  by (simp add: equalFold_def)

lemma hasPrefix_iff: "hasPrefix s p \<longleftrightarrow> (\<exists>t. s = p @ t)"
  by (induction s p rule: hasPrefix.induct) auto

lemma containsStr_iff: "containsStr s p \<longleftrightarrow> (\<exists>u t. s = u @ p @ t)"
proof (induction s)
  case (Cons c s)
  have "(\<exists>u t. c # s = u @ p @ t) \<longleftrightarrow> (\<exists>t. c # s = p @ t) \<or> (\<exists>u t. s = u @ p @ t)"
    by (metis append_Cons append_self_conv2 list.sel(3) neq_Nil_conv tl_append2)
  then show ?case by (simp add: hasPrefix_iff Cons)
qed simp

section \<open>Machine integers and durations\<close>

text \<open>
  \<open>int64\<close> arithmetic wraps; \<open>i64\<close> is the value of a 64-bit register holding the
  mathematical result. Go's integer division truncates toward zero.
\<close>

definition i64 :: "int \<Rightarrow> int" where
  "i64 x = (x + 2 ^ 63) mod 2 ^ 64 - 2 ^ 63"

definition quot :: "int \<Rightarrow> int \<Rightarrow> int" where
  "quot a b = sgn a * sgn b * (\<bar>a\<bar> div \<bar>b\<bar>)"

lemma i64_id: "- (2 ^ 63) \<le> x \<Longrightarrow> x < 2 ^ 63 \<Longrightarrow> i64 x = x"
  by (simp add: i64_def)

lemma i64_range: "- (2 ^ 63) \<le> i64 x \<and> i64 x < 2 ^ 63"
  by (simp add: i64_def)

lemma quot_nonneg: "0 \<le> a \<Longrightarrow> 0 < b \<Longrightarrow> quot a b = a div b"
  by (cases "a = 0") (simp_all add: quot_def)

lemma quot_neg: "a < 0 \<Longrightarrow> 0 < b \<Longrightarrow> quot a b = - ((- a) div b)"
  by (simp add: quot_def)

lemma quot_mono:
  assumes "a \<le> a'" and "0 < b"
  shows "quot a b \<le> quot a' b"
proof -
  consider "a' < 0" | "a < 0" "0 \<le> a'" | "0 \<le> a" by linarith
  then show ?thesis
  proof cases
    case 1
    with assms show ?thesis by (simp add: quot_neg zdiv_mono1)
  next
    case 2
    with assms have "quot a b \<le> 0" by (simp add: quot_neg pos_imp_zdiv_nonneg_iff)
    also have "0 \<le> quot a' b" using 2 assms by (simp add: quot_nonneg pos_imp_zdiv_nonneg_iff)
    finally show ?thesis .
  next
    case 3
    with assms show ?thesis by (simp add: quot_nonneg zdiv_mono1)
  qed
qed

section \<open>Lists\<close>

text \<open>
  The loop that finds the first element with a property and mutates it through its pointer.
\<close>

fun updateFirst :: "('a \<Rightarrow> bool) \<Rightarrow> ('a \<Rightarrow> 'a) \<Rightarrow> 'a list \<Rightarrow> 'a list" where
  "updateFirst P f [] = []"
| "updateFirst P f (x # xs) = (if P x then f x # xs else x # updateFirst P f xs)"

lemma updateFirst_none: "(\<And>x. x \<in> set xs \<Longrightarrow> \<not> P x) \<Longrightarrow> updateFirst P f xs = xs"
  by (induction xs) auto

lemma updateFirst_find:
  assumes "find P xs = Some y"
  shows "\<exists>ys zs. xs = ys @ y # zs \<and> P y \<and> (\<forall>x\<in>set ys. \<not> P x) \<and> (\<forall>f. updateFirst P f xs = ys @ f y # zs)"
  using assms
proof (induction xs)
  case (Cons x xs)
  show ?case
  proof (cases "P x")
    case True
    with Cons.prems show ?thesis by (intro exI [of _ "[]"] exI [of _ xs]) auto
  next
    case False
    with Cons obtain ys zs where "xs = ys @ y # zs" "P y" "\<forall>x\<in>set ys. \<not> P x"
        "\<forall>f. updateFirst P f xs = ys @ f y # zs" by auto
    with False show ?thesis by (intro exI [of _ "x # ys"] exI [of _ zs]) auto
  qed
qed simp

lemma find_not_None: "find P xs \<noteq> None \<longleftrightarrow> (\<exists>x\<in>set xs. P x)"
  by (auto simp: find_None_iff)

lemma find_append: "find P (xs @ ys) = (case find P xs of None \<Rightarrow> find P ys | Some x \<Rightarrow> Some x)"
  by (induction xs) auto

lemma map_updateFirst: "(\<And>x. P x \<Longrightarrow> g (f x) = g x) \<Longrightarrow> map g (updateFirst P f xs) = map g xs"
  by (induction xs) auto

lemma length_updateFirst [simp]: "length (updateFirst P f xs) = length xs"
  by (induction xs) auto

lemma set_updateFirst: "y \<in> set (updateFirst P f xs) \<Longrightarrow> y \<in> set xs \<or> (\<exists>x\<in>set xs. P x \<and> y = f x)"
  by (induction xs) (auto split: if_splits)

lemma find_updateFirst:
  "(\<And>x. P x \<Longrightarrow> P (f x)) \<Longrightarrow> find P (updateFirst P f xs) = map_option f (find P xs)"
  by (induction xs) auto

lemma find_updateFirst_other:
  "(\<And>x. P x \<Longrightarrow> Q (f x) = Q x) \<Longrightarrow> (\<And>x. \<not> (P x \<and> Q x)) \<Longrightarrow> find Q (updateFirst P f xs) = find Q xs"
  by (induction xs) auto

lemma sum_list_map_add:
  "(\<Sum>x\<leftarrow>xs. f x + g x) = (\<Sum>x\<leftarrow>xs. f x) + (\<Sum>x\<leftarrow>xs. (g x :: 'a :: comm_monoid_add))"
  by (induction xs) (auto simp: algebra_simps)

lemma sum_list_nonneg_map: "(\<And>x. x \<in> set xs \<Longrightarrow> 0 \<le> f x) \<Longrightarrow> 0 \<le> (\<Sum>x\<leftarrow>xs. (f x :: rat))"
  by (rule sum_list_nonneg) auto

end
