(* ===== verification/Go_Time.thy ===== *)
theory Go_Time
  imports Go_Prelude
begin

text \<open>
  What the sources use of Go's \<open>time\<close> package. An instant is the number of nanoseconds
  since 1 January of year 1, 00:00 UTC (Go's zero \<open>time.Time\<close> is therefore 0; every
  location in the sources is UTC). The calendar is the proleptic Gregorian one:
  \<open>mkDate\<close> is \<open>time.Date\<close> with its normalisation of months and days out of range,
  \<open>yearOf\<close>, \<open>monthOf\<close> and \<open>dayOf\<close> are \<open>Date()\<close>, \<open>addDate\<close> is \<open>AddDate\<close>,
  \<open>timeSub\<close> is \<open>Sub\<close>, which saturates at the range of \<open>time.Duration\<close> (\<open>int64\<close>).
  The lemmas show that the two directions of the calendar agree.
\<close>

type_synonym time = int
type_synonym duration = int

abbreviation second :: duration where "second \<equiv> 1000000000"
abbreviation minute :: duration where "minute \<equiv> 60000000000"
abbreviation hour :: duration where "hour \<equiv> 3600000000000"
abbreviation day :: duration where "day \<equiv> 86400000000000"

definition timeSub :: "time \<Rightarrow> time \<Rightarrow> duration" where
  "timeSub t u = max (- (2 ^ 63)) (min (2 ^ 63 - 1) (t - u))"

text \<open>\<open>Truncate(d)\<close> rounds down to a multiple of \<open>d\<close> since the zero time.\<close>

definition timeTruncate :: "time \<Rightarrow> duration \<Rightarrow> time" where
  "timeTruncate t d = t - t mod d"

section \<open>Calendar\<close>

definition isLeap :: "int \<Rightarrow> bool" where
  "isLeap y \<longleftrightarrow> y mod 4 = 0 \<and> (y mod 100 \<noteq> 0 \<or> y mod 400 = 0)"

text \<open>Days before 1 January of year \<open>y\<close>, and before the first of month \<open>m\<close> within a year.\<close>

definition daysBeforeYear :: "int \<Rightarrow> int" where
  "daysBeforeYear y = 365 * (y - 1) + (y - 1) div 4 - (y - 1) div 100 + (y - 1) div 400"

definition daysBeforeMonth :: "bool \<Rightarrow> int \<Rightarrow> int" where
  "daysBeforeMonth leap m = (let l = (if leap then 1 else 0) in
     if m \<le> 1 then 0 else if m = 2 then 31 else if m = 3 then 59 + l else if m = 4 then 90 + l
     else if m = 5 then 120 + l else if m = 6 then 151 + l else if m = 7 then 181 + l
     else if m = 8 then 212 + l else if m = 9 then 243 + l else if m = 10 then 273 + l
     else if m = 11 then 304 + l else if m = 12 then 334 + l else 365 + l)"

definition daysIn :: "int \<Rightarrow> int \<Rightarrow> int" where
  "daysIn y m = daysBeforeMonth (isLeap y) (m + 1) - daysBeforeMonth (isLeap y) m"

text \<open>The year of a day number: a proportional estimate, corrected by at most one.\<close>

definition yearOfDay :: "int \<Rightarrow> int" where
  "yearOfDay n = (let y = (400 * n) div 146097 + 1 in
     if n < daysBeforeYear y then y - 1 else if daysBeforeYear (y + 1) \<le> n then y + 1 else y)"

definition monthOfDay :: "bool \<Rightarrow> int \<Rightarrow> int" where
  "monthOfDay leap d = (let l = (if leap then 1 else 0) in
     if d < 31 then 1 else if d < 59 + l then 2 else if d < 90 + l then 3 else if d < 120 + l then 4
     else if d < 151 + l then 5 else if d < 181 + l then 6 else if d < 212 + l then 7
     else if d < 243 + l then 8 else if d < 273 + l then 9 else if d < 304 + l then 10
     else if d < 334 + l then 11 else 12)"

definition dayNumber :: "time \<Rightarrow> int" where
  "dayNumber t = t div day"

definition clockOf :: "time \<Rightarrow> duration" where
  "clockOf t = t mod day"

definition yearOf :: "time \<Rightarrow> int" where
  "yearOf t = yearOfDay (dayNumber t)"

definition monthOf :: "time \<Rightarrow> int" where
  "monthOf t = monthOfDay (isLeap (yearOf t)) (dayNumber t - daysBeforeYear (yearOf t))"

definition dayOf :: "time \<Rightarrow> int" where
  "dayOf t = dayNumber t - daysBeforeYear (yearOf t) - daysBeforeMonth (isLeap (yearOf t)) (monthOf t) + 1"

definition dateDays :: "int \<Rightarrow> int \<Rightarrow> int \<Rightarrow> int" where
  "dateDays y m d = (let y' = y + (m - 1) div 12; m' = (m - 1) mod 12 + 1 in
     daysBeforeYear y' + daysBeforeMonth (isLeap y') m' + (d - 1))"

definition mkDate :: "int \<Rightarrow> int \<Rightarrow> int \<Rightarrow> duration \<Rightarrow> time" where
  "mkDate y m d c = dateDays y m d * day + c"

definition addDate :: "time \<Rightarrow> int \<Rightarrow> int \<Rightarrow> int \<Rightarrow> time" where
  "addDate t y m d = mkDate (yearOf t + y) (monthOf t + m) (dayOf t + d) (clockOf t)"

section \<open>The calendar is consistent\<close>

lemma div_bounds:
  assumes "0 < (k :: int)"
  shows "k * (n div k) \<le> n" and "n < k * (n div k) + k"
proof -
  have "0 \<le> n mod k" "n mod k < k" "k * (n div k) + n mod k = n" using assms by simp_all
  then show "k * (n div k) \<le> n" "n < k * (n div k) + k" by linarith+
qed

lemma div_pred:
  assumes "0 < (k :: int)"
  shows "y div k = (y - 1) div k + (if y mod k = 0 then 1 else 0)"
proof (cases "y mod k = 0")
  case True
  have "(y - 1) div k = y div k - 1"
    using True assms mult_div_mod_eq [of k y]
    by (intro int_div_pos_eq [of _ _ _ "k - 1"]) (auto simp: algebra_simps)
  with True show ?thesis by simp
next
  case False
  then have "(y - 1) div k = y div k"
    using assms mult_div_mod_eq [of k y] pos_mod_bound [of k y] pos_mod_sign [of k y]
    by (intro int_div_pos_eq [of _ _ _ "y mod k - 1"]) linarith+
  with False show ?thesis by simp
qed

lemma mod_mod_zero: "y mod (k * j) = 0 \<Longrightarrow> y mod k = (0 :: int)"
  by (metis mod_mod_cancel dvd_triv_left mod_0)

lemma leap_count:
  fixes a b c y :: int
  assumes "r \<Longrightarrow> q" and "q \<Longrightarrow> p"
  shows "365 * y + (a + (if p then 1 else 0)) - (b + (if q then 1 else 0)) + (c + (if r then 1 else 0)) =
    365 * (y - 1) + a - b + c + (if p \<and> (\<not> q \<or> r) then 366 else 365)"
  using assms by (cases p; cases q; cases r) auto

lemma daysBeforeYear_step: "daysBeforeYear (y + 1) = daysBeforeYear y + (if isLeap y then 366 else 365)"
proof -
  have "y mod 400 = 0 \<Longrightarrow> y mod 100 = 0" "y mod 100 = 0 \<Longrightarrow> y mod 4 = 0"
    using mod_mod_zero [of y 100 4] mod_mod_zero [of y 4 25] by simp_all
  note count = leap_count [of "y mod 400 = 0" "y mod 100 = 0" "y mod 4 = 0", OF this]
  have "daysBeforeYear (y + 1) = 365 * y + y div 4 - y div 100 + y div 400"
    by (simp only: daysBeforeYear_def add_diff_cancel_right')
  then show ?thesis
    by (simp only: div_pred [of 4 y, OF zero_less_numeral] div_pred [of 100 y, OF zero_less_numeral]
        div_pred [of 400 y, OF zero_less_numeral] count daysBeforeYear_def isLeap_def)
qed

lemma leap_bounds:
  fixes a b c k :: int
  assumes "4 * a \<le> k" "k < 4 * a + 4" "100 * b \<le> k" "k < 100 * b + 100" "400 * c \<le> k" "k < 400 * c + 400"
  shows "146097 * k - 800 < 400 * (365 * k + a - b + c)"
    and "400 * (365 * k + a - b + c) \<le> 146097 * k + 400"
  using assms by simp_all

lemma daysBeforeYear_bounds:
  shows "146097 * (y - 1) - 800 < 400 * daysBeforeYear y"
    and "400 * daysBeforeYear y \<le> 146097 * (y - 1) + 400"
  unfolding daysBeforeYear_def by (rule leap_bounds; rule div_bounds; simp)+

lemma yearOfDay_bounds:
  "daysBeforeYear (yearOfDay n) \<le> n \<and> n < daysBeforeYear (yearOfDay n + 1)"
proof -
  define y where "y = (400 * n) div 146097 + 1"
  have y: "146097 * (y - 1) \<le> 400 * n" "400 * n < 146097 * y"
    using div_bounds [of 146097 "400 * n", OF zero_less_numeral] by (simp_all add: y_def algebra_simps)
  have lo: "daysBeforeYear (y - 1) \<le> n"
    using daysBeforeYear_bounds(2) [of "y - 1"] y by simp
  have hi: "n < daysBeforeYear (y + 2)"
    using daysBeforeYear_bounds(1) [of "y + 2"] y by simp
  show ?thesis
    unfolding yearOfDay_def Let_def y_def [symmetric] using lo hi by (auto simp: add.commute)
qed

lemma daysBeforeYear_mono: "y \<le> y' \<Longrightarrow> daysBeforeYear y \<le> daysBeforeYear y'"
proof (induction y' rule: int_ge_induct)
  case (step i)
  then show ?case using daysBeforeYear_step [of i] by (simp split: if_splits)
qed simp

lemma yearOfDay_unique:
  assumes "daysBeforeYear y \<le> n" and "n < daysBeforeYear (y + 1)"
  shows "yearOfDay n = y"
proof (rule ccontr)
  assume "yearOfDay n \<noteq> y"
  then consider "yearOfDay n + 1 \<le> y" | "y + 1 \<le> yearOfDay n" by linarith
  then show False
    using daysBeforeYear_mono yearOfDay_bounds [of n] assms by cases fastforce+
qed

lemma monthOfDay_range: "1 \<le> monthOfDay l d \<and> monthOfDay l d \<le> 12"
  by (simp add: monthOfDay_def Let_def)

lemma monthOfDay_bounds:
  assumes "0 \<le> d" and "d < (if l then 366 else 365)"
  shows "daysBeforeMonth l (monthOfDay l d) \<le> d \<and> d < daysBeforeMonth l (monthOfDay l d + 1)"
  using assms by (cases l) (simp_all add: monthOfDay_def daysBeforeMonth_def Let_def)

lemma monthOfDay_unique:
  assumes "1 \<le> m" "m \<le> 12" and "daysBeforeMonth l m \<le> d" "d < daysBeforeMonth l (m + 1)"
  shows "monthOfDay l d = m"
proof -
  have "m = 1 \<or> m = 2 \<or> m = 3 \<or> m = 4 \<or> m = 5 \<or> m = 6 \<or> m = 7 \<or> m = 8 \<or> m = 9 \<or> m = 10 \<or> m = 11 \<or> m = 12"
    using assms(1,2) by presburger
  then show ?thesis
    using assms(3,4) by (cases l) (elim disjE; simp add: monthOfDay_def daysBeforeMonth_def Let_def)+
qed

lemma daysBeforeMonth_bounds:
  assumes "1 \<le> m" "m \<le> 12"
  shows "0 \<le> daysBeforeMonth l m" "28 \<le> daysBeforeMonth l (m + 1) - daysBeforeMonth l m"
    "daysBeforeMonth l (m + 1) - daysBeforeMonth l m \<le> 31"
    "daysBeforeMonth l (m + 1) \<le> (if l then 366 else 365)"
proof -
  have "m = 1 \<or> m = 2 \<or> m = 3 \<or> m = 4 \<or> m = 5 \<or> m = 6 \<or> m = 7 \<or> m = 8 \<or> m = 9 \<or> m = 10 \<or> m = 11 \<or> m = 12"
    using assms by presburger
  then show "0 \<le> daysBeforeMonth l m" "28 \<le> daysBeforeMonth l (m + 1) - daysBeforeMonth l m"
    "daysBeforeMonth l (m + 1) - daysBeforeMonth l m \<le> 31"
    "daysBeforeMonth l (m + 1) \<le> (if l then 366 else 365)"
    by (cases l; elim disjE; simp add: daysBeforeMonth_def Let_def)+
qed

lemma daysIn_bounds: "1 \<le> m \<Longrightarrow> m \<le> 12 \<Longrightarrow> 28 \<le> daysIn y m \<and> daysIn y m \<le> 31"
  using daysBeforeMonth_bounds by (simp add: daysIn_def)

lemma monthOf_range [simp]: "1 \<le> monthOf t" "monthOf t \<le> 12"
  using monthOfDay_range by (auto simp: monthOf_def)

lemma dayOf_range: "1 \<le> dayOf t \<and> dayOf t \<le> daysIn (yearOf t) (monthOf t)"
proof -
  let ?d = "dayNumber t - daysBeforeYear (yearOf t)"
  have "0 \<le> ?d" "?d < (if isLeap (yearOf t) then 366 else 365)"
    using yearOfDay_bounds [of "dayNumber t"] daysBeforeYear_step [of "yearOf t"]
    by (auto simp: yearOf_def split: if_splits)
  from monthOfDay_bounds [OF this] show ?thesis
    by (auto simp: dayOf_def daysIn_def monthOf_def)
qed

lemma clockOf_range [simp]: "0 \<le> clockOf t" "clockOf t < day"
  by (simp_all add: clockOf_def)

text \<open>Reading the date of an instant and building it again is the identity, and conversely.\<close>

lemma dateDays_in_range: "1 \<le> m \<Longrightarrow> m \<le> 12 \<Longrightarrow>
    dateDays y m d = daysBeforeYear y + daysBeforeMonth (isLeap y) m + (d - 1)"
  by (simp add: dateDays_def div_pos_pos_trivial mod_pos_pos_trivial)

lemma dateDays_date [simp]: "dateDays (yearOf t) (monthOf t) (dayOf t) = dayNumber t"
  by (simp add: dateDays_in_range dayOf_def)

lemma mkDate_date: "mkDate (yearOf t) (monthOf t) (dayOf t) (clockOf t) = t"
  by (simp add: mkDate_def dayNumber_def clockOf_def)

lemma dayNumber_mkDate: "0 \<le> c \<Longrightarrow> c < day \<Longrightarrow> dayNumber (mkDate y m d c) = dateDays y m d"
  by (simp add: mkDate_def dayNumber_def)

lemma date_mkDate:
  assumes "1 \<le> m" "m \<le> 12" "1 \<le> d" "d \<le> daysIn y m" "0 \<le> c" "c < day"
  shows "yearOf (mkDate y m d c) = y" "monthOf (mkDate y m d c) = m" "dayOf (mkDate y m d c) = d"
    "clockOf (mkDate y m d c) = c"
proof -
  let ?l = "isLeap y"
  have dn: "dayNumber (mkDate y m d c) = daysBeforeYear y + daysBeforeMonth ?l m + (d - 1)"
    using assms by (simp add: dayNumber_mkDate dateDays_in_range)
  have b: "0 \<le> daysBeforeMonth ?l m + (d - 1)" "daysBeforeMonth ?l m + (d - 1) < daysBeforeMonth ?l (m + 1)"
    using assms daysBeforeMonth_bounds [of m ?l] by (auto simp: daysIn_def)
  show y: "yearOf (mkDate y m d c) = y"
    unfolding yearOf_def dn
    using b daysBeforeMonth_bounds(4) [of m ?l] assms daysBeforeYear_step [of y]
    by (intro yearOfDay_unique) (auto split: if_splits)
  show m: "monthOf (mkDate y m d c) = m"
    unfolding monthOf_def y dn using b assms by (intro monthOfDay_unique) auto
  show "dayOf (mkDate y m d c) = d" by (simp add: dayOf_def y m dn)
  show "clockOf (mkDate y m d c) = c" using assms by (simp add: clockOf_def mkDate_def)
qed

text \<open>The first instant of the month after \<open>(y, m)\<close> is \<open>daysIn y m\<close> days after the first of \<open>(y, m)\<close>.\<close>

lemma dateDays_next_month:
  assumes "1 \<le> m" "m \<le> 12"
  shows "dateDays y (m + 1) d = dateDays y m d + daysIn y m"
proof (cases "m = 12")
  case True
  then show ?thesis
    using daysBeforeYear_step [of y] by (simp add: dateDays_def daysIn_def daysBeforeMonth_def Let_def)
next
  case False
  with assms show ?thesis by (simp add: dateDays_in_range daysIn_def)
qed

lemma dateDays_add: "dateDays y m (d + k) = dateDays y m d + k"
  by (simp add: dateDays_def Let_def)

end
