(* ===== verification/Decimal_Lib.thy ===== *)
theory Decimal_Lib
  imports Go_Prelude
begin

text \<open>
  The interface of the two decimal packages the sources call and do not contain:
  \<open>github.com/shopspring/decimal\<close> and \<open>github.com/cockroachdb/apd\<close>. A decimal value
  is a coefficient and an exponent (\<open>value * 10 ^ exp\<close>, readable through
  \<open>Coefficient()\<close> and \<open>Exponent()\<close>); \<open>val\<close> is the number it denotes. The operations
  are the fields of the record \<open>declib\<close>, which every definition of the model that
  computes with money takes as its first argument. The locale \<open>decimal_lib\<close> states what
  the packages document of them; it is interpreted below on the executable library
  \<open>ref_lib\<close>, which the concrete examples of the development evaluate.
\<close>

section \<open>Decimals and their numbers\<close>

datatype decimal = Decimal (coefficient: int) (exponent: int)

definition val :: "decimal \<Rightarrow> rat" where
  "val d = of_int (coefficient d) * 10 powi exponent d"

section \<open>Rounding\<close>

text \<open>Nearest integer with ties away from zero, and with ties to the even neighbour.\<close>

definition half_away :: "rat \<Rightarrow> int" where
  "half_away x = (if 0 \<le> x then \<lfloor>x + 1 / 2\<rfloor> else - \<lfloor>1 / 2 - x\<rfloor>)"

definition half_even :: "rat \<Rightarrow> int" where
  "half_even x = (let f = \<lfloor>x\<rfloor>; r = x - of_int f in
     if r < 1 / 2 then f else if 1 / 2 < r then f + 1 else if even f then f else f + 1)"

text \<open>Rounding at \<open>p\<close> decimal places.\<close>

definition round_at :: "nat \<Rightarrow> rat \<Rightarrow> rat" where
  "round_at p x = of_int (half_away (x * 10 ^ p)) / 10 ^ p"

definition has_places :: "nat \<Rightarrow> rat \<Rightarrow> bool" where
  "has_places p x \<longleftrightarrow> x * 10 ^ p \<in> \<int>"

lemma half_away_error: "\<bar>of_int (half_away x) - x\<bar> \<le> 1 / 2"
proof (cases "0 \<le> x")
  case True
  then have "half_away x = \<lfloor>x + 1 / 2\<rfloor>" by (simp add: half_away_def)
  with floor_correct [of "x + 1 / 2"] show ?thesis by linarith
next
  case False
  then have "half_away x = - \<lfloor>1 / 2 - x\<rfloor>" by (simp add: half_away_def)
  with floor_correct [of "1 / 2 - x"] show ?thesis by linarith
qed

lemma half_away_minus: "half_away (- x) = - half_away x"
proof -
  have "\<lfloor>1 / 2 :: rat\<rfloor> = 0" by linarith
  then show ?thesis by (cases "x = 0") (auto simp: half_away_def not_le algebra_simps)
qed

lemma half_away_mono: "x \<le> y \<Longrightarrow> half_away x \<le> half_away y"
  unfolding half_away_def by (auto intro: floor_mono; linarith)

lemma half_away_of_int [simp]: "half_away (of_int n) = n"
  unfolding half_away_def by (simp; linarith)

lemma half_away_nonneg: "0 \<le> x \<Longrightarrow> 0 \<le> half_away x"
  using half_away_mono [of 0 x] half_away_of_int [of 0] by simp

lemma half_even_error: "\<bar>of_int (half_even x) - x\<bar> \<le> 1 / 2"
  using floor_correct [of x] by (auto simp: half_even_def Let_def abs_le_iff)

lemma half_even_of_int [simp]: "half_even (of_int n) = n"
  by (simp add: half_even_def)

lemma round_at_error: "\<bar>round_at p x - x\<bar> \<le> 1 / (2 * 10 ^ p)"
proof -
  have "\<bar>round_at p x - x\<bar> = \<bar>of_int (half_away (x * 10 ^ p)) - x * 10 ^ p\<bar> / 10 ^ p"
    by (simp add: round_at_def field_simps abs_div_pos [symmetric])
  also have "\<dots> \<le> (1 / 2) / 10 ^ p"
    using half_away_error [of "x * 10 ^ p"] by (intro divide_right_mono) auto
  finally show ?thesis by simp
qed

lemma round_at_mono: "x \<le> y \<Longrightarrow> round_at p x \<le> round_at p y"
  unfolding round_at_def
  by (intro divide_right_mono, simp add: half_away_mono mult_right_mono) simp

lemma round_at_exact: "has_places p x \<Longrightarrow> round_at p x = x"
  by (auto simp: has_places_def round_at_def Ints_def field_simps)

lemma has_places_round_at [simp]: "has_places p (round_at p x)"
  by (simp add: has_places_def round_at_def)

lemma round_at_minus: "round_at p (- x) = - round_at p x"
  by (simp add: round_at_def half_away_minus)

lemma round_at_0 [simp]: "round_at p 0 = 0"
  using half_away_of_int [of 0] by (simp add: round_at_def)

lemma round_at_idem [simp]: "round_at p (round_at p x) = round_at p x"
  by (rule round_at_exact) simp

lemma round_at_nonneg: "0 \<le> x \<Longrightarrow> 0 \<le> round_at p x"
  using round_at_mono [of 0 x p] by simp

lemma round_at_nonpos: "x \<le> 0 \<Longrightarrow> round_at p x \<le> 0"
  using round_at_mono [of x 0 p] by simp

lemma has_places_0 [simp]: "has_places p 0"
  by (simp add: has_places_def)

lemma has_places_of_int [simp]: "has_places p (of_int n)"
  unfolding has_places_def by (metis Ints_mult Ints_of_int Ints_power Ints_numeral)

lemma has_places_add: "has_places p x \<Longrightarrow> has_places p y \<Longrightarrow> has_places p (x + y)"
  by (auto simp: has_places_def algebra_simps intro: Ints_add)

lemma has_places_minus: "has_places p x \<Longrightarrow> has_places p (- x)"
  by (auto simp: has_places_def)

lemma has_places_diff: "has_places p x \<Longrightarrow> has_places p y \<Longrightarrow> has_places p (x - y)"
  by (auto simp: has_places_def algebra_simps intro: Ints_diff)

lemma has_places_mult_int: "has_places p x \<Longrightarrow> has_places p (of_int n * x)"
  unfolding has_places_def by (metis Ints_mult Ints_of_int mult.assoc)

lemma has_places_mono:
  assumes "has_places p x" and "p \<le> q"
  shows "has_places q x"
proof -
  have "x * 10 ^ q = x * 10 ^ p * 10 ^ (q - p)"
    using assms(2) by (simp add: mult.assoc flip: power_add)
  then show ?thesis
    using assms(1) unfolding has_places_def
    by (metis Ints_mult Ints_power Ints_numeral)
qed

lemma has_places_sum_list:
  "(\<And>x. x \<in> set xs \<Longrightarrow> has_places p (f x)) \<Longrightarrow> has_places p (\<Sum>x\<leftarrow>xs. f x)"
  by (induction xs) (auto intro: has_places_add)

section \<open>The libraries\<close>

text \<open>
  An \<open>apd.Context\<close> as the sources build it: a precision in significant digits and a
  rounding mode. \<open>apd_quo\<close> is \<open>Context.Quo\<close> on the text forms of two decimals, read back
  as a decimal: \<open>None\<close> when the quotient is not finite (division by zero), whose text form
  \<open>decimal.NewFromString\<close> rejects. \<open>div_round\<close> returns \<open>None\<close> where \<open>DivRound\<close> panics.
  A 64-bit or 32-bit float is its bit pattern.
\<close>

datatype rounding = RoundHalfUp | RoundHalfEven

record apd_context =
  ctx_precision :: nat
  ctx_rounding :: rounding

record declib =
  d_zero :: decimal
  d_of_int :: "int \<Rightarrow> decimal"
  d_add :: "decimal \<Rightarrow> decimal \<Rightarrow> decimal"
  d_sub :: "decimal \<Rightarrow> decimal \<Rightarrow> decimal"
  d_mul :: "decimal \<Rightarrow> decimal \<Rightarrow> decimal"
  d_neg :: "decimal \<Rightarrow> decimal"
  d_abs :: "decimal \<Rightarrow> decimal"
  d_cmp :: "decimal \<Rightarrow> decimal \<Rightarrow> int"
  d_sign :: "decimal \<Rightarrow> int"
  d_round :: "decimal \<Rightarrow> nat \<Rightarrow> decimal"
  d_div_round :: "decimal \<Rightarrow> decimal \<Rightarrow> nat \<Rightarrow> decimal option"
  d_ceil :: "decimal \<Rightarrow> decimal"
  d_int_part :: "decimal \<Rightarrow> int"
  d_string :: "decimal \<Rightarrow> string"
  d_parse :: "string \<Rightarrow> decimal option"
  d_of_float64 :: "64 word \<Rightarrow> decimal"
  d_of_float32 :: "32 word \<Rightarrow> decimal"
  d_format_float64 :: "64 word \<Rightarrow> string"
  d_format_float32 :: "32 word \<Rightarrow> string"
  apd_quo :: "apd_context \<Rightarrow> decimal \<Rightarrow> decimal \<Rightarrow> decimal option"

text \<open>\<open>IsZero\<close>, \<open>IsPositive\<close> and \<open>IsNegative\<close> are tests of \<open>Sign\<close>.\<close>

definition d_is_zero :: "declib \<Rightarrow> decimal \<Rightarrow> bool" where
  "d_is_zero L d \<longleftrightarrow> d_sign L d = 0"

definition d_is_positive :: "declib \<Rightarrow> decimal \<Rightarrow> bool" where
  "d_is_positive L d \<longleftrightarrow> d_sign L d = 1"

definition d_is_negative :: "declib \<Rightarrow> decimal \<Rightarrow> bool" where
  "d_is_negative L d \<longleftrightarrow> d_sign L d = - 1"

definition sgn3 :: "rat \<Rightarrow> int" where
  "sgn3 x = (if x < 0 then - 1 else if x = 0 then 0 else 1)"

definition round_mode :: "rounding \<Rightarrow> rat \<Rightarrow> int" where
  "round_mode m = (case m of RoundHalfUp \<Rightarrow> half_away | RoundHalfEven \<Rightarrow> half_even)"

lemma round_mode_error: "\<bar>of_int (round_mode m x) - x\<bar> \<le> 1 / 2"
  using half_away_error [of x] half_even_error [of x] by (cases m) (simp_all add: round_mode_def)

lemma round_mode_of_int [simp]: "round_mode m (of_int n) = n"
  by (cases m) (simp_all add: round_mode_def)

text \<open>Exact arithmetic and comparison.\<close>

locale decimal_arith =
  fixes L :: declib
  assumes val_zero [simp]: "val (d_zero L) = 0"
    and val_of_int [simp]: "val (d_of_int L n) = of_int n"
    and val_add [simp]: "val (d_add L a b) = val a + val b"
    and val_sub [simp]: "val (d_sub L a b) = val a - val b"
    and val_mul [simp]: "val (d_mul L a b) = val a * val b"
    and val_neg [simp]: "val (d_neg L a) = - val a"
    and val_abs [simp]: "val (d_abs L a) = \<bar>val a\<bar>"
    and cmp_val: "d_cmp L a b = sgn3 (val a - val b)"
    and sign_val: "d_sign L a = sgn3 (val a)"
begin

lemma cmp_le [simp]: "d_cmp L a b \<le> 0 \<longleftrightarrow> val a \<le> val b"
  by (auto simp: cmp_val sgn3_def)

lemma cmp_less [simp]: "d_cmp L a b < 0 \<longleftrightarrow> val a < val b"
  by (auto simp: cmp_val sgn3_def)

lemma cmp_ge [simp]: "0 \<le> d_cmp L a b \<longleftrightarrow> val b \<le> val a"
  by (auto simp: cmp_val sgn3_def)

lemma cmp_greater [simp]: "0 < d_cmp L a b \<longleftrightarrow> val b < val a"
  by (auto simp: cmp_val sgn3_def)

lemma cmp_eq [simp]: "d_cmp L a b = 0 \<longleftrightarrow> val a = val b"
  by (auto simp: cmp_val sgn3_def)

lemma is_zero_val [simp]: "d_is_zero L a \<longleftrightarrow> val a = 0"
  by (auto simp: d_is_zero_def sign_val sgn3_def)

lemma is_positive_val [simp]: "d_is_positive L a \<longleftrightarrow> 0 < val a"
  by (auto simp: d_is_positive_def sign_val sgn3_def)

lemma is_negative_val [simp]: "d_is_negative L a \<longleftrightarrow> val a < 0"
  by (auto simp: d_is_negative_def sign_val sgn3_def)

text \<open>The accumulation loop \<open>total = total.Add(f(x))\<close>.\<close>

lemma val_fold_add: "val (fold (\<lambda>x t. d_add L t (f x)) xs t) = val t + (\<Sum>x\<leftarrow>xs. val (f x))"
  by (induction xs arbitrary: t) auto

end

text \<open>
  Rounding and division: \<open>Round\<close> and \<open>DivRound\<close> round half away from zero at the given
  number of places, \<open>Quo\<close> rounds the exact quotient to the context's significant digits
  (\<open>k\<close> is the shift that leaves that many digits before the point), \<open>Ceil\<close> and
  \<open>IntPart\<close> are the ceiling and the integer part toward zero (of a value that fits an
  \<open>int64\<close>).
\<close>

locale decimal_lib = decimal_arith +
  assumes val_round [simp]: "val (d_round L a p) = round_at p (val a)"
    and div_round_Some: "val b \<noteq> 0 \<Longrightarrow>
      \<exists>q. d_div_round L a b p = Some q \<and> val q = round_at p (val a / val b)"
    and div_round_None: "val b = 0 \<Longrightarrow> d_div_round L a b p = None"
    and val_ceil [simp]: "val (d_ceil L a) = of_int \<lceil>val a\<rceil>"
    and int_part_val: "\<bar>val a\<bar> < 2 ^ 63 \<Longrightarrow>
      d_int_part L a = (if 0 \<le> val a then \<lfloor>val a\<rfloor> else \<lceil>val a\<rceil>)"
    and quo_None: "val b = 0 \<Longrightarrow> apd_quo L c a b = None"
    and quo_zero: "val a = 0 \<Longrightarrow> val b \<noteq> 0 \<Longrightarrow> \<exists>q. apd_quo L c a b = Some q \<and> val q = 0"
    and quo_Some: "val b \<noteq> 0 \<Longrightarrow>
      10 ^ (ctx_precision c - 1) \<le> \<bar>val a / val b\<bar> * 10 powi k \<Longrightarrow>
      \<bar>val a / val b\<bar> * 10 powi k < 10 ^ ctx_precision c \<Longrightarrow>
      \<exists>q. apd_quo L c a b = Some q \<and>
        val q = of_int (round_mode (ctx_rounding c) (val a / val b * 10 powi k)) * 10 powi (- k)"

section \<open>Powers of ten\<close>

lemma powi_split: "e \<le> e' \<Longrightarrow> (10 :: rat) powi e' = 10 ^ nat (e' - e) * 10 powi e"
  using power_int_add [of "10 :: rat" "e' - e" e] by (simp add: power_int_def [of _ "e' - e"])

lemma powi_nat_diff: "(10 :: rat) powi k = 10 ^ nat k / 10 ^ nat (- k)"
proof (cases "0 \<le> k")
  case True
  then show ?thesis by (simp add: power_int_def)
next
  case False
  then show ?thesis by (simp add: power_int_def power_one_over inverse_eq_divide)
qed

lemma powi_10_pos [simp]: "0 < (10 :: rat) powi k"
  by simp

lemma val_eq_0_iff: "val d = 0 \<longleftrightarrow> coefficient d = 0"
  by (simp add: val_def)

lemma val_less_0_iff: "val d < 0 \<longleftrightarrow> coefficient d < 0"
  using less_not_sym [OF powi_10_pos [of "exponent d"]] by (simp add: val_def mult_less_0_iff)

text \<open>Every non-zero number has a decimal shift with a given number of leading digits, and only one.\<close>

lemma decade_ge_1:
  assumes "(1 :: rat) \<le> x"
  shows "\<exists>m::nat. 10 ^ m \<le> x \<and> x < 10 ^ Suc m"
proof -
  obtain n :: nat where "x < of_nat n" using reals_Archimedean2 by blast
  also have "(of_nat n :: rat) < 10 ^ n"
    using power_gt_expt [of 10 n] of_nat_less_iff [of n "10 ^ n", where 'a = rat] by simp
  finally have ex: "x < 10 ^ n" .
  define l where "l = (LEAST n. x < 10 ^ n)"
  have l: "x < 10 ^ l" unfolding l_def by (rule LeastI [of _ n]) (rule ex)
  with assms have "l \<noteq> 0" by (cases l) auto
  then obtain m where m: "l = Suc m" by (cases l) auto
  have "\<not> x < 10 ^ m" unfolding l_def using m by (metis l_def lessI not_less_Least)
  with l m show ?thesis by (metis not_less)
qed

lemma decade_exists:
  assumes "(0 :: rat) < x"
  shows "\<exists>m::int. 10 powi m \<le> x \<and> x < 10 powi (m + 1)"
proof (cases "1 \<le> x")
  case True
  then obtain m :: nat where "10 ^ m \<le> x" "x < 10 ^ Suc m" using decade_ge_1 by blast
  then have "10 powi int m \<le> x \<and> x < 10 powi (int m + 1)"
    by (simp add: power_int_add mult.commute)
  then show ?thesis ..
next
  case False
  with assms have "1 \<le> 1 / x" by simp
  then obtain m :: nat where m: "10 ^ m \<le> 1 / x" "1 / x < 10 ^ Suc m" using decade_ge_1 by blast
  with assms have le: "x \<le> 10 powi (- int m)" "10 powi (- int m - 1) < x"
    by (simp_all add: power_int_minus power_int_diff field_simps)
  show ?thesis
  proof (cases "x = 10 powi (- int m)")
    case True
    then show ?thesis
      by (intro exI [of _ "- int m"]) (simp add: power_int_strict_increasing)
  next
    case False
    with le show ?thesis by (intro exI [of _ "- int m - 1"]) auto
  qed
qed

lemma shift_exists:
  assumes "x \<noteq> 0" and "0 < p"
  shows "\<exists>k. 10 ^ (p - 1) \<le> \<bar>x\<bar> * 10 powi k \<and> \<bar>x\<bar> * 10 powi k < (10 :: rat) ^ p"
proof -
  from assms(1) obtain m where m: "10 powi m \<le> \<bar>x\<bar>" "\<bar>x\<bar> < 10 powi (m + 1)"
    using decade_exists [of "\<bar>x\<bar>"] by auto
  define k where "k = int (p - 1) - m"
  have a: "(10 :: rat) ^ (p - 1) = 10 powi m * 10 powi k"
    by (simp add: k_def flip: power_int_add power_int_of_nat)
  have b: "(10 :: rat) ^ p = 10 powi (m + 1) * 10 powi k"
    using assms(2) by (simp add: k_def of_nat_diff flip: power_int_add power_int_of_nat)
  show ?thesis
    unfolding a b using m by (intro exI [of _ k] conjI mult_right_mono mult_strict_right_mono) simp_all
qed

lemma shift_unique:
  assumes "(0 :: rat) < z" and "0 < A"
    and "A \<le> z * 10 powi i" "z * 10 powi i < 10 * A" "A \<le> z * 10 powi j" "z * 10 powi j < 10 * A"
  shows "i = j"
proof -
  have step: "a < b \<Longrightarrow> z * 10 powi a < 10 * A \<Longrightarrow> A \<le> z * 10 powi a \<Longrightarrow> z * 10 powi b < 10 * A \<Longrightarrow> False"
    for a b :: int
  proof -
    assume ab: "a < b" and lo: "A \<le> z * 10 powi a" and hi: "z * 10 powi b < 10 * A"
    have "(10 :: rat) powi (a + 1) \<le> 10 powi b" using ab by (simp add: power_int_increasing)
    then have "10 * (z * 10 powi a) \<le> z * 10 powi b"
      using assms(1) by (simp add: power_int_add mult.commute mult.left_commute)
    with lo hi show False by linarith
  qed
  show ?thesis
    using step [of i j] step [of j i] assms by (meson linorder_less_linear)
qed

text \<open>
  What rounding to significant digits guarantees: the relative error, and that a number
  that already is that short is left alone.
\<close>

lemma sig_round_error:
  assumes "10 ^ (p - 1) \<le> \<bar>x\<bar> * 10 powi k"
    and y: "y = of_int (round_mode r (x * 10 powi k)) * 10 powi (- k)"
  shows "\<bar>y - x\<bar> * (2 * 10 ^ (p - 1)) \<le> \<bar>x\<bar>"
proof -
  let ?r = "of_int (round_mode r (x * 10 powi k)) :: rat"
  have "y - x = (?r - x * 10 powi k) / 10 powi k"
    by (simp add: y power_int_minus field_simps)
  then have "\<bar>y - x\<bar> = \<bar>?r - x * 10 powi k\<bar> / 10 powi k"
    by (simp add: abs_divide)
  also have "\<dots> \<le> (1 / 2) / 10 powi k"
    using round_mode_error by (intro divide_right_mono) auto
  finally have one: "\<bar>y - x\<bar> * (2 * 10 powi k) \<le> 1"
    by (simp add: field_simps)
  have "\<bar>y - x\<bar> * (2 * 10 ^ (p - 1)) \<le> \<bar>y - x\<bar> * (2 * (\<bar>x\<bar> * 10 powi k))"
    using assms(1) by (intro mult_left_mono) auto
  also have "\<dots> = \<bar>y - x\<bar> * (2 * 10 powi k) * \<bar>x\<bar>" by simp
  also have "\<dots> \<le> 1 * \<bar>x\<bar>" using one by (intro mult_right_mono) auto
  finally show ?thesis by simp
qed

lemma shift_exact:
  fixes x :: rat
  assumes "10 ^ (p - 1) \<le> \<bar>x\<bar> * 10 powi k" and "0 < p"
    and m: "x = of_int m * 10 powi j" "\<bar>m\<bar> < 10 ^ p"
  shows "\<exists>n. x * 10 powi k = of_int n"
proof -
  have xk: "x * 10 powi k = of_int m * 10 powi (j + k)"
    by (simp add: m(1) power_int_add)
  have "\<not> j + k < 0"
  proof
    assume "j + k < 0"
    then have "(10 :: rat) powi (j + k) \<le> 10 powi (- 1)" by (intro power_int_increasing) auto
    then have "\<bar>of_int m :: rat\<bar> * 10 powi (j + k) \<le> \<bar>of_int m\<bar> * 10 powi (- 1)"
      by (rule mult_left_mono) simp
    moreover have "\<bar>x\<bar> * 10 powi k = \<bar>of_int m\<bar> * 10 powi (j + k)"
      using xk by (metis abs_mult abs_of_pos powi_10_pos)
    moreover have "\<bar>of_int m :: rat\<bar> < 10 ^ p"
      using m(2) of_int_less_iff [of "\<bar>m\<bar>" "10 ^ p", where 'a = rat] by simp
    moreover have "(10 :: rat) ^ p * 10 powi (- 1) = 10 ^ (p - 1)"
      using assms(2) by (cases p) (simp_all add: power_int_minus)
    ultimately show False using assms(1) by (simp add: power_int_minus field_simps)
  qed
  then have "x * 10 powi k = of_int (m * 10 ^ nat (j + k))"
    unfolding xk by (simp add: power_int_def [of _ "j + k"])
  then show ?thesis ..
qed

context decimal_lib begin

lemma quo_value:
  assumes b: "val b \<noteq> 0" and p: "0 < ctx_precision c"
  obtains q where "apd_quo L c a b = Some q"
    and "\<bar>val q - val a / val b\<bar> * (2 * 10 ^ (ctx_precision c - 1)) \<le> \<bar>val a / val b\<bar>"
    and "\<And>m j. val a / val b = of_int m * 10 powi j \<Longrightarrow> \<bar>m\<bar> < 10 ^ ctx_precision c \<Longrightarrow> val q = val a / val b"
proof (cases "val a = 0")
  case True
  then obtain q where "apd_quo L c a b = Some q" "val q = 0" using quo_zero b by blast
  with True show ?thesis by (intro that [of q]) auto
next
  case False
  let ?x = "val a / val b"
  have "?x \<noteq> 0" using False b by simp
  then obtain k where k: "10 ^ (ctx_precision c - 1) \<le> \<bar>?x\<bar> * 10 powi k"
      "\<bar>?x\<bar> * 10 powi k < 10 ^ ctx_precision c"
    using shift_exists p by blast
  then obtain q where q: "apd_quo L c a b = Some q"
      "val q = of_int (round_mode (ctx_rounding c) (?x * 10 powi k)) * 10 powi (- k)"
    using quo_Some b by blast
  have "val q = ?x" if m: "?x = of_int m * 10 powi j" "\<bar>m\<bar> < 10 ^ ctx_precision c" for m j
  proof -
    obtain n where n: "?x * 10 powi k = of_int n" using shift_exact [OF k(1) p m] ..
    then have "val q = ?x * 10 powi k * 10 powi (- k)"
      by (simp only: q(2) n round_mode_of_int)
    then show ?thesis by (simp add: power_int_minus)
  qed
  with q(1) sig_round_error [OF k(1) q(2)] show ?thesis using that by blast
qed

text \<open>The quotient as the sources read it back, with zero for a quotient that is not finite.\<close>

lemma quo_case_error:
  assumes "val b \<noteq> 0" and "0 < ctx_precision c"
  shows "\<bar>val (case apd_quo L c a b of Some q \<Rightarrow> q | None \<Rightarrow> z) - val a / val b\<bar> *
    (2 * 10 ^ (ctx_precision c - 1)) \<le> \<bar>val a / val b\<bar>"
  by (rule quo_value [OF assms, of a]) simp

lemma quo_case_exact:
  assumes "val b \<noteq> 0" and "0 < ctx_precision c"
    and "val a / val b = of_int m * 10 powi j" and "\<bar>m\<bar> < 10 ^ ctx_precision c"
  shows "val (case apd_quo L c a b of Some q \<Rightarrow> q | None \<Rightarrow> z) = val a / val b"
proof (rule quo_value [OF assms(1,2), of a])
  fix q assume q: "apd_quo L c a b = Some q"
    "\<And>m j. val a / val b = of_int m * 10 powi j \<Longrightarrow> \<bar>m\<bar> < 10 ^ ctx_precision c \<Longrightarrow> val q = val a / val b"
  from q(2) [OF assms(3,4)] show ?thesis by (simp only: q(1) option.case)
qed

end

end
