(* ===== verification/Pricing_Domain.thy ===== *)
theory Pricing_Domain
  imports Go_Time Decimal_Lib
begin

text \<open>
  The data of \<open>internal/platform/pricing\<close>: \<open>domain.go\<close> (price plans, rules, tiers, filters,
  modifiers, tax rates), \<open>resource.go\<close> (the rated unit and its attribute schema),
  \<open>bill.go\<close> (the bill aggregate) and \<open>credit.go\<close> (credits and applied credits). A pointer is
  an \<open>option\<close>, a slice a list (a nil slice is the empty list wherever the sources do not
  tell them apart; \<open>Tiers\<close>, where they do, is an optional list), a Go map an association
  list. Field names carry a prefix because HOL's record selectors are global.
\<close>

section \<open>Dynamic values\<close>

text \<open>
  A value of type \<open>any\<close>, by its dynamic type: \<open>AnyInt\<close> covers \<open>int\<close>, \<open>int32\<close> and
  \<open>int64\<close> (which the sources treat alike), floats are bit patterns, \<open>AnyNumber\<close> is a
  \<open>json.Number\<close>, \<open>AnyOther\<close> any other type, of which only the text \<open>fmt.Sprint\<close> prints is
  used.
\<close>

datatype any = AnyNil | AnyBool bool | AnyString string | AnyInt int | AnyDecimal decimal
  | AnyFloat64 "64 word" | AnyFloat32 "32 word" | AnyNumber string | AnyOther string

type_synonym attrs = "(string \<times> any) list"

section \<open>Price plans\<close>

record PricePlanServiceProvider =
  sp_ServiceID :: string
  sp_Region :: string

record PricePlan =
  pp_ID :: string
  pp_Name :: string
  pp_Enabled :: bool
  pp_AccessMode :: string
  pp_ServiceProviders :: "PricePlanServiceProvider list"

record PriceTier =
  tier_From :: "decimal option"
  tier_To :: "decimal option"
  tier_Value :: "decimal option"

record PricePlanRulePrice =
  price_AttributeName :: string
  price_Tiers :: "PriceTier list option"

record PricePlanRuleFilter =
  filter_AttributeName :: string
  filter_Operator :: string
  filter_Value :: any
  filter_Values :: "any list"

record PricePlanRuleModifier =
  mod_AttributeName :: string
  mod_AttributeValue :: any
  mod_Operator :: string
  mod_ModifierOperator :: string
  mod_AsPercentage :: bool
  mod_Value :: decimal

record PricePlanRule =
  rule_ID :: string
  rule_Name :: string
  rule_TimeUnit :: string
  rule_ResourceType :: string
  rule_PricePlanID :: string
  rule_ApplyMethod :: string
  rule_Prices :: "PricePlanRulePrice list"
  rule_Filters :: "PricePlanRuleFilter list"
  rule_Modifiers :: "PricePlanRuleModifier list"

record PricePlanRuleResultAmount =
  amt_AttributeName :: string
  amt_AttributeValue :: decimal
  amt_NetAmount :: decimal

record PricePlanRuleResult =
  res_Rule :: PricePlanRule
  res_Amounts :: "PricePlanRuleResultAmount list"

definition AccessPublic :: string where "AccessPublic = ''PUBLIC''"
definition AccessScoped :: string where "AccessScoped = ''SCOPED''"
definition ApplyOverwriteTotal :: string where "ApplyOverwriteTotal = ''OVERWRITE_TOTAL''"

definition IsServiceProviderScoped :: "PricePlan \<Rightarrow> string \<Rightarrow> bool" where
  "IsServiceProviderScoped p sid \<longleftrightarrow>
     pp_ServiceProviders p = [] \<or> (\<exists>sp \<in> set (pp_ServiceProviders p). sp_ServiceID sp = sid)"

section \<open>Tax rates\<close>

record TaxLevel =
  tl_Level :: int
  tl_Percentage :: int

record TaxRate =
  tax_ID :: string
  tax_Country :: string
  tax_Level :: string
  tax_AccessMode :: string
  tax_RateLevels :: "TaxLevel list"
  tax_StartDate :: "time option"
  tax_EndDate :: "time option"
  tax_StartDateEnabled :: bool
  tax_EndDateEnabled :: bool

section \<open>Billing resources\<close>

record ResourceAttribute =
  ra_Type :: string
  ra_Name :: string
  ra_IsUsage :: "bool option"

record BillingResourceType =
  brt_ResourceType :: string
  brt_Attributes :: "ResourceAttribute list"

record BillingResource =
  br_ResourceID :: string
  br_ProjectID :: string
  br_ResourceType :: string
  br_CreatedAt :: "time option"
  br_DeletedAt :: "time option"
  br_DisplayPrice :: bool
  br_Values :: attrs
  br_NotEligibleForBilling :: bool
  br_BillingResourceType :: "BillingResourceType option"

text \<open>
  A nil \<open>*BillingResourceType\<close> receiver panics at \<open>range t.Attributes\<close>; an undeclared
  attribute is a 404.
\<close>

definition ResourceAttributeByName :: "BillingResourceType option \<Rightarrow> string \<Rightarrow> ResourceAttribute res" where
  "ResourceAttributeByName t name = (case t of None \<Rightarrow> Inl (Panic ''nil BillingResourceType'')
     | Some t \<Rightarrow> (case find (\<lambda>a. ra_Name a = name) (brt_Attributes t) of
         Some a \<Rightarrow> Inr a
       | None \<Rightarrow> Inl (HTTPError 404 (''Could not find attribute with name: '' @ name))))"

definition AttributeTypeByName :: "BillingResourceType option \<Rightarrow> string \<Rightarrow> string res" where
  "AttributeTypeByName t name = (case t of None \<Rightarrow> Inl (Panic ''nil BillingResourceType'')
     | Some t \<Rightarrow> (case find (\<lambda>a. ra_Name a = name) (brt_Attributes t) of
         Some a \<Rightarrow> Inr (ra_Type a)
       | None \<Rightarrow> Inl (HTTPError 404 (''Could not find attribute with name: '' @ name))))"

section \<open>Bills\<close>

datatype BillStatus = BillOpen | BillSent | BillPaid

definition TimeUnitMinute :: string where "TimeUnitMinute = ''minute''"
definition TimeUnitHour :: string where "TimeUnitHour = ''hour''"
definition TimeUnitMonth :: string where "TimeUnitMonth = ''month''"

record BillItemAppliedPricePlanRuleAmount =
  aa_AttributeName :: string
  aa_LastAttributeValue :: any
  aa_NetAmount :: decimal

record BillItemAppliedPricePlanRule =
  ar_PricePlanRuleID :: string
  ar_AppliedAmounts :: "BillItemAppliedPricePlanRuleAmount list"

record BillItemTimeUnits =
  tu_Minute :: int
  tu_MinuteLastRateTime :: "time option"
  tu_Hour :: int
  tu_HourLastRateTime :: "time option"
  tu_Month :: int
  tu_MonthLastRateTime :: "time option"

record BillItem =
  item_Name :: string
  item_ResourceID :: string
  item_Currency :: string
  item_ProjectID :: string
  item_CreatedAt :: "time option"
  item_UpdatedAt :: "time option"
  item_ResourceType :: string
  item_NetAmount :: decimal
  item_TimeUnits :: BillItemTimeUnits
  item_Metadata :: attrs
  item_AppliedPricePlanRules :: "BillItemAppliedPricePlanRule list"

record BillBillingCycle =
  cycle_StartDate :: "time option"
  cycle_EndDate :: "time option"

record BillAdjustment =
  adj_Amount :: "decimal option"
  adj_Type :: string
  adj_Description :: string
  adj_ContractID :: string
  adj_SavingsPlanName :: string
  adj_StartDateContract :: "time option"
  adj_EndDateContract :: "time option"
  adj_PriceAdjustmentRuleID :: string
  adj_PriceAdjustmentRuleName :: string

record AppliedAccountCredit =
  aac_Currency :: string
  aac_Amount :: "decimal option"
  aac_InvoiceCurrency :: string
  aac_GrossAmount :: "decimal option"
  aac_ExchangeRate :: "decimal option"
  aac_AccountCreditID :: string

record AppliedPromotionalCredit =
  apc_Currency :: string
  apc_Amount :: "decimal option"
  apc_InvoiceCurrency :: string
  apc_GrossAmount :: "decimal option"
  apc_ExchangeRate :: "decimal option"
  apc_PromotionalCreditID :: string

record AppliedCollectedCredit =
  acc_Currency :: string
  acc_Amount :: "decimal option"
  acc_InvoiceCurrency :: string
  acc_GrossAmount :: "decimal option"
  acc_ExchangeRate :: "decimal option"
  acc_CollectTransactionID :: string

record Bill =
  bill_ID :: string
  bill_Status :: BillStatus
  bill_Items :: "BillItem list"
  bill_InvoiceCurrency :: string
  bill_BillingProfileID :: string
  bill_BillingCycle :: "BillBillingCycle option"
  bill_Adjustments :: "BillAdjustment list"
  bill_AppliedAccountCredits :: "AppliedAccountCredit list"
  bill_AppliedPromotionalCredits :: "AppliedPromotionalCredit list"
  bill_CollectedAmounts :: "AppliedCollectedCredit list"
  bill_DueAt :: "time option"
  bill_SentAt :: "time option"
  bill_LockedAt :: "time option"
  bill_CreatedAt :: "time option"
  bill_UpdatedAt :: "time option"

record RatingContext =
  rc_TimeUnit :: string
  rc_CycleTimestamp :: time

record BillingContext =
  bc_TimeUnitLimits :: "(string \<times> int) list"

definition defaultTimeUnitLimits :: "(string \<times> int) list" where
  "defaultTimeUnitLimits = [(TimeUnitMinute, 43200), (TimeUnitHour, 720), (TimeUnitMonth, 1)]"

text \<open>Reading a Go map at an absent key gives the zero value.\<close>

definition timeUnitLimit :: "BillingContext \<Rightarrow> string \<Rightarrow> int" where
  "timeUnitLimit bc u = (case map_of (bc_TimeUnitLimits bc) u of Some v \<Rightarrow> v
     | None \<Rightarrow> (case map_of defaultTimeUnitLimits u of Some v \<Rightarrow> v | None \<Rightarrow> 0))"

definition CalculateTotalAmount :: "declib \<Rightarrow> Bill \<Rightarrow> decimal" where
  "CalculateTotalAmount L b = fold (\<lambda>it t. d_add L t (item_NetAmount it)) (bill_Items b) (d_zero L)"

section \<open>Credits\<close>

record AccountCredit =
  ac_ID :: string
  ac_BillingProfileID :: string
  ac_InvoiceCurrency :: string
  ac_InvoiceExchangeRate :: "decimal option"
  ac_InitialAmount :: "decimal option"
  ac_Amount :: "decimal option"
  ac_Currency :: string
  ac_CreatedAt :: "time option"
  ac_UpdatedAt :: "time option"

record PromotionalCredit =
  pc_ID :: string
  pc_CreatedAt :: "time option"
  pc_UpdatedAt :: "time option"
  pc_ExpirationDate :: "time option"
  pc_BillingProfileID :: string
  pc_Code :: string
  pc_InitialAmount :: "decimal option"
  pc_RemainingAmount :: "decimal option"

datatype CollectTransactionStatus = CTPending | CTSuccess | CTFailed | CTCancelled

record CollectTransaction =
  ct_ID :: string
  ct_BillID :: string
  ct_OrderID :: string
  ct_Currency :: string
  ct_ExternalID :: string
  ct_Amount :: "decimal option"
  ct_GrossAmount :: "decimal option"
  ct_ErrorMessage :: string
  ct_ExchangeRate :: "decimal option"
  ct_InvoiceGatewayID :: string
  ct_PaymentGatewayID :: string
  ct_BillingProfileID :: string
  ct_ExternalInvoiceID :: string
  ct_CreditCardID :: string
  ct_Status :: CollectTransactionStatus
  ct_Metadata :: attrs
  ct_CreatedAt :: "time option"
  ct_UpdatedAt :: "time option"

record AccountCreditSettlement =
  acs_AccountCredit :: AccountCredit
  acs_Settled :: decimal

end
