(* ===== verification/Pricing_Convert.thy ===== *)
theory Pricing_Convert
  imports Pricing_Domain
begin

text \<open>
  \<open>pricing/convert.go\<close>, the coercions of dynamic attribute values, and
  \<open>pricing/mathctx.go\<close>, the division and rounding contexts and the calendar helpers of
  monthly proration. The lemmas give the values of the divisions in terms of the exact
  quotient, and place the month's first and last instant around every instant of it.
\<close>

section \<open>Coercions\<close>

text \<open>\<open>strconv.ParseBool\<close> on a lower-cased, trimmed text.\<close>

definition parseBool :: "string \<Rightarrow> bool option" where
  "parseBool s = (if s \<in> {''1'', ''t'', ''T'', ''true'', ''TRUE'', ''True''} then Some True
     else if s \<in> {''0'', ''f'', ''F'', ''false'', ''FALSE'', ''False''} then Some False else None)"

text \<open>\<open>None\<close> is \<open>ok == false\<close>; the value returned with it is then \<open>false\<close>, respectively zero.\<close>

definition toBool :: "any \<Rightarrow> bool option" where
  "toBool v = (case v of AnyBool b \<Rightarrow> Some b
     | AnyString s \<Rightarrow> parseBool (trimSpace (toLower s))
     | _ \<Rightarrow> None)"

definition toString :: "declib \<Rightarrow> any \<Rightarrow> string" where
  "toString L v = (case v of AnyString s \<Rightarrow> s
     | AnyBool b \<Rightarrow> (if b then ''true'' else ''false'')
     | AnyDecimal d \<Rightarrow> d_string L d
     | AnyInt n \<Rightarrow> itoa n
     | AnyFloat64 w \<Rightarrow> d_format_float64 L w
     | AnyFloat32 w \<Rightarrow> d_format_float32 L w
     | AnyNumber s \<Rightarrow> s
     | AnyNil \<Rightarrow> ''<nil>''
     | AnyOther s \<Rightarrow> s)"

definition toDecimal :: "declib \<Rightarrow> any \<Rightarrow> decimal option" where
  "toDecimal L v = (case v of AnyDecimal d \<Rightarrow> Some d
     | AnyInt n \<Rightarrow> Some (d_of_int L n)
     | AnyFloat64 w \<Rightarrow> Some (d_of_float64 L w)
     | AnyFloat32 w \<Rightarrow> Some (d_of_float32 L w)
     | AnyNumber s \<Rightarrow> d_parse L s
     | AnyString s \<Rightarrow> d_parse L (trimSpace s)
     | _ \<Rightarrow> None)"

definition toStringSlice :: "declib \<Rightarrow> any list \<Rightarrow> string list" where
  "toStringSlice L vs = map (toString L) vs"

definition equalsIgnoreCase :: "string \<Rightarrow> string \<Rightarrow> bool" where
  "equalsIgnoreCase a b = equalFold a b"

definition containsIgnoreCase :: "string \<Rightarrow> string \<Rightarrow> bool" where
  "containsIgnoreCase s sub = containsStr (toLower s) (toLower sub)"

definition startsWithIgnoreCase :: "string \<Rightarrow> string \<Rightarrow> bool" where
  "startsWithIgnoreCase s prefix = hasPrefix (toLower s) (toLower prefix)"

lemma equalsIgnoreCase_refl [simp]: "equalsIgnoreCase a a"
  by (simp add: equalsIgnoreCase_def)

lemma startsWith_imp_contains: "startsWithIgnoreCase s p \<Longrightarrow> containsIgnoreCase s p"
  by (auto simp: startsWithIgnoreCase_def containsIgnoreCase_def hasPrefix_iff containsStr_iff)
    (metis append_Nil)

lemma equals_imp_startsWith: "equalsIgnoreCase p s \<Longrightarrow> startsWithIgnoreCase s p"
  by (auto simp: startsWithIgnoreCase_def equalsIgnoreCase_def equalFold_def hasPrefix_iff)

section \<open>Contexts\<close>

definition dec128Ctx :: apd_context where
  "dec128Ctx = \<lparr> ctx_precision = 34, ctx_rounding = RoundHalfEven \<rparr>"

definition mathCtx2 :: apd_context where
  "mathCtx2 = \<lparr> ctx_precision = 2, ctx_rounding = RoundHalfUp \<rparr>"

text \<open>
  The sources ignore the errors of \<open>Quo\<close> and \<open>NewFromString\<close>; a quotient that is not
  finite is therefore read back as the zero value of \<open>decimal.Decimal\<close>.
\<close>

definition divDecimal128 :: "declib \<Rightarrow> decimal \<Rightarrow> decimal \<Rightarrow> decimal" where
  "divDecimal128 L a b = (case apd_quo L dec128Ctx a b of Some q \<Rightarrow> q | None \<Rightarrow> Decimal 0 0)"

definition percentFraction :: "declib \<Rightarrow> int \<Rightarrow> decimal" where
  "percentFraction L percentage =
     (case apd_quo L mathCtx2 (d_of_int L percentage) (d_of_int L 100) of Some q \<Rightarrow> q | None \<Rightarrow> Decimal 0 0)"

definition scaleHalfUp :: "declib \<Rightarrow> decimal \<Rightarrow> decimal" where
  "scaleHalfUp L d = d_round L d 2"

definition scaleTotal :: "declib \<Rightarrow> decimal \<Rightarrow> decimal" where
  "scaleTotal L d = d_round L d 4"

section \<open>The current month\<close>

definition daysInMonth :: "time \<Rightarrow> int" where
  "daysInMonth t = dayOf (mkDate (yearOf t) (monthOf t + 1) 0 0)"

definition firstDayOfCurrentMonth :: "time \<Rightarrow> time" where
  "firstDayOfCurrentMonth now = mkDate (yearOf now) (monthOf now) 1 0"

definition lastDayOfCurrentMonth :: "time \<Rightarrow> time" where
  "lastDayOfCurrentMonth now = mkDate (yearOf now) (monthOf now) (daysInMonth now) (day - 1)"

definition totalHoursCurrentMonth :: "time \<Rightarrow> int" where
  "totalHoursCurrentMonth now = daysInMonth now * 24"

lemma daysInMonth_eq: "daysInMonth t = daysIn (yearOf t) (monthOf t)"
proof -
  let ?n = "daysIn (yearOf t) (monthOf t)"
  have "dateDays (yearOf t) (monthOf t + 1) 0 = dateDays (yearOf t) (monthOf t) ?n"
    using dateDays_next_month [of "monthOf t" "yearOf t" 0] dateDays_add [of "yearOf t" "monthOf t" 0 ?n]
    by simp
  then have "mkDate (yearOf t) (monthOf t + 1) 0 0 = mkDate (yearOf t) (monthOf t) ?n 0"
    by (simp add: mkDate_def)
  then show ?thesis
    using daysIn_bounds [of "monthOf t" "yearOf t"] by (simp add: daysInMonth_def date_mkDate)
qed

lemma daysInMonth_bounds: "28 \<le> daysInMonth t \<and> daysInMonth t \<le> 31"
  using daysIn_bounds [of "monthOf t" "yearOf t"] by (simp add: daysInMonth_eq)

lemma month_span:
  "lastDayOfCurrentMonth now = firstDayOfCurrentMonth now + totalHoursCurrentMonth now * hour - 1"
  using dateDays_add [of "yearOf now" "monthOf now" 1 "daysInMonth now - 1"]
  by (simp add: lastDayOfCurrentMonth_def firstDayOfCurrentMonth_def totalHoursCurrentMonth_def
      mkDate_def algebra_simps)

lemma now_in_month: "firstDayOfCurrentMonth now \<le> now \<and> now \<le> lastDayOfCurrentMonth now"
proof -
  let ?f = "dateDays (yearOf now) (monthOf now) 1"
  have "dayNumber now = ?f + (dayOf now - 1)"
    using dateDays_add [of "yearOf now" "monthOf now" 1 "dayOf now - 1"] by simp
  moreover have "now = dayNumber now * day + clockOf now"
    by (simp add: dayNumber_def clockOf_def)
  ultimately have "now = firstDayOfCurrentMonth now + (dayOf now - 1) * day + clockOf now"
    by (simp add: firstDayOfCurrentMonth_def mkDate_def algebra_simps)
  moreover have "0 \<le> dayOf now - 1" "dayOf now - 1 \<le> daysInMonth now - 1"
    using dayOf_range [of now] by (auto simp: daysInMonth_eq)
  then have "(dayOf now - 1) * day \<le> (daysInMonth now - 1) * day" "0 \<le> (dayOf now - 1) * day"
    by (intro mult_right_mono, simp_all)
  moreover have "lastDayOfCurrentMonth now = firstDayOfCurrentMonth now + (daysInMonth now - 1) * day + (day - 1)"
    using month_span [of now] by (simp add: totalHoursCurrentMonth_def)
  ultimately show ?thesis using clockOf_range [of now] by linarith
qed

section \<open>Values of the divisions\<close>

context decimal_lib begin

lemma divDecimal128_error:
  assumes "val b \<noteq> 0"
  shows "\<bar>val (divDecimal128 L a b) - val a / val b\<bar> * (2 * 10 ^ 33) \<le> \<bar>val a / val b\<bar>"
  using quo_case_error [OF assms, where c = dec128Ctx and a = a and z = "Decimal 0 0"] by (simp add: divDecimal128_def dec128Ctx_def)

lemma divDecimal128_exact:
  assumes "val b \<noteq> 0" and "val a / val b = of_int m * 10 powi j" and "\<bar>m\<bar> < 10 ^ 34"
  shows "val (divDecimal128 L a b) = val a / val b"
proof -
  have p: "0 < ctx_precision dec128Ctx" "\<bar>m\<bar> < 10 ^ ctx_precision dec128Ctx"
    using assms(3) by (simp_all add: dec128Ctx_def)
  show ?thesis unfolding divDecimal128_def by (rule quo_case_exact [OF assms(1) p(1) assms(2) p(2)])
qed

lemma divDecimal128_zero: "val b = 0 \<Longrightarrow> val (divDecimal128 L a b) = 0"
  by (simp add: divDecimal128_def quo_None val_def)

lemma divDecimal128_nonneg:
  assumes "0 \<le> val a" and "0 < val b"
  shows "0 \<le> val (divDecimal128 L a b)"
proof -
  let ?x = "val a / val b" and ?q = "val (divDecimal128 L a b)"
  have x: "0 \<le> ?x" using assms by simp
  have "\<bar>?q - ?x\<bar> \<le> \<bar>?q - ?x\<bar> * (2 * 10 ^ 33)" by simp
  also have "\<dots> \<le> ?x" using divDecimal128_error [of b a] assms x by simp
  finally show ?thesis by linarith
qed

text \<open>A whole percentage of at most two digits is exact.\<close>

lemma percentFraction_exact:
  assumes "\<bar>p\<bar> < 100"
  shows "val (percentFraction L p) = of_int p / 100"
proof -
  let ?a = "d_of_int L p" and ?b = "d_of_int L 100"
  have b: "val ?b \<noteq> 0" "0 < ctx_precision mathCtx2" "\<bar>p\<bar> < 10 ^ ctx_precision mathCtx2"
    using assms by (simp_all add: mathCtx2_def)
  have e: "val ?a / val ?b = of_int p * 10 powi (- 2)" by (simp add: power_int_minus)
  have "val (percentFraction L p) = val ?a / val ?b"
    unfolding percentFraction_def by (rule quo_case_exact [OF b(1,2) e b(3)])
  then show ?thesis by simp
qed

end

end
