(* ===== verification/Decimal_Reference.thy ===== *)
theory Decimal_Reference
  imports Decimal_Lib
begin

text \<open>
  An executable decimal library on coefficient and exponent that satisfies the documented
  laws of \<open>decimal_lib\<close>. The model never mentions it: it shows that the laws can hold
  together, and the concrete examples evaluate it.
\<close>

section \<open>Operations\<close>

definition ref_add :: "decimal \<Rightarrow> decimal \<Rightarrow> decimal" where
  "ref_add a b = (let e = min (exponent a) (exponent b) in
     Decimal (coefficient a * 10 ^ nat (exponent a - e) + coefficient b * 10 ^ nat (exponent b - e)) e)"

definition ref_neg :: "decimal \<Rightarrow> decimal" where
  "ref_neg a = Decimal (- coefficient a) (exponent a)"

definition ref_abs :: "decimal \<Rightarrow> decimal" where
  "ref_abs a = Decimal \<bar>coefficient a\<bar> (exponent a)"

definition ref_mul :: "decimal \<Rightarrow> decimal \<Rightarrow> decimal" where
  "ref_mul a b = Decimal (coefficient a * coefficient b) (exponent a + exponent b)"

definition ref_sign :: "decimal \<Rightarrow> int" where
  "ref_sign a = sgn (coefficient a)"

text \<open>Integer division of \<open>n\<close> by \<open>d > 0\<close> with the two rounding modes.\<close>

definition div_half_away :: "int \<Rightarrow> int \<Rightarrow> int" where
  "div_half_away n d = sgn n * ((2 * \<bar>n\<bar> + d) div (2 * d))"

definition div_half_even :: "int \<Rightarrow> int \<Rightarrow> int" where
  "div_half_even n d = (let f = n div d; r = n mod d in
     if 2 * r < d then f else if d < 2 * r then f + 1 else if even f then f else f + 1)"

definition ref_round :: "decimal \<Rightarrow> nat \<Rightarrow> decimal" where
  "ref_round a p = (if - int p \<le> exponent a then a
     else Decimal (div_half_away (coefficient a) (10 ^ nat (- int p - exponent a))) (- int p))"

text \<open>The quotient of two decimals, shifted by \<open>k\<close> places, as a fraction with a positive denominator.\<close>

definition quo_num :: "decimal \<Rightarrow> decimal \<Rightarrow> int \<Rightarrow> int" where
  "quo_num a b k = coefficient a * sgn (coefficient b) * 10 ^ nat (exponent a - exponent b + k)"

definition quo_den :: "decimal \<Rightarrow> decimal \<Rightarrow> int \<Rightarrow> int" where
  "quo_den a b k = \<bar>coefficient b\<bar> * 10 ^ nat (- (exponent a - exponent b + k))"

definition ref_div_round :: "decimal \<Rightarrow> decimal \<Rightarrow> nat \<Rightarrow> decimal option" where
  "ref_div_round a b p = (if coefficient b = 0 then None
     else Some (Decimal (div_half_away (quo_num a b (int p)) (quo_den a b (int p))) (- int p)))"

definition ref_ceil :: "decimal \<Rightarrow> decimal" where
  "ref_ceil a = (if 0 \<le> exponent a then a
     else Decimal (- ((- coefficient a) div 10 ^ nat (- exponent a))) 0)"

definition ref_int_part :: "decimal \<Rightarrow> int" where
  "ref_int_part a = quot (coefficient a * 10 ^ nat (exponent a)) (10 ^ nat (- exponent a))"

function ndigits :: "int \<Rightarrow> nat" where
  "ndigits n = (if n < 10 then 1 else Suc (ndigits (n div 10)))"
  by pat_completeness auto
termination by (relation "measure nat") auto

declare ndigits.simps [simp del]

text \<open>The shift that leaves \<open>p\<close> digits before the point, first estimated from the digit counts.\<close>

definition quo_shift :: "nat \<Rightarrow> decimal \<Rightarrow> decimal \<Rightarrow> int" where
  "quo_shift p a b = (let k = int p - int (ndigits \<bar>coefficient a\<bar>) + int (ndigits \<bar>coefficient b\<bar>)
       - (exponent a - exponent b) in
     if 10 ^ p * quo_den a b k \<le> \<bar>quo_num a b k\<bar> then k - 1 else k)"

definition ref_quo :: "apd_context \<Rightarrow> decimal \<Rightarrow> decimal \<Rightarrow> decimal option" where
  "ref_quo c a b = (if coefficient b = 0 then None
     else if coefficient a = 0 then Some (Decimal 0 0)
     else let k = quo_shift (ctx_precision c) a b; n = quo_num a b k; d = quo_den a b k in
       Some (Decimal (case ctx_rounding c of RoundHalfUp \<Rightarrow> div_half_away n d
                                           | RoundHalfEven \<Rightarrow> div_half_even n d) (- k)))"

text \<open>
  Code equations on the constructor, so that evaluation computes with numbers only and leaves
  an operation on a value that is not yet computed alone.
\<close>

lemmas ref_add_code [code] = ref_add_def [of "Decimal c e" "Decimal c' e'" for c e c' e']
lemmas ref_neg_code [code] = ref_neg_def [of "Decimal c e" for c e]
lemmas ref_abs_code [code] = ref_abs_def [of "Decimal c e" for c e]
lemmas ref_mul_code [code] = ref_mul_def [of "Decimal c e" "Decimal c' e'" for c e c' e']
lemmas ref_sign_code [code] = ref_sign_def [of "Decimal c e" for c e]
lemmas ref_round_code [code] = ref_round_def [of "Decimal c e" for c e]
lemmas ref_div_round_code [code] = ref_div_round_def [of "Decimal c e" "Decimal c' e'" for c e c' e']
lemmas ref_ceil_code [code] = ref_ceil_def [of "Decimal c e" for c e]
lemmas ref_int_part_code [code] = ref_int_part_def [of "Decimal c e" for c e]
lemmas ref_quo_code [code] = ref_quo_def [of _ "Decimal c e" "Decimal c' e'" for c e c' e']

text \<open>Text: an optional sign, digits, and an optional fraction. Floats: their exact value.\<close>

definition digit_of :: "char \<Rightarrow> int option" where
  "digit_of c = (let n = of_char c :: nat in if 48 \<le> n \<and> n \<le> 57 then Some (int n - 48) else None)"

fun parse_digits :: "int \<Rightarrow> string \<Rightarrow> int option" where
  "parse_digits acc [] = Some acc"
| "parse_digits acc (c # cs) = (case digit_of c of None \<Rightarrow> None | Some d \<Rightarrow> parse_digits (10 * acc + d) cs)"

definition ref_parse_abs :: "string \<Rightarrow> decimal option" where
  "ref_parse_abs s = (let w = takeWhile (\<lambda>c. c \<noteq> CHR ''.'') s; f = tl (dropWhile (\<lambda>c. c \<noteq> CHR ''.'') s) in
     if w @ f = [] then None
     else map_option (\<lambda>n. Decimal n (- int (length f))) (parse_digits 0 (w @ f)))"

definition ref_parse :: "string \<Rightarrow> decimal option" where
  "ref_parse s = (if s \<noteq> [] \<and> hd s = CHR ''-'' then map_option ref_neg (ref_parse_abs (tl s))
     else ref_parse_abs s)"

definition ref_string :: "decimal \<Rightarrow> string" where
  "ref_string a = (let c = \<bar>coefficient a\<bar> * 10 ^ nat (exponent a); m = 10 ^ nat (- exponent a);
       f = show_nat (nat (c mod m)) in
     (if coefficient a < 0 then ''-'' else []) @ show_nat (nat (c div m)) @
     (if exponent a < 0 then ''.'' @ replicate (nat (- exponent a) - length f) (CHR ''0'') @ f else []))"

definition float_decimal :: "bool \<Rightarrow> int \<Rightarrow> int \<Rightarrow> decimal" where
  "float_decimal s m e = Decimal ((if s then - 1 else 1) * m * 2 ^ nat e * 5 ^ nat (- e)) (min e 0)"

definition ref_of_float64 :: "64 word \<Rightarrow> decimal" where
  "ref_of_float64 w = (let n = uint w; e = n div 2 ^ 52 mod 2 ^ 11; f = n mod 2 ^ 52 in
     float_decimal (2 ^ 63 \<le> n) (if e = 0 then f else f + 2 ^ 52) (max e 1 - 1075))"

definition ref_of_float32 :: "32 word \<Rightarrow> decimal" where
  "ref_of_float32 w = (let n = uint w; e = n div 2 ^ 23 mod 2 ^ 8; f = n mod 2 ^ 23 in
     float_decimal (2 ^ 31 \<le> n) (if e = 0 then f else f + 2 ^ 23) (max e 1 - 150))"

definition ref_lib :: declib where
  "ref_lib = \<lparr> d_zero = Decimal 0 1, d_of_int = (\<lambda>n. Decimal n 0), d_add = ref_add,
     d_sub = (\<lambda>a b. ref_add a (ref_neg b)), d_mul = ref_mul, d_neg = ref_neg, d_abs = ref_abs,
     d_cmp = (\<lambda>a b. ref_sign (ref_add a (ref_neg b))), d_sign = ref_sign, d_round = ref_round,
     d_div_round = ref_div_round, d_ceil = ref_ceil, d_int_part = ref_int_part,
     d_string = ref_string, d_parse = ref_parse,
     d_of_float64 = ref_of_float64, d_of_float32 = ref_of_float32,
     d_format_float64 = ref_string \<circ> ref_of_float64, d_format_float32 = ref_string \<circ> ref_of_float32,
     apd_quo = ref_quo \<rparr>"

section \<open>Correctness\<close>

lemma val_ref_add: "val (ref_add a b) = val a + val b"
proof -
  let ?e = "min (exponent a) (exponent b)"
  have "val a = of_int (coefficient a) * (10 ^ nat (exponent a - ?e) * 10 powi ?e)"
    by (simp only: val_def powi_split [of ?e "exponent a"])
  moreover have "val b = of_int (coefficient b) * (10 ^ nat (exponent b - ?e) * 10 powi ?e)"
    by (simp only: val_def powi_split [of ?e "exponent b"])
  moreover have "val (ref_add a b) = of_int (coefficient a) * (10 ^ nat (exponent a - ?e) * 10 powi ?e) +
      of_int (coefficient b) * (10 ^ nat (exponent b - ?e) * 10 powi ?e)"
    by (simp add: ref_add_def val_def Let_def distrib_right)
  ultimately show ?thesis by simp
qed

lemma val_ref_neg: "val (ref_neg a) = - val a"
  by (simp add: ref_neg_def val_def)

lemma val_ref_mul: "val (ref_mul a b) = val a * val b"
  by (simp add: ref_mul_def val_def power_int_add)

lemma val_ref_abs: "val (ref_abs a) = \<bar>val a\<bar>"
  by (simp add: ref_abs_def val_def abs_mult)

lemma ref_sign_val: "ref_sign a = sgn3 (val a)"
  by (auto simp: ref_sign_def sgn3_def val_eq_0_iff val_less_0_iff sgn_if)

lemma half_away_div:
  assumes "0 < d"
  shows "half_away (of_int n / of_int d) = div_half_away n d"
proof -
  have *: "\<lfloor>of_int m / of_int d + 1 / 2 :: rat\<rfloor> = (2 * m + d) div (2 * d)" for m
  proof -
    have "of_int m / of_int d + 1 / 2 = (of_int (2 * m + d) / of_int (2 * d) :: rat)"
      using assms by (simp add: field_simps)
    then show ?thesis by (simp only: floor_divide_of_int_eq)
  qed
  show ?thesis
  proof (cases "0 \<le> n")
    case True
    with assms * [of n] show ?thesis
      by (cases "n = 0") (simp_all add: half_away_def div_half_away_def)
  next
    case False
    with assms have "of_int n / of_int d < (0 :: rat)" by (simp add: divide_neg_pos)
    with False assms * [of "- n"] show ?thesis
      by (simp add: half_away_def div_half_away_def)
  qed
qed

lemma half_even_div:
  assumes "0 < d"
  shows "half_even (of_int n / of_int d) = div_half_even n d"
proof -
  have f: "\<lfloor>of_int n / of_int d :: rat\<rfloor> = n div d" by (simp add: floor_divide_of_int_eq)
  have "of_int n = (of_int (n div d) * of_int d + of_int (n mod d) :: rat)"
    by (simp flip: of_int_mult of_int_add)
  then have r: "of_int n / of_int d - of_int (n div d) = (of_int (n mod d) / of_int d :: rat)"
    using assms by (simp add: field_simps)
  have "of_int (n mod d) / of_int d < (1 / 2 :: rat) \<longleftrightarrow> 2 * (n mod d) < d"
    using assms of_int_less_iff [of "2 * (n mod d)" d, where 'a = rat] by (simp add: field_simps)
  moreover have "(1 / 2 :: rat) < of_int (n mod d) / of_int d \<longleftrightarrow> d < 2 * (n mod d)"
    using assms of_int_less_iff [of d "2 * (n mod d)", where 'a = rat] by (simp add: field_simps)
  ultimately show ?thesis by (simp only: half_even_def div_half_even_def Let_def f r)
qed

lemma val_ref_round: "val (ref_round a p) = round_at p (val a)"
proof (cases "- int p \<le> exponent a")
  case True
  then have "val a * 10 ^ p = of_int (coefficient a * 10 ^ nat (exponent a + int p))"
    using power_int_add [of "10 :: rat" "exponent a" "int p"]
    by (simp add: val_def power_int_def [of _ "exponent a + int p"])
  then have "has_places p (val a)" by (simp add: has_places_def)
  with True show ?thesis by (simp add: ref_round_def round_at_exact)
next
  case False
  let ?m = "10 ^ nat (- int p - exponent a) :: int"
  have "(10 :: rat) powi (- int p) = 10 ^ nat (- int p - exponent a) * 10 powi exponent a"
    using False by (intro powi_split) simp
  then have "val a * 10 ^ p = of_int (coefficient a) / of_int ?m"
    by (simp add: val_def power_int_minus field_simps)
  then have "half_away (val a * 10 ^ p) = div_half_away (coefficient a) ?m"
    by (simp only: half_away_div zero_less_power zero_less_numeral)
  with False show ?thesis
    by (simp add: ref_round_def round_at_def val_def power_int_minus divide_inverse)
qed

lemma quo_fraction:
  assumes "coefficient b \<noteq> 0"
  shows "val a / val b * 10 powi k = of_int (quo_num a b k) / of_int (quo_den a b k)"
    and "0 < quo_den a b k"
proof -
  let ?e = "exponent a - exponent b"
  have "val a / val b * 10 powi k = of_int (coefficient a) / of_int (coefficient b) * 10 powi (?e + k)"
    by (simp add: val_def power_int_add power_int_diff)
  also have "\<dots> = of_int (coefficient a * sgn (coefficient b)) / of_int \<bar>coefficient b\<bar> *
      (10 ^ nat (?e + k) / 10 ^ nat (- (?e + k)))"
    using assms by (simp add: powi_nat_diff [of "?e + k"] sgn_if abs_if)
  finally show "val a / val b * 10 powi k = of_int (quo_num a b k) / of_int (quo_den a b k)"
    by (simp add: quo_num_def quo_den_def)
  show "0 < quo_den a b k" using assms by (simp add: quo_den_def)
qed

lemma ref_div_round_Some:
  assumes "val b \<noteq> 0"
  shows "\<exists>q. ref_div_round a b p = Some q \<and> val q = round_at p (val a / val b)"
proof -
  have b: "coefficient b \<noteq> 0" using assms by (simp add: val_eq_0_iff)
  have "half_away (val a / val b * 10 ^ p) = div_half_away (quo_num a b (int p)) (quo_den a b (int p))"
    using quo_fraction [OF b, of a "int p"] by (simp add: half_away_div)
  then show ?thesis
    using b by (simp add: ref_div_round_def round_at_def val_def power_int_minus divide_inverse)
qed

lemma val_ref_ceil: "val (ref_ceil a) = of_int \<lceil>val a\<rceil>"
proof (cases "0 \<le> exponent a")
  case True
  then have "val a = of_int (coefficient a * 10 ^ nat (exponent a))"
    by (simp add: val_def power_int_def)
  with True show ?thesis by (metis ceiling_of_int ref_ceil_def)
next
  case False
  let ?m = "10 ^ nat (- exponent a) :: int"
  have "val a = of_int (coefficient a) / of_int ?m"
    using False powi_nat_diff [of "exponent a"] by (simp add: val_def)
  then have "- val a = of_int (- coefficient a) / of_int ?m" by simp
  then have "\<lceil>val a\<rceil> = - ((- coefficient a) div ?m)"
    by (simp only: ceiling_def floor_divide_of_int_eq)
  with False show ?thesis by (simp add: ref_ceil_def val_def)
qed

lemma ref_int_part_val: "ref_int_part a = (if 0 \<le> val a then \<lfloor>val a\<rfloor> else \<lceil>val a\<rceil>)"
proof -
  let ?n = "coefficient a * 10 ^ nat (exponent a)" and ?m = "10 ^ nat (- exponent a) :: int"
  have v: "val a = of_int ?n / of_int ?m"
    using powi_nat_diff [of "exponent a"] by (simp add: val_def)
  have m: "0 < ?m" by simp
  show ?thesis
  proof (cases "0 \<le> ?n")
    case True
    then have "0 \<le> val a"
      unfolding v using m by (intro divide_nonneg_pos) (simp_all only: of_int_0_le_iff of_int_0_less_iff)
    moreover have "\<lfloor>val a\<rfloor> = ?n div ?m" unfolding v by (rule floor_divide_of_int_eq)
    ultimately show ?thesis unfolding ref_int_part_def by (simp only: quot_nonneg [OF True m] if_True)
  next
    case False
    then have neg: "?n < 0" by simp
    then have "val a < 0"
      unfolding v using m by (intro divide_neg_pos) (simp_all only: of_int_less_0_iff of_int_0_less_iff)
    moreover have "- val a = of_int (- ?n) / of_int ?m" by (simp add: v)
    then have "\<lceil>val a\<rceil> = - ((- ?n) div ?m)"
      by (simp only: ceiling_def floor_divide_of_int_eq)
    ultimately show ?thesis
      unfolding ref_int_part_def using quot_neg [OF neg m] by (simp only: not_le [symmetric] if_False)
  qed
qed

lemma ndigits_bounds: "0 < n \<Longrightarrow> 10 ^ (ndigits n - 1) \<le> n \<and> n < 10 ^ ndigits n"
proof (induction n rule: ndigits.induct)
  case (1 n)
  show ?case
  proof (cases "n < 10")
    case True
    with 1 show ?thesis by (simp add: ndigits.simps [of n])
  next
    case False
    then have "0 < n div 10" by simp
    with 1 False have IH: "10 ^ (ndigits (n div 10) - 1) \<le> n div 10" "n div 10 < 10 ^ ndigits (n div 10)"
      by auto
    have nd: "ndigits n = Suc (ndigits (n div 10))" using False by (simp add: ndigits.simps [of n])
    have pos: "0 < ndigits (n div 10)" by (simp add: ndigits.simps [of "n div 10"])
    have "10 ^ (ndigits n - 1) = 10 * 10 ^ (ndigits (n div 10) - 1)"
      using pos by (simp add: nd flip: power_Suc)
    also have "\<dots> \<le> n" using IH(1) by linarith
    finally have "10 ^ (ndigits n - 1) \<le> n" .
    moreover have "n < 10 ^ ndigits n" using IH(2) by (simp add: nd; linarith)
    ultimately show ?thesis ..
  qed
qed

lemma digits_of_coefficient:
  assumes "coefficient a \<noteq> 0"
  shows "10 powi (int (ndigits \<bar>coefficient a\<bar>) - 1) \<le> (of_int \<bar>coefficient a\<bar> :: rat)"
    and "(of_int \<bar>coefficient a\<bar> :: rat) < 10 powi int (ndigits \<bar>coefficient a\<bar>)"
proof -
  let ?n = "\<bar>coefficient a\<bar>"
  have b: "10 ^ (ndigits ?n - 1) \<le> ?n" "?n < 10 ^ ndigits ?n"
    using ndigits_bounds [of ?n] assms by auto
  have "0 < ndigits ?n" by (simp add: ndigits.simps [of ?n])
  then have e: "int (ndigits ?n) - 1 = int (ndigits ?n - 1)" by simp
  have "(10 :: rat) ^ (ndigits ?n - 1) \<le> of_int ?n" "(of_int ?n :: rat) < 10 ^ ndigits ?n"
    using b of_int_le_iff [of "10 ^ (ndigits ?n - 1)" ?n, where 'a = rat]
      of_int_less_iff [of ?n "10 ^ ndigits ?n", where 'a = rat] by simp_all
  then show "10 powi (int (ndigits ?n) - 1) \<le> (of_int \<bar>coefficient a\<bar> :: rat)"
    and "(of_int \<bar>coefficient a\<bar> :: rat) < 10 powi int (ndigits ?n)"
    by (simp_all add: e)
qed

lemma quo_shift_bounds:
  assumes "coefficient a \<noteq> 0" and "coefficient b \<noteq> 0" and p: "0 < p"
  shows "10 ^ (p - 1) \<le> \<bar>val a / val b\<bar> * 10 powi quo_shift p a b"
    and "\<bar>val a / val b\<bar> * 10 powi quo_shift p a b < 10 ^ p"
proof -
  let ?A = "of_int \<bar>coefficient a\<bar> :: rat" and ?B = "of_int \<bar>coefficient b\<bar> :: rat"
  let ?da = "int (ndigits \<bar>coefficient a\<bar>)" and ?db = "int (ndigits \<bar>coefficient b\<bar>)"
  define k where "k = int p - ?da + ?db - (exponent a - exponent b)"
  define x where "x = \<bar>val a / val b\<bar> * 10 powi k"
  have B: "0 < ?B" using assms(2) by simp
  have x: "x = ?A / ?B * 10 powi (int p - ?da + ?db)"
    by (simp add: x_def k_def val_def abs_divide abs_mult power_int_diff power_int_add field_simps)
  note da = digits_of_coefficient [OF assms(1)] and db = digits_of_coefficient [OF assms(2)]
  have "(10 :: rat) powi (int p - 1) = 10 powi (?da - 1) / 10 powi ?db * 10 powi (int p - ?da + ?db)"
    by (simp add: power_int_diff power_int_add field_simps)
  also have "\<dots> \<le> x" unfolding x using da(1) db(2) B
    by (intro mult_right_mono frac_le) auto
  also have "(10 :: rat) powi (int p - 1) = 10 ^ (p - 1)"
    using p by (simp flip: power_int_of_nat add: of_nat_diff)
  finally have lo: "10 ^ (p - 1) \<le> x" .
  have "x < 10 powi ?da / 10 powi (?db - 1) * 10 powi (int p - ?da + ?db)"
    unfolding x using da(2) db(1) B by (intro mult_strict_right_mono frac_less) auto
  also have "\<dots> = 10 * 10 ^ p" by (simp add: power_int_diff power_int_add field_simps)
  finally have hi: "x < 10 * 10 ^ p" .
  have num: "x = of_int \<bar>quo_num a b k\<bar> / of_int (quo_den a b k)"
  proof -
    have "x = \<bar>val a / val b * 10 powi k\<bar>" by (simp add: x_def abs_mult)
    also have "\<dots> = \<bar>of_int (quo_num a b k) / of_int (quo_den a b k)\<bar>"
      by (simp only: quo_fraction(1) [OF assms(2)])
    finally show ?thesis using quo_fraction(2) [OF assms(2), of a k] by (simp add: abs_divide)
  qed
  have test: "10 ^ p * quo_den a b k \<le> \<bar>quo_num a b k\<bar> \<longleftrightarrow> 10 ^ p \<le> x"
    using quo_fraction(2) [OF assms(2), of a k]
      of_int_le_iff [of "10 ^ p * quo_den a b k" "\<bar>quo_num a b k\<bar>", where 'a = rat]
    by (simp add: num field_simps)
  have "(10 :: rat) ^ p = 10 * 10 ^ (p - 1)" using p by (cases p) auto
  then show "10 ^ (p - 1) \<le> \<bar>val a / val b\<bar> * 10 powi quo_shift p a b"
    and "\<bar>val a / val b\<bar> * 10 powi quo_shift p a b < 10 ^ p"
    using lo hi test by (auto simp: quo_shift_def Let_def x_def simp flip: k_def; simp add: power_int_diff)+
qed

lemma ref_quo_Some:
  assumes b: "val b \<noteq> 0" and lo: "10 ^ (ctx_precision c - 1) \<le> \<bar>val a / val b\<bar> * 10 powi k"
    and hi: "\<bar>val a / val b\<bar> * 10 powi k < 10 ^ ctx_precision c"
  shows "\<exists>q. ref_quo c a b = Some q \<and>
    val q = of_int (round_mode (ctx_rounding c) (val a / val b * 10 powi k)) * 10 powi (- k)"
proof -
  let ?p = "ctx_precision c"
  have b0: "coefficient b \<noteq> 0" using b by (simp add: val_eq_0_iff)
  have a0: "coefficient a \<noteq> 0" using lo by (auto simp: val_def not_le zero_less_power [THEN not_le [THEN iffD2]])
  have p: "0 < ?p" using lo hi by (cases ?p) auto
  then have ten: "(10 :: rat) ^ ?p = 10 * 10 ^ (?p - 1)" by (cases ?p) auto
  have "quo_shift ?p a b = k"
    using lo hi quo_shift_bounds [OF a0 b0 p] a0 b0
    by (intro shift_unique [of "\<bar>val a / val b\<bar>" "10 ^ (?p - 1)"]) (simp_all add: ten val_eq_0_iff)
  moreover have "round_mode (ctx_rounding c) (val a / val b * 10 powi k) =
      (case ctx_rounding c of RoundHalfUp \<Rightarrow> div_half_away (quo_num a b k) (quo_den a b k)
        | RoundHalfEven \<Rightarrow> div_half_even (quo_num a b k) (quo_den a b k))"
    using quo_fraction [OF b0, of a k]
    by (simp add: round_mode_def half_away_div half_even_div split: rounding.splits)
  ultimately show ?thesis
    using a0 b0 by (simp add: ref_quo_def Let_def val_def [of "Decimal _ _"])
qed

interpretation ref: decimal_lib ref_lib
proof unfold_locales
  fix a b :: decimal and n :: int and p :: nat and c :: apd_context and k :: int
  show "val (d_zero ref_lib) = 0" "val (d_of_int ref_lib n) = of_int n"
    by (simp_all add: ref_lib_def val_def)
  show "val (d_add ref_lib a b) = val a + val b" "val (d_sub ref_lib a b) = val a - val b"
    "val (d_mul ref_lib a b) = val a * val b" "val (d_neg ref_lib a) = - val a"
    "val (d_abs ref_lib a) = \<bar>val a\<bar>"
    by (simp_all add: ref_lib_def val_ref_add val_ref_neg val_ref_mul val_ref_abs)
  show "d_cmp ref_lib a b = sgn3 (val a - val b)" "d_sign ref_lib a = sgn3 (val a)"
    by (simp_all add: ref_lib_def ref_sign_val val_ref_add val_ref_neg)
  show "val (d_round ref_lib a p) = round_at p (val a)" "val (d_ceil ref_lib a) = of_int \<lceil>val a\<rceil>"
    by (simp_all add: ref_lib_def val_ref_round val_ref_ceil)
  show "d_int_part ref_lib a = (if 0 \<le> val a then \<lfloor>val a\<rfloor> else \<lceil>val a\<rceil>)"
    by (simp add: ref_lib_def ref_int_part_val)
  show "val b \<noteq> 0 \<Longrightarrow> \<exists>q. d_div_round ref_lib a b p = Some q \<and> val q = round_at p (val a / val b)"
    using ref_div_round_Some by (simp add: ref_lib_def)
  show "val b = 0 \<Longrightarrow> d_div_round ref_lib a b p = None" "val b = 0 \<Longrightarrow> apd_quo ref_lib c a b = None"
    by (simp_all add: ref_lib_def ref_div_round_def ref_quo_def val_eq_0_iff)
  show "val a = 0 \<Longrightarrow> val b \<noteq> 0 \<Longrightarrow> \<exists>q. apd_quo ref_lib c a b = Some q \<and> val q = 0"
    by (simp add: ref_lib_def ref_quo_def val_eq_0_iff)
  show "val b \<noteq> 0 \<Longrightarrow> 10 ^ (ctx_precision c - 1) \<le> \<bar>val a / val b\<bar> * 10 powi k \<Longrightarrow>
      \<bar>val a / val b\<bar> * 10 powi k < 10 ^ ctx_precision c \<Longrightarrow>
      \<exists>q. apd_quo ref_lib c a b = Some q \<and>
        val q = of_int (round_mode (ctx_rounding c) (val a / val b * 10 powi k)) * 10 powi (- k)"
    using ref_quo_Some by (simp add: ref_lib_def)
qed

end
