(* ===== verification/Rating_Engine.thy ===== *)
theory Rating_Engine
  imports Pricing_Convert Decimal_Reference
begin

text \<open>
  \<open>pricing/engine.go\<close>: the rating of one resource by price-plan rules. The engine is pure
  given its clock, so every operation takes the instant \<open>now\<close> that \<open>e.clock.Now()\<close> returns;
  an error aborts the whole rating call. The specification of graduated tiers counts units:
  a tier bills each unit it covers once.
\<close>

section \<open>Operators, filters and modifiers\<close>

definition applyOperator :: "declib \<Rightarrow> string \<Rightarrow> any \<Rightarrow> any \<Rightarrow> string \<Rightarrow> bool" where
  "applyOperator L operator ruleValue resourceValue typ =
    (if typ = ''boolean'' then
       (toBool ruleValue = Some True) = (toBool resourceValue = Some True)
     else if typ = ''string'' then
       (let v1 = toString L ruleValue; v2 = toString L resourceValue in
        if operator = ''eq'' then equalsIgnoreCase v1 v2
        else if operator = ''neq'' then \<not> equalsIgnoreCase v1 v2
        else if operator = ''contains'' then containsIgnoreCase v2 v1
        else if operator = ''startsWith'' then startsWithIgnoreCase v2 v1
        else False)
     else if typ = ''number'' then
       (case (toDecimal L ruleValue, toDecimal L resourceValue) of
          (Some v2, Some v1) \<Rightarrow>
            (let c = d_cmp L v1 v2 in
             if operator = ''eq'' then c = 0
             else if operator = ''neq'' then c \<noteq> 0
             else if operator = ''gt'' then c > 0
             else if operator = ''gte'' then c \<ge> 0
             else if operator = ''lt'' then c < 0
             else if operator = ''lte'' then c \<le> 0
             else False)
        | _ \<Rightarrow> False)
     else False)"

definition applyOperatorOnList :: "declib \<Rightarrow> string \<Rightarrow> any list \<Rightarrow> any \<Rightarrow> string \<Rightarrow> bool" where
  "applyOperatorOnList L operator ruleValues resourceValue typ =
    (if typ \<noteq> ''string'' then False
     else let v1List = toStringSlice L ruleValues in
       if v1List = [] then False
       else if operator \<noteq> ''in'' then False
       else toString L resourceValue \<in> set v1List)"

definition applyFilter :: "declib \<Rightarrow> PricePlanRuleFilter \<Rightarrow> BillingResource \<Rightarrow> bool res" where
  "applyFilter L f resource =
    (case map_of (br_Values resource) (filter_AttributeName f) of
       None \<Rightarrow> Inr False
     | Some v \<Rightarrow>
         if v = AnyNil then Inr False
         else bindR (AttributeTypeByName (br_BillingResourceType resource) (filter_AttributeName f)) (\<lambda>attrType.
           if filter_Operator f = ''in''
           then Inr (applyOperatorOnList L (filter_Operator f) (filter_Values f) v attrType)
           else Inr (applyOperator L (filter_Operator f) (filter_Value f) v attrType)))"

text \<open>The loop over the filters stops at the first error and at the first filter that fails.\<close>

fun allFilters :: "declib \<Rightarrow> PricePlanRuleFilter list \<Rightarrow> BillingResource \<Rightarrow> bool res" where
  "allFilters L [] resource = Inr True"
| "allFilters L (f # fs) resource =
     bindR (applyFilter L f resource) (\<lambda>ok. if \<not> ok then Inr False else allFilters L fs resource)"

definition applyFilters :: "declib \<Rightarrow> PricePlanRule \<Rightarrow> BillingResource \<Rightarrow> bool res" where
  "applyFilters L rule resource =
    (if \<not> equalsIgnoreCase (rule_ResourceType rule) (br_ResourceType resource) then Inr False
     else if rule_Filters rule = [] then Inr True
     else allFilters L (rule_Filters rule) resource)"

definition applyModifierValue :: "declib \<Rightarrow> PricePlanRuleModifier \<Rightarrow> decimal \<Rightarrow> decimal" where
  "applyModifierValue L m basePrice =
    (let modifierValue = (if mod_AsPercentage m
           then divDecimal128 L (d_mul L basePrice (mod_Value m)) (d_of_int L 100)
           else mod_Value m) in
     if mod_ModifierOperator m = ''add'' then d_add L basePrice modifierValue
     else if mod_ModifierOperator m = ''subtract'' then d_sub L basePrice modifierValue
     else basePrice)"

definition applyModifier :: "declib \<Rightarrow> PricePlanRuleModifier \<Rightarrow> BillingResource \<Rightarrow> decimal \<Rightarrow> decimal res" where
  "applyModifier L m resource basePrice =
    (case map_of (br_Values resource) (mod_AttributeName m) of
       None \<Rightarrow> Inr basePrice
     | Some v \<Rightarrow>
         bindR (AttributeTypeByName (br_BillingResourceType resource) (mod_AttributeName m)) (\<lambda>attrType.
           if v = AnyNil then Inr basePrice
           else if applyOperator L (mod_Operator m) (mod_AttributeValue m) v attrType
           then Inr (applyModifierValue L m basePrice)
           else Inr basePrice))"

definition applyModifiers :: "declib \<Rightarrow> PricePlanRuleModifier list \<Rightarrow> BillingResource \<Rightarrow>
    PricePlanRuleResultAmount list \<Rightarrow> PricePlanRuleResultAmount list res" where
  "applyModifiers L modifiers resource amounts =
     mapR (\<lambda>a. bindR (foldR (\<lambda>m mp. applyModifier L m resource mp) modifiers (amt_NetAmount a))
       (\<lambda>mp. Inr (a \<lparr> amt_NetAmount := mp \<rparr>))) amounts"

section \<open>Prices and tiers\<close>

definition skipCurrentPrice :: "BillingResource \<Rightarrow> string \<Rightarrow> bool res" where
  "skipCurrentPrice resource attributeName =
    (if br_DisplayPrice resource \<and> attributeName \<noteq> ''existence''
     then bindR (ResourceAttributeByName (br_BillingResourceType resource) attributeName) (\<lambda>attr.
       Inr (ra_IsUsage attr = Some True))
     else Inr False)"

definition getResourceValueByType :: "declib \<Rightarrow> string \<Rightarrow> BillingResource \<Rightarrow> decimal res" where
  "getResourceValueByType L attributeName resource =
    (if equalsIgnoreCase attributeName ''existence'' then Inr (d_of_int L 1)
     else case map_of (br_Values resource) attributeName of
       None \<Rightarrow> Inr (d_zero L)
     | Some v \<Rightarrow>
         bindR (AttributeTypeByName (br_BillingResourceType resource) attributeName) (\<lambda>attrType.
           if equalsIgnoreCase attrType ''boolean'' then
             (case toBool v of
                None \<Rightarrow> Inl (Failure ''rating: attribute is declared boolean but its value is not a boolean'')
              | Some b \<Rightarrow> Inr (if b then d_of_int L 1 else d_zero L))
           else
             (case toDecimal L v of
                None \<Rightarrow> Inl (Failure ''rating: attribute is not convertible to a number'')
              | Some d \<Rightarrow> Inr d)))"

text \<open>
  Monthly proration: the tier value per hour of the month, times the whole hours from the
  resource's creation to the end of the month.
\<close>

definition getTierValue :: "declib \<Rightarrow> time \<Rightarrow> PricePlanRule \<Rightarrow> BillingResource \<Rightarrow> PriceTier \<Rightarrow> decimal res" where
  "getTierValue L now rule resource tier =
    (case tier_Value tier of
       None \<Rightarrow> Inl (Failure (''price tier has no value (rule '' @ rule_ID rule @ '')''))
     | Some value \<Rightarrow>
         if equalsIgnoreCase (rule_TimeUnit rule) ''month'' \<and> \<not> br_DisplayPrice resource then
           (let createdAt = (case br_CreatedAt resource of None \<Rightarrow> now | Some t \<Rightarrow> t) in
            if createdAt > firstDayOfCurrentMonth now then
              (let lastDay = lastDayOfCurrentMonth now;
                   hoursDiff = quot (timeSub lastDay createdAt) hour;
                   maxHours = totalHoursCurrentMonth now in
               if hoursDiff < maxHours
               then Inr (d_mul L (divDecimal128 L value (d_of_int L maxHours)) (d_of_int L hoursDiff))
               else Inr value)
            else Inr value)
         else Inr value)"

definition applyTier :: "declib \<Rightarrow> time \<Rightarrow> PricePlanRule \<Rightarrow> BillingResource \<Rightarrow> PriceTier \<Rightarrow> decimal \<Rightarrow> decimal res" where
  "applyTier L now rule resource tier resourceValue =
    bindR (getTierValue L now rule resource tier) (\<lambda>amount.
      let result = (case tier_From tier of
          None \<Rightarrow> resourceValue
        | Some from \<Rightarrow>
            if d_cmp L resourceValue from \<ge> 0 then
              (case tier_To tier of
                 None \<Rightarrow> d_sub L resourceValue from
               | Some to \<Rightarrow>
                   let adjFrom = (if d_cmp L from (d_zero L) \<noteq> 0 then d_sub L from (d_of_int L 1) else from);
                       tierMax = d_sub L to adjFrom;
                       fromDiff = d_sub L resourceValue adjFrom in
                   if d_cmp L fromDiff tierMax > 0 then tierMax else fromDiff)
            else d_zero L)
      in Inr (d_mul L result amount))"

definition applyRulePrice :: "declib \<Rightarrow> time \<Rightarrow> PricePlanRule \<Rightarrow> PricePlanRulePrice \<Rightarrow> BillingResource \<Rightarrow>
    PricePlanRuleResultAmount option res" where
  "applyRulePrice L now rule price resource =
    (case price_Tiers price of
       None \<Rightarrow> Inr None
     | Some tiers \<Rightarrow>
         let name = price_AttributeName price in
         if name = '''' then Inr None
         else bindR (skipCurrentPrice resource name) (\<lambda>skip.
           if skip then Inr None
           else bindR (getResourceValueByType L name resource) (\<lambda>value.
             bindR (if d_cmp L value (d_zero L) > 0
                    then foldR (\<lambda>t total. bindR (applyTier L now rule resource t value)
                           (\<lambda>tv. Inr (d_add L total tv))) tiers (d_zero L)
                    else Inr (d_zero L)) (\<lambda>total.
               Inr (Some \<lparr> amt_AttributeName = name, amt_AttributeValue = value, amt_NetAmount = total \<rparr>)))))"

definition applyRulePrices :: "declib \<Rightarrow> time \<Rightarrow> PricePlanRule \<Rightarrow> BillingResource \<Rightarrow> PricePlanRulePrice list \<Rightarrow>
    PricePlanRuleResultAmount list res" where
  "applyRulePrices L now rule resource prices = catR (\<lambda>p. applyRulePrice L now rule p resource) prices"

section \<open>Rules\<close>

definition applyPricePlanRule :: "declib \<Rightarrow> time \<Rightarrow> PricePlanRule \<Rightarrow> BillingResource \<Rightarrow>
    PricePlanRuleResult option res" where
  "applyPricePlanRule L now rule resource =
    bindR (applyFilters L rule resource) (\<lambda>apply.
      if \<not> apply then Inr None
      else bindR (applyRulePrices L now rule resource (rule_Prices rule)) (\<lambda>amounts.
        bindR (applyModifiers L (rule_Modifiers rule) resource amounts) (\<lambda>amounts.
          Inr (Some \<lparr> res_Rule = rule, res_Amounts = amounts \<rparr>))))"

definition ApplyPricePlanRules :: "declib \<Rightarrow> time \<Rightarrow> PricePlanRule list \<Rightarrow> BillingResource \<Rightarrow> string \<Rightarrow>
    PricePlanRuleResult list res" where
  "ApplyPricePlanRules L now rules resource timeUnit =
    catR (\<lambda>rule. if \<not> equalsIgnoreCase (rule_TimeUnit rule) timeUnit then Inr None
                 else applyPricePlanRule L now rule resource) rules"

definition SumNetAmount :: "declib \<Rightarrow> PricePlanRuleResult list \<Rightarrow> decimal" where
  "SumNetAmount L results =
    fold (\<lambda>r total. fold (\<lambda>a t. d_add L t (amt_NetAmount a)) (res_Amounts r) total) results (d_zero L)"

section \<open>Graduated tiers\<close>

text \<open>
  The units a tier covers: all of them without a lower bound, those above \<open>From\<close> without an
  upper bound, and those from \<open>From\<close> to \<open>To\<close>, both included, otherwise.
\<close>

definition covers :: "PriceTier \<Rightarrow> int \<Rightarrow> bool" where
  "covers t k = (case tier_From t of None \<Rightarrow> True
     | Some from \<Rightarrow> (case tier_To t of None \<Rightarrow> val from < of_int k
         | Some to \<Rightarrow> val from \<le> of_int k \<and> of_int k \<le> val to))"

text \<open>Whole, non-negative bounds in order.\<close>

definition whole_tier :: "PriceTier \<Rightarrow> bool" where
  "whole_tier t = (case tier_From t of None \<Rightarrow> True
     | Some from \<Rightarrow> 0 \<le> val from \<and> val from = of_int \<lfloor>val from\<rfloor> \<and>
         (case tier_To t of None \<Rightarrow> True | Some to \<Rightarrow> val from \<le> val to \<and> val to = of_int \<lfloor>val to\<rfloor>))"

definition tier_price :: "declib \<Rightarrow> time \<Rightarrow> PricePlanRule \<Rightarrow> BillingResource \<Rightarrow> PriceTier \<Rightarrow> rat" where
  "tier_price L now rule resource t =
     (case getTierValue L now rule resource t of Inl _ \<Rightarrow> 0 | Inr p \<Rightarrow> val p)"

text \<open>The quantity a tier bills of a value \<open>x\<close>.\<close>

definition tier_quantity :: "PriceTier \<Rightarrow> rat \<Rightarrow> rat" where
  "tier_quantity t x = (case tier_From t of None \<Rightarrow> x
     | Some lo \<Rightarrow> if x < val lo then 0 else (case tier_To t of None \<Rightarrow> x - val lo
         | Some hi \<Rightarrow> min x (val hi) - (if val lo = 0 then 0 else val lo - 1)))"

lemma card_unit_interval:
  fixes a b :: int
  assumes "0 \<le> a"
  shows "(\<Sum>k=1..n. if a < k \<and> k \<le> b then p else 0) = (of_int (max 0 (min n b - a)) * p :: rat)"
proof -
  have "(\<Sum>k=1..n. if a < k \<and> k \<le> b then p else 0) = (\<Sum>k\<in>{1..n} \<inter> {k. a < k \<and> k \<le> b}. p)"
    by (subst sum.inter_restrict) auto
  also have "{1..n} \<inter> {k. a < k \<and> k \<le> b} = {a + 1..min n b}" using assms by auto
  finally have "(\<Sum>k=1..n. if a < k \<and> k \<le> b then p else 0) = of_nat (nat (min n b - a)) * p"
    by simp
  also have "of_nat (nat (min n b - a)) = (of_int (max 0 (min n b - a)) :: rat)"
    by (cases "0 \<le> min n b - a") simp_all
  finally show ?thesis .
qed

lemma tier_quantity_units:
  assumes "whole_tier t" and "1 \<le> n"
  shows "tier_quantity t (of_int n) * p = (\<Sum>k=1..n. if covers t k then p else 0)"
proof (cases "tier_From t")
  case None
  with assms show ?thesis by (simp add: tier_quantity_def covers_def)
next
  case (Some lo)
  then obtain a where a: "val lo = of_int a" "0 \<le> a"
    using assms(1) by (intro that [of "\<lfloor>val lo\<rfloor>"]) (auto simp: whole_tier_def)
  show ?thesis
  proof (cases "tier_To t")
    case None
    have "(\<Sum>k=1..n. if covers t k then p else 0) = (\<Sum>k=1..n. if a < k \<and> k \<le> n then p else 0)"
      using Some None a by (intro sum.cong) (auto simp: covers_def)
    also have "\<dots> = of_int (max 0 (min n n - a)) * p" by (rule card_unit_interval [OF a(2)])
    finally show ?thesis using Some None a by (auto simp: tier_quantity_def max_def)
  next
    case to: (Some hi)
    then obtain b where b: "val hi = of_int b" "a \<le> b"
      using assms(1) Some a by (intro that [of "\<lfloor>val hi\<rfloor>"]) (auto simp: whole_tier_def le_floor_iff)
    define c where "c = (if a = 0 then 0 else a - 1)"
    have "(\<Sum>k=1..n. if covers t k then p else 0) = (\<Sum>k=1..n. if c < k \<and> k \<le> b then p else 0)"
      using Some to a b by (intro sum.cong) (auto simp: covers_def c_def)
    also have "\<dots> = of_int (max 0 (min n b - c)) * p"
      using a(2) by (intro card_unit_interval) (auto simp: c_def)
    also have "of_int (max 0 (min n b - c)) = tier_quantity t (of_int n)"
      using Some to a b assms(2) by (auto simp: tier_quantity_def c_def min_def max_def)
    finally show ?thesis ..
  qed
qed

context decimal_lib begin

lemma applyTier_quantity:
  assumes "applyTier L now rule resource t value = Inr d"
  shows "val d = tier_quantity t (val value) * tier_price L now rule resource t"
  using assms
  by (auto simp: applyTier_def tier_price_def tier_quantity_def bindR_eq_Inr Let_def min_def not_less
      split: option.splits if_splits)

lemma tier_price_eq: "getTierValue L now rule resource t = Inr p \<Longrightarrow> tier_price L now rule resource t = val p"
  by (simp add: tier_price_def)

text \<open>A sum over the tiers, then over the units, is a sum over the units, then over the tiers.\<close>

lemma tiers_sum:
  assumes "foldR (\<lambda>t total. bindR (applyTier L now rule resource t value) (\<lambda>tv. Inr (d_add L total tv))) ts t0 = Inr s"
  shows "val s = val t0 + (\<Sum>t\<leftarrow>ts. tier_quantity t (val value) * tier_price L now rule resource t)"
  using assms
  by (induction ts arbitrary: t0) (auto simp: bindR_eq_Inr dest!: applyTier_quantity)

lemma units_sum:
  assumes "1 \<le> n" and "\<forall>t\<in>set ts. whole_tier t"
  shows "(\<Sum>t\<leftarrow>ts. tier_quantity t (of_int n) * f t) = (\<Sum>k=1..n. \<Sum>t\<leftarrow>ts. if covers t k then f t else 0)"
  using assms(2)
  by (induction ts) (simp_all add: tier_quantity_units [OF _ assms(1)] sum.distrib)

lemma applyRulePrice_units:
  assumes "applyRulePrice L now rule price resource = Inr (Some a)"
    and "price_Tiers price = Some ts" and "\<forall>t\<in>set ts. whole_tier t"
    and "val (amt_AttributeValue a) = of_int n"
  shows "val (amt_NetAmount a) = (\<Sum>k=1..n. \<Sum>t\<leftarrow>ts. if covers t k then tier_price L now rule resource t else 0)"
proof -
  from assms(1,2) obtain total where total: "amt_NetAmount a = total"
    "(if d_cmp L (amt_AttributeValue a) (d_zero L) > 0
      then foldR (\<lambda>t total. bindR (applyTier L now rule resource t (amt_AttributeValue a))
             (\<lambda>tv. Inr (d_add L total tv))) ts (d_zero L)
      else Inr (d_zero L)) = Inr total"
    by (auto simp: applyRulePrice_def Let_def bindR_eq_Inr split: if_splits)
  show ?thesis
  proof (cases "1 \<le> n")
    case True
    then have "val total = (\<Sum>t\<leftarrow>ts. tier_quantity t (of_int n) * tier_price L now rule resource t)"
      using total(2) assms(4) by (auto dest!: tiers_sum)
    with units_sum [OF True assms(3)] total(1) show ?thesis by simp
  next
    case False
    then have "val total = 0" using total(2) assms(4) val_zero by auto
    with False total(1) show ?thesis by simp
  qed
qed

end

lemma getTierValue_total:
  assumes "tier_Value t \<noteq> None"
  shows "\<exists>p. getTierValue L now rule resource t = Inr p"
  using assms by (auto simp: getTierValue_def Let_def)

lemma applyTier_total:
  assumes "tier_Value t \<noteq> None"
  shows "\<exists>d. applyTier L now rule resource t value = Inr d"
  using getTierValue_total [OF assms, of L now rule resource] by (auto simp: applyTier_def Let_def)

section \<open>Proration\<close>

lemma remaining_hours:
  assumes "firstDayOfCurrentMonth now < c" and "c \<le> lastDayOfCurrentMonth now"
  shows "quot (timeSub (lastDayOfCurrentMonth now) c) hour = (lastDayOfCurrentMonth now - c) div hour"
    and "0 \<le> (lastDayOfCurrentMonth now - c) div hour"
    and "(lastDayOfCurrentMonth now - c) div hour < totalHoursCurrentMonth now"
proof -
  let ?d = "lastDayOfCurrentMonth now - c" and ?H = "totalHoursCurrentMonth now"
  have d: "0 \<le> ?d" "?d < ?H * hour" using assms month_span [of now] by simp_all
  have "?H \<le> 744" using daysInMonth_bounds [of now] by (simp add: totalHoursCurrentMonth_def)
  with d have "?d \<le> 2 ^ 63 - 1" by simp
  with d show "quot (timeSub (lastDayOfCurrentMonth now) c) hour = ?d div hour"
    by (simp add: timeSub_def quot_nonneg)
  show "0 \<le> ?d div hour" using d by (simp add: pos_imp_zdiv_nonneg_iff)
  show "?d div hour < ?H" using d by (simp add: div_less_iff_less_mult)
qed

lemma scaled_error:
  fixes q x :: rat
  assumes "\<bar>q - x\<bar> * e \<le> x" and "0 \<le> h"
  shows "\<bar>q * h - x * h\<bar> * e \<le> x * h"
proof -
  have "\<bar>q * h - x * h\<bar> * e = \<bar>q - x\<bar> * e * h"
    using assms(2) by (simp add: abs_mult flip: left_diff_distrib)
  also have "\<dots> \<le> x * h" using assms by (rule mult_right_mono)
  finally show ?thesis .
qed

context decimal_lib begin

lemma tier_prorated:
  assumes v: "tier_Value t = Some v" "0 \<le> val v"
    and m: "equalsIgnoreCase (rule_TimeUnit rule) ''month''" "\<not> br_DisplayPrice resource"
    and c: "c = (case br_CreatedAt resource of None \<Rightarrow> now | Some u \<Rightarrow> u)"
      "firstDayOfCurrentMonth now < c" "c \<le> lastDayOfCurrentMonth now"
    and h: "h = (lastDayOfCurrentMonth now - c) div hour" and H: "H = totalHoursCurrentMonth now"
  obtains p where "getTierValue L now rule resource t = Inr p"
    and "0 \<le> val p" and "val p \<le> val v"
    and "\<bar>val p - val v * of_int h / of_int H\<bar> * (2 * 10 ^ 33) \<le> val v * of_int h / of_int H"
proof -
  note hours = remaining_hours [OF c(2,3)]
  let ?q = "divDecimal128 L v (d_of_int L H)" and ?x = "val v / of_int H"
  have Hpos: "0 < H" using hours h H by linarith
  have h0: "0 \<le> h" "h \<le> H - 1" using hours h H by simp_all
  have gt: "getTierValue L now rule resource t = Inr (d_mul L ?q (d_of_int L h))"
    using v m c hours by (simp add: getTierValue_def Let_def h H)
  have x0: "0 \<le> ?x" using v(2) Hpos by simp
  have q0: "0 \<le> val ?q" using divDecimal128_nonneg [of v "d_of_int L H"] v(2) Hpos by simp
  have err: "\<bar>val ?q - ?x\<bar> * (2 * 10 ^ 33) \<le> ?x"
    using divDecimal128_error [of "d_of_int L H" v] Hpos x0 by simp
  have "H \<le> 744" using daysInMonth_bounds [of now] by (simp add: H totalHoursCurrentMonth_def)
  then have "\<bar>val ?q - ?x\<bar> * of_int H \<le> \<bar>val ?q - ?x\<bar> * (2 * 10 ^ 33)"
    by (intro mult_left_mono) simp_all
  then have "\<bar>val ?q - ?x\<bar> * of_int H \<le> ?x" using err by linarith
  moreover have "\<bar>val ?q - ?x\<bar> * of_int (H - 1) \<le> \<bar>val ?q - ?x\<bar> * of_int H"
    by (intro mult_left_mono) simp_all
  moreover have "(val ?q - ?x) * of_int (H - 1) \<le> \<bar>val ?q - ?x\<bar> * of_int (H - 1)"
    using Hpos by (intro mult_right_mono) simp_all
  ultimately have "val ?q * of_int (H - 1) \<le> ?x * of_int (H - 1) + ?x" by (simp add: algebra_simps)
  also have "\<dots> = val v" using Hpos by (simp add: field_simps)
  finally have "val ?q * of_int h \<le> val v"
    using mult_left_mono [of "of_int h :: rat" "of_int (H - 1)" "val ?q"] q0 h0 by linarith
  moreover have "\<bar>val ?q * of_int h - ?x * of_int h\<bar> * (2 * 10 ^ 33) \<le> ?x * of_int h"
    by (rule scaled_error [OF err]) (use h0 in simp)
  ultimately show ?thesis
    using gt q0 h0(1) by (intro that [of "d_mul L ?q (d_of_int L h)"]) simp_all
qed

end

lemma getTierValue_full:
  assumes "tier_Value t = Some v"
    and "\<not> equalsIgnoreCase (rule_TimeUnit rule) ''month'' \<or> br_DisplayPrice resource \<or>
      (\<exists>c. br_CreatedAt resource = Some c \<and> c \<le> firstDayOfCurrentMonth now)"
  shows "getTierValue L now rule resource t = Inr v"
  using assms by (auto simp: getTierValue_def Let_def)

section \<open>Chains of tiers\<close>

text \<open>
  Tiers that follow one another without gap or overlap: a bounded tier starts one unit after
  the previous one ends, an open-ended top tier carries the end of the previous one as its
  \<open>From\<close> (its lower bound is exclusive).
\<close>

fun tier_chain :: "int \<Rightarrow> PriceTier list \<Rightarrow> bool" where
  "tier_chain lo [] = True"
| "tier_chain lo (t # ts) = (case tier_From t of None \<Rightarrow> False
     | Some f \<Rightarrow> (case tier_To t of None \<Rightarrow> val f = of_int (lo - 1) \<and> ts = []
         | Some hi \<Rightarrow> val f = of_int lo \<and> val f \<le> val hi \<and> val hi = of_int \<lfloor>val hi\<rfloor> \<and>
             tier_chain (\<lfloor>val hi\<rfloor> + 1) ts))"

lemma tier_chain_whole: "tier_chain lo ts \<Longrightarrow> 1 \<le> lo \<Longrightarrow> t \<in> set ts \<Longrightarrow> whole_tier t"
proof (induction lo ts rule: tier_chain.induct)
  case (2 lo u us)
  then show ?case by (auto simp: whole_tier_def le_floor_iff split: option.splits)
qed simp

lemma tier_chain_ConsE:
  assumes "tier_chain lo (t # ts)"
  obtains (top) "\<And>k. covers t k \<longleftrightarrow> lo \<le> k" and "ts = []"
  | (bounded) b where "lo \<le> b" and "\<And>k. covers t k \<longleftrightarrow> lo \<le> k \<and> k \<le> b"
      and "tier_chain (b + 1) ts" and "tier_To t \<noteq> None"
proof -
  obtain f where f: "tier_From t = Some f" using assms by (auto split: option.splits)
  show ?thesis
  proof (cases "tier_To t")
    case None
    with assms f have vf: "val f = of_int (lo - 1)" and "ts = []" by simp_all
    have "covers t k \<longleftrightarrow> lo \<le> k" for k
      unfolding covers_def f None option.case vf of_int_less_iff by auto
    with \<open>ts = []\<close> show ?thesis using top by blast
  next
    case (Some hi)
    with assms f have vf: "val f = of_int lo" and le: "val f \<le> val hi"
      and hi: "val hi = of_int \<lfloor>val hi\<rfloor>" and ch: "tier_chain (\<lfloor>val hi\<rfloor> + 1) ts"
      by simp_all
    have "covers t k \<longleftrightarrow> lo \<le> k \<and> k \<le> \<lfloor>val hi\<rfloor>" for k
      unfolding covers_def f Some option.case vf by (simp add: le_floor_iff)
    moreover have "lo \<le> \<lfloor>val hi\<rfloor>" using le vf by (simp add: le_floor_iff)
    ultimately show ?thesis using bounded ch Some by blast
  qed
qed

lemma tier_chain_below: "tier_chain lo ts \<Longrightarrow> k < lo \<Longrightarrow> t \<in> set ts \<Longrightarrow> \<not> covers t k"
proof (induction ts arbitrary: lo)
  case (Cons u us)
  from Cons.prems(1) show ?case
  proof (cases rule: tier_chain_ConsE)
    case top
    with Cons.prems show ?thesis by auto
  next
    case (bounded b)
    with Cons.prems Cons.IH [of "b + 1"] show ?thesis by auto
  qed
qed simp

lemma tier_chain_sum:
  assumes "tier_chain lo ts" and "lo \<le> k" and "ts \<noteq> []" and "tier_To (last ts) = None"
  shows "(\<Sum>t\<leftarrow>ts. if covers t k then f t else 0) = (f (the (find (\<lambda>t. covers t k) ts)) :: rat)"
  using assms
proof (induction ts arbitrary: lo)
  case (Cons t ts)
  from Cons.prems(1) show ?case
  proof (cases rule: tier_chain_ConsE)
    case top
    with Cons.prems show ?thesis by simp
  next
    case (bounded b)
    then have ts: "ts \<noteq> []" "tier_To (last ts) = None" using Cons.prems(4) by (auto split: if_splits)
    show ?thesis
    proof (cases "k \<le> b")
      case True
      then have "\<forall>u\<in>set ts. \<not> covers u k" using tier_chain_below [OF bounded(3)] by auto
      then have "(\<Sum>u\<leftarrow>ts. if covers u k then f u else 0) = (\<Sum>u\<leftarrow>ts. 0)"
        by (intro arg_cong [where f = sum_list] map_cong) auto
      with True Cons.prems(2) bounded(2) [of k] show ?thesis by simp
    next
      case False
      with Cons.IH [OF bounded(3) _ ts] bounded(2) [of k] show ?thesis by simp
    qed
  qed
qed simp

section \<open>Rules\<close>

lemma applyPricePlanRule_rule:
  "applyPricePlanRule L now rule resource = Inr (Some r) \<Longrightarrow> res_Rule r = rule"
  by (auto simp: applyPricePlanRule_def bindR_eq_Inr split: if_splits)

lemma applyPricePlanRule_None:
  "applyPricePlanRule L now rule resource = Inr None \<longleftrightarrow> applyFilters L rule resource = Inr False"
  by (auto simp: applyPricePlanRule_def bindR_eq_Inr split: if_splits)

lemma applyPricePlanRule_Some:
  "applyPricePlanRule L now rule resource = Inr (Some r) \<Longrightarrow> applyFilters L rule resource = Inr True"
  by (auto simp: applyPricePlanRule_def bindR_eq_Inr split: if_splits)

definition unit_matches :: "string \<Rightarrow> PricePlanRule \<Rightarrow> bool" where
  "unit_matches timeUnit rule = equalsIgnoreCase (rule_TimeUnit rule) timeUnit"

lemma ApplyPricePlanRules_other_units:
  "ApplyPricePlanRules L now rules resource u =
     catR (\<lambda>rule. applyPricePlanRule L now rule resource) (filter (unit_matches u) rules)"
proof -
  have "ApplyPricePlanRules L now rules resource u =
      catR (\<lambda>rule. if \<not> unit_matches u rule then Inr None else applyPricePlanRule L now rule resource)
        (filter (unit_matches u) rules)"
    unfolding ApplyPricePlanRules_def unit_matches_def [symmetric] by (rule catR_filter) simp
  also have "\<dots> = catR (\<lambda>rule. applyPricePlanRule L now rule resource) (filter (unit_matches u) rules)"
    by (induction rules) auto
  finally show ?thesis .
qed

context decimal_lib begin

lemma val_SumNetAmount:
  "val (SumNetAmount L results) = (\<Sum>r\<leftarrow>results. \<Sum>a\<leftarrow>res_Amounts r. val (amt_NetAmount a))"
proof -
  have "val (fold (\<lambda>r total. fold (\<lambda>a t. d_add L t (amt_NetAmount a)) (res_Amounts r) total) results t0) =
      val t0 + (\<Sum>r\<leftarrow>results. \<Sum>a\<leftarrow>res_Amounts r. val (amt_NetAmount a))" for t0
    by (induction results arbitrary: t0) (simp_all add: val_fold_add)
  then show ?thesis by (simp add: SumNetAmount_def)
qed

end

section \<open>Properties of rating\<close>

lemma rule_fails_price:
  assumes "applyFilters L rule resource = Inr True" and "p \<in> set (rule_Prices rule)"
    and "applyRulePrice L now rule p resource = Inl e"
  shows "\<exists>e. applyPricePlanRule L now rule resource = Inl e"
proof -
  have "\<not> (\<exists>ys. applyRulePrices L now rule resource (rule_Prices rule) = Inr ys)"
    using assms(2,3) unfolding applyRulePrices_def catR_Inr_iff by force
  then obtain e' where "applyRulePrices L now rule resource (rule_Prices rule) = Inl e'"
    by (metis sum.exhaust)
  with assms(1) show ?thesis by (simp add: applyPricePlanRule_def)
qed

lemma undeclared_price_fails:
  assumes "price_Tiers p = Some ts" and "price_AttributeName p = name" and "name \<noteq> ''''"
    and "\<not> equalsIgnoreCase name ''existence''" and "map_of (br_Values resource) name = Some v"
    and "br_BillingResourceType resource = Some ty" and "name \<notin> ra_Name ` set (brt_Attributes ty)"
  shows "applyRulePrice L now rule p resource =
    Inl (HTTPError 404 (''Could not find attribute with name: '' @ name))"
proof -
  have find: "find (\<lambda>a. ra_Name a = name) (brt_Attributes ty) = None"
    using assms(7) by (auto simp: find_None_iff)
  have "name \<noteq> ''existence''" using assms(4) by auto
  then show ?thesis
    using assms(1-6) find
    by (simp add: applyRulePrice_def skipCurrentPrice_def getResourceValueByType_def
        ResourceAttributeByName_def AttributeTypeByName_def Let_def)
qed

text \<open>Sample data of the examples: a \<open>ram\<close> price in cents and a server with \<open>n\<close> units of it.\<close>

definition ex_tier :: "int \<Rightarrow> int option \<Rightarrow> int \<Rightarrow> PriceTier" where
  "ex_tier lo hi price = \<lparr> tier_From = Some (Decimal lo 0), tier_To = map_option (\<lambda>h. Decimal h 0) hi,
     tier_Value = Some (Decimal price (- 2)) \<rparr>"

definition ex_price :: "PriceTier list \<Rightarrow> PricePlanRulePrice" where
  "ex_price ts = \<lparr> price_AttributeName = ''ram'', price_Tiers = Some ts \<rparr>"

definition ex_rule :: "string \<Rightarrow> PriceTier list \<Rightarrow> PricePlanRule" where
  "ex_rule u ts = \<lparr> rule_ID = ''r'', rule_Name = ''ram'', rule_TimeUnit = u, rule_ResourceType = ''SERVER'',
     rule_PricePlanID = ''p'', rule_ApplyMethod = '''', rule_Prices = [ex_price ts],
     rule_Filters = [], rule_Modifiers = [] \<rparr>"

definition ex_resource :: "string \<Rightarrow> int \<Rightarrow> time \<Rightarrow> BillingResource" where
  "ex_resource attr n c = \<lparr> br_ResourceID = ''vm'', br_ProjectID = ''prj'', br_ResourceType = ''server'',
     br_CreatedAt = Some c, br_DeletedAt = None, br_DisplayPrice = False,
     br_Values = [(''ram'', AnyInt n)], br_NotEligibleForBilling = False,
     br_BillingResourceType = Some \<lparr> brt_ResourceType = ''server'',
       brt_Attributes = [\<lparr> ra_Type = ''number'', ra_Name = attr, ra_IsUsage = None \<rparr>] \<rparr> \<rparr>"

definition ex_tiers :: "PriceTier list" where
  "ex_tiers = [ex_tier 1 (Some 10) 100, ex_tier 11 (Some 20) 50, ex_tier 20 None 25]"

definition ex_amount :: PricePlanRuleResultAmount where
  "ex_amount = \<lparr> amt_AttributeName = ''ram'', amt_AttributeValue = Decimal 25 0,
     amt_NetAmount = Decimal 1625 (- 2) \<rparr>"

lemma ex_rated: "applyRulePrice ref_lib 0 (ex_rule ''hour'' ex_tiers) (ex_price ex_tiers)
    (ex_resource ''ram'' 25 0) = Inr (Some ex_amount)"
  by code_simp

lemma ex_price_tiers: "price_Tiers (ex_price ex_tiers) = Some ex_tiers"
  by (simp add: ex_price_def)

lemma ex_tiers_whole: "\<forall>t\<in>set ex_tiers. whole_tier t"
  by code_simp







text \<open>
  C4. The results of a rating are exactly the rules that match: in the order of the rule list,
  the results carry those rules whose time unit is the one asked for (ignoring case) and
  whose resource type and filters accept the resource.
\<close>

theorem rating_selects_matching_rules:
  assumes "ApplyPricePlanRules L now rules resource timeUnit = Inr results"
  shows "map res_Rule results =
    filter (\<lambda>r. equalsIgnoreCase (rule_TimeUnit r) timeUnit \<and> applyFilters L r resource = Inr True) rules"
proof -
  let ?f = "\<lambda>rule. if \<not> equalsIgnoreCase (rule_TimeUnit rule) timeUnit then Inr None
      else applyPricePlanRule L now rule resource"
  have run: "catR ?f rules = Inr results" using assms by (simp add: ApplyPricePlanRules_def)
  then have ok: "\<exists>o'. ?f r = Inr o'" if "r \<in> set rules" for r
    using catR_Inr_iff [of ?f rules] that by blast
  have "map res_Rule results = filter (\<lambda>r. \<exists>y. ?f r = Inr (Some y)) rules"
    by (rule catR_map [OF run]) (auto split: if_splits dest: applyPricePlanRule_rule)
  also have "\<dots> = filter (\<lambda>r. equalsIgnoreCase (rule_TimeUnit r) timeUnit \<and> applyFilters L r resource = Inr True) rules"
  proof (rule filter_cong [OF refl])
    fix r assume "r \<in> set rules"
    from ok [OF this] show "(\<exists>y. ?f r = Inr (Some y)) \<longleftrightarrow>
        equalsIgnoreCase (rule_TimeUnit r) timeUnit \<and> applyFilters L r resource = Inr True"
      by (auto dest: applyPricePlanRule_Some split: if_splits)
        (metis applyPricePlanRule_None not_Some_eq sum.inject(2))
  qed
  finally show ?thesis .
qed

theorem rating_selects_matching_rules_witness:
  "map res_Rule [\<lparr> res_Rule = ex_rule ''hour'' ex_tiers, res_Amounts = [ex_amount] \<rparr>] =
    filter (\<lambda>r. equalsIgnoreCase (rule_TimeUnit r) ''HOUR'' \<and>
        applyFilters ref_lib r (ex_resource ''ram'' 25 0) = Inr True)
      [ex_rule ''month'' ex_tiers, ex_rule ''hour'' ex_tiers]"
proof -
  have "ApplyPricePlanRules ref_lib 0 [ex_rule ''month'' ex_tiers, ex_rule ''hour'' ex_tiers]
      (ex_resource ''ram'' 25 0) ''HOUR'' =
    Inr [\<lparr> res_Rule = ex_rule ''hour'' ex_tiers, res_Amounts = [ex_amount] \<rparr>]"
    by code_simp
  then show ?thesis by (rule rating_selects_matching_rules)
qed

text \<open>
  C5. An attribute the resource type does not declare aborts the whole rating: if a rule that
  matches prices an attribute the resource carries but its type does not declare, the call
  returns an error and no partial result.
\<close>

theorem undeclared_attribute_aborts:
  assumes "rule \<in> set rules" and "equalsIgnoreCase (rule_TimeUnit rule) timeUnit"
    and "applyFilters L rule resource = Inr True"
    and "price \<in> set (rule_Prices rule)" and "price_Tiers price = Some ts"
    and "price_AttributeName price = name" and "name \<noteq> ''''"
    and "\<not> equalsIgnoreCase name ''existence''" and "map_of (br_Values resource) name = Some v"
    and "br_BillingResourceType resource = Some ty" and "name \<notin> ra_Name ` set (brt_Attributes ty)"
  shows "\<exists>e. ApplyPricePlanRules L now rules resource timeUnit = Inl e"
proof -
  obtain e where "applyPricePlanRule L now rule resource = Inl e"
    using rule_fails_price [OF assms(3,4) undeclared_price_fails [OF assms(5-11)]] by blast
  then have "\<not> (\<exists>rs. ApplyPricePlanRules L now rules resource timeUnit = Inr rs)"
    using assms(1,2) unfolding ApplyPricePlanRules_def catR_Inr_iff by force
  then show ?thesis by (metis sum.exhaust)
qed

theorem undeclared_attribute_aborts_witness:
  "\<exists>e. ApplyPricePlanRules ref_lib 0 [ex_rule ''hour'' ex_tiers] (ex_resource ''cpu'' 25 0) ''hour'' = Inl e"
proof -
  let ?r = "ex_rule ''hour'' ex_tiers" and ?b = "ex_resource ''cpu'' 25 0" and ?p = "ex_price ex_tiers"
  let ?ty = "\<lparr> brt_ResourceType = ''server'',
    brt_Attributes = [\<lparr> ra_Type = ''number'', ra_Name = ''cpu'', ra_IsUsage = None \<rparr>] \<rparr>"
  have "?p \<in> set (rule_Prices ?r)" "price_Tiers ?p = Some ex_tiers" "price_AttributeName ?p = ''ram''"
    "br_BillingResourceType ?b = Some ?ty" "map_of (br_Values ?b) ''ram'' = Some (AnyInt 25)"
    by (simp_all add: ex_rule_def ex_price_def ex_resource_def)
  moreover have "equalsIgnoreCase (rule_TimeUnit ?r) ''hour''" "applyFilters ref_lib ?r ?b = Inr True"
    "\<not> equalsIgnoreCase ''ram'' ''existence''" by code_simp+
  ultimately show ?thesis
    using undeclared_attribute_aborts [of ?r "[?r]" "''hour''" ref_lib ?b ?p ex_tiers "''ram''" "AnyInt 25" ?ty 0]
    by simp
qed

end
