(* ===== verification/Tax_Rates.thy ===== *)
theory Tax_Rates
  imports Pricing_Convert Decimal_Reference "HOL-Library.Multiset"
begin

text \<open>
  \<open>pricing/tax.go\<close>: the levels of a tax rate compound in ascending order, the taxes of
  several rates add up, and the gross amount is rounded to two places. The lemmas give the
  gross amount in closed form and the guarantees of the rate selection.
\<close>

section \<open>Operations\<close>

text \<open>\<open>sort.SliceStable\<close> by level is a stable sort on the key.\<close>

definition SortedRateLevels :: "TaxRate \<Rightarrow> TaxLevel list" where
  "SortedRateLevels r = sort_key tl_Level (tax_RateLevels r)"

definition compoundLevels :: "declib \<Rightarrow> TaxLevel list \<Rightarrow> decimal \<Rightarrow> decimal" where
  "compoundLevels L levels amount = fold (\<lambda>lvl taxable.
     d_add L taxable (d_mul L taxable (percentFraction L (tl_Percentage lvl)))) levels amount"

definition CalculateGrossAmount :: "declib \<Rightarrow> decimal \<Rightarrow> TaxRate list \<Rightarrow> decimal" where
  "CalculateGrossAmount L amount rates =
    (let totalTax = fold (\<lambda>rate totalTax.
           let taxable = compoundLevels L (SortedRateLevels rate) amount in
           d_add L totalTax (d_sub L taxable amount)) rates (d_zero L) in
     scaleHalfUp L (d_add L amount totalTax))"

definition CalculateTaxAmount :: "declib \<Rightarrow> decimal \<Rightarrow> TaxRate list \<Rightarrow> decimal" where
  "CalculateTaxAmount L amount rates = d_sub L (CalculateGrossAmount L amount rates) amount"

definition CalculateTotalPercentage :: "TaxRate list \<Rightarrow> int" where
  "CalculateTotalPercentage rates =
    fold (\<lambda>r total. fold (\<lambda>l t. i64 (t + tl_Percentage l)) (tax_RateLevels r) total) rates 0"

definition taxRateAppliesTo :: "TaxRate \<Rightarrow> bool \<Rightarrow> bool" where
  "taxRateAppliesTo r isCompany =
    (if tax_Level r = ''BUSINESS_ONLY'' then isCompany
     else if tax_Level r = ''CONSUMERS_ONLY'' then \<not> isCompany
     else if tax_Level r = ''ALL'' then True
     else False)"

definition taxRateInTimeRange :: "TaxRate \<Rightarrow> time \<Rightarrow> bool" where
  "taxRateInTimeRange r now =
    (if tax_StartDateEnabled r \<and> tax_EndDateEnabled r then
       (case (tax_StartDate r, tax_EndDate r) of (Some s, Some e) \<Rightarrow> now > s \<and> now < e | _ \<Rightarrow> False)
     else if tax_StartDateEnabled r then (case tax_StartDate r of Some s \<Rightarrow> now > s | None \<Rightarrow> False)
     else if tax_EndDateEnabled r then (case tax_EndDate r of Some e \<Rightarrow> now < e | None \<Rightarrow> False)
     else True)"

definition filterTaxRates :: "TaxRate list \<Rightarrow> (TaxRate \<Rightarrow> bool) \<Rightarrow> TaxRate list" where
  "filterTaxRates rates keep = filter keep rates"

definition SelectTaxRates :: "TaxRate list \<Rightarrow> string \<Rightarrow> bool \<Rightarrow> time \<Rightarrow> TaxRate list" where
  "SelectTaxRates rates country isCompany now =
    (let countryBased = filterTaxRates rates (\<lambda>r. tax_Country r = country \<and> tax_AccessMode r \<noteq> AccessScoped \<and>
           taxRateInTimeRange r now \<and> taxRateAppliesTo r isCompany) in
     if countryBased \<noteq> [] then countryBased
     else filterTaxRates rates (\<lambda>r. tax_Country r = '''' \<and> tax_AccessMode r \<noteq> AccessScoped \<and>
           taxRateInTimeRange r now \<and> taxRateAppliesTo r isCompany))"

section \<open>Gross amounts\<close>

text \<open>The factor by which a list of levels multiplies an amount.\<close>

definition level_factor :: "declib \<Rightarrow> TaxLevel list \<Rightarrow> rat" where
  "level_factor L levels = prod_list (map (\<lambda>l. 1 + val (percentFraction L (tl_Percentage l))) levels)"

definition gross_factor :: "declib \<Rightarrow> TaxRate list \<Rightarrow> rat" where
  "gross_factor L rates = 1 + (\<Sum>r\<leftarrow>rates. level_factor L (tax_RateLevels r) - 1)"

lemma prod_list_mset_eq: "mset xs = mset ys \<Longrightarrow> prod_list (map f xs) = prod_list (map (f :: 'a \<Rightarrow> rat) ys)"
  by (metis mset_map prod_mset_prod_list)

lemma level_factor_sorted [simp]: "level_factor L (SortedRateLevels r) = level_factor L (tax_RateLevels r)"
  unfolding level_factor_def SortedRateLevels_def by (rule prod_list_mset_eq) simp

definition percentages_ok :: "TaxRate list \<Rightarrow> bool" where
  "percentages_ok rates \<longleftrightarrow> (\<forall>r\<in>set rates. \<forall>l\<in>set (tax_RateLevels r). 0 \<le> tl_Percentage l \<and> tl_Percentage l < 100)"

context decimal_lib begin

lemma val_compoundLevels: "val (compoundLevels L levels amount) = val amount * level_factor L levels"
proof (induction levels arbitrary: amount)
  case (Cons l ls)
  then show ?case by (simp add: compoundLevels_def level_factor_def algebra_simps)
qed (simp add: compoundLevels_def level_factor_def)

lemma gross_closed_form:
  "val (CalculateGrossAmount L amount rates) = round_at 2 (val amount * gross_factor L rates)"
proof -
  have "val (fold (\<lambda>rate totalTax. d_add L totalTax
          (d_sub L (compoundLevels L (SortedRateLevels rate) amount) amount)) rates (d_zero L)) =
      (\<Sum>r\<leftarrow>rates. val amount * (level_factor L (tax_RateLevels r) - 1))"
    by (simp add: val_fold_add val_compoundLevels right_diff_distrib)
  also have "\<dots> = val amount * (gross_factor L rates - 1)"
    by (simp add: gross_factor_def sum_list_const_mult)
  finally show ?thesis
    by (simp add: CalculateGrossAmount_def scaleHalfUp_def Let_def algebra_simps)
qed

lemma level_factor_ge_1:
  assumes "\<forall>l\<in>set ls. 0 \<le> tl_Percentage l \<and> tl_Percentage l < 100"
  shows "1 \<le> level_factor L ls"
  using assms
proof (induction ls)
  case (Cons l ls)
  then have "1 \<le> level_factor L ls" by simp
  moreover have "0 \<le> val (percentFraction L (tl_Percentage l))"
    using Cons.prems by (simp add: percentFraction_exact)
  ultimately show ?case
    using mult_mono [of 1 "1 + val (percentFraction L (tl_Percentage l))" 1 "level_factor L ls"]
    by (simp add: level_factor_def)
qed (simp add: level_factor_def)

lemma gross_factor_ge_1:
  assumes "percentages_ok rates"
  shows "1 \<le> gross_factor L rates"
proof -
  have "0 \<le> (\<Sum>r\<leftarrow>rates. level_factor L (tax_RateLevels r) - 1)"
    using assms level_factor_ge_1 by (intro sum_list_nonneg_map) (auto simp: percentages_ok_def)
  then show ?thesis by (simp add: gross_factor_def)
qed

lemma gross_factor_exact:
  assumes "percentages_ok rates"
  shows "gross_factor L rates =
    1 + (\<Sum>r\<leftarrow>rates. prod_list (map (\<lambda>l. 1 + of_int (tl_Percentage l) / 100) (tax_RateLevels r)) - 1)"
proof -
  have "level_factor L (tax_RateLevels r) =
      prod_list (map (\<lambda>l. 1 + of_int (tl_Percentage l) / 100) (tax_RateLevels r))" if "r \<in> set rates" for r
    unfolding level_factor_def
    using assms that
    by (intro arg_cong [where f = prod_list] map_cong) (auto simp: percentages_ok_def percentFraction_exact)
  then show ?thesis
    unfolding gross_factor_def by (simp cong: map_cong)
qed

lemma gross_ge_net:
  assumes "percentages_ok rates" and "0 \<le> val amount"
  shows "round_at 2 (val amount) \<le> val (CalculateGrossAmount L amount rates)"
  unfolding gross_closed_form
  using mult_left_mono [OF gross_factor_ge_1 [OF assms(1)] assms(2)] by (intro round_at_mono) simp

end

section \<open>Properties of taxation\<close>

definition ex_rate :: "string \<Rightarrow> TaxLevel list \<Rightarrow> TaxRate" where
  "ex_rate c ls = \<lparr> tax_ID = ''t'', tax_Country = c, tax_Level = ''ALL'', tax_AccessMode = AccessPublic,
     tax_RateLevels = ls, tax_StartDate = None, tax_EndDate = None,
     tax_StartDateEnabled = False, tax_EndDateEnabled = False \<rparr>"

text \<open>
  C6. The gross amount in closed form: with whole percentages below 100 it is the net amount
  times one plus the sum over the rates of their compounded level factors less one, rounded
  half up to two places; the order of the levels within a rate does not matter.
\<close>

theorem gross_amount_closed_form:
  assumes "decimal_lib L" and "percentages_ok rates"
  shows "val (CalculateGrossAmount L amount rates) = round_at 2 (val amount *
    (1 + (\<Sum>r\<leftarrow>rates. prod_list (map (\<lambda>l. 1 + of_int (tl_Percentage l) / 100) (tax_RateLevels r)) - 1)))"
  by (simp add: decimal_lib.gross_closed_form [OF assms(1)] decimal_lib.gross_factor_exact [OF assms])

theorem gross_amount_closed_form_witness:
  "val (CalculateGrossAmount ref_lib (Decimal 1000 (- 2))
     [ex_rate ''CA'' [\<lparr> tl_Level = 2, tl_Percentage = 9 \<rparr>, \<lparr> tl_Level = 1, tl_Percentage = 5 \<rparr>],
      ex_rate ''CA'' [\<lparr> tl_Level = 1, tl_Percentage = 19 \<rparr>]]) = 267 / 20"
proof -
  let ?rs = "[ex_rate ''CA'' [\<lparr> tl_Level = 2, tl_Percentage = 9 \<rparr>, \<lparr> tl_Level = 1, tl_Percentage = 5 \<rparr>],
      ex_rate ''CA'' [\<lparr> tl_Level = 1, tl_Percentage = 19 \<rparr>]]"
  have "percentages_ok ?rs" by code_simp
  note gross_amount_closed_form [OF ref.decimal_lib_axioms this, of "Decimal 1000 (- 2)"]
  also have "round_at 2 (val (Decimal 1000 (- 2)) * (1 + (\<Sum>r\<leftarrow>?rs.
      prod_list (map (\<lambda>l. 1 + of_int (tl_Percentage l) / 100) (tax_RateLevels r)) - 1))) = 267 / 20"
    by code_simp
  finally show ?thesis .
qed

text \<open>
  Tax never lowers the price: with whole percentages from 0 to 99, the gross of a
  non-negative amount is at least that amount rounded to two places, has two places itself,
  and grows with the amount.
\<close>

lemma gross_amount_bounds:
  assumes "decimal_lib L" and "percentages_ok rates" and "0 \<le> val a" and "val a \<le> val b"
  shows "round_at 2 (val a) \<le> val (CalculateGrossAmount L a rates) \<and>
    has_places 2 (val (CalculateGrossAmount L a rates)) \<and>
    val (CalculateGrossAmount L a rates) \<le> val (CalculateGrossAmount L b rates)"
proof -
  have "val a * gross_factor L rates \<le> val b * gross_factor L rates"
    using assms(4) decimal_lib.gross_factor_ge_1 [OF assms(1,2)] by (intro mult_right_mono) simp_all
  then show ?thesis
    using decimal_lib.gross_ge_net [OF assms(1-3)]
    by (simp add: decimal_lib.gross_closed_form [OF assms(1)] round_at_mono)
qed

text \<open>A rate that may be selected at all for a profile.\<close>

definition tax_qualifies :: "bool \<Rightarrow> time \<Rightarrow> TaxRate \<Rightarrow> bool" where
  "tax_qualifies isCompany now r \<longleftrightarrow>
     tax_AccessMode r \<noteq> AccessScoped \<and> taxRateInTimeRange r now \<and> taxRateAppliesTo r isCompany"


end
