(* ===== verification/Exchange.thy ===== *)
theory Exchange
  imports Pricing_Convert Decimal_Reference
begin

text \<open>
  \<open>pricing/fx.go\<close>: currency conversion. The rate client is code outside the repository; an
  \<open>Exchanger\<close> is \<open>None\<close> (no client configured) or the function that fetches a rate. The
  lemmas show that a conversion within one currency never asks for a rate.
\<close>

type_synonym exchange_client = "string \<Rightarrow> string \<Rightarrow> time \<Rightarrow> decimal res"
type_synonym exchanger = "exchange_client option"

definition GetExchangeRate :: "declib \<Rightarrow> exchanger \<Rightarrow> string \<Rightarrow> string \<Rightarrow> time \<Rightarrow> decimal res" where
  "GetExchangeRate L x baseCurrency exchangedCurrency date =
    (if baseCurrency = exchangedCurrency then Inr (d_of_int L 1)
     else case x of
       None \<Rightarrow> Inl (Failure (''exchange rate client not configured ('' @ baseCurrency @ ''->'' @ exchangedCurrency @ '')''))
     | Some client \<Rightarrow> client baseCurrency exchangedCurrency date)"

definition Exchange :: "declib \<Rightarrow> exchanger \<Rightarrow> decimal \<Rightarrow> string \<Rightarrow> string \<Rightarrow> time \<Rightarrow> decimal res" where
  "Exchange L x amount baseCurrency exchangedCurrency date =
    (if baseCurrency = exchangedCurrency then Inr amount
     else bindR (GetExchangeRate L x baseCurrency exchangedCurrency date) (\<lambda>rate. Inr (d_mul L amount rate)))"

text \<open>A zero rate panics in \<open>DivRound\<close>.\<close>

definition divHalfUpScale :: "declib \<Rightarrow> decimal \<Rightarrow> decimal \<Rightarrow> decimal res" where
  "divHalfUpScale L amount rate =
    (let e = exponent amount; scale = (if e < 0 then nat (- e) else 0) in
     case d_div_round L amount rate scale of Some q \<Rightarrow> Inr q | None \<Rightarrow> Inl (Panic ''decimal division by 0''))"

definition ExchangeToProductCurrency :: "declib \<Rightarrow> exchanger \<Rightarrow> decimal \<Rightarrow> string \<Rightarrow> string \<Rightarrow> time \<Rightarrow> decimal res" where
  "ExchangeToProductCurrency L x amount currency baseCurrency date =
    (if baseCurrency = currency then Inr amount
     else bindR (GetExchangeRate L x baseCurrency currency date) (\<lambda>rate. divHalfUpScale L amount rate))"

definition ExchangeToBillingProfileCurrency ::
    "declib \<Rightarrow> exchanger \<Rightarrow> decimal \<Rightarrow> string \<Rightarrow> string \<Rightarrow> time \<Rightarrow> decimal res" where
  "ExchangeToBillingProfileCurrency L x amount profileCurrency currentCurrency date =
    (if profileCurrency = currentCurrency then Inr amount
     else bindR (GetExchangeRate L x currentCurrency profileCurrency date) (\<lambda>rate. Inr (d_mul L amount rate)))"

lemma Exchange_same [simp]: "Exchange L x amount c c date = Inr amount"
  by (simp add: Exchange_def)

lemma GetExchangeRate_same [simp]: "GetExchangeRate L x c c date = Inr (d_of_int L 1)"
  by (simp add: GetExchangeRate_def)

lemma Exchange_unconfigured: "c \<noteq> d \<Longrightarrow> \<exists>e. Exchange L None amount c d date = Inl e"
  by (simp add: Exchange_def GetExchangeRate_def)

context decimal_lib begin

lemma Exchange_value:
  "Exchange L x amount c d date = Inr r \<Longrightarrow>
    \<exists>rate. GetExchangeRate L x c d date = Inr rate \<and> val r = val amount * val rate"
  by (auto simp: Exchange_def bindR_eq_Inr split: if_splits)

lemma divHalfUpScale_value:
  assumes "divHalfUpScale L amount rate = Inr q"
  shows "val q = round_at (nat (- exponent amount)) (val amount / val rate)" and "val rate \<noteq> 0"
proof -
  let ?s = "if exponent amount < 0 then nat (- exponent amount) else 0"
  have s: "?s = nat (- exponent amount)" by simp
  from assms obtain q' where q': "d_div_round L amount rate ?s = Some q'" "q = q'"
    by (auto simp: divHalfUpScale_def Let_def split: option.splits)
  then show "val rate \<noteq> 0" using div_round_None by fastforce
  then obtain q'' where "d_div_round L amount rate ?s = Some q''" "val q'' = round_at ?s (val amount / val rate)"
    using div_round_Some by blast
  with q' show "val q = round_at (nat (- exponent amount)) (val amount / val rate)"
    unfolding s by simp
qed

lemma divHalfUpScale_total:
  assumes "val rate \<noteq> 0"
  obtains q where "divHalfUpScale L amount rate = Inr q"
  using div_round_Some [OF assms] that unfolding divHalfUpScale_def Let_def
  by (metis (no_types, lifting) option.simps(5))

text \<open>
  Converting to the product currency and back is exact up to half a unit in the last place of
  the amount, scaled by the rate.
\<close>

lemma product_currency_roundtrip:
  assumes "divHalfUpScale L amount rate = Inr q" and "0 < val rate"
  shows "\<bar>val q * val rate - val amount\<bar> \<le> val rate / (2 * 10 ^ nat (- exponent amount))"
proof -
  let ?p = "nat (- exponent amount)" and ?x = "val amount / val rate"
  have "val q * val rate - val amount = (round_at ?p ?x - ?x) * val rate"
    using divHalfUpScale_value [OF assms(1)] assms(2) by (simp add: field_simps)
  then have "\<bar>val q * val rate - val amount\<bar> = \<bar>round_at ?p ?x - ?x\<bar> * val rate"
    using assms(2) by (simp add: abs_mult)
  also have "\<dots> \<le> 1 / (2 * 10 ^ ?p) * val rate"
    using round_at_error assms(2) by (intro mult_right_mono) auto
  finally show ?thesis by simp
qed

end



end
