(* ===== verification/Doc_Store.thy ===== *)
theory Doc_Store
  imports Go_Prelude "HOL-Library.List_Lexorder" "HOL-Library.Char_ord"
begin

text \<open>
  \<open>internal/pgdoc/store.go\<close>: a document table \<open>(id text primary key, doc jsonb)\<close>, as the list
  of its rows. A filter of the sources is a predicate on documents; the row order stands for
  the unspecified order of a query without a sort. \<open>FindOne\<close> and \<open>FindOneForUpdate\<close> pick the
  lowest id. The locale \<open>document_store\<close> is what the repositories rely on: reads return the
  last write of the same id, and a write of one id leaves the other documents alone.
\<close>

type_synonym 'd table = "(string \<times> 'd) list"

definition storeGet :: "'d table \<Rightarrow> string \<Rightarrow> 'd option" where
  "storeGet t key = (if key = '''' then None else map_of t key)"

definition storeFind :: "('d \<Rightarrow> bool) \<Rightarrow> 'd table \<Rightarrow> 'd list" where
  "storeFind P t = map snd (filter (\<lambda>r. P (snd r)) t)"

definition storeFindOne :: "('d \<Rightarrow> bool) \<Rightarrow> 'd table \<Rightarrow> (string \<times> 'd) option" where
  "storeFindOne P t = (case sort_key fst (filter (\<lambda>r. P (snd r)) t) of [] \<Rightarrow> None | r # _ \<Rightarrow> Some r)"

definition storeExists :: "('d \<Rightarrow> bool) \<Rightarrow> 'd table \<Rightarrow> bool" where
  "storeExists P t \<longleftrightarrow> (\<exists>r\<in>set t. P (snd r))"

definition storeCount :: "('d \<Rightarrow> bool) \<Rightarrow> 'd table \<Rightarrow> int" where
  "storeCount P t = int (length (filter (\<lambda>r. P (snd r)) t))"

text \<open>An empty id is replaced by a fresh one; an id in use violates the primary key.\<close>

definition storeInsertOne :: "string \<Rightarrow> string \<Rightarrow> 'd \<Rightarrow> 'd table \<Rightarrow> (string \<times> 'd table) res" where
  "storeInsertOne newID key d t = (let i = (if key = '''' then newID else key) in
     if i \<in> fst ` set t then Inl (Failure ''duplicate key value violates unique constraint'')
     else Inr (i, t @ [(i, d)]))"

fun replaceRow :: "string \<Rightarrow> ('d \<Rightarrow> 'd) \<Rightarrow> 'd table \<Rightarrow> 'd table" where
  "replaceRow key f [] = []"
| "replaceRow key f ((i, d) # t) = (if i = key then (i, f d) # t else (i, d) # replaceRow key f t)"

definition storeReplace :: "string \<Rightarrow> 'd \<Rightarrow> 'd table \<Rightarrow> bool \<times> 'd table" where
  "storeReplace key d t = (key \<in> fst ` set t, replaceRow key (\<lambda>_. d) t)"

definition storeUpsert :: "string \<Rightarrow> 'd \<Rightarrow> 'd table \<Rightarrow> 'd table" where
  "storeUpsert key d t = (if key \<in> fst ` set t then replaceRow key (\<lambda>_. d) t else t @ [(key, d)])"

text \<open>\<open>SetByID\<close>: a partial update is a function on the document.\<close>

definition storeSetByID :: "string \<Rightarrow> ('d \<Rightarrow> 'd) \<Rightarrow> 'd table \<Rightarrow> bool \<times> 'd table" where
  "storeSetByID key f t = (key \<in> fst ` set t, replaceRow key f t)"

definition storeSetFields :: "('d \<Rightarrow> bool) \<Rightarrow> ('d \<Rightarrow> 'd) \<Rightarrow> 'd table \<Rightarrow> int \<times> 'd table" where
  "storeSetFields P f t = (storeCount P t, map (\<lambda>r. if P (snd r) then (fst r, f (snd r)) else r) t)"

definition storeDeleteByID :: "string \<Rightarrow> 'd table \<Rightarrow> bool \<times> 'd table" where
  "storeDeleteByID key t = (key \<in> fst ` set t, filter (\<lambda>r. fst r \<noteq> key) t)"

definition storeDeleteMany :: "('d \<Rightarrow> bool) \<Rightarrow> 'd table \<Rightarrow> int \<times> 'd table" where
  "storeDeleteMany P t = (storeCount P t, filter (\<lambda>r. \<not> P (snd r)) t)"

text \<open>The primary key: ids are distinct and not empty.\<close>

definition table_ok :: "'d table \<Rightarrow> bool" where
  "table_ok t \<longleftrightarrow> distinct (map fst t) \<and> '''' \<notin> fst ` set t"

section \<open>The interface\<close>

locale document_store =
  fixes ok :: "'t \<Rightarrow> bool"
    and get :: "'t \<Rightarrow> string \<Rightarrow> 'd option"
    and find_all :: "('d \<Rightarrow> bool) \<Rightarrow> 't \<Rightarrow> 'd list"
    and insert_one :: "string \<Rightarrow> string \<Rightarrow> 'd \<Rightarrow> 't \<Rightarrow> (string \<times> 't) res"
    and set_by_id :: "string \<Rightarrow> ('d \<Rightarrow> 'd) \<Rightarrow> 't \<Rightarrow> bool \<times> 't"
  assumes find_set: "ok t \<Longrightarrow> set (find_all P t) = {d. \<exists>i. get t i = Some d \<and> P d}"
    and insert_ok: "insert_one n i d t = Inr (j, t') \<Longrightarrow> n \<noteq> [] \<Longrightarrow> ok t \<Longrightarrow> ok t'"
    and insert_get: "insert_one n i d t = Inr (j, t') \<Longrightarrow> n \<noteq> [] \<Longrightarrow> ok t \<Longrightarrow>
      get t j = None \<and> get t' = (get t)(j := Some d)"
    and set_ok: "set_by_id i f t = (b, t') \<Longrightarrow> ok t \<Longrightarrow> ok t'"
    and set_get: "set_by_id i f t = (b, t') \<Longrightarrow> ok t \<Longrightarrow>
      get t' = (case get t i of None \<Rightarrow> get t | Some d \<Rightarrow> (get t)(i := Some (f d)))"
    and set_found: "set_by_id i f t = (b, t') \<Longrightarrow> ok t \<Longrightarrow> b \<longleftrightarrow> get t i \<noteq> None"
begin

text \<open>A property of every document survives inserts and updates that respect it.\<close>

lemma insert_preserves:
  assumes "insert_one n i d t = Inr (j, t')" and "n \<noteq> []" and "ok t"
    and "\<forall>x\<in>set (find_all (\<lambda>_. True) t). P x" and "P d"
  shows "\<forall>x\<in>set (find_all (\<lambda>_. True) t'). P x"
  using assms insert_get [OF assms(1-3)]
  by (auto simp: find_set [OF assms(3)] find_set [OF insert_ok [OF assms(1-3)]])

lemma set_preserves:
  assumes "set_by_id i f t = (b, t')" and "ok t"
    and "\<forall>x\<in>set (find_all (\<lambda>_. True) t). P x" and "\<And>x. P x \<Longrightarrow> P (f x)"
  shows "\<forall>x\<in>set (find_all (\<lambda>_. True) t'). P x"
proof -
  have "\<forall>x j. get t j = Some x \<longrightarrow> P x" using assms(3) by (auto simp: find_set [OF assms(2)])
  then have "\<forall>x j. get t' j = Some x \<longrightarrow> P x"
    using assms(4) by (auto simp: set_get [OF assms(1,2)] split: option.splits if_splits)
  then show ?thesis by (auto simp: find_set [OF set_ok [OF assms(1,2)]])
qed

text \<open>Two updates of different documents commute on every read.\<close>

lemma set_other: "set_by_id i f t = (b, t') \<Longrightarrow> ok t \<Longrightarrow> j \<noteq> i \<Longrightarrow> get t' j = get t j"
  by (simp add: set_get split: option.splits)

lemma set_commute:
  assumes "set_by_id i f t = (b1, t1)" "set_by_id j g t1 = (b2, t2)"
    and "set_by_id j g t = (b3, t3)" "set_by_id i f t3 = (b4, t4)" and "i \<noteq> j" "ok t"
  shows "get t2 = get t4"
proof -
  have "ok t1" "ok t3" using set_ok assms by blast+
  with assms show ?thesis by (auto simp: set_get fun_upd_twist split: option.splits)
qed

end

section \<open>Tables implement the interface\<close>

lemma replaceRow_keys [simp]: "map fst (replaceRow key f t) = map fst t"
  by (induction key f t rule: replaceRow.induct) auto

lemma replaceRow_key_set [simp]: "fst ` set (replaceRow key f t) = fst ` set t"
  by (metis replaceRow_keys set_map)

lemma map_of_replaceRow:
  "map_of (replaceRow key f t) = (case map_of t key of None \<Rightarrow> map_of t | Some d \<Rightarrow> (map_of t)(key \<mapsto> f d))"
  by (induction key f t rule: replaceRow.induct) (auto split: option.splits simp: fun_eq_iff)

lemma table_ok_replaceRow [simp]: "table_ok (replaceRow key f t) \<longleftrightarrow> table_ok t"
  by (simp add: table_ok_def)

lemma storeGet_map_of: "table_ok t \<Longrightarrow> storeGet t = map_of t"
  by (rule ext) (auto simp: storeGet_def table_ok_def map_of_eq_None_iff [THEN iffD2])

lemma storeFind_set: "table_ok t \<Longrightarrow> set (storeFind P t) = {d. \<exists>i. storeGet t i = Some d \<and> P d}"
  by (force simp: storeFind_def storeGet_map_of table_ok_def dest: map_of_SomeD)

interpretation doc: document_store table_ok storeGet storeFind storeInsertOne storeSetByID
proof unfold_locales
  fix t t' :: "'d table" and P :: "'d \<Rightarrow> bool" and n i j :: string and d :: 'd and f :: "'d \<Rightarrow> 'd" and b :: bool
  show "table_ok t \<Longrightarrow> set (storeFind P t) = {d. \<exists>i. storeGet t i = Some d \<and> P d}"
    by (rule storeFind_set)
  assume ins: "storeInsertOne n i d t = Inr (j, t')" "n \<noteq> []" "table_ok t"
  then show ok: "table_ok t'"
    by (auto simp: storeInsertOne_def Let_def table_ok_def split: if_splits)
  from ins have "j \<notin> fst ` set t" "t' = t @ [(j, d)]"
    by (auto simp: storeInsertOne_def Let_def split: if_splits)
  then show "storeGet t j = None \<and> storeGet t' = (storeGet t)(j := Some d)"
    unfolding storeGet_map_of [OF ins(3)] storeGet_map_of [OF ok]
    by (auto simp: fun_eq_iff map_of_eq_None_iff [symmetric] map_add_def split: option.splits)
next
  fix t t' :: "'d table" and i :: string and f :: "'d \<Rightarrow> 'd" and b :: bool
  assume set: "storeSetByID i f t = (b, t')" and ok: "table_ok t"
  from set have t': "t' = replaceRow i f t" and b: "b \<longleftrightarrow> i \<in> fst ` set t"
    by (simp_all add: storeSetByID_def)
  show ok': "table_ok t'" using ok by (simp add: t')
  show "storeGet t' = (case storeGet t i of None \<Rightarrow> storeGet t | Some d \<Rightarrow> (storeGet t)(i := Some (f d)))"
    unfolding storeGet_map_of [OF ok] storeGet_map_of [OF ok'] by (simp add: t' map_of_replaceRow)
  show "b \<longleftrightarrow> storeGet t i \<noteq> None"
    unfolding storeGet_map_of [OF ok] b by (simp add: map_of_eq_None_iff)
qed

section \<open>Lowest-id reads\<close>

lemma storeFindOne_None: "storeFindOne P t = None \<longleftrightarrow> \<not> storeExists P t"
proof -
  let ?s = "sort_key fst (filter (\<lambda>r. P (snd r)) t)"
  have "storeFindOne P t = None \<longleftrightarrow> ?s = []"
    by (simp add: storeFindOne_def split: list.splits)
  also have "\<dots> \<longleftrightarrow> set ?s = {}" by (simp del: set_sort)
  also have "set ?s = {r \<in> set t. P (snd r)}" by simp
  finally show ?thesis by (auto simp: storeExists_def)
qed

lemma storeFindOne_Some:
  assumes "storeFindOne P t = Some (i, d)"
  shows "(i, d) \<in> set t" and "P d" and "\<And>j e. (j, e) \<in> set t \<Longrightarrow> P e \<Longrightarrow> i \<le> j"
proof -
  let ?s = "sort_key fst (filter (\<lambda>r. P (snd r)) t)"
  from assms obtain rest where s: "?s = (i, d) # rest"
    by (auto simp: storeFindOne_def split: list.splits)
  then have "(i, d) \<in> set ?s" by simp
  then show "(i, d) \<in> set t" "P d" by simp_all
  fix j e assume "(j, e) \<in> set t" "P e"
  then have "(j, e) \<in> set ?s" by simp
  then have "(j, e) = (i, d) \<or> (j, e) \<in> set rest" by (simp add: s)
  moreover have "sorted (map fst ?s)" by simp
  ultimately show "i \<le> j" unfolding s by force
qed

lemma map_of_append_fresh:
  "fst ` set u \<inter> fst ` set t = {} \<Longrightarrow> map_of t i = Some d \<Longrightarrow> map_of (t @ u) i = Some d"
proof -
  assume "fst ` set u \<inter> fst ` set t = {}" and i: "map_of t i = Some d"
  then have "map_of u i = None" by (force simp: map_of_eq_None_iff dest: map_of_SomeD)
  then show ?thesis using i by (simp add: map_add_def)
qed

lemma replaceRow_count:
  "(\<And>d. P (f d) = P d) \<Longrightarrow> storeCount P (replaceRow i f t) = storeCount P t"
  by (induction i f t rule: replaceRow.induct) (auto simp: storeCount_def)

end
