(* ===== verification/Plan_Selection.thy ===== *)
theory Plan_Selection
  imports Doc_Store Rating_Engine
begin

text \<open>
  \<open>pricing/planselect.go\<close>, the choice of a profile's price plans and rules over the two source
  interfaces, and \<open>pricing/repo.go\<close>, the adapters that implement them on the document tables.
  A query error collapses to not-found or empty, so the adapters take the table as an option:
  \<open>None\<close> is a failed query.
\<close>

section \<open>Selection\<close>

record PricePlanSource =
  src_FindByID :: "string \<Rightarrow> PricePlan option"
  src_PublicPricePlans :: "PricePlan list"

type_synonym PricePlanRuleSource = "string \<Rightarrow> string \<Rightarrow> PricePlanRule list"

definition SelectPricePlans :: "PricePlanSource \<Rightarrow> string list \<Rightarrow> bool \<Rightarrow> PricePlan list" where
  "SelectPricePlans src pricePlanIDs includePublic =
    (if pricePlanIDs \<noteq> [] then
       List.map_filter (\<lambda>i. case src_FindByID src i of
           Some pp \<Rightarrow> if pp_Enabled pp \<and> pp_AccessMode pp = AccessScoped then Some pp else None
         | None \<Rightarrow> None) pricePlanIDs
       @ (if includePublic then src_PublicPricePlans src else [])
     else src_PublicPricePlans src)"

definition SelectPricePlansForService :: "PricePlanSource \<Rightarrow> string list \<Rightarrow> bool \<Rightarrow> string \<Rightarrow> PricePlan list" where
  "SelectPricePlansForService src pricePlanIDs includePublic externalServiceID =
    filter (\<lambda>pp. IsServiceProviderScoped pp externalServiceID) (SelectPricePlans src pricePlanIDs includePublic)"

definition ApplicableRules :: "PricePlan list \<Rightarrow> PricePlanRuleSource \<Rightarrow> string \<Rightarrow> PricePlanRule list" where
  "ApplicableRules plans ruleSrc timeUnit = concat (map (\<lambda>pp. ruleSrc (pp_ID pp) timeUnit) plans)"

section \<open>The adapters of the repository\<close>

definition FindPricePlanByID :: "PricePlan table \<Rightarrow> string \<Rightarrow> PricePlan option" where
  "FindPricePlanByID t i = map_option snd (storeFindOne (\<lambda>p. pp_ID p = i) t)"

definition PublicPricePlans :: "PricePlan table \<Rightarrow> PricePlan list" where
  "PublicPricePlans t = storeFind (\<lambda>p. pp_AccessMode p = AccessPublic \<and> pp_Enabled p) t"

definition RulesByPricePlanIDAndTimeUnit :: "PricePlanRule table \<Rightarrow> string \<Rightarrow> string \<Rightarrow> PricePlanRule list" where
  "RulesByPricePlanIDAndTimeUnit t i u = storeFind (\<lambda>r. rule_PricePlanID r = i \<and> rule_TimeUnit r = u) t"

definition repoPlanSource :: "PricePlan table option \<Rightarrow> PricePlanSource" where
  "repoPlanSource q = \<lparr> src_FindByID = (\<lambda>i. case q of None \<Rightarrow> None | Some t \<Rightarrow> FindPricePlanByID t i),
     src_PublicPricePlans = (case q of None \<Rightarrow> [] | Some t \<Rightarrow> PublicPricePlans t) \<rparr>"

definition repoRuleSource :: "PricePlanRule table option \<Rightarrow> PricePlanRuleSource" where
  "repoRuleSource q i u = (case q of None \<Rightarrow> [] | Some t \<Rightarrow> RulesByPricePlanIDAndTimeUnit t i u)"

section \<open>What the sources promise\<close>

locale price_plan_source =
  fixes src :: PricePlanSource
  assumes find_id: "src_FindByID src i = Some p \<Longrightarrow> pp_ID p = i"
    and public_enabled: "p \<in> set (src_PublicPricePlans src) \<Longrightarrow> pp_Enabled p \<and> pp_AccessMode p = AccessPublic"
begin

lemma selected_plans:
  assumes "p \<in> set (SelectPricePlans src ids inc)"
  shows "pp_Enabled p \<and> (pp_AccessMode p = AccessPublic \<and> (ids = [] \<or> inc) \<or>
    pp_AccessMode p = AccessScoped \<and> pp_ID p \<in> set ids)"
  using assms public_enabled find_id
  by (auto simp: SelectPricePlans_def List.map_filter_def split: option.splits if_splits)

end

locale price_plan_rule_source =
  fixes ruleSrc :: PricePlanRuleSource
  assumes rule_plan_unit: "r \<in> set (ruleSrc i u) \<Longrightarrow> rule_PricePlanID r = i \<and> rule_TimeUnit r = u"
begin

lemma applicable_rules:
  assumes "r \<in> set (ApplicableRules plans ruleSrc u)"
  shows "rule_TimeUnit r = u \<and> (\<exists>p\<in>set plans. rule_PricePlanID r = pp_ID p)"
  using assms rule_plan_unit by (fastforce simp: ApplicableRules_def)

text \<open>The engine's own time-unit test lets every applicable rule through.\<close>

lemma applicable_unit_matches: "filter (unit_matches u) (ApplicableRules plans ruleSrc u) = ApplicableRules plans ruleSrc u"
  by (rule filter_True) (auto simp: unit_matches_def dest: applicable_rules)

end

interpretation plan_repo: price_plan_source "repoPlanSource q"
proof unfold_locales
  show "src_FindByID (repoPlanSource q) i = Some p \<Longrightarrow> pp_ID p = i" for i p
    by (auto simp: repoPlanSource_def FindPricePlanByID_def split: option.splits dest: storeFindOne_Some)
  show "p \<in> set (src_PublicPricePlans (repoPlanSource q)) \<Longrightarrow> pp_Enabled p \<and> pp_AccessMode p = AccessPublic" for p
    by (auto simp: repoPlanSource_def PublicPricePlans_def storeFind_def split: option.splits)
qed

interpretation rule_repo: price_plan_rule_source "repoRuleSource q"
  by unfold_locales
    (auto simp: repoRuleSource_def RulesByPricePlanIDAndTimeUnit_def storeFind_def split: option.splits)

section \<open>Properties of the selection\<close>


definition ex_plan :: "string \<Rightarrow> string \<Rightarrow> PricePlan" where
  "ex_plan i mode = \<lparr> pp_ID = i, pp_Name = i, pp_Enabled = True, pp_AccessMode = mode, pp_ServiceProviders = [] \<rparr>"


end
