(* ===== verification/Bill_Build.thy ===== *)
theory Bill_Build
  imports Rating_Engine
begin

text \<open>
  \<open>pricing/bill_build.go\<close>: rated results accumulate on the bill item of their resource. The
  sources mutate the item through a pointer into \<open>bill.Items\<close>; here each operation returns
  the updated value. The lemmas show the cap on an item's amount, the bound on its counters,
  that a second run at the same timestamp adds nothing, and that only the item of the charged
  resource changes.
\<close>

section \<open>Operations\<close>

definition round16 :: "declib \<Rightarrow> decimal \<Rightarrow> decimal" where
  "round16 L d = d_round L d 16"

definition getLastRateTime :: "Bill \<Rightarrow> BillingResource \<Rightarrow> time option" where
  "getLastRateTime bill res = (case br_CreatedAt res of None \<Rightarrow> None
     | Some createdAt \<Rightarrow> (case bill_BillingCycle bill of None \<Rightarrow> None
         | Some c \<Rightarrow> (case cycle_StartDate c of None \<Rightarrow> None
             | Some start \<Rightarrow> if createdAt < start then Some start else Some createdAt)))"

definition getBillItemName :: "BillingResource \<Rightarrow> string" where
  "getBillItemName res = (case map_of (br_Values res) ''display_name'' of
     Some (AnyString s) \<Rightarrow> s | _ \<Rightarrow> br_ResourceID res)"

definition getTotalCap :: "declib \<Rightarrow> BillingContext \<Rightarrow> string \<Rightarrow> PricePlanRuleResult list \<Rightarrow> decimal" where
  "getTotalCap L bc timeUnit results =
    (let limit = d_of_int L (timeUnitLimit bc timeUnit) in
     fold (\<lambda>r total.
       let sum = fold (\<lambda>a s. d_add L s (amt_NetAmount a)) (res_Amounts r) (d_zero L) in
       d_add L total (d_mul L limit sum)) results (d_zero L))"

definition getTimeUnitsDiff :: "BillingContext \<Rightarrow> RatingContext \<Rightarrow> BillItem \<Rightarrow> BillingResource \<Rightarrow> int" where
  "getTimeUnitsDiff bc rc item res =
    (let chargeTime = (case br_DeletedAt res of None \<Rightarrow> rc_CycleTimestamp rc | Some t \<Rightarrow> t);
         limit = timeUnitLimit bc (rc_TimeUnit rc); tu = item_TimeUnits item in
     if rc_TimeUnit rc = TimeUnitMinute then
       (case tu_MinuteLastRateTime tu of None \<Rightarrow> 1
        | Some lastRate \<Rightarrow> min (quot (timeSub chargeTime lastRate) minute) (i64 (limit - tu_Minute tu)))
     else if rc_TimeUnit rc = TimeUnitHour then
       (case tu_HourLastRateTime tu of None \<Rightarrow> 1
        | Some lastRate \<Rightarrow> min (quot (timeSub chargeTime lastRate) hour) (i64 (limit - tu_Hour tu)))
     else if rc_TimeUnit rc = TimeUnitMonth then 1
     else 0)"

definition advanceTimeUnits :: "RatingContext \<Rightarrow> int \<Rightarrow> BillItemTimeUnits \<Rightarrow> BillItemTimeUnits" where
  "advanceTimeUnits rc diff tu =
    (if rc_TimeUnit rc = TimeUnitMinute then
       tu \<lparr> tu_Minute := i64 (diff + tu_Minute tu), tu_MinuteLastRateTime := Some (rc_CycleTimestamp rc) \<rparr>
     else if rc_TimeUnit rc = TimeUnitHour then
       tu \<lparr> tu_Hour := i64 (diff + tu_Hour tu), tu_HourLastRateTime := Some (rc_CycleTimestamp rc) \<rparr>
     else if rc_TimeUnit rc = TimeUnitMonth then
       tu \<lparr> tu_Month := i64 (diff + tu_Month tu), tu_MonthLastRateTime := Some (rc_CycleTimestamp rc) \<rparr>
     else tu)"

definition applyOverwriteTotal :: "PricePlanRule \<Rightarrow> bool" where
  "applyOverwriteTotal rule \<longleftrightarrow> rule_ApplyMethod rule = ApplyOverwriteTotal"

definition createAppliedPricePlanRule :: "declib \<Rightarrow> PricePlanRuleResult \<Rightarrow> string \<Rightarrow> int \<Rightarrow> BillItemAppliedPricePlanRule" where
  "createAppliedPricePlanRule L result ppid diff =
    \<lparr> ar_PricePlanRuleID = ppid, ar_AppliedAmounts =
      map (\<lambda>amt. \<lparr> aa_AttributeName = amt_AttributeName amt,
          aa_LastAttributeValue = AnyDecimal (amt_AttributeValue amt),
          aa_NetAmount = d_mul L (round16 L (amt_NetAmount amt)) (d_of_int L diff) \<rparr>) (res_Amounts result) \<rparr>"

text \<open>One amount of a result on the applied amounts: update the first entry of the attribute, else append.\<close>

definition updateAppliedAmount :: "declib \<Rightarrow> bool \<Rightarrow> int \<Rightarrow> PricePlanRuleResultAmount \<Rightarrow>
    BillItemAppliedPricePlanRuleAmount list \<Rightarrow> BillItemAppliedPricePlanRuleAmount list" where
  "updateAppliedAmount L overwrite diff amt amounts =
    (let net = round16 L (amt_NetAmount amt); here = (\<lambda>e. aa_AttributeName e = amt_AttributeName amt) in
     if find here amounts \<noteq> None
     then updateFirst here (\<lambda>e. e \<lparr>
            aa_NetAmount := (if overwrite then net else d_add L (aa_NetAmount e) (d_mul L net (d_of_int L diff))),
            aa_LastAttributeValue := AnyDecimal (amt_AttributeValue amt) \<rparr>) amounts
     else amounts @ [\<lparr> aa_AttributeName = amt_AttributeName amt,
            aa_LastAttributeValue = AnyDecimal (amt_AttributeValue amt), aa_NetAmount = net \<rparr>])"

definition updateAppliedPricePlanRule :: "declib \<Rightarrow> PricePlanRuleResult \<Rightarrow> int \<Rightarrow>
    BillItemAppliedPricePlanRule \<Rightarrow> BillItemAppliedPricePlanRule" where
  "updateAppliedPricePlanRule L result diff applied =
     applied \<lparr> ar_AppliedAmounts := fold (updateAppliedAmount L (applyOverwriteTotal (res_Rule result)) diff)
       (res_Amounts result) (ar_AppliedAmounts applied) \<rparr>"

definition applyResult :: "declib \<Rightarrow> int \<Rightarrow> PricePlanRuleResult \<Rightarrow>
    BillItemAppliedPricePlanRule list \<Rightarrow> BillItemAppliedPricePlanRule list" where
  "applyResult L diff result applied =
    (let ppid = rule_ID (res_Rule result); here = (\<lambda>a. ar_PricePlanRuleID a = ppid) in
     if find here applied \<noteq> None
     then updateFirst here (updateAppliedPricePlanRule L result diff) applied
     else applied @ [createAppliedPricePlanRule L result ppid diff])"

definition calculateBillItemAppliedAmounts :: "declib \<Rightarrow> BillItem \<Rightarrow> decimal" where
  "calculateBillItemAppliedAmounts L item =
    fold (\<lambda>r total. fold (\<lambda>a t. d_add L t (aa_NetAmount a)) (ar_AppliedAmounts r) total)
      (item_AppliedPricePlanRules item) (d_zero L)"

definition updateBillItems :: "declib \<Rightarrow> RatingContext \<Rightarrow> BillingContext \<Rightarrow> BillingResource \<Rightarrow>
    PricePlanRuleResult list \<Rightarrow> BillItem \<Rightarrow> BillItem" where
  "updateBillItems L rc bc res results item =
    (if br_NotEligibleForBilling res then item
     else let totalCap = getTotalCap L bc (rc_TimeUnit rc) results in
       if \<not> d_cmp L totalCap (item_NetAmount item) > 0 then item
       else
         let diff = getTimeUnitsDiff bc rc item res;
             item1 = item \<lparr> item_TimeUnits := advanceTimeUnits rc diff (item_TimeUnits item),
               item_AppliedPricePlanRules := fold (applyResult L diff) results (item_AppliedPricePlanRules item) \<rparr>;
             calc = calculateBillItemAppliedAmounts L item1;
             net = (if d_cmp L calc totalCap > 0 then totalCap else calc) in
         item1 \<lparr> item_NetAmount := round16 L net, item_Name := getBillItemName res, item_Metadata := br_Values res \<rparr>)"

definition newBillItem :: "declib \<Rightarrow> Bill \<Rightarrow> BillingResource \<Rightarrow> time \<Rightarrow> BillItem" where
  "newBillItem L bill res now =
    \<lparr> item_Name = getBillItemName res, item_ResourceID = br_ResourceID res, item_Currency = bill_InvoiceCurrency bill,
      item_ProjectID = br_ProjectID res, item_CreatedAt = Some now, item_UpdatedAt = Some now,
      item_ResourceType = br_ResourceType res, item_NetAmount = d_zero L,
      item_TimeUnits = \<lparr> tu_Minute = 0, tu_MinuteLastRateTime = getLastRateTime bill res,
        tu_Hour = 0, tu_HourLastRateTime = getLastRateTime bill res, tu_Month = 0, tu_MonthLastRateTime = None \<rparr>,
      item_Metadata = br_Values res, item_AppliedPricePlanRules = [] \<rparr>"

definition item_of :: "BillingResource \<Rightarrow> BillItem \<Rightarrow> bool" where
  "item_of res it \<longleftrightarrow> item_ResourceID it = br_ResourceID res \<and> item_ResourceType it = br_ResourceType res"

definition SaveChargingToBill :: "declib \<Rightarrow> RatingContext \<Rightarrow> BillingContext \<Rightarrow> Bill \<Rightarrow> BillingResource \<Rightarrow>
    PricePlanRuleResult list \<Rightarrow> time \<Rightarrow> Bill" where
  "SaveChargingToBill L rc bc bill res results clockNow =
    (let items = (if find (item_of res) (bill_Items bill) = None
           then bill_Items bill @ [newBillItem L bill res clockNow] else bill_Items bill) in
     bill \<lparr> bill_Items := updateFirst (item_of res)
       (\<lambda>it. updateBillItems L rc bc res results it \<lparr> item_UpdatedAt := Some clockNow \<rparr>) items \<rparr>)"

section \<open>Amounts\<close>

text \<open>The sum of the amounts applied to an item, and the cap of a set of results.\<close>

definition applied_total :: "BillItemAppliedPricePlanRule list \<Rightarrow> rat" where
  "applied_total rs = (\<Sum>r\<leftarrow>rs. \<Sum>a\<leftarrow>ar_AppliedAmounts r. val (aa_NetAmount a))"

definition results_total :: "PricePlanRuleResult list \<Rightarrow> rat" where
  "results_total rs = (\<Sum>r\<leftarrow>rs. \<Sum>a\<leftarrow>res_Amounts r. val (amt_NetAmount a))"

text \<open>Results that are already applied once leave the total alone when no unit has elapsed.\<close>

definition amount_applied :: "PricePlanRuleResult \<Rightarrow> BillItemAppliedPricePlanRule list \<Rightarrow> bool" where
  "amount_applied r A \<longleftrightarrow> (\<exists>e. find (\<lambda>a. ar_PricePlanRuleID a = rule_ID (res_Rule r)) A = Some e \<and>
     amt_AttributeName ` set (res_Amounts r) \<subseteq> aa_AttributeName ` set (ar_AppliedAmounts e))"

context decimal_lib begin

lemma val_round16 [simp]: "val (round16 L d) = round_at 16 (val d)"
  by (simp add: round16_def)

lemma val_getTotalCap: "val (getTotalCap L bc u results) = of_int (timeUnitLimit bc u) * results_total results"
  by (simp add: getTotalCap_def Let_def val_fold_add results_total_def sum_list_const_mult)

lemma val_applied_fold:
  "val (fold (\<lambda>r total. fold (\<lambda>a t. d_add L t (aa_NetAmount a)) (ar_AppliedAmounts r) total) rs t0) =
    val t0 + applied_total rs"
  by (induction rs arbitrary: t0) (simp_all add: val_fold_add applied_total_def)

lemma val_calculateBillItemAppliedAmounts:
  "val (calculateBillItemAppliedAmounts L item) = applied_total (item_AppliedPricePlanRules item)"
  by (simp add: calculateBillItemAppliedAmounts_def val_applied_fold)

lemma updateBillItems_frozen:
  assumes "br_NotEligibleForBilling res \<or>
    of_int (timeUnitLimit bc (rc_TimeUnit rc)) * results_total results \<le> val (item_NetAmount item)"
  shows "updateBillItems L rc bc res results item = item"
  using assms by (auto simp: updateBillItems_def val_getTotalCap Let_def)

lemma updateBillItems_open:
  assumes "\<not> br_NotEligibleForBilling res"
    and "val (item_NetAmount item) < of_int (timeUnitLimit bc (rc_TimeUnit rc)) * results_total results"
    and "item' = updateBillItems L rc bc res results item"
    and "diff = getTimeUnitsDiff bc rc item res"
  shows "item_TimeUnits item' = advanceTimeUnits rc diff (item_TimeUnits item)"
    and "item_AppliedPricePlanRules item' = fold (applyResult L diff) results (item_AppliedPricePlanRules item)"
    and "val (item_NetAmount item') = round_at 16 (min
      (applied_total (fold (applyResult L diff) results (item_AppliedPricePlanRules item)))
      (of_int (timeUnitLimit bc (rc_TimeUnit rc)) * results_total results))"
  using assms
  by (auto simp: updateBillItems_def val_getTotalCap Let_def val_calculateBillItemAppliedAmounts min_def not_le)

lemma updateAppliedAmount_keys:
  "aa_AttributeName ` set (updateAppliedAmount L ow diff amt es) =
    insert (amt_AttributeName amt) (aa_AttributeName ` set es)"
proof (cases "\<exists>e\<in>set es. aa_AttributeName e = amt_AttributeName amt")
  case True
  have "map aa_AttributeName (updateAppliedAmount L ow diff amt es) = map aa_AttributeName es"
    using True by (auto simp: updateAppliedAmount_def Let_def find_None_iff intro: map_updateFirst)
  then have "aa_AttributeName ` set (updateAppliedAmount L ow diff amt es) = aa_AttributeName ` set es"
    by (metis set_map)
  with True show ?thesis by force
next
  case False
  then show ?thesis by (auto simp: updateAppliedAmount_def Let_def find_None_iff)
qed

lemma updateAppliedAmounts_keys:
  "aa_AttributeName ` set (fold (updateAppliedAmount L ow diff) amts es) =
    amt_AttributeName ` set amts \<union> aa_AttributeName ` set es"
  by (induction amts arbitrary: es) (auto simp: updateAppliedAmount_keys)

lemma updateAppliedAmount_0:
  assumes "amt_AttributeName amt \<in> aa_AttributeName ` set es"
  shows "(\<Sum>a\<leftarrow>updateAppliedAmount L False 0 amt es. val (aa_NetAmount a)) = (\<Sum>a\<leftarrow>es. val (aa_NetAmount a))"
proof -
  let ?h = "\<lambda>e. aa_AttributeName e = amt_AttributeName amt"
  have "find ?h es \<noteq> None" using assms by (auto simp: find_None_iff)
  moreover have "map (\<lambda>a. val (aa_NetAmount a)) (updateFirst ?h (\<lambda>e. e \<lparr>
      aa_NetAmount := d_add L (aa_NetAmount e) (d_mul L (round16 L (amt_NetAmount amt)) (d_of_int L 0)),
      aa_LastAttributeValue := AnyDecimal (amt_AttributeValue amt) \<rparr>) es) = map (\<lambda>a. val (aa_NetAmount a)) es"
    by (rule map_updateFirst) simp
  ultimately show ?thesis by (simp add: updateAppliedAmount_def Let_def)
qed

lemma updateAppliedAmounts_0:
  assumes "amt_AttributeName ` set amts \<subseteq> aa_AttributeName ` set es"
  shows "(\<Sum>a\<leftarrow>fold (updateAppliedAmount L False 0) amts es. val (aa_NetAmount a)) = (\<Sum>a\<leftarrow>es. val (aa_NetAmount a))"
  using assms
proof (induction amts arbitrary: es)
  case (Cons amt amts)
  then have "amt_AttributeName ` set amts \<subseteq> aa_AttributeName ` set (updateAppliedAmount L False 0 amt es)"
    by (auto simp: updateAppliedAmount_keys)
  from Cons.IH [OF this] Cons.prems show ?case by (simp add: updateAppliedAmount_0)
qed simp

end

context decimal_lib begin

lemma applyResult_here:
  "find (\<lambda>a. ar_PricePlanRuleID a = rule_ID (res_Rule r)) A = Some e \<Longrightarrow>
    find (\<lambda>a. ar_PricePlanRuleID a = rule_ID (res_Rule r)) (applyResult L diff r A) =
      Some (updateAppliedPricePlanRule L r diff e)"
  unfolding applyResult_def Let_def
  by (subst if_P, simp) (subst find_updateFirst, simp_all add: updateAppliedPricePlanRule_def)

lemma amount_applied_self: "amount_applied r (applyResult L diff r A)"
proof (cases "find (\<lambda>a. ar_PricePlanRuleID a = rule_ID (res_Rule r)) A")
  case None
  then have "find (\<lambda>a. ar_PricePlanRuleID a = rule_ID (res_Rule r)) (applyResult L diff r A) =
      Some (createAppliedPricePlanRule L r (rule_ID (res_Rule r)) diff)"
    by (auto simp: applyResult_def Let_def find_append createAppliedPricePlanRule_def)
  then show ?thesis by (auto simp: amount_applied_def createAppliedPricePlanRule_def image_image)
next
  case (Some e)
  from applyResult_here [OF this] show ?thesis
    by (auto simp: amount_applied_def updateAppliedPricePlanRule_def updateAppliedAmounts_keys)
qed

lemma amount_applied_other:
  assumes "amount_applied r' A"
  shows "amount_applied r' (applyResult L diff r A)"
proof (cases "rule_ID (res_Rule r') = rule_ID (res_Rule r)")
  case True
  from assms obtain e where e: "find (\<lambda>a. ar_PricePlanRuleID a = rule_ID (res_Rule r)) A = Some e"
      "amt_AttributeName ` set (res_Amounts r') \<subseteq> aa_AttributeName ` set (ar_AppliedAmounts e)"
    by (auto simp: amount_applied_def True)
  show ?thesis
    unfolding amount_applied_def True applyResult_here [OF e(1)] using e(2)
    by (auto simp: updateAppliedPricePlanRule_def updateAppliedAmounts_keys)
next
  case False
  from assms obtain e where e: "find (\<lambda>a. ar_PricePlanRuleID a = rule_ID (res_Rule r')) A = Some e"
      "amt_AttributeName ` set (res_Amounts r') \<subseteq> aa_AttributeName ` set (ar_AppliedAmounts e)"
    by (auto simp: amount_applied_def)
  let ?here = "\<lambda>a. ar_PricePlanRuleID a = rule_ID (res_Rule r)"
  have "find (\<lambda>a. ar_PricePlanRuleID a = rule_ID (res_Rule r')) (updateFirst ?here f A) = Some e"
    if "\<And>x. ar_PricePlanRuleID (f x) = ar_PricePlanRuleID x" for f
    using e(1) False that by (subst find_updateFirst_other) auto
  then have "find (\<lambda>a. ar_PricePlanRuleID a = rule_ID (res_Rule r')) (applyResult L diff r A) = Some e"
    using e(1) by (simp add: applyResult_def Let_def find_append updateAppliedPricePlanRule_def)
  with e(2) show ?thesis by (simp add: amount_applied_def)
qed

lemma amount_applied_fold:
  "r \<in> set results \<or> amount_applied r A \<Longrightarrow> amount_applied r (fold (applyResult L diff) results A)"
proof (induction results arbitrary: A)
  case (Cons x xs)
  have "r \<in> set xs \<or> amount_applied r (applyResult L diff x A)"
    using Cons.prems amount_applied_self amount_applied_other by auto
  with Cons.IH show ?case by simp
qed simp

lemma applyResult_0:
  assumes "amount_applied r A" and "\<not> applyOverwriteTotal (res_Rule r)"
  shows "applied_total (applyResult L 0 r A) = applied_total A"
proof -
  let ?here = "\<lambda>a. ar_PricePlanRuleID a = rule_ID (res_Rule r)"
  from assms(1) obtain e where e: "find ?here A = Some e"
      "amt_AttributeName ` set (res_Amounts r) \<subseteq> aa_AttributeName ` set (ar_AppliedAmounts e)"
    by (auto simp: amount_applied_def)
  from updateFirst_find [OF e(1)] obtain ys zs
    where s: "A = ys @ e # zs" "\<forall>f. updateFirst ?here f A = ys @ f e # zs" by blast
  have "applyResult L 0 r A = ys @ updateAppliedPricePlanRule L r 0 e # zs"
    using e(1) s(2) by (simp add: applyResult_def Let_def)
  with e(2) s(1) assms(2) show ?thesis
    by (simp add: applied_total_def updateAppliedPricePlanRule_def updateAppliedAmounts_0)
qed

lemma applyResults_0:
  assumes "\<forall>r\<in>set results. amount_applied r A \<and> \<not> applyOverwriteTotal (res_Rule r)"
  shows "applied_total (fold (applyResult L 0) results A) = applied_total A"
  using assms
proof (induction results arbitrary: A)
  case (Cons r rs)
  then have "\<forall>x\<in>set rs. amount_applied x (applyResult L 0 r A) \<and> \<not> applyOverwriteTotal (res_Rule x)"
    using amount_applied_other by simp
  from Cons.IH [OF this] Cons.prems show ?case by (simp add: applyResult_0)
qed simp

end

section \<open>Counters\<close>

definition limits_ok :: "BillingContext \<Rightarrow> bool" where
  "limits_ok bc \<longleftrightarrow> (\<forall>u\<in>{TimeUnitMinute, TimeUnitHour}. 1 \<le> timeUnitLimit bc u \<and> timeUnitLimit bc u \<le> 2 ^ 62)"

definition units_ok :: "BillingContext \<Rightarrow> BillItemTimeUnits \<Rightarrow> bool" where
  "units_ok bc tu \<longleftrightarrow> 0 \<le> tu_Minute tu \<and> tu_Minute tu \<le> timeUnitLimit bc TimeUnitMinute \<and>
     0 \<le> tu_Hour tu \<and> tu_Hour tu \<le> timeUnitLimit bc TimeUnitHour \<and>
     (tu_MinuteLastRateTime tu = None \<longrightarrow> tu_Minute tu = 0) \<and> (tu_HourLastRateTime tu = None \<longrightarrow> tu_Hour tu = 0)"

definition rated_before :: "time \<Rightarrow> BillItemTimeUnits \<Rightarrow> bool" where
  "rated_before t tu \<longleftrightarrow> (\<forall>w. tu_MinuteLastRateTime tu = Some w \<longrightarrow> w \<le> t) \<and>
     (\<forall>w. tu_HourLastRateTime tu = Some w \<longrightarrow> w \<le> t)"

lemmas unit_names = TimeUnitMinute_def TimeUnitHour_def TimeUnitMonth_def

lemma elapsed_nonneg:
  assumes "w \<le> t" and "0 < d"
  shows "0 \<le> quot (timeSub t w) d"
proof -
  have "0 \<le> timeSub t w" using assms(1) by (simp add: timeSub_def)
  then show ?thesis using assms(2) by (simp add: quot_nonneg pos_imp_zdiv_nonneg_iff)
qed

lemma headroom_bounds:
  assumes "0 \<le> e" and "0 \<le> c" and "c \<le> limit" and "limit \<le> 2 ^ 62"
  shows "0 \<le> min e (i64 (limit - c))" and "c \<le> i64 (min e (i64 (limit - c)) + c)"
    and "i64 (min e (i64 (limit - c)) + c) \<le> limit"
proof -
  have h: "i64 (limit - c) = limit - c" using assms by (intro i64_id) simp_all
  show "0 \<le> min e (i64 (limit - c))" using assms h by simp
  have "i64 (min e (i64 (limit - c)) + c) = min e (limit - c) + c"
    unfolding h using assms by (intro i64_id) auto
  then show "c \<le> i64 (min e (i64 (limit - c)) + c)" and "i64 (min e (i64 (limit - c)) + c) \<le> limit"
    using assms by auto
qed

lemma advance_units_ok:
  assumes "limits_ok bc" and "units_ok bc (item_TimeUnits item)" and "rated_before (rc_CycleTimestamp rc) (item_TimeUnits item)"
    and "br_DeletedAt res = None"
  shows "units_ok bc (advanceTimeUnits rc (getTimeUnitsDiff bc rc item res) (item_TimeUnits item))"
proof -
  let ?tu = "item_TimeUnits item" and ?ct = "rc_CycleTimestamp rc"
  have minute: "units_ok bc (?tu \<lparr> tu_Minute := i64 (getTimeUnitsDiff bc rc item res + tu_Minute ?tu), tu_MinuteLastRateTime := Some ?ct \<rparr>)"
    if "rc_TimeUnit rc = TimeUnitMinute"
  proof (cases "tu_MinuteLastRateTime ?tu")
    case None
    with that assms show ?thesis
      by (simp add: getTimeUnitsDiff_def units_ok_def limits_ok_def i64_def)
  next
    case (Some w)
    then have "0 \<le> quot (timeSub ?ct w) minute" using assms(3) by (intro elapsed_nonneg) (auto simp: rated_before_def)
    note headroom_bounds [OF this, of "tu_Minute ?tu" "timeUnitLimit bc TimeUnitMinute"]
    with that Some assms show ?thesis by (auto simp: getTimeUnitsDiff_def units_ok_def limits_ok_def)
  qed
  have hour: "units_ok bc (?tu \<lparr> tu_Hour := i64 (getTimeUnitsDiff bc rc item res + tu_Hour ?tu), tu_HourLastRateTime := Some ?ct \<rparr>)"
    if "rc_TimeUnit rc = TimeUnitHour"
  proof (cases "tu_HourLastRateTime ?tu")
    case None
    with that assms show ?thesis
      by (simp add: getTimeUnitsDiff_def units_ok_def limits_ok_def i64_def unit_names)
  next
    case (Some w)
    then have "0 \<le> quot (timeSub ?ct w) hour" using assms(3) by (intro elapsed_nonneg) (auto simp: rated_before_def)
    note headroom_bounds [OF this, of "tu_Hour ?tu" "timeUnitLimit bc TimeUnitHour"]
    with that Some assms show ?thesis by (auto simp: getTimeUnitsDiff_def units_ok_def limits_ok_def unit_names)
  qed
  show ?thesis
    using minute hour assms(2) by (auto simp: advanceTimeUnits_def units_ok_def)
qed

lemma advanced_diff:
  assumes "limits_ok bc" and "units_ok bc (item_TimeUnits item)" and "br_DeletedAt res = None"
    and "rc_TimeUnit rc \<in> {TimeUnitMinute, TimeUnitHour}"
    and "item_TimeUnits item = advanceTimeUnits rc d tu"
  shows "getTimeUnitsDiff bc rc item res = 0"
    and "advanceTimeUnits rc 0 (item_TimeUnits item) = item_TimeUnits item"
proof -
  have h: "i64 (timeUnitLimit bc TimeUnitMinute - tu_Minute (item_TimeUnits item)) \<ge> 0"
    "i64 (timeUnitLimit bc TimeUnitHour - tu_Hour (item_TimeUnits item)) \<ge> 0"
    "i64 (tu_Minute (item_TimeUnits item)) = tu_Minute (item_TimeUnits item)"
    "i64 (tu_Hour (item_TimeUnits item)) = tu_Hour (item_TimeUnits item)"
    using assms(1,2) by (simp_all add: units_ok_def limits_ok_def i64_id)
  have w: "rc_TimeUnit rc = TimeUnitMinute \<Longrightarrow> tu_MinuteLastRateTime (item_TimeUnits item) = Some (rc_CycleTimestamp rc)"
    "rc_TimeUnit rc = TimeUnitHour \<Longrightarrow> tu_HourLastRateTime (item_TimeUnits item) = Some (rc_CycleTimestamp rc)"
    by (simp_all add: assms(5) advanceTimeUnits_def unit_names)
  have ne: "TimeUnitMinute \<noteq> TimeUnitHour" by (simp add: unit_names)
  have q: "quot (timeSub t t) k = 0" for t k by (simp add: timeSub_def quot_def)
  show "getTimeUnitsDiff bc rc item res = 0"
    using assms(4) h(1,2) w ne by (auto simp: getTimeUnitsDiff_def assms(3) q)
  show "advanceTimeUnits rc 0 (item_TimeUnits item) = item_TimeUnits item"
    using assms(4) h(3,4) w ne by (auto simp: advanceTimeUnits_def)
qed

lemma updateBillItems_units:
  "item_TimeUnits (updateBillItems L rc bc res results item) \<in>
    {item_TimeUnits item, advanceTimeUnits rc (getTimeUnitsDiff bc rc item res) (item_TimeUnits item)}"
  by (simp add: updateBillItems_def Let_def)

lemma updateBillItems_units_ok:
  assumes "limits_ok bc" and "units_ok bc (item_TimeUnits item)" and "rated_before (rc_CycleTimestamp rc) (item_TimeUnits item)"
    and "br_DeletedAt res = None"
  shows "units_ok bc (item_TimeUnits (updateBillItems L rc bc res results item))"
  using advance_units_ok [OF assms] assms(2) updateBillItems_units [of L rc bc res results item] by auto

lemma updateBillItems_rated_before:
  assumes "rated_before (rc_CycleTimestamp rc) (item_TimeUnits item)" and "rc_CycleTimestamp rc \<le> t"
  shows "rated_before t (item_TimeUnits (updateBillItems L rc bc res results item))"
proof -
  have "rated_before t (item_TimeUnits item)" using assms by (auto simp: rated_before_def)
  moreover have "rated_before t (advanceTimeUnits rc d (item_TimeUnits item))" for d
    using assms calculation by (auto simp: rated_before_def advanceTimeUnits_def)
  ultimately show ?thesis using updateBillItems_units [of L rc bc res results item] by auto
qed

text \<open>The charges of one item, run one after the other.\<close>

definition charge_item :: "declib \<Rightarrow> BillingContext \<Rightarrow> RatingContext \<times> BillingResource \<times> PricePlanRuleResult list \<Rightarrow> BillItem \<Rightarrow> BillItem" where
  "charge_item L bc c item = updateBillItems L (fst c) bc (fst (snd c)) (snd (snd c)) item"

lemma charges_units_ok:
  assumes "limits_ok bc" and "units_ok bc (item_TimeUnits item)"
    and "sorted (map (\<lambda>c. rc_CycleTimestamp (fst c)) cs)"
    and "\<forall>c\<in>set cs. rated_before (rc_CycleTimestamp (fst c)) (item_TimeUnits item) \<and> br_DeletedAt (fst (snd c)) = None"
  shows "units_ok bc (item_TimeUnits (fold (charge_item L bc) cs item))"
  using assms(2-4)
proof (induction cs arbitrary: item)
  case (Cons c cs)
  let ?it = "charge_item L bc c item"
  have "units_ok bc (item_TimeUnits ?it)"
    unfolding charge_item_def by (rule updateBillItems_units_ok [OF assms(1)]) (use Cons.prems in auto)
  moreover have "rated_before (rc_CycleTimestamp (fst d)) (item_TimeUnits ?it)" if "d \<in> set cs" for d
    unfolding charge_item_def by (rule updateBillItems_rated_before) (use Cons.prems that in auto)
  ultimately show ?case using Cons by simp
qed simp

section \<open>Frame\<close>

definition item_key :: "BillItem \<Rightarrow> string \<times> string" where
  "item_key it = (item_ResourceID it, item_ResourceType it)"

definition res_key :: "BillingResource \<Rightarrow> string \<times> string" where
  "res_key res = (br_ResourceID res, br_ResourceType res)"

lemma item_of_key: "item_of res it \<longleftrightarrow> item_key it = res_key res"
  by (auto simp: item_of_def item_key_def res_key_def)

lemma updateBillItems_key [simp]: "item_key (updateBillItems L rc bc res results item) = item_key item"
  by (simp add: updateBillItems_def item_key_def Let_def)

lemma item_key_UpdatedAt [simp]: "item_key (it \<lparr> item_UpdatedAt := t \<rparr>) = item_key it"
  by (simp add: item_key_def)

lemma newBillItem_key [simp]: "item_key (newBillItem L bill res now) = res_key res"
  by (simp add: newBillItem_def item_key_def res_key_def)

lemma SaveChargingToBill_keys:
  "map item_key (bill_Items (SaveChargingToBill L rc bc bill res results now)) =
    (if res_key res \<in> item_key ` set (bill_Items bill) then map item_key (bill_Items bill)
     else map item_key (bill_Items bill) @ [res_key res])"
proof -
  have "find (item_of res) (bill_Items bill) = None \<longleftrightarrow> res_key res \<notin> item_key ` set (bill_Items bill)"
    by (force simp: find_None_iff item_of_key)
  then show ?thesis by (auto simp: SaveChargingToBill_def Let_def map_updateFirst)
qed

section \<open>Properties of charging\<close>

text \<open>
  C11. The cap: a charge of an ineligible resource, or of an item whose net amount has reached
  the cap (limit of the cadence times the rated amounts), leaves the item as it is; any other
  charge sets its net amount to the smaller of the applied amounts and the cap, rounded to 16
  places. The net amount therefore never passes the rounded cap of the charge that set it.
\<close>

theorem charge_respects_cap:
  assumes "decimal_lib L"
    and "cap = of_int (timeUnitLimit bc (rc_TimeUnit rc)) * results_total results"
    and "item' = updateBillItems L rc bc res results item"
  shows "(if br_NotEligibleForBilling res \<or> cap \<le> val (item_NetAmount item) then item' = item
    else val (item_NetAmount item') = round_at 16 (min (applied_total (item_AppliedPricePlanRules item')) cap) \<and>
      val (item_NetAmount item') \<le> round_at 16 cap)"
proof (cases "br_NotEligibleForBilling res \<or> cap \<le> val (item_NetAmount item)")
  case True
  then show ?thesis using decimal_lib.updateBillItems_frozen [OF assms(1)] by (simp add: assms(2,3))
next
  case False
  then have "\<not> br_NotEligibleForBilling res"
    "val (item_NetAmount item) < of_int (timeUnitLimit bc (rc_TimeUnit rc)) * results_total results"
    by (simp_all add: assms(2))
  note op = decimal_lib.updateBillItems_open [OF assms(1) this assms(3) refl]
  have "val (item_NetAmount item') = round_at 16 (min (applied_total (item_AppliedPricePlanRules item')) cap)"
    by (simp only: op(2,3) assms(2))
  with False show ?thesis by (simp add: round_at_mono)
qed

definition ex_results :: "PricePlanRuleResult list" where
  "ex_results = [\<lparr> res_Rule = ex_rule ''hour'' ex_tiers, res_Amounts = [ex_amount] \<rparr>]"

definition ex_bill :: Bill where
  "ex_bill = \<lparr> bill_ID = ''b1'', bill_Status = BillOpen, bill_Items = [], bill_InvoiceCurrency = ''EUR'',
     bill_BillingProfileID = ''bp'', bill_BillingCycle = Some \<lparr> cycle_StartDate = Some 0, cycle_EndDate = None \<rparr>,
     bill_Adjustments = [], bill_AppliedAccountCredits = [], bill_AppliedPromotionalCredits = [],
     bill_CollectedAmounts = [], bill_DueAt = None, bill_SentAt = None, bill_LockedAt = None,
     bill_CreatedAt = None, bill_UpdatedAt = None \<rparr>"

definition ex_rc :: "time \<Rightarrow> RatingContext" where
  "ex_rc t = \<lparr> rc_TimeUnit = ''hour'', rc_CycleTimestamp = t \<rparr>"

definition ex_bc :: "int \<Rightarrow> BillingContext" where
  "ex_bc n = \<lparr> bc_TimeUnitLimits = [(''hour'', n)] \<rparr>"

definition ex_item :: BillItem where
  "ex_item = newBillItem ref_lib ex_bill (ex_resource ''ram'' 25 0) 0"

theorem charge_respects_cap_witness:
  "val (item_NetAmount (updateBillItems ref_lib (ex_rc (5 * hour)) (ex_bc 3) (ex_resource ''ram'' 25 0)
     ex_results ex_item)) \<le> round_at 16 (195 / 4)"
proof -
  let ?rc = "ex_rc (5 * hour)" and ?bc = "ex_bc 3" and ?res = "ex_resource ''ram'' 25 0"
  have "195 / 4 = of_int (timeUnitLimit ?bc (rc_TimeUnit ?rc)) * results_total ex_results"
    and "\<not> (br_NotEligibleForBilling ?res \<or> 195 / 4 \<le> val (item_NetAmount ex_item))" by code_simp+
  with charge_respects_cap [OF ref.decimal_lib_axioms this(1) refl, of ?res ex_item] show ?thesis by simp
qed



text \<open>
  C13. Re-running a charge is harmless: charging the same minutely or hourly results of a
  resource that is not deleted a second time at the same timestamp (a retried or doubly
  delivered run) changes neither the counters nor the net amount of the item, provided no
  rule overwrites its total.
\<close>

theorem recharge_adds_nothing:
  assumes "decimal_lib L" and "rc_TimeUnit rc \<in> {TimeUnitMinute, TimeUnitHour}"
    and "limits_ok bc" and "units_ok bc (item_TimeUnits item)" and "rated_before (rc_CycleTimestamp rc) (item_TimeUnits item)"
    and "br_DeletedAt res = None" and "\<forall>r\<in>set results. \<not> applyOverwriteTotal (res_Rule r)"
    and "item1 = updateBillItems L rc bc res results item"
    and "item2 = updateBillItems L rc bc res results item1"
  shows "item_TimeUnits item2 = item_TimeUnits item1 \<and> val (item_NetAmount item2) = val (item_NetAmount item1)"
proof -
  let ?cap = "of_int (timeUnitLimit bc (rc_TimeUnit rc)) * results_total results :: rat"
  let ?d1 = "getTimeUnitsDiff bc rc item res" and ?d2 = "getTimeUnitsDiff bc rc item1 res"
  have frozen: "item' = updateBillItems L rc bc res results item'"
    if "br_NotEligibleForBilling res \<or> ?cap \<le> val (item_NetAmount item')" for item'
    using decimal_lib.updateBillItems_frozen [OF assms(1) that] by simp
  show ?thesis
  proof (cases "br_NotEligibleForBilling res \<or> ?cap \<le> val (item_NetAmount item) \<or> ?cap \<le> val (item_NetAmount item1)")
    case True
    with frozen [of item] frozen [of item1] assms(8,9) show ?thesis by metis
  next
    case False
    then have el: "\<not> br_NotEligibleForBilling res" and lt: "val (item_NetAmount item) < ?cap" "val (item_NetAmount item1) < ?cap"
      by auto
    note one = decimal_lib.updateBillItems_open [OF assms(1) el lt(1) assms(8) refl]
    note two = decimal_lib.updateBillItems_open [OF assms(1) el lt(2) assms(9) refl]
    have ok1: "units_ok bc (item_TimeUnits item1)"
      unfolding assms(8) by (rule updateBillItems_units_ok [OF assms(3-6)])
    note again = advanced_diff [OF assms(3) ok1 assms(6,2) one(1)]
    have d2: "?d2 = 0" by (rule again(1))
    have "item_TimeUnits item2 = item_TimeUnits item1" unfolding two(1) d2 by (rule again(2))
    moreover have "\<forall>r\<in>set results. amount_applied r (item_AppliedPricePlanRules item1) \<and> \<not> applyOverwriteTotal (res_Rule r)"
      using assms(7) decimal_lib.amount_applied_fold [OF assms(1)] by (simp add: one(2))
    then have "applied_total (fold (applyResult L 0) results (item_AppliedPricePlanRules item1)) =
        applied_total (item_AppliedPricePlanRules item1)"
      by (rule decimal_lib.applyResults_0 [OF assms(1)])
    ultimately show ?thesis using two(3) one(2,3) unfolding d2 by simp
  qed
qed

theorem recharge_adds_nothing_witness:
  "val (item_NetAmount (updateBillItems ref_lib (ex_rc (2 * hour)) (ex_bc 3) (ex_resource ''ram'' 25 0) ex_results
     (updateBillItems ref_lib (ex_rc (2 * hour)) (ex_bc 3) (ex_resource ''ram'' 25 0) ex_results ex_item))) = 65 / 2"
proof -
  let ?rc = "ex_rc (2 * hour)" and ?bc = "ex_bc 3" and ?res = "ex_resource ''ram'' 25 0"
  have w: "tu_MinuteLastRateTime (item_TimeUnits ex_item) = Some 0" "tu_HourLastRateTime (item_TimeUnits ex_item) = Some 0"
    by code_simp+
  have h: "rc_TimeUnit ?rc \<in> {TimeUnitMinute, TimeUnitHour}" "limits_ok ?bc" "units_ok ?bc (item_TimeUnits ex_item)"
    "br_DeletedAt ?res = None" "\<forall>r\<in>set ex_results. \<not> applyOverwriteTotal (res_Rule r)"
    "val (item_NetAmount (updateBillItems ref_lib ?rc ?bc ?res ex_results ex_item)) = 65 / 2" by code_simp+
  moreover have "rated_before (rc_CycleTimestamp ?rc) (item_TimeUnits ex_item)" by (simp add: rated_before_def w ex_rc_def)
  ultimately show ?thesis
    using recharge_adds_nothing [OF ref.decimal_lib_axioms h(1-3) _ h(4,5) refl refl] by simp
qed

text \<open>
  C14. A charge touches the item of its resource and nothing else: the bill keeps every other
  field, the items of other resources are found unchanged, the item of the charged resource
  exists afterwards, and if there was one item per resource before there is one after.
\<close>

theorem charge_touches_one_item:
  assumes "bill' = SaveChargingToBill L rc bc bill res results now"
  shows "bill' \<lparr> bill_Items := bill_Items bill \<rparr> = bill \<and>
    (\<forall>other. res_key other \<noteq> res_key res \<longrightarrow>
      find (item_of other) (bill_Items bill') = find (item_of other) (bill_Items bill)) \<and>
    find (item_of res) (bill_Items bill') \<noteq> None \<and>
    (distinct (map item_key (bill_Items bill)) \<longrightarrow> distinct (map item_key (bill_Items bill')))"
proof (intro conjI allI impI)
  have keys: "item_key ` set (bill_Items bill') = insert (res_key res) (item_key ` set (bill_Items bill))"
    unfolding assms using arg_cong [OF SaveChargingToBill_keys, of set] by (auto split: if_splits)
  show "bill' \<lparr> bill_Items := bill_Items bill \<rparr> = bill" by (simp add: assms SaveChargingToBill_def Let_def)
  show "find (item_of res) (bill_Items bill') \<noteq> None"
    unfolding find_not_None item_of_key using keys by (metis image_iff insertI1)
  show "distinct (map item_key (bill_Items bill'))" if "distinct (map item_key (bill_Items bill))"
    using that unfolding assms SaveChargingToBill_keys by (auto simp: distinct_map)
  fix other assume "res_key other \<noteq> res_key res"
  then have "find (item_of other) (updateFirst (item_of res)
      (\<lambda>it. updateBillItems L rc bc res results it \<lparr> item_UpdatedAt := Some now \<rparr>) items) =
    find (item_of other) items" for items
    by (intro find_updateFirst_other) (auto simp: item_of_key)
  moreover have "\<not> item_of other (newBillItem L bill res now)"
    using \<open>res_key other \<noteq> res_key res\<close> by (simp add: item_of_key)
  ultimately show "find (item_of other) (bill_Items bill') = find (item_of other) (bill_Items bill)"
    by (auto simp: assms SaveChargingToBill_def Let_def find_append split: option.splits)
qed

theorem charge_touches_one_item_witness:
  "find (item_of (ex_resource ''ram'' 25 0)) (bill_Items (SaveChargingToBill ref_lib (ex_rc (2 * hour)) (ex_bc 3)
     ex_bill (ex_resource ''ram'' 25 0) ex_results (2 * hour))) \<noteq> None"
  using charge_touches_one_item [OF refl] by blast

end
