(* ===== verification/Settlement.thy ===== *)
theory Settlement
  imports Tax_Rates Exchange Bill_Build
begin

text \<open>
  \<open>pricing/settle.go\<close> and \<open>pricing/billagg.go\<close>: paying a bill from promotional credits, then
  from account credits, recording collected payments, and the amounts derived from a bill.
  The sources mutate the credits through pointers; the operations here return the updated
  credits with the settlements. The theorems show that settlement neither creates nor loses
  money.
\<close>

section \<open>Account credits\<close>

text \<open>
  One credit is converted through its invoice currency, the remaining amount at \<open>now\<close>, the
  credit at its creation time. The loop stops once nothing is left to settle.
\<close>

fun settleCredits :: "declib \<Rightarrow> exchanger \<Rightarrow> string \<Rightarrow> time \<Rightarrow> AccountCredit list \<Rightarrow> decimal \<Rightarrow>
    (AccountCreditSettlement list \<times> AccountCredit list) res" where
  "settleCredits L x currency now [] remaining = Inr ([], [])"
| "settleCredits L x currency now (ac # acs) remaining =
    (let skip = bindR (settleCredits L x currency now acs remaining) (\<lambda>(ss, acs'). Inr (ss, ac # acs')) in
     case ac_Amount ac of
       None \<Rightarrow> skip
     | Some amt \<Rightarrow>
         if d_is_zero L amt then skip
         else
           let t0 = (case ac_CreatedAt ac of None \<Rightarrow> 0 | Some t \<Rightarrow> t) in
           bindR (Exchange L x remaining currency (ac_InvoiceCurrency ac) now) (\<lambda>remInternal.
           bindR (Exchange L x amt (ac_Currency ac) (ac_InvoiceCurrency ac) t0) (\<lambda>creditAmount.
           let diff = d_sub L creditAmount remInternal;
               enough = d_cmp L diff (d_zero L) \<ge> 0;
               settledAmount = (if enough then remInternal else creditAmount);
               remInternal' = (if enough then d_zero L else d_abs L diff) in
           bindR (Exchange L x remInternal' (ac_InvoiceCurrency ac) currency now) (\<lambda>remaining'.
           bindR (Exchange L x settledAmount (ac_InvoiceCurrency ac) (ac_Currency ac) t0) (\<lambda>covered.
           let ac' = ac \<lparr> ac_Amount := Some (d_sub L amt covered) \<rparr>;
               s = \<lparr> acs_AccountCredit = ac', acs_Settled = covered \<rparr> in
           if d_is_zero L remaining' then Inr ([s], ac' # acs)
           else bindR (settleCredits L x currency now acs remaining') (\<lambda>(ss, acs').
             Inr (s # ss, ac' # acs')))))))"

definition SettleAccountCredits :: "declib \<Rightarrow> AccountCredit list \<Rightarrow> decimal \<Rightarrow> string \<Rightarrow> exchanger \<Rightarrow> time \<Rightarrow>
    (AccountCreditSettlement list \<times> AccountCredit list) res" where
  "SettleAccountCredits L credits amount currency x now = settleCredits L x currency now credits amount"

section \<open>Promotional credits\<close>

fun takePromos :: "declib \<Rightarrow> exchanger \<Rightarrow> string \<Rightarrow> string \<Rightarrow> time \<Rightarrow> PromotionalCredit list \<Rightarrow> decimal \<Rightarrow>
    (AppliedPromotionalCredit list \<times> PromotionalCredit list) res" where
  "takePromos L x baseCurrency profileCurrency now [] remaining = Inr ([], [])"
| "takePromos L x baseCurrency profileCurrency now (pc # pcs) remaining =
    (if \<not> d_cmp L remaining (d_zero L) > 0 then Inr ([], pc # pcs)
     else
       let skip = bindR (takePromos L x baseCurrency profileCurrency now pcs remaining) (\<lambda>(as, pcs'). Inr (as, pc # pcs')) in
       case pc_RemainingAmount pc of
         None \<Rightarrow> skip
       | Some promo \<Rightarrow>
           if d_cmp L promo (d_zero L) \<le> 0 then skip
           else
             let diff = d_sub L promo remaining in
             bindR (GetExchangeRate L x baseCurrency profileCurrency now) (\<lambda>rate.
             let enough = d_cmp L diff (d_zero L) \<ge> 0;
                 pc' = pc \<lparr> pc_RemainingAmount := Some (if enough then diff else d_zero L) \<rparr>;
                 a = \<lparr> apc_Currency = baseCurrency, apc_Amount = Some (if enough then remaining else promo),
                   apc_InvoiceCurrency = '''', apc_GrossAmount = None, apc_ExchangeRate = Some rate,
                   apc_PromotionalCreditID = pc_ID pc \<rparr>;
                 remaining' = (if enough then d_zero L else d_abs L diff) in
             bindR (takePromos L x baseCurrency profileCurrency now pcs remaining') (\<lambda>(as, pcs').
               Inr (a # as, pc' # pcs'))))"

definition TakePromotionalCredits :: "declib \<Rightarrow> PromotionalCredit list \<Rightarrow> decimal \<Rightarrow> string \<Rightarrow> string \<Rightarrow> exchanger \<Rightarrow> time \<Rightarrow>
    (AppliedPromotionalCredit list \<times> PromotionalCredit list) res" where
  "TakePromotionalCredits L credits amount baseCurrency profileCurrency x now =
     takePromos L x baseCurrency profileCurrency now credits amount"

section \<open>Amounts of a bill\<close>

definition sumOpt :: "declib \<Rightarrow> ('a \<Rightarrow> decimal option) \<Rightarrow> 'a list \<Rightarrow> decimal \<Rightarrow> decimal" where
  "sumOpt L f xs t = fold (\<lambda>x t. case f x of None \<Rightarrow> t | Some a \<Rightarrow> d_add L t a) xs t"

definition GetNetAmountBillProductCurrencyWithAdjustments :: "declib \<Rightarrow> Bill \<Rightarrow> decimal" where
  "GetNetAmountBillProductCurrencyWithAdjustments L bill =
     sumOpt L adj_Amount (bill_Adjustments bill)
       (fold (\<lambda>it t. d_add L t (item_NetAmount it)) (bill_Items bill) (d_zero L))"

definition GetUnpaidAmountBillProductCurrency :: "declib \<Rightarrow> Bill \<Rightarrow> decimal" where
  "GetUnpaidAmountBillProductCurrency L bill =
    (let total = GetNetAmountBillProductCurrencyWithAdjustments L bill;
         applied = sumOpt L acc_Amount (bill_CollectedAmounts bill)
           (sumOpt L apc_Amount (bill_AppliedPromotionalCredits bill)
             (sumOpt L aac_Amount (bill_AppliedAccountCredits bill) (d_zero L))) in
     scaleHalfUp L (d_sub L total applied))"

definition ScaleUpItems :: "declib \<Rightarrow> Bill \<Rightarrow> Bill" where
  "ScaleUpItems L bill =
     bill \<lparr> bill_Items := map (\<lambda>it. it \<lparr> item_NetAmount := scaleHalfUp L (item_NetAmount it) \<rparr>) (bill_Items bill) \<rparr>"

definition BillNetBaseCurrency :: "declib \<Rightarrow> Bill \<Rightarrow> decimal" where
  "BillNetBaseCurrency L bill = fold (\<lambda>it t. d_add L t (item_NetAmount it)) (bill_Items bill) (d_zero L)"

definition BillGrossInCurrency :: "declib \<Rightarrow> Bill \<Rightarrow> TaxRate list \<Rightarrow> string \<Rightarrow> string \<Rightarrow> time \<Rightarrow> exchanger \<Rightarrow> decimal res" where
  "BillGrossInCurrency L bill rates targetCurrency baseCurrency now x =
    (let gross = CalculateGrossAmount L (GetNetAmountBillProductCurrencyWithAdjustments L bill) rates in
     bindR (GetExchangeRate L x baseCurrency targetCurrency now) (\<lambda>rate. Inr (d_mul L rate gross)))"

definition BillNetInProfileCurrency :: "declib \<Rightarrow> Bill \<Rightarrow> string \<Rightarrow> string \<Rightarrow> time \<Rightarrow> exchanger \<Rightarrow> decimal res" where
  "BillNetInProfileCurrency L bill profileCurrency baseCurrency now x =
     ExchangeToBillingProfileCurrency L x (GetNetAmountBillProductCurrencyWithAdjustments L bill)
       profileCurrency baseCurrency now"

section \<open>Settling a bill\<close>

definition appliedAccountCredit :: "declib \<Rightarrow> TaxRate list \<Rightarrow> AccountCreditSettlement \<Rightarrow> AppliedAccountCredit" where
  "appliedAccountCredit L taxRates s =
    (let ac = acs_AccountCredit s;
         invRate = (case ac_InvoiceExchangeRate ac of None \<Rightarrow> d_of_int L 1 | Some r \<Rightarrow> r);
         invoiceAmount = scaleHalfUp L (d_mul L invRate (acs_Settled s)) in
     \<lparr> aac_Currency = ac_Currency ac, aac_Amount = Some (scaleHalfUp L (acs_Settled s)),
       aac_InvoiceCurrency = ac_InvoiceCurrency ac, aac_GrossAmount = Some (CalculateGrossAmount L invoiceAmount taxRates),
       aac_ExchangeRate = Some invRate, aac_AccountCreditID = ac_ID ac \<rparr>)"

text \<open>The result: the leftover, the bill, the settlements and the updated credits.\<close>

definition settleAccountCreditLeg :: "declib \<Rightarrow> Bill \<Rightarrow> AccountCredit list \<Rightarrow> decimal \<Rightarrow> TaxRate list \<Rightarrow> string \<Rightarrow>
    exchanger \<Rightarrow> time \<Rightarrow> (decimal \<times> Bill \<times> AccountCreditSettlement list \<times> AccountCredit list) res" where
  "settleAccountCreditLeg L bill accountCredits grossDiff taxRates baseCurrency x now =
    bindR (SettleAccountCredits L accountCredits grossDiff baseCurrency x now) (\<lambda>(settlements, credits').
      Inr (fold (\<lambda>s g. d_sub L g (acs_Settled s)) settlements grossDiff,
           bill \<lparr> bill_AppliedAccountCredits := bill_AppliedAccountCredits bill @ map (appliedAccountCredit L taxRates) settlements \<rparr>,
           settlements, credits'))"

record settle_result =
  sr_bill :: Bill
  sr_promo :: "AppliedPromotionalCredit list"
  sr_acct :: "AccountCreditSettlement list"
  sr_promoCredits :: "PromotionalCredit list"
  sr_accountCredits :: "AccountCredit list"

definition SettleBillAmount :: "declib \<Rightarrow> Bill \<Rightarrow> decimal \<Rightarrow> PromotionalCredit list \<Rightarrow> AccountCredit list \<Rightarrow> TaxRate list \<Rightarrow>
    string \<Rightarrow> string \<Rightarrow> exchanger \<Rightarrow> time \<Rightarrow> settle_result res" where
  "SettleBillAmount L bill amount promoCredits accountCredits taxRates baseCurrency profileCurrency x now =
    (if d_is_zero L amount
     then Inr \<lparr> sr_bill = bill, sr_promo = [], sr_acct = [], sr_promoCredits = promoCredits, sr_accountCredits = accountCredits \<rparr>
     else bindR (TakePromotionalCredits L promoCredits amount baseCurrency profileCurrency x now) (\<lambda>(promo, promoCredits').
       let bill1 = (if promo \<noteq> [] then bill \<lparr> bill_AppliedPromotionalCredits := bill_AppliedPromotionalCredits bill @ promo \<rparr> else bill);
           remainingAmount = (if promo \<noteq> [] then d_sub L amount (sumOpt L apc_Amount promo (d_zero L)) else amount) in
       if \<not> d_is_zero L remainingAmount
       then bindR (settleAccountCreditLeg L bill1 accountCredits remainingAmount taxRates baseCurrency x now)
         (\<lambda>(_, bill2, acct, accountCredits').
           Inr \<lparr> sr_bill = bill2, sr_promo = promo, sr_acct = acct, sr_promoCredits = promoCredits', sr_accountCredits = accountCredits' \<rparr>)
       else Inr \<lparr> sr_bill = bill1, sr_promo = promo, sr_acct = [], sr_promoCredits = promoCredits', sr_accountCredits = accountCredits \<rparr>))"

section \<open>Collected payments\<close>

definition collectAmountToProduct :: "declib \<Rightarrow> CollectTransaction \<Rightarrow> string \<Rightarrow> decimal res" where
  "collectAmountToProduct L ct baseCurrency =
    (let amt = (case ct_Amount ct of None \<Rightarrow> d_zero L | Some a \<Rightarrow> a) in
     if baseCurrency = ct_Currency ct then Inr amt
     else divHalfUpScale L amt (case ct_ExchangeRate ct of None \<Rightarrow> d_zero L | Some r \<Rightarrow> r))"

definition ApplyPaidCollectOnBill :: "declib \<Rightarrow> Bill \<Rightarrow> CollectTransaction \<Rightarrow> string \<Rightarrow> Bill res" where
  "ApplyPaidCollectOnBill L bill ct baseCurrency =
    bindR (collectAmountToProduct L ct baseCurrency) (\<lambda>amt.
      let bill1 = bill \<lparr> bill_CollectedAmounts := bill_CollectedAmounts bill @
            [\<lparr> acc_Currency = baseCurrency, acc_Amount = Some amt, acc_InvoiceCurrency = ct_Currency ct,
               acc_GrossAmount = ct_GrossAmount ct, acc_ExchangeRate = ct_ExchangeRate ct, acc_CollectTransactionID = ct_ID ct \<rparr>] \<rparr> in
      Inr (if d_cmp L (GetUnpaidAmountBillProductCurrency L bill1) (d_zero L) \<le> 0
           then bill1 \<lparr> bill_Status := BillPaid \<rparr> else bill1))"

section \<open>Draining credits in order\<close>

text \<open>
  The specification of settlement: an amount is taken from a list of balances, each in turn
  giving what it has until the amount is covered.
\<close>

fun drain :: "rat \<Rightarrow> rat list \<Rightarrow> rat list" where
  "drain r [] = []"
| "drain r (c # cs) = (c - min r c) # drain (r - min r c) cs"

definition oval :: "decimal option \<Rightarrow> rat" where
  "oval v = (case v of None \<Rightarrow> 0 | Some d \<Rightarrow> val d)"

lemma oval_simps [simp]: "oval None = 0" "oval (Some d) = val d"
  by (simp_all add: oval_def)

lemma drain_0 [simp]: "\<forall>c\<in>set cs. 0 \<le> c \<Longrightarrow> drain 0 cs = cs"
  by (induction cs) auto

lemma drain_nonneg: "\<forall>c\<in>set cs. 0 \<le> c \<Longrightarrow> 0 \<le> r \<Longrightarrow> c \<in> set (drain r cs) \<Longrightarrow> 0 \<le> c"
proof (induction cs arbitrary: r)
  case (Cons d cs)
  with Cons.IH [of "r - min r d"] show ?case by (auto simp: min_def)
qed simp

lemma drain_sum: "\<forall>c\<in>set cs. 0 \<le> c \<Longrightarrow> 0 \<le> r \<Longrightarrow> sum_list cs - sum_list (drain r cs) = min r (sum_list cs)"
proof (induction cs arbitrary: r)
  case (Cons c cs)
  have "0 \<le> sum_list cs" using Cons.prems by (intro sum_list_nonneg) auto
  with Cons.IH [of "r - min r c"] Cons.prems show ?case by (auto simp: min_def split: if_splits)
qed simp

lemma drain_append:
  "\<forall>c\<in>set xs. 0 \<le> c \<Longrightarrow> 0 \<le> r \<Longrightarrow> drain r (xs @ ys) = drain r xs @ drain (r - min r (sum_list xs)) ys"
proof (induction xs arbitrary: r)
  case (Cons c xs)
  have "0 \<le> sum_list xs" using Cons.prems by (intro sum_list_nonneg) auto
  then have "r - min r c - min (r - min r c) (sum_list xs) = r - min r (c + sum_list xs)"
    using Cons.prems by (auto simp: min_def)
  with Cons.IH [of "r - min r c"] Cons.prems show ?case by (simp only: append_Cons drain.simps sum_list.Cons) simp
qed simp

lemma drain_in_order:
  "\<forall>c\<in>set cs. 0 \<le> c \<Longrightarrow> 0 \<le> r \<Longrightarrow> i < j \<Longrightarrow> j < length cs \<Longrightarrow> drain r cs ! j < cs ! j \<Longrightarrow> drain r cs ! i = 0"
proof (induction cs arbitrary: r i j)
  case (Cons c cs)
  obtain j' where j: "j = Suc j'" using Cons.prems by (cases j) auto
  show ?case
  proof (cases "r \<le> c")
    case True
    with Cons.prems j show ?thesis by (auto simp: min_def)
  next
    case False
    with Cons.prems Cons.IH [of "r - c" "i - 1" j'] j show ?thesis by (cases i) (auto simp: min_def)
  qed
qed simp

lemma drain_places:
  "\<forall>c\<in>set cs. has_places p c \<Longrightarrow> has_places p r \<Longrightarrow> c \<in> set (drain r cs) \<Longrightarrow> has_places p c"
proof (induction cs arbitrary: r)
  case (Cons d cs)
  then have "has_places p (min r d)" by (simp add: min_def)
  with Cons show ?case by (auto intro: has_places_diff)
qed simp

lemma length_drain [simp]: "length (drain r cs) = length cs"
  by (induction cs arbitrary: r) auto

text \<open>Credits held and invoiced in one currency, with no negative balance.\<close>

definition credits_ok :: "string \<Rightarrow> AccountCredit list \<Rightarrow> bool" where
  "credits_ok currency acs \<longleftrightarrow>
     (\<forall>ac\<in>set acs. ac_Currency ac = currency \<and> ac_InvoiceCurrency ac = currency \<and> 0 \<le> oval (ac_Amount ac))"

definition promos_ok :: "PromotionalCredit list \<Rightarrow> bool" where
  "promos_ok pcs \<longleftrightarrow> (\<forall>pc\<in>set pcs. 0 \<le> oval (pc_RemainingAmount pc))"

definition settled_sum :: "AccountCreditSettlement list \<Rightarrow> rat" where
  "settled_sum ss = (\<Sum>s\<leftarrow>ss. val (acs_Settled s))"

definition credit_balances :: "AccountCredit list \<Rightarrow> rat list" where
  "credit_balances acs = map (\<lambda>ac. oval (ac_Amount ac)) acs"

definition promo_balances :: "PromotionalCredit list \<Rightarrow> rat list" where
  "promo_balances pcs = map (\<lambda>pc. oval (pc_RemainingAmount pc)) pcs"

lemmas balance_defs = credit_balances_def promo_balances_def credits_ok_def promos_ok_def settled_sum_def

context decimal_lib begin

text \<open>In any currencies, what leaves the credits is what the settlements carry.\<close>

lemma settleCredits_conserves:
  assumes "settleCredits L x currency now acs remaining = Inr (ss, acs')"
  shows "sum_list (credit_balances acs') + settled_sum ss = sum_list (credit_balances acs)"
  using assms
proof (induction acs arbitrary: remaining ss acs')
  case (Cons ac acs)
  show ?case
  proof (cases "ac_Amount ac = None \<or> (\<exists>amt. ac_Amount ac = Some amt \<and> val amt = 0)")
    case True
    with Cons.prems obtain acs'' where "settleCredits L x currency now acs remaining = Inr (ss, acs'')" "acs' = ac # acs''"
      by (auto simp: bindR_eq_Inr Let_def)
    with Cons.IH show ?thesis by (simp add: balance_defs)
  next
    case False
    then obtain amt where amt: "ac_Amount ac = Some amt" "val amt \<noteq> 0" by auto
    from Cons.prems amt obtain covered remaining' where
      "ss = [\<lparr> acs_AccountCredit = ac \<lparr> ac_Amount := Some (d_sub L amt covered) \<rparr>, acs_Settled = covered \<rparr>] \<and>
         acs' = ac \<lparr> ac_Amount := Some (d_sub L amt covered) \<rparr> # acs \<or>
       (\<exists>ss' acs''. settleCredits L x currency now acs remaining' = Inr (ss', acs'') \<and>
         ss = \<lparr> acs_AccountCredit = ac \<lparr> ac_Amount := Some (d_sub L amt covered) \<rparr>, acs_Settled = covered \<rparr> # ss' \<and>
         acs' = ac \<lparr> ac_Amount := Some (d_sub L amt covered) \<rparr> # acs'')"
      by (auto simp: bindR_eq_Inr Let_def split: if_splits)
    then show ?thesis using Cons.IH amt by (fastforce simp: balance_defs)
  qed
qed (simp add: balance_defs)

lemma settleCredits_drains:
  assumes "credits_ok currency acs" and "0 \<le> val remaining"
  shows "\<exists>ss acs'. settleCredits L x currency now acs remaining = Inr (ss, acs') \<and>
    credit_balances acs' = drain (val remaining) (credit_balances acs)"
  using assms
proof (induction acs arbitrary: remaining)
  case (Cons ac acs)
  let ?c = "oval (ac_Amount ac)"
  have ok: "credits_ok currency acs" "ac_Currency ac = currency" "ac_InvoiceCurrency ac = currency" "0 \<le> ?c"
    using Cons.prems by (simp_all add: credits_ok_def)
  show ?case
  proof (cases "?c = 0")
    case True
    then show ?thesis
      using Cons.IH [OF ok(1) Cons.prems(2)] Cons.prems(2) by (cases "ac_Amount ac") (auto simp: balance_defs)
  next
    case False
    then obtain amt where amt: "ac_Amount ac = Some amt" "0 < val amt" using ok(4) by (cases "ac_Amount ac") auto
    show ?thesis
    proof (cases "val remaining \<le> val amt")
      case True
      have "\<forall>c\<in>set (credit_balances acs). 0 \<le> c" using ok(1) by (auto simp: balance_defs)
      with True amt ok Cons.prems(2) show ?thesis by (simp add: Let_def balance_defs min_def)
    next
      case False
      then have "0 \<le> val (d_abs L (d_sub L amt remaining))" by simp
      from Cons.IH [OF ok(1) this] False amt ok Cons.prems(2) show ?thesis
        by (auto simp: Let_def balance_defs min_def)
    qed
  qed
qed (simp add: balance_defs)

lemma val_sumOpt: "val (sumOpt L f xs t) = val t + (\<Sum>x\<leftarrow>xs. oval (f x))"
  unfolding sumOpt_def by (induction xs arbitrary: t) (auto split: option.splits)

lemma takePromos_drains:
  assumes "promos_ok pcs" and "0 \<le> val remaining" and "GetExchangeRate L x base profile now = Inr rate"
  shows "\<exists>as pcs'. takePromos L x base profile now pcs remaining = Inr (as, pcs') \<and>
    promo_balances pcs' = drain (val remaining) (promo_balances pcs) \<and>
    (\<Sum>a\<leftarrow>as. oval (apc_Amount a)) = sum_list (promo_balances pcs) - sum_list (promo_balances pcs')"
  using assms(1,2)
proof (induction pcs arbitrary: remaining)
  case (Cons pc pcs)
  let ?c = "oval (pc_RemainingAmount pc)"
  have ok: "promos_ok pcs" "0 \<le> ?c" and nn: "\<forall>c\<in>set (promo_balances (pc # pcs)). 0 \<le> c"
    using Cons.prems by (auto simp: balance_defs)
  show ?case
  proof (cases "val remaining = 0")
    case True
    with nn show ?thesis by simp
  next
    case False
    then have r: "0 < val remaining" using Cons.prems(2) by simp
    show ?thesis
    proof (cases "?c = 0")
      case True
      then show ?thesis
        using Cons.IH [OF ok(1) Cons.prems(2)] r by (cases "pc_RemainingAmount pc") (auto simp: promo_balances_def Let_def)
    next
      case False
      then obtain amt where amt: "pc_RemainingAmount pc = Some amt" "0 < val amt" using ok(2) by (cases "pc_RemainingAmount pc") auto
      define rem' where "rem' = (if val remaining \<le> val amt then d_zero L else d_abs L (d_sub L amt remaining))"
      have v: "val rem' = val remaining - min (val remaining) (val amt)" by (auto simp: rem'_def min_def)
      then have "0 \<le> val rem'" by (simp add: min_def)
      from Cons.IH [OF ok(1) this] r amt assms(3) show ?thesis
        by (auto simp: Let_def promo_balances_def v rem'_def min_def split: if_splits)
    qed
  qed
qed (simp add: promo_balances_def)

end

section \<open>The unpaid amount\<close>

definition net_total :: "Bill \<Rightarrow> rat" where
  "net_total b = (\<Sum>it\<leftarrow>bill_Items b. val (item_NetAmount it)) + (\<Sum>a\<leftarrow>bill_Adjustments b. oval (adj_Amount a))"

definition paid_total :: "Bill \<Rightarrow> rat" where
  "paid_total b = (\<Sum>a\<leftarrow>bill_AppliedAccountCredits b. oval (aac_Amount a)) +
     (\<Sum>a\<leftarrow>bill_AppliedPromotionalCredits b. oval (apc_Amount a)) + (\<Sum>a\<leftarrow>bill_CollectedAmounts b. oval (acc_Amount a))"

context decimal_lib begin

lemma val_net [val_simps]: "val (GetNetAmountBillProductCurrencyWithAdjustments L b) = net_total b"
  by (simp add: GetNetAmountBillProductCurrencyWithAdjustments_def val_sumOpt val_fold_add net_total_def)

lemma val_unpaid [val_simps]: "val (GetUnpaidAmountBillProductCurrency L b) = round_at 2 (net_total b - paid_total b)"
  by (simp add: GetUnpaidAmountBillProductCurrency_def Let_def scaleHalfUp_def val_sumOpt val_net paid_total_def algebra_simps)

lemma settleCredits_places:
  assumes "settleCredits L x currency now acs remaining = Inr (ss, acs')" and "credits_ok currency acs"
    and "0 \<le> val remaining" and "has_places p (val remaining)" and "\<forall>c\<in>set (credit_balances acs). has_places p c"
  shows "\<forall>s\<in>set ss. has_places p (val (acs_Settled s))"
  using assms
proof (induction acs arbitrary: remaining ss acs')
  case (Cons ac acs)
  have ok: "credits_ok currency acs" "ac_Currency ac = currency" "ac_InvoiceCurrency ac = currency"
    using Cons.prems(2) by (simp_all add: credits_ok_def)
  have pl: "\<forall>c\<in>set (credit_balances acs). has_places p c" "has_places p (oval (ac_Amount ac))"
    using Cons.prems(5) by (simp_all add: credit_balances_def)
  show ?case
  proof (cases "ac_Amount ac = None \<or> (\<exists>amt. ac_Amount ac = Some amt \<and> val amt = 0)")
    case True
    with Cons.prems(1) obtain acs'' where "settleCredits L x currency now acs remaining = Inr (ss, acs'')"
      by (auto simp: bindR_eq_Inr Let_def)
    from Cons.IH [OF this ok(1) Cons.prems(3,4) pl(1)] show ?thesis .
  next
    case False
    then obtain amt where amt: "ac_Amount ac = Some amt" "val amt \<noteq> 0" by auto
    let ?s = "\<lambda>v. \<lparr> acs_AccountCredit = ac \<lparr> ac_Amount := Some (d_sub L amt v) \<rparr>, acs_Settled = v \<rparr>"
    show ?thesis
    proof (cases "val remaining \<le> val amt")
      case True
      with Cons.prems(1) amt ok have "ss = [?s remaining]" by (auto simp: Let_def)
      with Cons.prems(4) show ?thesis by simp
    next
      case False
      let ?rem = "d_abs L (d_sub L amt remaining)"
      from False Cons.prems(1) amt ok obtain ss' acs'' where
        r: "settleCredits L x currency now acs ?rem = Inr (ss', acs'')" "ss = ?s amt # ss'"
        by (auto simp: Let_def bindR_eq_Inr)
      have "has_places p (val ?rem)"
        using False Cons.prems(4) pl(2) amt by (simp add: has_places_diff)
      with Cons.IH [OF r(1) ok(1) _ _ pl(1)] r(2) pl(2) amt show ?thesis by simp
    qed
  qed
qed simp

end

text \<open>What a settlement of a bill returns when it succeeds.\<close>

lemma SettleBillAmount_bill:
  assumes "SettleBillAmount L bill amount promos accts taxRates base profile x now = Inr r"
  shows "sr_bill r = bill \<lparr> bill_AppliedPromotionalCredits := bill_AppliedPromotionalCredits bill @ sr_promo r,
    bill_AppliedAccountCredits := bill_AppliedAccountCredits bill @ map (appliedAccountCredit L taxRates) (sr_acct r) \<rparr>"
  using assms
  by (auto simp: SettleBillAmount_def settleAccountCreditLeg_def bindR_eq_Inr Let_def split: if_splits prod.splits)

context decimal_lib begin

lemma SettleBillAmount_run:
  assumes "promos_ok promos" and "credits_ok base accts" and "0 \<le> val amount"
    and "GetExchangeRate L x base profile now = Inr rate"
  obtains r rest where "SettleBillAmount L bill amount promos accts taxRates base profile x now = Inr r"
    and "promo_balances (sr_promoCredits r) = drain (val amount) (promo_balances promos)"
    and "(\<Sum>a\<leftarrow>sr_promo r. oval (apc_Amount a)) = min (val amount) (sum_list (promo_balances promos))"
    and "val rest = val amount - min (val amount) (sum_list (promo_balances promos))" and "0 \<le> val rest"
    and "if val rest = 0 then sr_acct r = [] \<and> sr_accountCredits r = accts
      else settleCredits L x base now accts rest = Inr (sr_acct r, sr_accountCredits r)"
proof (cases "val amount = 0")
  case True
  have nn: "\<forall>c\<in>set (promo_balances promos). 0 \<le> c" using assms(1) by (auto simp: balance_defs)
  then have "min (val amount) (sum_list (promo_balances promos)) = 0"
    using True sum_list_nonneg [of "promo_balances promos"] by (auto simp: min_def)
  with True nn show ?thesis
    by (intro that [of "\<lparr> sr_bill = bill, sr_promo = [], sr_acct = [], sr_promoCredits = promos, sr_accountCredits = accts \<rparr>" amount])
      (simp_all add: SettleBillAmount_def)
next
  case False
  have nn: "\<forall>c\<in>set (promo_balances promos). 0 \<le> c" using assms(1) by (auto simp: balance_defs)
  from takePromos_drains [OF assms(1,3,4)] obtain as pcs' where p: "takePromos L x base profile now promos amount = Inr (as, pcs')"
      "promo_balances pcs' = drain (val amount) (promo_balances promos)"
      "(\<Sum>a\<leftarrow>as. oval (apc_Amount a)) = sum_list (promo_balances promos) - sum_list (promo_balances pcs')" by blast
  then have s: "(\<Sum>a\<leftarrow>as. oval (apc_Amount a)) = min (val amount) (sum_list (promo_balances promos))"
    using drain_sum [OF nn assms(3)] by simp
  define rest where "rest = (if as \<noteq> [] then d_sub L amount (sumOpt L apc_Amount as (d_zero L)) else amount)"
  have v: "val rest = val amount - min (val amount) (sum_list (promo_balances promos))"
    using s by (auto simp: rest_def val_sumOpt)
  have v0: "0 \<le> val rest" using v by simp
  obtain ss acs' where a: "settleCredits L x base now accts rest = Inr (ss, acs')"
    using settleCredits_drains [OF assms(2) v0] by blast
  show ?thesis
  proof (cases "val rest = 0")
    case True
    then show ?thesis using False p s v v0 that
      by (simp add: SettleBillAmount_def TakePromotionalCredits_def Let_def flip: rest_def)
  next
    case nz: False
    then show ?thesis using False p s v v0 a that
      by (simp add: SettleBillAmount_def TakePromotionalCredits_def settleAccountCreditLeg_def SettleAccountCredits_def
          Let_def flip: rest_def)
  qed
qed

end

section \<open>Properties of settlement\<close>

lemma nonneg_balances:
  assumes "promos_ok promos" and "credits_ok base accts"
  shows "\<forall>c\<in>set (promo_balances promos). 0 \<le> c" and "\<forall>c\<in>set (credit_balances accts). 0 \<le> c"
  using assms by (auto simp: balance_defs)

context decimal_lib begin

lemma SettleBillAmount_drains:
  assumes "promos_ok promos" and "credits_ok base accts" and "0 \<le> val amount"
    and "GetExchangeRate L x base profile now = Inr rate"
  shows "\<exists>r. SettleBillAmount L bill amount promos accts taxRates base profile x now = Inr r \<and>
    promo_balances (sr_promoCredits r) @ credit_balances (sr_accountCredits r) =
      drain (val amount) (promo_balances promos @ credit_balances accts) \<and>
    (\<Sum>a\<leftarrow>sr_promo r. oval (apc_Amount a)) + settled_sum (sr_acct r) =
      min (val amount) (sum_list (promo_balances promos @ credit_balances accts))"
proof -
  note nn = nonneg_balances [OF assms(1,2)]
  let ?P = "sum_list (promo_balances promos)" and ?C = "sum_list (credit_balances accts)"
  obtain r rest where r: "SettleBillAmount L bill amount promos accts taxRates base profile x now = Inr r"
      "promo_balances (sr_promoCredits r) = drain (val amount) (promo_balances promos)"
      "(\<Sum>a\<leftarrow>sr_promo r. oval (apc_Amount a)) = min (val amount) ?P"
      "val rest = val amount - min (val amount) ?P" "0 \<le> val rest"
      "if val rest = 0 then sr_acct r = [] \<and> sr_accountCredits r = accts
       else settleCredits L x base now accts rest = Inr (sr_acct r, sr_accountCredits r)"
    by (rule SettleBillAmount_run [OF assms, of bill taxRates])
  have c: "credit_balances (sr_accountCredits r) = drain (val rest) (credit_balances accts) \<and>
      settled_sum (sr_acct r) = ?C - sum_list (credit_balances (sr_accountCredits r))"
  proof (cases "val rest = 0")
    case True
    with r(6) nn(2) show ?thesis by (simp add: settled_sum_def)
  next
    case False
    with r(6) have run: "settleCredits L x base now accts rest = Inr (sr_acct r, sr_accountCredits r)" by simp
    with settleCredits_drains [OF assms(2) r(5), of x now] settleCredits_conserves [OF run] show ?thesis by auto
  qed
  then have "settled_sum (sr_acct r) = min (val rest) ?C" using drain_sum [OF nn(2) r(5)] by simp
  moreover have "0 \<le> ?P" "0 \<le> ?C" using nn by (auto intro!: sum_list_nonneg)
  ultimately have "(\<Sum>a\<leftarrow>sr_promo r. oval (apc_Amount a)) + settled_sum (sr_acct r) = min (val amount) (?P + ?C)"
    using r(3,4) assms(3) by (auto simp: min_def)
  moreover have "drain (val amount) (promo_balances promos @ credit_balances accts) =
      promo_balances (sr_promoCredits r) @ credit_balances (sr_accountCredits r)"
    using drain_append [OF nn(1) assms(3)] c r(2,4) by simp
  ultimately show ?thesis using r(1) by auto
qed

lemma settled_places:
  assumes "SettleBillAmount L bill amount promos accts taxRates base profile x now = Inr r"
    and "promos_ok promos" and "credits_ok base accts" and "0 \<le> val amount"
    and "GetExchangeRate L x base profile now = Inr rate"
    and "has_places 2 (val amount)" and "\<forall>c\<in>set (promo_balances promos @ credit_balances accts). has_places 2 c"
  shows "(\<Sum>s\<leftarrow>sr_acct r. round_at 2 (val (acs_Settled s))) = settled_sum (sr_acct r)"
proof -
  obtain r' rest where r: "SettleBillAmount L bill amount promos accts taxRates base profile x now = Inr r'"
      "promo_balances (sr_promoCredits r') = drain (val amount) (promo_balances promos)"
      "(\<Sum>a\<leftarrow>sr_promo r'. oval (apc_Amount a)) = min (val amount) (sum_list (promo_balances promos))"
      "val rest = val amount - min (val amount) (sum_list (promo_balances promos))" "0 \<le> val rest"
      "if val rest = 0 then sr_acct r' = [] \<and> sr_accountCredits r' = accts
       else settleCredits L x base now accts rest = Inr (sr_acct r', sr_accountCredits r')"
    by (rule SettleBillAmount_run [OF assms(2-5), of bill taxRates])
  have "has_places 2 (sum_list (promo_balances promos))"
    using has_places_sum_list [of "promo_balances promos" 2 "\<lambda>x. x"] assms(7) by simp
  then have "has_places 2 (val rest)" using assms(6) r(4) by (simp add: min_def has_places_diff)
  then have "\<forall>s\<in>set (sr_acct r'). has_places 2 (val (acs_Settled s))"
    using r(6) settleCredits_places [OF _ assms(3) r(5)] assms(7) by (auto split: if_splits)
  then have "(\<Sum>s\<leftarrow>sr_acct r'. round_at 2 (val (acs_Settled s))) = settled_sum (sr_acct r')"
    unfolding settled_sum_def
    by (intro arg_cong [where f = sum_list] map_cong refl round_at_exact) auto
  with r(1) assms(1) show ?thesis by simp
qed

lemma paid_after_settlement:
  assumes "SettleBillAmount L bill amount promos accts taxRates base profile x now = Inr r"
  shows "paid_total (sr_bill r) = paid_total bill + (\<Sum>a\<leftarrow>sr_promo r. oval (apc_Amount a)) +
      (\<Sum>s\<leftarrow>sr_acct r. round_at 2 (val (acs_Settled s)))"
    and "net_total (sr_bill r) = net_total bill"
  unfolding SettleBillAmount_bill [OF assms]
  by (simp_all add: paid_total_def net_total_def appliedAccountCredit_def scaleHalfUp_def Let_def o_def)

end

definition ex_credit :: "string \<Rightarrow> int \<Rightarrow> int \<Rightarrow> AccountCredit" where
  "ex_credit i c e = \<lparr> ac_ID = i, ac_BillingProfileID = ''bp'', ac_InvoiceCurrency = ''EUR'', ac_InvoiceExchangeRate = None,
     ac_InitialAmount = None, ac_Amount = Some (Decimal c e), ac_Currency = ''EUR'', ac_CreatedAt = None, ac_UpdatedAt = None \<rparr>"

definition ex_promo :: "string \<Rightarrow> int \<Rightarrow> PromotionalCredit" where
  "ex_promo i c = \<lparr> pc_ID = i, pc_CreatedAt = None, pc_UpdatedAt = None, pc_ExpirationDate = None,
     pc_BillingProfileID = ''bp'', pc_Code = ''X'', pc_InitialAmount = None, pc_RemainingAmount = Some (Decimal c (- 2)) \<rparr>"

definition ex_charged_bill :: "int \<Rightarrow> Bill" where
  "ex_charged_bill c = ex_bill \<lparr> bill_Items := [ex_item \<lparr> item_NetAmount := Decimal c (- 2) \<rparr>] \<rparr>"

definition ex_transaction :: CollectTransaction where
  "ex_transaction = \<lparr> ct_ID = ''ct'', ct_BillID = ''b1'', ct_OrderID = [], ct_Currency = ''EUR'', ct_ExternalID = [],
     ct_Amount = Some (Decimal 1000 (- 2)), ct_GrossAmount = None, ct_ErrorMessage = [], ct_ExchangeRate = None,
     ct_InvoiceGatewayID = [], ct_PaymentGatewayID = [], ct_BillingProfileID = ''bp'',
     ct_ExternalInvoiceID = [], ct_CreditCardID = [], ct_Status = CTSuccess, ct_Metadata = [], ct_CreatedAt = None, ct_UpdatedAt = None \<rparr>"

definition ex_settled :: settle_result where
  "ex_settled = (case SettleBillAmount ref_lib (ex_charged_bill 1000) (Decimal 1000 (- 2)) [ex_promo ''p'' 300]
     [ex_credit ''a'' 500 (- 2), ex_credit ''b'' 900 (- 2)] [] ''EUR'' ''EUR'' None 0 of Inr r \<Rightarrow> r)"

text \<open>
  C15. Settlement refines draining balances in order: with credits in the base currency and no
  negative balance, settling an amount succeeds and leaves exactly the balances that taking
  the amount from the promotional credits first, then from the account credits, each in list
  order, leaves; what is recorded as applied is the smaller of the amount and all balances.
\<close>

theorem settlement_drains_in_order:
  assumes "decimal_lib L" and "promos_ok promos" and "credits_ok base accts" and "0 \<le> val amount"
    and "GetExchangeRate L x base profile now = Inr rate"
  shows "\<exists>r. SettleBillAmount L bill amount promos accts taxRates base profile x now = Inr r \<and>
    promo_balances (sr_promoCredits r) @ credit_balances (sr_accountCredits r) =
      drain (val amount) (promo_balances promos @ credit_balances accts) \<and>
    (\<Sum>a\<leftarrow>sr_promo r. oval (apc_Amount a)) + settled_sum (sr_acct r) =
      min (val amount) (sum_list (promo_balances promos @ credit_balances accts))"
  by (rule decimal_lib.SettleBillAmount_drains [OF assms])

theorem settlement_drains_in_order_witness:
  "\<exists>r. SettleBillAmount ref_lib (ex_charged_bill 1000) (Decimal 1000 (- 2)) [ex_promo ''p'' 300]
      [ex_credit ''a'' 500 (- 2), ex_credit ''b'' 900 (- 2)] [] ''EUR'' ''EUR'' None 0 = Inr r \<and>
    promo_balances (sr_promoCredits r) @ credit_balances (sr_accountCredits r) = [0, 0, 7]"
proof -
  let ?ps = "[ex_promo ''p'' 300]" and ?as = "[ex_credit ''a'' 500 (- 2), ex_credit ''b'' 900 (- 2)]"
  have h: "promos_ok ?ps" "credits_ok ''EUR'' ?as" "0 \<le> val (Decimal 1000 (- 2))"
    "GetExchangeRate ref_lib None ''EUR'' ''EUR'' 0 = Inr (Decimal 1 0)" by code_simp+
  have "drain (val (Decimal 1000 (- 2))) (promo_balances ?ps @ credit_balances ?as) = [0, 0, 7]" by code_simp
  with settlement_drains_in_order [OF ref.decimal_lib_axioms h, of "ex_charged_bill 1000" "[]"]
  show ?thesis by auto
qed



text \<open>
  C17. In any currencies and at any rates, settling account credits neither creates nor loses
  balance: the balances after, plus the settled amounts, are the balances before.
\<close>

theorem account_settlement_conserves:
  assumes "decimal_lib L" and "SettleAccountCredits L credits amount currency x now = Inr (settlements, credits')"
  shows "sum_list (credit_balances credits') + settled_sum settlements = sum_list (credit_balances credits)"
  using decimal_lib.settleCredits_conserves [OF assms(1)] assms(2) by (simp add: SettleAccountCredits_def)

theorem account_settlement_conserves_witness:
  "\<exists>settlements credits'. SettleAccountCredits ref_lib [ex_credit ''a'' 500 (- 2), ex_credit ''b'' 900 (- 2)]
      (Decimal 700 (- 2)) ''USD'' (Some (\<lambda>b c t. Inr (Decimal 5 (- 1)))) 0 = Inr (settlements, credits') \<and>
    sum_list (credit_balances credits') + settled_sum settlements = 14"
proof -
  let ?as = "[ex_credit ''a'' 500 (- 2), ex_credit ''b'' 900 (- 2)]" and ?x = "Some (\<lambda>b c t. Inr (Decimal 5 (- 1)))"
  let ?run = "SettleAccountCredits ref_lib ?as (Decimal 700 (- 2)) ''USD'' ?x 0"
  have "(case ?run of Inl _ \<Rightarrow> False | Inr _ \<Rightarrow> True)" by code_simp
  then obtain ss cs where run: "?run = Inr (ss, cs)" by (auto split: sum.splits)
  moreover have "sum_list (credit_balances ?as) = 14" by code_simp
  ultimately show ?thesis using account_settlement_conserves [OF ref.decimal_lib_axioms run] by auto
qed

text \<open>
  A completed payment is recorded once, at the transaction's own rate, and marks the bill
  paid exactly when nothing is left unpaid; the unpaid amount drops by the collected amount.
\<close>

lemma collect_marks_paid:
  assumes "decimal_lib L" and "ApplyPaidCollectOnBill L bill ct base = Inr bill'"
    and "collectAmountToProduct L ct base = Inr amt"
  shows "paid_total bill' = paid_total bill + val amt \<and> net_total bill' = net_total bill \<and>
    (bill_Status bill' = (if round_at 2 (net_total bill - paid_total bill - val amt) \<le> 0 then BillPaid else bill_Status bill))"
  using assms(2,3)
  by (auto simp: ApplyPaidCollectOnBill_def Let_def decimal_lib.val_unpaid [OF assms(1)]
      decimal_arith.cmp_le [OF decimal_lib.axioms(1) [OF assms(1)]]
      decimal_arith.val_zero [OF decimal_lib.axioms(1) [OF assms(1)]] paid_total_def net_total_def algebra_simps
      split: if_splits)

text \<open>
  Why whole cents are needed: each applied amount is rounded on its own, so sub-cent credits can
  be used up without the bill being paid.
\<close>

lemma sub_cent_credits_lost:
  "(case SettleBillAmount ref_lib (ex_charged_bill 1) (Decimal 1 (- 2)) []
      [ex_credit ''a'' 4 (- 3), ex_credit ''b'' 4 (- 3), ex_credit ''c'' 2 (- 3)] [] ''EUR'' ''EUR'' None 0 of
    Inl e \<Rightarrow> False
  | Inr r \<Rightarrow> credit_balances (sr_accountCredits r) = [0, 0, 0] \<and>
      val (GetUnpaidAmountBillProductCurrency ref_lib (sr_bill r)) = 1 / 100)"
  by code_simp

end
