(* ===== verification/Adjustments.thy ===== *)
theory Adjustments
  imports Settlement
begin

text \<open>
  \<open>pricing/adjustments.go\<close>: the adjustments a charge puts on the bill after rating, savings
  contracts and price-adjustment rules. Both sum the bill items that match a target and
  insert or update one adjustment per contract or rule. A target whose resource type is not in
  the catalogue leaves the filter matcher with a nil type, which panics; every operation
  therefore returns a result.
\<close>

section \<open>Data\<close>

record AdjustmentTarget =
  at_ResourceType :: string
  at_Filters :: "PricePlanRuleFilter list"

record SavingsContractAdj =
  sc_ID :: string
  sc_SavingsPlanName :: string
  sc_MonthlyCommittedAmount :: decimal
  sc_DiscountRate :: decimal
  sc_PaidUpfront :: bool
  sc_StartDate :: "time option"
  sc_EndDate :: "time option"
  sc_Targets :: "AdjustmentTarget list"

record PriceAdjustmentModifier =
  pam_AsPercentage :: bool
  pam_Value :: decimal
  pam_Operator :: string

record PriceAdjustmentTier =
  pat_StartAmount :: decimal
  pat_Modifier :: PriceAdjustmentModifier

record PriceAdjustmentRule =
  par_ID :: string
  par_Name :: string
  par_Description :: string
  par_PricePlanID :: string
  par_Enabled :: bool
  par_Targets :: "AdjustmentTarget list"
  par_Tiers :: "PriceAdjustmentTier list"

section \<open>Operations\<close>

definition divMathCtx2 :: "declib \<Rightarrow> decimal \<Rightarrow> decimal \<Rightarrow> decimal" where
  "divMathCtx2 L a b = (case apd_quo L mathCtx2 a b of Some q \<Rightarrow> q | None \<Rightarrow> Decimal 0 0)"

definition decimalMin :: "declib \<Rightarrow> decimal \<Rightarrow> decimal \<Rightarrow> decimal" where
  "decimalMin L a b = (if d_cmp L a b \<le> 0 then a else b)"

definition catalogTypeFor :: "BillingResourceType option list \<Rightarrow> string \<Rightarrow> BillingResourceType option" where
  "catalogTypeFor catalog resourceType =
     (case find (\<lambda>t. case t of None \<Rightarrow> False | Some ty \<Rightarrow> brt_ResourceType ty = resourceType) catalog of
        Some t \<Rightarrow> t | None \<Rightarrow> None)"

text \<open>An ordinary error of a filter counts as a failed match; a panic unwinds.\<close>

fun matchesAllFilters :: "declib \<Rightarrow> PricePlanRuleFilter list \<Rightarrow> BillingResource \<Rightarrow> bool res" where
  "matchesAllFilters L [] resource = Inr True"
| "matchesAllFilters L (f # fs) resource =
     (case applyFilter L f resource of
        Inl (Panic p) \<Rightarrow> Inl (Panic p)
      | Inl _ \<Rightarrow> Inr False
      | Inr ok \<Rightarrow> if \<not> ok then Inr False else matchesAllFilters L fs resource)"

definition itemResource :: "BillItem \<Rightarrow> BillingResourceType option \<Rightarrow> BillingResource" where
  "itemResource it brt = \<lparr> br_ResourceID = item_ResourceID it, br_ProjectID = '''', br_ResourceType = item_ResourceType it,
     br_CreatedAt = None, br_DeletedAt = None, br_DisplayPrice = False, br_Values = item_Metadata it,
     br_NotEligibleForBilling = False, br_BillingResourceType = brt \<rparr>"

definition targetItemsAmount :: "declib \<Rightarrow> BillItem list \<Rightarrow> AdjustmentTarget list \<Rightarrow> BillingResourceType option list \<Rightarrow> decimal res" where
  "targetItemsAmount L items targets catalog =
    foldR (\<lambda>target total.
      let brt = catalogTypeFor catalog (at_ResourceType target) in
      foldR (\<lambda>it t.
        if item_ResourceType it \<noteq> at_ResourceType target then Inr t
        else bindR (matchesAllFilters L (at_Filters target) (itemResource it brt)) (\<lambda>ok.
          Inr (if ok then d_add L t (item_NetAmount it) else t))) items total) targets (d_zero L)"

definition sumItemsNet :: "declib \<Rightarrow> BillItem list \<Rightarrow> decimal" where
  "sumItemsNet L items = fold (\<lambda>it t. d_add L t (item_NetAmount it)) items (d_zero L)"

definition upsertAdjustment :: "(BillAdjustment \<Rightarrow> bool) \<Rightarrow> BillAdjustment \<Rightarrow> BillAdjustment list \<Rightarrow> BillAdjustment list" where
  "upsertAdjustment here neu adjs =
    (if find here adjs \<noteq> None then updateFirst here (\<lambda>a. a \<lparr> adj_Amount := adj_Amount neu \<rparr>) adjs
     else adjs @ [neu])"

text \<open>\<open>committed\<close> is the contract's monthly committed amount.\<close>

definition savingsAdjustmentAmount :: "declib \<Rightarrow> SavingsContractAdj \<Rightarrow> decimal \<Rightarrow> decimal" where
  "savingsAdjustmentAmount L c usage =
    (if sc_PaidUpfront c then d_neg L (decimalMin L (sc_MonthlyCommittedAmount c) usage)
     else
       let rateFrac = divMathCtx2 L (sc_DiscountRate c) (d_of_int L 100);
           discount = d_mul L (decimalMin L usage (sc_MonthlyCommittedAmount c)) rateFrac;
           committedDiscount = divMathCtx2 L (d_mul L (sc_MonthlyCommittedAmount c) (sc_DiscountRate c)) (d_of_int L 100);
           diff = d_sub L usage (d_sub L (sc_MonthlyCommittedAmount c) committedDiscount) in
       if d_cmp L diff (d_zero L) \<ge> 0 then d_neg L discount else d_neg L diff)"

definition savingsAdjustment :: "SavingsContractAdj \<Rightarrow> decimal \<Rightarrow> BillAdjustment" where
  "savingsAdjustment c amt = \<lparr> adj_Amount = Some amt, adj_Type = ''SAVINGS_CONTRACT'',
     adj_Description = ''Adjustment based on Savings Contract '' @ sc_SavingsPlanName c, adj_ContractID = sc_ID c,
     adj_SavingsPlanName = sc_SavingsPlanName c, adj_StartDateContract = sc_StartDate c, adj_EndDateContract = sc_EndDate c,
     adj_PriceAdjustmentRuleID = '''', adj_PriceAdjustmentRuleName = '''' \<rparr>"

definition ApplySavingsContractDiscounts :: "declib \<Rightarrow> Bill \<Rightarrow> SavingsContractAdj list \<Rightarrow> BillingResourceType option list \<Rightarrow> Bill res" where
  "ApplySavingsContractDiscounts L bill contracts catalog =
    bindR (foldR (\<lambda>c adjs.
      bindR (targetItemsAmount L (bill_Items bill) (sc_Targets c) catalog) (\<lambda>usage.
        if d_cmp L usage (sc_MonthlyCommittedAmount c) < 0 then Inr adjs
        else Inr (upsertAdjustment (\<lambda>a. adj_ContractID a = sc_ID c)
               (savingsAdjustment c (savingsAdjustmentAmount L c usage)) adjs))) contracts (bill_Adjustments bill))
      (\<lambda>adjs. Inr (bill \<lparr> bill_Adjustments := adjs \<rparr>))"

definition paModifierValue :: "declib \<Rightarrow> PriceAdjustmentModifier \<Rightarrow> decimal \<Rightarrow> decimal" where
  "paModifierValue L m base =
    (let v = (if pam_AsPercentage m then divDecimal128 L (d_mul L base (pam_Value m)) (d_of_int L 100) else pam_Value m) in
     if pam_Operator m = ''add'' then v
     else if pam_Operator m = ''subtract'' then d_neg L v
     else base)"

text \<open>\<open>sort.SliceStable\<close> with the comparison ``greater start amount first'', as a stable insertion sort.\<close>

fun insertTier :: "declib \<Rightarrow> PriceAdjustmentTier \<Rightarrow> PriceAdjustmentTier list \<Rightarrow> PriceAdjustmentTier list" where
  "insertTier L x [] = [x]"
| "insertTier L x (y # ys) =
     (if d_cmp L (pat_StartAmount y) (pat_StartAmount x) > 0 then y # insertTier L x ys else x # y # ys)"

definition sortTiersDesc :: "declib \<Rightarrow> PriceAdjustmentTier list \<Rightarrow> PriceAdjustmentTier list" where
  "sortTiersDesc L tiers = foldr (insertTier L) tiers []"

definition tieredAdjustmentAmount :: "declib \<Rightarrow> PriceAdjustmentTier list \<Rightarrow> decimal \<Rightarrow> decimal" where
  "tieredAdjustmentAmount L tiers amount =
    (if tiers = [] then d_zero L
     else case find (\<lambda>t. d_cmp L amount (pat_StartAmount t) \<ge> 0) (sortTiersDesc L tiers) of
       Some t \<Rightarrow> paModifierValue L (pat_Modifier t) amount
     | None \<Rightarrow> d_zero L)"

definition ruleAdjustment :: "PriceAdjustmentRule \<Rightarrow> decimal \<Rightarrow> BillAdjustment" where
  "ruleAdjustment r amt = \<lparr> adj_Amount = Some amt, adj_Type = ''PRICE_ADJUSTMENT_RULE'',
     adj_Description = (if par_Description r = '''' then par_Name r else par_Description r), adj_ContractID = '''',
     adj_SavingsPlanName = '''', adj_StartDateContract = None, adj_EndDateContract = None,
     adj_PriceAdjustmentRuleID = par_ID r, adj_PriceAdjustmentRuleName = par_Name r \<rparr>"

definition ApplyPriceAdjustmentRules :: "declib \<Rightarrow> Bill \<Rightarrow> PriceAdjustmentRule list \<Rightarrow> BillingResourceType option list \<Rightarrow> Bill res" where
  "ApplyPriceAdjustmentRules L bill rules catalog =
    bindR (foldR (\<lambda>r adjs.
      if \<not> par_Enabled r then Inr adjs
      else bindR (if par_Targets r \<noteq> [] then targetItemsAmount L (bill_Items bill) (par_Targets r) catalog
                  else Inr (sumItemsNet L (bill_Items bill))) (\<lambda>usage.
        if d_is_zero L usage then Inr adjs
        else let amt = tieredAdjustmentAmount L (par_Tiers r) usage in
          if d_is_zero L amt then Inr adjs
          else Inr (upsertAdjustment (\<lambda>a. adj_PriceAdjustmentRuleID a = par_ID r) (ruleAdjustment r amt) adjs)))
      rules (bill_Adjustments bill))
      (\<lambda>adjs. Inr (bill \<lparr> bill_Adjustments := adjs \<rparr>))"

section \<open>Upserts\<close>

lemma upsert_find:
  assumes "here neu" and "\<And>a v. here a \<Longrightarrow> here (a \<lparr> adj_Amount := v \<rparr>)"
  shows "\<exists>a. find here (upsertAdjustment here neu adjs) = Some a \<and> adj_Amount a = adj_Amount neu"
proof (cases "find here adjs")
  case None
  then show ?thesis using assms(1) by (auto simp: upsertAdjustment_def find_append)
next
  case (Some a)
  then show ?thesis using assms(2) by (simp add: upsertAdjustment_def find_updateFirst)
qed

lemma upsert_same:
  assumes "find here adjs = Some a" and "adj_Amount a = adj_Amount neu"
  shows "upsertAdjustment here neu adjs = adjs"
proof -
  from updateFirst_find [OF assms(1)] obtain ys zs
    where s: "adjs = ys @ a # zs" "\<forall>f. updateFirst here f adjs = ys @ f a # zs" by blast
  moreover have "a \<lparr> adj_Amount := adj_Amount neu \<rparr> = a" using assms(2) by (metis BillAdjustment.surjective BillAdjustment.update_convs(1))
  ultimately show ?thesis using assms(1) by (simp add: upsertAdjustment_def)
qed

lemma upsert_other:
  assumes "\<not> there neu" and "\<And>a. \<not> (here a \<and> there a)" and "\<And>a v. there (a \<lparr> adj_Amount := v \<rparr>) = there a"
  shows "find there (upsertAdjustment here neu adjs) = find there adjs"
proof -
  have "find there (updateFirst here (\<lambda>a. a \<lparr> adj_Amount := v \<rparr>) adjs) = find there adjs" for v
    using assms(2,3) by (intro find_updateFirst_other) auto
  then show ?thesis using assms(1) by (auto simp: upsertAdjustment_def find_append split: option.splits)
qed

definition upsertStep :: "('c \<Rightarrow> BillAdjustment \<Rightarrow> bool) \<Rightarrow> ('c \<Rightarrow> BillAdjustment option res) \<Rightarrow> 'c \<Rightarrow> BillAdjustment list \<Rightarrow> BillAdjustment list res" where
  "upsertStep here f c adjs = bindR (f c) (\<lambda>n. Inr (case n of None \<Rightarrow> adjs | Some neu \<Rightarrow> upsertAdjustment (here c) neu adjs))"

text \<open>Both loops upsert, per element, an adjustment that does not depend on the other adjustments.\<close>

lemma upsertStep_idem:
  assumes "foldR (upsertStep here f) cs adjs = Inr adjs'" and "distinct (map key cs)"
    and "\<And>c neu. f c = Inr (Some neu) \<Longrightarrow> here c neu"
    and "\<And>c a v. here c (a \<lparr> adj_Amount := v \<rparr>) = here c a"
    and "\<And>c d a. key c \<noteq> key d \<Longrightarrow> \<not> (here c a \<and> here d a)"
  shows "foldR (upsertStep here f) cs adjs' = Inr adjs'"
proof (rule foldR_idem [OF assms(1,2)])
  fix c a a' assume run: "upsertStep here f c a = Inr a'"
  then show "upsertStep here f c a' = Inr a'"
  proof (cases "f c")
    case (Inr n)
    with run show ?thesis
    proof (cases n)
      case (Some neu)
      with Inr run have a': "a' = upsertAdjustment (here c) neu a" by (simp add: upsertStep_def)
      obtain e where "find (here c) a' = Some e" "adj_Amount e = adj_Amount neu"
        using upsert_find [of "here c" neu a] assms(3,4) Inr Some a' by auto
      then show ?thesis using Inr Some by (simp add: upsertStep_def upsert_same)
    qed (auto simp: upsertStep_def)
  qed (simp add: upsertStep_def)
next
  fix c d a a'
  assume ne: "key c \<noteq> key d" and c: "upsertStep here f c a = Inr a" and d: "upsertStep here f d a = Inr a'"
  show "upsertStep here f c a' = Inr a'"
  proof (cases "f c")
    case (Inr n)
    show ?thesis
    proof (cases n)
      case (Some neu)
      with Inr c have a: "upsertAdjustment (here c) neu a = a" by (simp add: upsertStep_def)
      from upsert_find [of "here c" neu a] obtain e where e: "find (here c) a = Some e" "adj_Amount e = adj_Amount neu"
        using assms(3,4) Inr Some by (auto simp: a)
      have "find (here c) a' = find (here c) a"
        using d assms(3) [of d] assms(5) [OF ne] assms(5) [OF ne [symmetric]] assms(4)
        by (auto simp: upsertStep_def bindR_eq_Inr intro!: upsert_other split: option.splits)
      with e Inr Some show ?thesis by (simp add: upsertStep_def upsert_same)
    qed (simp add: upsertStep_def Inr)
  qed (use c in \<open>simp add: upsertStep_def\<close>)
qed

definition savingsStep :: "declib \<Rightarrow> BillItem list \<Rightarrow> BillingResourceType option list \<Rightarrow> SavingsContractAdj \<Rightarrow> BillAdjustment option res" where
  "savingsStep L items catalog c = bindR (targetItemsAmount L items (sc_Targets c) catalog) (\<lambda>usage.
     Inr (if d_cmp L usage (sc_MonthlyCommittedAmount c) < 0 then None
          else Some (savingsAdjustment c (savingsAdjustmentAmount L c usage))))"

definition ruleStep :: "declib \<Rightarrow> BillItem list \<Rightarrow> BillingResourceType option list \<Rightarrow> PriceAdjustmentRule \<Rightarrow> BillAdjustment option res" where
  "ruleStep L items catalog r = (if \<not> par_Enabled r then Inr None
     else bindR (if par_Targets r \<noteq> [] then targetItemsAmount L items (par_Targets r) catalog else Inr (sumItemsNet L items)) (\<lambda>usage.
       Inr (if d_is_zero L usage \<or> d_is_zero L (tieredAdjustmentAmount L (par_Tiers r) usage) then None
            else Some (ruleAdjustment r (tieredAdjustmentAmount L (par_Tiers r) usage)))))"

lemma foldR_cong: "(\<And>x a. f x a = g x a) \<Longrightarrow> foldR f xs a = foldR g xs a"
proof -
  assume "\<And>x a. f x a = g x a"
  then have "f = g" by (intro ext)
  then show ?thesis by simp
qed

lemma ApplySavingsContractDiscounts_steps:
  "ApplySavingsContractDiscounts L bill cs catalog =
    bindR (foldR (upsertStep (\<lambda>c a. adj_ContractID a = sc_ID c) (savingsStep L (bill_Items bill) catalog)) cs (bill_Adjustments bill))
      (\<lambda>adjs. Inr (bill \<lparr> bill_Adjustments := adjs \<rparr>))"
  unfolding ApplySavingsContractDiscounts_def
  by (intro arg_cong2 [where f = bindR] refl foldR_cong) (auto simp: upsertStep_def savingsStep_def bindR_def split: sum.splits)

lemma ApplyPriceAdjustmentRules_steps:
  "ApplyPriceAdjustmentRules L bill rs catalog =
    bindR (foldR (upsertStep (\<lambda>r a. adj_PriceAdjustmentRuleID a = par_ID r) (ruleStep L (bill_Items bill) catalog)) rs (bill_Adjustments bill))
      (\<lambda>adjs. Inr (bill \<lparr> bill_Adjustments := adjs \<rparr>))"
  unfolding ApplyPriceAdjustmentRules_def
  by (intro arg_cong2 [where f = bindR] refl foldR_cong) (auto simp: upsertStep_def ruleStep_def bindR_def Let_def split: sum.splits)

section \<open>Amounts\<close>

lemma half_away_le_int: "x \<le> of_int n \<Longrightarrow> half_away x \<le> n"
  using half_away_mono [of x "of_int n"] by simp

context decimal_lib begin

lemma divMathCtx2_value:
  assumes "val b \<noteq> 0"
  shows "\<bar>val (divMathCtx2 L a b) - val a / val b\<bar> * 20 \<le> \<bar>val a / val b\<bar>"
  using quo_case_error [OF assms, where c = mathCtx2 and a = a and z = "Decimal 0 0"] by (simp add: divMathCtx2_def mathCtx2_def)

text \<open>Rounding to significant digits does not cross a power of ten.\<close>

lemma divMathCtx2_le_1:
  assumes "val b \<noteq> 0" and "0 \<le> val a / val b" and "val a / val b \<le> 1"
  shows "val (divMathCtx2 L a b) \<le> 1"
proof (cases "val a / val b = 0")
  case True
  then have "val a = 0" using assms(1) by simp
  then obtain q where "apd_quo L mathCtx2 a b = Some q" "val q = 0" using quo_zero assms(1) by blast
  then show ?thesis by (simp add: divMathCtx2_def)
next
  case False
  let ?x = "val a / val b"
  have p: "(0 :: nat) < 2" by simp
  obtain k where k: "10 ^ (2 - 1) \<le> \<bar>?x\<bar> * 10 powi k" "\<bar>?x\<bar> * 10 powi k < 10 ^ 2"
    using shift_exists [OF False p] by blast
  then obtain q where q: "apd_quo L mathCtx2 a b = Some q" "val q = of_int (half_away (?x * 10 powi k)) * 10 powi (- k)"
    using quo_Some [OF assms(1), of mathCtx2 a k] by (auto simp: mathCtx2_def round_mode_def)
  have xk: "?x * 10 powi k \<le> 10 powi k" using assms(2,3) by (intro mult_left_le_one_le) simp_all
  have "0 \<le> k"
  proof (rule ccontr)
    assume "\<not> 0 \<le> k"
    then have "(10 :: rat) powi k \<le> 10 powi 0" by (intro power_int_increasing) simp_all
    moreover have "10 \<le> ?x * 10 powi k" using k(1) assms(2) by (simp only: abs_of_nonneg) simp
    ultimately show False using xk by simp
  qed
  then have t: "(10 :: rat) powi k = of_int (10 ^ nat k)" by (simp add: power_int_def)
  have "half_away (?x * 10 powi k) \<le> 10 ^ nat k" using xk unfolding t by (rule half_away_le_int)
  then have "(of_int (half_away (?x * 10 powi k)) :: rat) \<le> 10 powi k" unfolding t by (simp only: of_int_le_iff)
  then have "val q \<le> 10 powi k * 10 powi (- k)" unfolding q(2) by (intro mult_right_mono) simp_all
  also have "\<dots> = 1" by (simp add: power_int_minus)
  finally show ?thesis using q(1) by (simp add: divMathCtx2_def)
qed

lemma divMathCtx2_nonneg:
  assumes "val b \<noteq> 0" and "0 \<le> val a / val b"
  shows "0 \<le> val (divMathCtx2 L a b)"
proof -
  define x q where "x = val a / val b" and "q = val (divMathCtx2 L a b)"
  have "\<bar>q - x\<bar> * 20 \<le> \<bar>x\<bar>" "0 \<le> x"
    using divMathCtx2_value [OF assms(1), of a] assms(2) by (simp_all add: x_def q_def)
  moreover have "x - q \<le> \<bar>q - x\<bar>" by simp
  ultimately have "0 \<le> q" by simp
  then show ?thesis by (simp add: q_def)
qed

lemma val_decimalMin [simp]: "val (decimalMin L a b) = min (val a) (val b)"
  by (simp add: decimalMin_def min_def)

lemma savings_amount:
  assumes "0 \<le> val (sc_MonthlyCommittedAmount c)" and "val (sc_MonthlyCommittedAmount c) \<le> val usage"
    and "0 \<le> val (sc_DiscountRate c)"
  shows "val (savingsAdjustmentAmount L c usage) = - val (sc_MonthlyCommittedAmount c) *
    (if sc_PaidUpfront c then 1 else val (divMathCtx2 L (sc_DiscountRate c) (d_of_int L 100)))"
proof -
  have "0 \<le> val (divMathCtx2 L (d_mul L (sc_MonthlyCommittedAmount c) (sc_DiscountRate c)) (d_of_int L 100))"
    using assms by (intro divMathCtx2_nonneg) simp_all
  then show ?thesis using assms by (simp add: savingsAdjustmentAmount_def Let_def min_def)
qed

lemma set_insertTier: "set (insertTier L t us) = insert t (set us)"
  by (induction us) auto

lemma set_sortTiersDesc: "set (sortTiersDesc L ts) = set ts"
  by (induction ts) (auto simp: sortTiersDesc_def set_insertTier)

lemma insertTier_sorted:
  "sorted_wrt (\<lambda>s t. val (pat_StartAmount t) \<le> val (pat_StartAmount s)) us \<Longrightarrow>
    sorted_wrt (\<lambda>s t. val (pat_StartAmount t) \<le> val (pat_StartAmount s)) (insertTier L t us)"
proof (induction us)
  case (Cons u us)
  then show ?case by (auto simp: set_insertTier not_less intro: order_trans)
qed simp

lemma sortTiersDesc_sorted: "sorted_wrt (\<lambda>s t. val (pat_StartAmount t) \<le> val (pat_StartAmount s)) (sortTiersDesc L ts)"
  by (induction ts) (auto simp: sortTiersDesc_def intro: insertTier_sorted)

lemma find_sorted_max:
  assumes "sorted_wrt (\<lambda>s t. val (pat_StartAmount t) \<le> val (pat_StartAmount s)) us"
    and "find (\<lambda>t. val (pat_StartAmount t) \<le> x) us = Some t"
  shows "t \<in> set us \<and> val (pat_StartAmount t) \<le> x \<and>
    (\<forall>u\<in>set us. val (pat_StartAmount u) \<le> x \<longrightarrow> val (pat_StartAmount u) \<le> val (pat_StartAmount t))"
  using assms by (induction us) (auto split: if_splits)

lemma tiered_amount:
  "(\<exists>t\<in>set ts. val (pat_StartAmount t) \<le> val amount \<and>
      (\<forall>u\<in>set ts. val (pat_StartAmount u) \<le> val amount \<longrightarrow> val (pat_StartAmount u) \<le> val (pat_StartAmount t)) \<and>
      tieredAdjustmentAmount L ts amount = paModifierValue L (pat_Modifier t) amount) \<or>
    (\<forall>t\<in>set ts. val amount < val (pat_StartAmount t)) \<and> val (tieredAdjustmentAmount L ts amount) = 0"
proof (cases "find (\<lambda>t. val (pat_StartAmount t) \<le> val amount) (sortTiersDesc L ts)")
  case None
  then have "\<forall>t\<in>set ts. val amount < val (pat_StartAmount t)"
    by (auto simp: find_None_iff set_sortTiersDesc not_le)
  with None show ?thesis by (simp add: tieredAdjustmentAmount_def)
next
  case (Some t)
  from find_sorted_max [OF sortTiersDesc_sorted Some] have "t \<in> set ts" "val (pat_StartAmount t) \<le> val amount"
      "\<forall>u\<in>set ts. val (pat_StartAmount u) \<le> val amount \<longrightarrow> val (pat_StartAmount u) \<le> val (pat_StartAmount t)"
    by (simp_all add: set_sortTiersDesc)
  moreover have "tieredAdjustmentAmount L ts amount = paModifierValue L (pat_Modifier t) amount"
    using Some calculation(1) by (auto simp: tieredAdjustmentAmount_def)
  ultimately show ?thesis by blast
qed

end

section \<open>Properties of adjustments\<close>

text \<open>
  C19. Adjusting is idempotent: every charge cycle applies the savings contracts and the
  price-adjustment rules again, and applying the same contracts, or the same rules, to a bill
  they were already applied to leaves the bill exactly as it is, with one adjustment per
  contract and per rule and no accumulation.
\<close>

theorem adjustments_idempotent:
  assumes "distinct (map sc_ID contracts)" and "distinct (map par_ID rules)"
    and "ApplySavingsContractDiscounts L bill contracts catalog = Inr bill1"
    and "ApplyPriceAdjustmentRules L bill' rules catalog = Inr bill2"
  shows "ApplySavingsContractDiscounts L bill1 contracts catalog = Inr bill1 \<and>
    ApplyPriceAdjustmentRules L bill2 rules catalog = Inr bill2"
proof
  let ?s = "upsertStep (\<lambda>c a. adj_ContractID a = sc_ID c) (savingsStep L (bill_Items bill) catalog)"
  from assms(3) obtain adjs where a: "foldR ?s contracts (bill_Adjustments bill) = Inr adjs" "bill1 = bill \<lparr> bill_Adjustments := adjs \<rparr>"
    by (auto simp: ApplySavingsContractDiscounts_steps bindR_eq_Inr)
  have "foldR ?s contracts adjs = Inr adjs"
    by (rule upsertStep_idem [OF a(1) assms(1)]) (auto simp: savingsStep_def savingsAdjustment_def bindR_eq_Inr split: if_splits)
  with a(2) show "ApplySavingsContractDiscounts L bill1 contracts catalog = Inr bill1"
    by (simp add: ApplySavingsContractDiscounts_steps)
next
  let ?r = "upsertStep (\<lambda>r a. adj_PriceAdjustmentRuleID a = par_ID r) (ruleStep L (bill_Items bill') catalog)"
  from assms(4) obtain adjs where a: "foldR ?r rules (bill_Adjustments bill') = Inr adjs" "bill2 = bill' \<lparr> bill_Adjustments := adjs \<rparr>"
    by (auto simp: ApplyPriceAdjustmentRules_steps bindR_eq_Inr)
  have "foldR ?r rules adjs = Inr adjs"
    by (rule upsertStep_idem [OF a(1) assms(2)]) (auto simp: ruleStep_def ruleAdjustment_def bindR_eq_Inr split: if_splits)
  with a(2) show "ApplyPriceAdjustmentRules L bill2 rules catalog = Inr bill2"
    by (simp add: ApplyPriceAdjustmentRules_steps)
qed

definition ex_contract :: "bool \<Rightarrow> decimal \<Rightarrow> SavingsContractAdj" where
  "ex_contract upfront rate = \<lparr> sc_ID = ''c1'', sc_SavingsPlanName = ''plan'', sc_MonthlyCommittedAmount = Decimal 100 0,
     sc_DiscountRate = rate, sc_PaidUpfront = upfront, sc_StartDate = None, sc_EndDate = None,
     sc_Targets = [\<lparr> at_ResourceType = ''server'', at_Filters = [] \<rparr>] \<rparr>"

definition ex_adj_rule :: PriceAdjustmentRule where
  "ex_adj_rule = \<lparr> par_ID = ''r1'', par_Name = ''volume'', par_Description = [], par_PricePlanID = ''p'', par_Enabled = True,
     par_Targets = [], par_Tiers = [
       \<lparr> pat_StartAmount = Decimal 0 0, pat_Modifier = \<lparr> pam_AsPercentage = True, pam_Value = Decimal 5 0, pam_Operator = ''subtract'' \<rparr> \<rparr>,
       \<lparr> pat_StartAmount = Decimal 150 0, pat_Modifier = \<lparr> pam_AsPercentage = True, pam_Value = Decimal 10 0, pam_Operator = ''subtract'' \<rparr> \<rparr>] \<rparr>"

theorem adjustments_idempotent_witness:
  "\<exists>b1 b2. ApplySavingsContractDiscounts ref_lib (ex_charged_bill 20000) [ex_contract False (Decimal 10 0)] [] = Inr b1 \<and>
    ApplySavingsContractDiscounts ref_lib b1 [ex_contract False (Decimal 10 0)] [] = Inr b1 \<and>
    ApplyPriceAdjustmentRules ref_lib (ex_charged_bill 20000) [ex_adj_rule] [] = Inr b2 \<and>
    ApplyPriceAdjustmentRules ref_lib b2 [ex_adj_rule] [] = Inr b2"
proof -
  have "(case ApplySavingsContractDiscounts ref_lib (ex_charged_bill 20000) [ex_contract False (Decimal 10 0)] [] of Inl _ \<Rightarrow> False | Inr _ \<Rightarrow> True)"
    "(case ApplyPriceAdjustmentRules ref_lib (ex_charged_bill 20000) [ex_adj_rule] [] of Inl _ \<Rightarrow> False | Inr _ \<Rightarrow> True)"
    by code_simp+
  then obtain b1 b2 where
    r: "ApplySavingsContractDiscounts ref_lib (ex_charged_bill 20000) [ex_contract False (Decimal 10 0)] [] = Inr b1"
       "ApplyPriceAdjustmentRules ref_lib (ex_charged_bill 20000) [ex_adj_rule] [] = Inr b2"
    by (auto split: sum.splits)
  have "distinct (map sc_ID [ex_contract False (Decimal 10 0)])" "distinct (map par_ID [ex_adj_rule])" by simp_all
  from adjustments_idempotent [OF this r] r show ?thesis by blast
qed

text \<open>
  A savings discount stays within the usage it discounts: once the usage has reached the
  committed amount, the adjustment is the committed amount (paid up front) or the committed
  amount times the discount rate at two significant digits, taken off; with a rate between
  0 and 100 percent it is never positive and never exceeds the usage.
\<close>

lemma savings_discount_bounds:
  assumes "decimal_lib L" and "0 \<le> val (sc_MonthlyCommittedAmount c)" and "val (sc_MonthlyCommittedAmount c) \<le> val usage"
    and "0 \<le> val (sc_DiscountRate c)" and "val (sc_DiscountRate c) \<le> 100"
  shows "- val usage \<le> val (savingsAdjustmentAmount L c usage) \<and> val (savingsAdjustmentAmount L c usage) \<le> 0 \<and>
    (sc_PaidUpfront c \<longrightarrow> val (savingsAdjustmentAmount L c usage) = - val (sc_MonthlyCommittedAmount c)) \<and>
    (\<not> sc_PaidUpfront c \<longrightarrow> \<bar>val (savingsAdjustmentAmount L c usage) + val (sc_MonthlyCommittedAmount c) * val (sc_DiscountRate c) / 100\<bar> * 20
      \<le> val (sc_MonthlyCommittedAmount c) * val (sc_DiscountRate c) / 100)"
proof -
  let ?C = "val (sc_MonthlyCommittedAmount c)" and ?R = "val (sc_DiscountRate c) / 100"
  let ?q = "val (divMathCtx2 L (sc_DiscountRate c) (d_of_int L 100))"
  have h: "val (d_of_int L 100) = 100" by (simp add: decimal_arith.val_of_int [OF decimal_lib.axioms(1) [OF assms(1)]])
  then have b: "val (d_of_int L 100) \<noteq> 0" by simp
  have q: "0 \<le> ?q" "?q \<le> 1" "\<bar>?q - ?R\<bar> * 20 \<le> ?R"
    using decimal_lib.divMathCtx2_nonneg [OF assms(1) b] decimal_lib.divMathCtx2_le_1 [OF assms(1) b]
      decimal_lib.divMathCtx2_value [OF assms(1) b, of "sc_DiscountRate c"] assms(4,5) by (simp_all add: h)
  note amt = decimal_lib.savings_amount [OF assms(1-4)]
  have "- ?C * ?q + ?C * val (sc_DiscountRate c) / 100 = - (?C * (?q - ?R))" by (simp add: algebra_simps)
  then have "\<bar>- ?C * ?q + ?C * val (sc_DiscountRate c) / 100\<bar> * 20 = ?C * (\<bar>?q - ?R\<bar> * 20)"
    using assms(2) by (simp only: abs_minus_cancel abs_mult abs_of_nonneg mult.assoc)
  also have "\<dots> \<le> ?C * ?R" using q(3) assms(2) by (rule mult_left_mono)
  finally have "\<bar>- ?C * ?q + ?C * val (sc_DiscountRate c) / 100\<bar> * 20 \<le> ?C * val (sc_DiscountRate c) / 100" by simp
  moreover have "0 \<le> ?C * ?q" "?C * ?q \<le> ?C" using assms(2) q(1,2) by (simp_all add: mult_left_le)
  ultimately show ?thesis using assms(2,3) unfolding amt by auto
qed

text \<open>
  The tiers of a price-adjustment rule: the modifier of the tier with the highest start
  amount not above the usage decides the adjustment; if every tier starts above the usage
  the adjustment is zero.
\<close>

lemma tiered_adjustment_picks_highest:
  assumes "decimal_lib L"
  shows "(\<exists>t\<in>set ts. val (pat_StartAmount t) \<le> val amount \<and>
      \<not> (\<exists>u\<in>set ts. val (pat_StartAmount u) \<le> val amount \<and> val (pat_StartAmount t) < val (pat_StartAmount u)) \<and>
      tieredAdjustmentAmount L ts amount = paModifierValue L (pat_Modifier t) amount) \<or>
    \<not> (\<exists>t\<in>set ts. val (pat_StartAmount t) \<le> val amount) \<and> val (tieredAdjustmentAmount L ts amount) = 0"
  using decimal_lib.tiered_amount [OF assms, of ts amount] by (meson linorder_not_less)

text \<open>A discount rate of three significant digits is rounded: 12.5 percent is applied as 13.\<close>

lemma savings_rate_rounded:
  "val (savingsAdjustmentAmount ref_lib (ex_contract False (Decimal 125 (- 1))) (Decimal 200 0)) = - 13"
  by code_simp

text \<open>A filtered target of a resource type outside the catalogue panics instead of not matching.\<close>

lemma unknown_target_type_panics:
  "\<exists>p. targetItemsAmount ref_lib (bill_Items (ex_charged_bill 20000))
    [\<lparr> at_ResourceType = ''server'', at_Filters = [\<lparr> filter_AttributeName = ''ram'', filter_Operator = ''gt'',
       filter_Value = AnyInt 1, filter_Values = [] \<rparr>] \<rparr>] [] = Inl (Panic p)"
  by (rule exI [of _ "''nil BillingResourceType''"]) code_simp

end
