(* ===== verification/Suspension_Rules.thy ===== *)
theory Suspension_Rules
  imports Pricing_Convert Decimal_Reference
begin

text \<open>
  \<open>pricing/suspension.go\<close>: the decisions of automatic suspension. A configuration names the
  limit at which a profile is suspended and the limits at which it is notified; a limit is a
  balance or a number of days past due. \<open>Notifications == nil\<close> and an empty list behave alike.
\<close>

section \<open>Data\<close>

definition SuspensionTypeBalance :: string where "SuspensionTypeBalance = ''BALANCE''"
definition SuspensionTypeDueDate :: string where "SuspensionTypeDueDate = ''DUE_DATE''"

record SuspensionLimit =
  sl_Balance :: "decimal option"
  sl_Days :: int

record BillingAutomaticSuspensionConfig =
  cfg_Enabled :: bool
  cfg_Type :: string
  cfg_SuspendedAt :: "SuspensionLimit option"
  cfg_Notifications :: "SuspensionLimit list"

record SuspensionNotification =
  sn_SuspensionLimit :: SuspensionLimit
  sn_Balance :: "decimal option"
  sn_Currency :: string
  sn_SentAt :: "time option"
  sn_CreatedAt :: "time option"

section \<open>Operations\<close>

definition daysBetween :: "time \<Rightarrow> time \<Rightarrow> int" where
  "daysBetween t u = quot (timeSub u t) (24 * hour)"

fun maxBalanceLimit :: "declib \<Rightarrow> SuspensionLimit list \<Rightarrow> SuspensionLimit option \<Rightarrow> SuspensionLimit option" where
  "maxBalanceLimit L [] best = best"
| "maxBalanceLimit L (n # ns) best =
    (case sl_Balance n of
       None \<Rightarrow> maxBalanceLimit L ns best
     | Some b \<Rightarrow>
         if (case best of None \<Rightarrow> True
             | Some bst \<Rightarrow> (case sl_Balance bst of None \<Rightarrow> False | Some bb \<Rightarrow> d_cmp L b bb > 0))
         then maxBalanceLimit L ns (Some n) else maxBalanceLimit L ns best)"

fun minDaysLimit :: "SuspensionLimit list \<Rightarrow> SuspensionLimit option \<Rightarrow> SuspensionLimit option" where
  "minDaysLimit [] best = best"
| "minDaysLimit (n # ns) best =
    (if (case best of None \<Rightarrow> True | Some b \<Rightarrow> sl_Days n < sl_Days b)
     then minDaysLimit ns (Some n) else minDaysLimit ns best)"

definition StartAtSuspensionLimit :: "declib \<Rightarrow> BillingAutomaticSuspensionConfig \<Rightarrow> SuspensionLimit option" where
  "StartAtSuspensionLimit L c =
    (if cfg_Type c = SuspensionTypeBalance then
       (case maxBalanceLimit L (cfg_Notifications c) None of None \<Rightarrow> cfg_SuspendedAt c | Some b \<Rightarrow> Some b)
     else if cfg_Type c = SuspensionTypeDueDate then
       (case minDaysLimit (cfg_Notifications c) None of None \<Rightarrow> cfg_SuspendedAt c | Some b \<Rightarrow> Some b)
     else cfg_SuspendedAt c)"

definition IsEligibleForSuspension :: "declib \<Rightarrow> BillingAutomaticSuspensionConfig option \<Rightarrow> SuspensionLimit \<Rightarrow> decimal \<Rightarrow>
    time list \<Rightarrow> time \<Rightarrow> bool" where
  "IsEligibleForSuspension L config limit balance dueAts now =
    (case config of None \<Rightarrow> False
     | Some c \<Rightarrow>
         if \<not> cfg_Enabled c then False
         else if cfg_Type c = SuspensionTypeBalance then
           (case sl_Balance limit of None \<Rightarrow> False | Some b \<Rightarrow> d_cmp L balance b \<le> 0)
         else if cfg_Type c = SuspensionTypeDueDate then
           (\<exists>due\<in>set dueAts. daysBetween due now \<ge> sl_Days limit)
         else False)"

definition maxDaysOverdue :: "time list \<Rightarrow> time \<Rightarrow> int" where
  "maxDaysOverdue dueAts now = fold (\<lambda>due m. if daysBetween due now > m then daysBetween due now else m) dueAts (- (2 ^ 62))"

text \<open>The predicate of \<open>ListNotificationsToSend\<close> and \<open>MarkNotificationsToSend\<close> on one notification.\<close>

definition notificationDue :: "declib \<Rightarrow> BillingAutomaticSuspensionConfig \<Rightarrow> time list \<Rightarrow> decimal \<Rightarrow> time \<Rightarrow> SuspensionNotification \<Rightarrow> bool" where
  "notificationDue L config dueAts currentBalance now n =
    (if cfg_Type config = SuspensionTypeBalance then
       sn_SentAt n = None \<and> (case sl_Balance (sn_SuspensionLimit n) of None \<Rightarrow> False | Some b \<Rightarrow> d_cmp L b currentBalance > 0)
     else if cfg_Type config = SuspensionTypeDueDate then
       dueAts \<noteq> [] \<and> sn_SentAt n = None \<and> sl_Days (sn_SuspensionLimit n) < maxDaysOverdue dueAts now
     else False)"

definition ListNotificationsToSend :: "declib \<Rightarrow> BillingAutomaticSuspensionConfig \<Rightarrow> SuspensionNotification list \<Rightarrow> time list \<Rightarrow>
    decimal \<Rightarrow> time \<Rightarrow> SuspensionNotification list" where
  "ListNotificationsToSend L config notifications dueAts currentBalance now =
     filter (notificationDue L config dueAts currentBalance now) notifications"

definition markSent :: "decimal \<Rightarrow> time \<Rightarrow> SuspensionNotification \<Rightarrow> SuspensionNotification" where
  "markSent balance now n = n \<lparr> sn_SentAt := Some now, sn_Balance := Some balance \<rparr>"

definition MarkNotificationsToSend :: "declib \<Rightarrow> BillingAutomaticSuspensionConfig \<Rightarrow> SuspensionNotification list \<Rightarrow> time list \<Rightarrow>
    decimal \<Rightarrow> time \<Rightarrow> nat \<times> SuspensionNotification list" where
  "MarkNotificationsToSend L config notifications dueAts currentBalance now =
    fold (\<lambda>n (count, out). if notificationDue L config dueAts currentBalance now n
        then (Suc count, out @ [markSent currentBalance now n]) else (count, out @ [n])) notifications (0, [])"

section \<open>Marking\<close>

lemma Mark_closed:
  "MarkNotificationsToSend L config ns dueAts bal now =
    (length (ListNotificationsToSend L config ns dueAts bal now),
     map (\<lambda>n. if notificationDue L config dueAts bal now n then markSent bal now n else n) ns)"
proof -
  have "fold (\<lambda>n (count, out). if notificationDue L config dueAts bal now n
        then (Suc count, out @ [markSent bal now n]) else (count, out @ [n])) ns (c, out) =
      (c + length (filter (notificationDue L config dueAts bal now) ns),
       out @ map (\<lambda>n. if notificationDue L config dueAts bal now n then markSent bal now n else n) ns)" for c out
    by (induction ns arbitrary: c out) auto
  then show ?thesis by (simp add: MarkNotificationsToSend_def ListNotificationsToSend_def)
qed

lemma sent_not_due [simp]: "\<not> notificationDue L config dueAts bal now (markSent b t n)"
  by (simp add: notificationDue_def markSent_def)

lemma due_unsent: "notificationDue L config dueAts bal now n \<Longrightarrow> sn_SentAt n = None"
  by (auto simp: notificationDue_def split: if_splits)

section \<open>Limits\<close>

lemma daysBetween_mono: "u \<le> v \<Longrightarrow> daysBetween t u \<le> daysBetween t v"
  unfolding daysBetween_def by (rule quot_mono) (auto simp: timeSub_def)

lemma minDaysLimit_spec:
  "minDaysLimit ns best = r \<Longrightarrow> (ns = [] \<and> r = best) \<or> (\<exists>b. r = Some b \<and> (b \<in> set ns \<or> best = Some b) \<and>
    (\<forall>n\<in>set ns. sl_Days b \<le> sl_Days n) \<and> (\<forall>x. best = Some x \<longrightarrow> sl_Days b \<le> sl_Days x))"
proof (induction ns arbitrary: best)
  case (Cons n ns)
  show ?case
  proof (cases "case best of None \<Rightarrow> True | Some b \<Rightarrow> sl_Days n < sl_Days b")
    case True
    with Cons.prems Cons.IH [of "Some n"] show ?thesis by (auto split: option.splits)
  next
    case False
    then obtain b where "best = Some b" "sl_Days b \<le> sl_Days n" by (auto split: option.splits)
    with False Cons.prems Cons.IH [of best] show ?thesis by auto
  qed
qed simp

definition has_balance :: "SuspensionLimit \<Rightarrow> bool" where
  "has_balance n \<longleftrightarrow> sl_Balance n \<noteq> None"

definition limit_val :: "SuspensionLimit \<Rightarrow> rat" where
  "limit_val n = (case sl_Balance n of None \<Rightarrow> 0 | Some b \<Rightarrow> val b)"

context decimal_lib begin

lemma maxBalanceLimit_Cons:
  assumes "\<forall>x. best = Some x \<longrightarrow> has_balance x"
  shows "maxBalanceLimit L (n # ns) best =
    maxBalanceLimit L ns (if has_balance n \<and> (\<forall>x. best = Some x \<longrightarrow> limit_val x < limit_val n) then Some n else best)"
  using assms by (auto simp: has_balance_def limit_val_def split: option.splits)

lemma maxBalanceLimit_ge_best:
  "has_balance x \<Longrightarrow> \<exists>y. maxBalanceLimit L ns (Some x) = Some y \<and> has_balance y \<and> limit_val x \<le> limit_val y"
proof (induction ns arbitrary: x)
  case (Cons n ns)
  show ?case
  proof (cases "has_balance n \<and> limit_val x < limit_val n")
    case True
    with Cons.IH [of n] Cons.prems show ?thesis
      by (auto simp: maxBalanceLimit_Cons simp del: maxBalanceLimit.simps intro: order_trans [OF less_imp_le])
  next
    case False
    with Cons.IH [OF Cons.prems] Cons.prems show ?thesis
      by (auto simp: maxBalanceLimit_Cons simp del: maxBalanceLimit.simps)
  qed
qed simp

lemma maxBalanceLimit_spec:
  "n \<in> set ns \<Longrightarrow> has_balance n \<Longrightarrow> \<forall>x. best = Some x \<longrightarrow> has_balance x \<Longrightarrow>
    \<exists>y. maxBalanceLimit L ns best = Some y \<and> has_balance y \<and> limit_val n \<le> limit_val y"
proof (induction ns arbitrary: best)
  case (Cons m ns)
  let ?best = "if has_balance m \<and> (\<forall>x. best = Some x \<longrightarrow> limit_val x < limit_val m) then Some m else best"
  have step: "maxBalanceLimit L (m # ns) best = maxBalanceLimit L ns ?best"
    by (rule maxBalanceLimit_Cons) (rule Cons.prems(3))
  have ok: "\<forall>x. ?best = Some x \<longrightarrow> has_balance x" using Cons.prems(3) by auto
  show ?case
  proof (cases "n \<in> set ns")
    case True
    from Cons.IH [OF this Cons.prems(2) ok] show ?thesis unfolding step .
  next
    case False
    then have "n = m" using Cons.prems(1) by simp
    have "\<exists>x. ?best = Some x \<and> limit_val n \<le> limit_val x \<and> has_balance x"
      using Cons.prems(2,3) \<open>n = m\<close> by (auto simp: not_less)
    then obtain x where "?best = Some x" "limit_val n \<le> limit_val x" "has_balance x" by blast
    with maxBalanceLimit_ge_best [of x ns] show ?thesis unfolding step by auto
  qed
qed simp

lemma eligible_balance:
  "cfg_Enabled c \<Longrightarrow> cfg_Type c = SuspensionTypeBalance \<Longrightarrow>
    IsEligibleForSuspension L (Some c) l bal dues now \<longleftrightarrow> has_balance l \<and> val bal \<le> limit_val l"
  by (auto simp: IsEligibleForSuspension_def has_balance_def limit_val_def split: option.splits)

end

section \<open>Properties of suspension decisions\<close>

definition ex_limit :: "int \<Rightarrow> int \<Rightarrow> SuspensionLimit" where
  "ex_limit b d = \<lparr> sl_Balance = Some (Decimal b 0), sl_Days = d \<rparr>"

definition ex_config :: "string \<Rightarrow> BillingAutomaticSuspensionConfig" where
  "ex_config ty = \<lparr> cfg_Enabled = True, cfg_Type = ty, cfg_SuspendedAt = Some (ex_limit (- 50) 30),
     cfg_Notifications = [ex_limit (- 5) 3, ex_limit (- 20) 14] \<rparr>"

definition ex_notification :: "int \<Rightarrow> SuspensionNotification" where
  "ex_notification d = \<lparr> sn_SuspensionLimit = ex_limit 0 d, sn_Balance = None, sn_Currency = ''EUR'',
     sn_SentAt = None, sn_CreatedAt = None \<rparr>"

text \<open>
  The starting limit is the first one crossed: if a profile is eligible at any configured
  notification limit, it is eligible at the limit \<open>StartAtSuspensionLimit\<close> picks, so no
  notification can be due before the dunning process starts.
\<close>

lemma start_limit_is_first:
  assumes "decimal_lib L" and "n \<in> set (cfg_Notifications c)"
    and "IsEligibleForSuspension L (Some c) n balance dueAts now"
  shows "\<exists>l. StartAtSuspensionLimit L c = Some l \<and> IsEligibleForSuspension L (Some c) l balance dueAts now"
proof -
  have en: "cfg_Enabled c" using assms(3) by (auto simp: IsEligibleForSuspension_def split: if_splits)
  consider (bal) "cfg_Type c = SuspensionTypeBalance" | (due) "cfg_Type c = SuspensionTypeDueDate"
    using assms(3) by (auto simp: IsEligibleForSuspension_def split: if_splits)
  then show ?thesis
  proof cases
    case bal
    note el = decimal_lib.eligible_balance [OF assms(1) en bal]
    from assms(3) have n: "has_balance n" "val balance \<le> limit_val n" by (simp_all add: el)
    obtain x where "maxBalanceLimit L (cfg_Notifications c) None = Some x" "limit_val n \<le> limit_val x" "has_balance x"
      using decimal_lib.maxBalanceLimit_spec [OF assms(1,2) n(1), of None] by auto
    with n bal show ?thesis by (auto simp: StartAtSuspensionLimit_def el)
  next
    case due
    then have ne: "cfg_Type c \<noteq> SuspensionTypeBalance" by (simp add: SuspensionTypeBalance_def SuspensionTypeDueDate_def)
    obtain x where x: "minDaysLimit (cfg_Notifications c) None = Some x" "sl_Days x \<le> sl_Days n"
      using minDaysLimit_spec [OF refl, of "cfg_Notifications c" None] assms(2) by force
    from assms(3) en due ne obtain d where "d \<in> set dueAts" "sl_Days n \<le> daysBetween d now"
      by (auto simp: IsEligibleForSuspension_def)
    with x en due ne show ?thesis
      by (auto simp: StartAtSuspensionLimit_def IsEligibleForSuspension_def intro!: bexI [of _ d])
  qed
qed

text \<open>
  Eligibility is monotone: a profile that is eligible for suspension stays eligible at the
  same limit when its balance drops, when further bills fall due, and as time passes.
\<close>

lemma eligibility_monotone:
  assumes "decimal_lib L" and "IsEligibleForSuspension L config limit balance dueAts now"
    and "val balance' \<le> val balance" and "set dueAts \<subseteq> set dueAts'" and "now \<le> now'"
  shows "IsEligibleForSuspension L config limit balance' dueAts' now'"
  using assms(2-5) daysBetween_mono [OF assms(5)]
    decimal_arith.cmp_le [OF decimal_lib.axioms(1) [OF assms(1)]]
  by (auto simp: IsEligibleForSuspension_def split: option.splits if_splits) (meson order_trans subsetD)+

text \<open>
  A notification is sent once: marking marks exactly the notifications that listing
  returns, counts them, stamps each with the time and the balance, leaves all others as they
  are, and afterwards listing with the same data returns none.
\<close>

lemma notifications_sent_once:
  assumes "MarkNotificationsToSend L config ns dueAts balance now = (count, ns')"
  shows "count = length (ListNotificationsToSend L config ns dueAts balance now) \<and> length ns' = length ns \<and>
    ListNotificationsToSend L config ns' dueAts balance now = [] \<and>
    (\<forall>i<length ns. ns' ! i = (if ns ! i \<in> set (ListNotificationsToSend L config ns dueAts balance now)
      then markSent balance now (ns ! i) else ns ! i))"
proof -
  have ns': "ns' = map (\<lambda>n. if notificationDue L config dueAts balance now n then markSent balance now n else n) ns"
    and count: "count = length (ListNotificationsToSend L config ns dueAts balance now)"
    using assms by (simp_all add: Mark_closed)
  have "ListNotificationsToSend L config ns' dueAts balance now = []"
    by (auto simp: ListNotificationsToSend_def ns' filter_empty_conv)
  then show ?thesis by (auto simp: ns' count ListNotificationsToSend_def)
qed

end
