(* ===== verification/Billing_Domain.thy ===== *)
theory Billing_Domain
  imports Adjustments Suspension_Rules
begin

text \<open>
  The documents of \<open>internal/platform/billing\<close>: the billing profile (\<open>billing.go\<close>), the
  activation flow and the provisioning settings of the billing configuration
  (\<open>activation.go\<close>, \<open>repo.go\<close>), the dunning process (\<open>suspension_process.go\<close>), the expiry reminders and the savings
  contract (\<open>savingsdto.go\<close>). Enumerations are strings, as in the sources, with their constants.
\<close>

section \<open>Constants\<close>

definition StatusNew :: string where "StatusNew = ''NEW''"
definition StatusActive :: string where "StatusActive = ''ACTIVE''"
definition StatusSuspended :: string where "StatusSuspended = ''SUSPENDED''"
definition StatusSkip :: string where "StatusSkip = ''SKIP''"

definition SourceAdmin :: string where "SourceAdmin = ''ADMIN''"
definition SourceAdminAPI :: string where "SourceAdminAPI = ''ADMIN_API''"

definition ConstraintAlternative :: string where "ConstraintAlternative = ''ALTERNATIVE''"
definition ConstraintDisabled :: string where "ConstraintDisabled = ''DISABLED''"
definition ConstraintRequired :: string where "ConstraintRequired = ''REQUIRED''"

definition SuspensionInProgress :: string where "SuspensionInProgress = ''IN_PROGRESS''"
definition SuspensionSuspended :: string where "SuspensionSuspended = ''SUSPENDED''"
definition SuspensionResolved :: string where "SuspensionResolved = ''RESOLVED''"

lemmas status_defs = StatusNew_def StatusActive_def StatusSuspended_def StatusSkip_def
lemmas constraint_defs = ConstraintAlternative_def ConstraintDisabled_def ConstraintRequired_def
lemmas process_defs = SuspensionInProgress_def SuspensionSuspended_def SuspensionResolved_def

section \<open>Documents\<close>

record Contact =
  contact_Name :: string
  contact_Email :: string

record PricePlanConfiguration =
  ppc_PricePlanIDs :: "string list"
  ppc_IncludePublicPricePlans :: bool

record Owner =
  owner_Sub :: string
  owner_Email :: string
  owner_FirstName :: string
  owner_LastName :: string
  owner_FullName :: string

record ActivationConstraintPassed =
  acp_Source :: string
  acp_PassedAt :: "time option"

record ProjectProvisioningQuota =
  quota_Enabled :: bool
  quota_Limit :: int

record ResellerConfig =
  rs_Enabled :: bool

text \<open>A verification is a JSON object (\<open>Inl\<close> its fields) or any other JSON value.\<close>

record BillingProfile =
  bp_ID :: string
  bp_OrganizationID :: string
  bp_Sub :: string
  bp_AffiliateID :: string
  bp_Status :: string
  bp_Email :: string
  bp_FirstName :: string
  bp_LastName :: string
  bp_Currency :: string
  bp_Company :: bool
  bp_CompanyName :: string
  bp_VatCode :: string
  bp_TaxPayer :: bool
  bp_Address :: string
  bp_City :: string
  bp_County :: string
  bp_Country :: string
  bp_ZipCode :: string
  bp_Phone :: string
  bp_IdentityValidationID :: string
  bp_DefaultCardID :: string
  bp_ProjectProvisioningQuota :: "ProjectProvisioningQuota option"
  bp_OverwriteSuspension :: bool
  bp_SuspensionConfiguration :: "BillingAutomaticSuspensionConfig option"
  bp_Reseller :: "ResellerConfig option"
  bp_Contacts :: "Contact list"
  bp_PricePlanConfig :: "PricePlanConfiguration option"
  bp_CustomInfo :: attrs
  bp_Verifications :: "(attrs + any) list"
  bp_ActivationConstraints :: "ActivationConstraintPassed list"
  bp_CreatedAt :: "time option"
  bp_UpdatedAt :: "time option"
  bp_ActivatedAt :: "time option"

record AutoActivationFlow =
  flow_AutoActivationEnabled :: bool
  flow_KYC :: string
  flow_PaymentMethod :: string
  flow_PaymentMethodCard :: string
  flow_PaymentMethodDeposit :: string
  flow_BillingProfileValidation :: string

record ProvisioningPromotional =
  prov_Amount :: decimal
  prov_DaysValidity :: int

text \<open>The fields of a \<open>billingConfiguration\<close> document that the repository reads.\<close>

record BillingConfiguration =
  conf_ID :: string
  conf_BaseCurrency :: string
  conf_PromotionCodesEnabled :: "bool option"
  conf_SuspensionConfiguration :: "BillingAutomaticSuspensionConfig option"
  conf_AutoActivationFlow :: "AutoActivationFlow option"
  conf_Promotionals :: "ProvisioningPromotional list"
  conf_ReminderDaysBeforeExpiry :: "int list"

record SuspensionProcess =
  sp_ID :: string
  sp_Status :: string
  sp_BillingProfileID :: string
  sp_Notifications :: "SuspensionNotification list"
  sp_CreatedAt :: "time option"
  sp_UpdatedAt :: "time option"

record SavingsPlanTarget =
  spt_ResourceType :: string
  spt_Filters :: "PricePlanRuleFilter list"

record SavingsContract =
  con_ID :: string
  con_BillingProfileID :: string
  con_Status :: string
  con_SavingsPlanID :: string
  con_SavingsPlanName :: string
  con_DurationMonths :: int
  con_StartDate :: "time option"
  con_EndDate :: "time option"
  con_DiscountRate :: "decimal option"
  con_Targets :: "SavingsPlanTarget list"
  con_MonthlyCommittedAmount :: "decimal option"
  con_PaidUpfront :: bool
  con_OrderID :: string
  con_CreatedAt :: "time option"
  con_UpdatedAt :: "time option"

text \<open>The scheduled expiry reminders of a contract (\<open>reminder.go\<close>).\<close>

record ReminderNotificationDetail =
  rd_DaysBefore :: int
  rd_SentAt :: "time option"

record ReminderNotification =
  rn_ID :: string
  rn_TargetResourceID :: string
  rn_MessageTemplateID :: string
  rn_ResourceType :: string
  rn_Status :: string
  rn_Notifications :: "ReminderNotificationDetail list"
  rn_CreatedAt :: "time option"
  rn_UpdatedAt :: "time option"

end
