(* ===== verification/Cloud_Domain.thy ===== *)
theory Cloud_Domain
  imports Billing_Domain
begin

text \<open>
  The documents the charge job and the payment flows read besides the billing ones: projects
  (\<open>project/domain.go\<close>), organisations (\<open>org/domain.go\<close>), external services, cached cloud
  resources (\<open>cloud/resource.go\<close>), the month's metrics (\<open>cloud/metrics/domain.go\<close>), cards,
  payment gateways, orders and the three kinds of payment transactions. A free-form JSON value is a leaf,
  an object or an array.
\<close>

datatype json = JLeaf any | JObject "(string \<times> json) list" | JArray "json list"

text \<open>\<open>m[key]\<close> on a map of free-form values: a missing key reads as nil.\<close>

definition jget :: "(string \<times> json) list \<Rightarrow> string \<Rightarrow> json" where
  "jget m k = (case map_of m k of None \<Rightarrow> JLeaf AnyNil | Some v \<Rightarrow> v)"

definition mapAt :: "(string \<times> json) list \<Rightarrow> string \<Rightarrow> (string \<times> json) list option" where
  "mapAt m k = (case map_of m k of Some (JObject o') \<Rightarrow> Some o' | _ \<Rightarrow> None)"

definition jstr :: "json \<Rightarrow> string" where
  "jstr v = (case v of JLeaf (AnyString s) \<Rightarrow> s | _ \<Rightarrow> '''')"

section \<open>Projects and services\<close>

definition ProjectEnabled :: string where "ProjectEnabled = ''ENABLED''"
definition ProjectDisabled :: string where "ProjectDisabled = ''DISABLED''"

record Membership =
  mem_Sub :: string
  mem_Role :: string

record Project =
  prj_ID :: string
  prj_Name :: string
  prj_Status :: string
  prj_Data :: json
  prj_Owner :: string
  prj_Memberships :: "Membership list"
  prj_OrganizationID :: string
  prj_BillingProfileID :: string
  prj_CustomInfo :: attrs
  prj_Services :: "json list"
  prj_PublicNetworkIds :: "string list option"
  prj_PublicNetworksVisible :: bool
  prj_GpuCapacityVisible :: bool
  prj_Quota :: "(string \<times> json) list"
  prj_ScheduledForDeletionAt :: "time option"
  prj_CreatedAt :: "time option"
  prj_UpdatedAt :: "time option"

definition IsEnabled :: "Project \<Rightarrow> bool" where
  "IsEnabled p \<longleftrightarrow> prj_Status p = ProjectEnabled"

definition HasServices :: "Project \<Rightarrow> bool" where
  "HasServices p \<longleftrightarrow> prj_Services p \<noteq> []"

definition ServiceIDs :: "Project \<Rightarrow> string list" where
  "ServiceIDs p = List.map_filter (\<lambda>s. case s of
       JObject t \<Rightarrow> (let i = jstr (jget t ''serviceId'') in if i \<noteq> '''' then Some i else None)
     | _ \<Rightarrow> None) (prj_Services p)"

definition HasService :: "Project \<Rightarrow> string \<Rightarrow> bool" where
  "HasService p serviceID \<longleftrightarrow> serviceID \<in> set (ServiceIDs p)"

record Organization =
  org_ID :: string
  org_Name :: string
  org_Description :: string
  org_BillingProfileID :: string
  org_CustomInfo :: attrs
  org_CreatedAt :: "time option"
  org_UpdatedAt :: "time option"

record ExternalService =
  es_ID :: string
  es_Name :: string
  es_DefaultPricePlan :: string
  es_Type :: string
  es_Status :: string
  es_Config :: "(string \<times> json) list"
  es_Secret :: json

record Info =
  info_CreatedAt :: "time option"
  info_UpdatedAt :: "time option"

record CloudResource =
  cr_ID :: string
  cr_ProjectID :: string
  cr_UserID :: string
  cr_ExternalID :: string
  cr_ServiceID :: string
  cr_Type :: string
  cr_PricePlan :: json
  cr_Region :: string
  cr_AvailabilityZone :: string
  cr_Data :: "(string \<times> json) list"
  cr_EphemeralData :: "(string \<times> json) list"
  cr_CreatedAt :: "time option"
  cr_UpdatedAt :: "time option"
  cr_Info :: "Info option"

text \<open>\<open>internal/cloud/history.go\<close>: the copy that is kept of a deleted resource.\<close>

record History =
  his_ID :: string
  his_CloudResourceID :: string
  his_ProjectID :: string
  his_ExternalID :: string
  his_ServiceID :: string
  his_Type :: string
  his_Region :: string
  his_Data :: "(string \<times> json) list"
  his_CreatedAt :: "time option"
  his_DeletedAt :: "time option"

record GnocchiMetricsDetails =
  gd_IncomingPublicTrafficMb :: decimal
  gd_IncomingPrivateTrafficMb :: decimal
  gd_OutgoingPublicTrafficMb :: decimal
  gd_OutgoingPrivateTrafficMb :: decimal
  gd_TotalPublicTrafficMb :: decimal
  gd_TotalPrivateTrafficMb :: decimal
  gd_TotalTrafficMb :: decimal

record OstorMetrics =
  om_DownloadedBytes :: int
  om_UploadedBytes :: int
  om_Puts :: int
  om_Gets :: int
  om_Lists :: int
  om_Others :: int

record GnocchiMetrics =
  gm_ID :: string
  gm_ResourceID :: string
  gm_ResourceType :: string
  gm_BillingCycle :: "BillBillingCycle option"
  gm_Details :: "GnocchiMetricsDetails option"
  gm_OstorMetrics :: "OstorMetrics option"
  gm_CreatedAt :: "time option"
  gm_UpdatedAt :: "time option"

section \<open>Payments\<close>

record CreditCard =
  card_ID :: string
  card_BillingProfileID :: string
  card_TokenID :: string
  card_TokenExpirationDate :: "time option"
  card_PanMasked :: string
  card_PaymentGatewayID :: string
  card_Metadata :: attrs
  card_CreatedAt :: "time option"
  card_UpdatedAt :: "time option"

record CreditCardTransaction =
  cct_ID :: string
  cct_BillingProfileID :: string
  cct_Status :: string
  cct_ExternalID :: string
  cct_PaymentGatewayID :: string
  cct_InvoiceGatewayID :: string
  cct_Currency :: string
  cct_Amount :: "decimal option"
  cct_ExchangeRate :: "decimal option"
  cct_ErrorMessage :: string
  cct_CreatedAt :: "time option"
  cct_UpdatedAt :: "time option"

record OrderItem =
  oi_Name :: string
  oi_Type :: string
  oi_NetAmount :: "decimal option"
  oi_TaxAmount :: "decimal option"
  oi_ResourceID :: string
  oi_Metadata :: attrs

record Order =
  ord_ID :: string
  ord_BillingProfileID :: string
  ord_NetAmount :: "decimal option"
  ord_TaxAmount :: "decimal option"
  ord_Items :: "OrderItem list"
  ord_Status :: string
  ord_CreatedAt :: "time option"
  ord_UpdatedAt :: "time option"

record Gateway =
  gw_ID :: string
  gw_Name :: string
  gw_ThirdParty :: string
  gw_Config :: "(string \<times> json) list"
  gw_Secret :: "(string \<times> json) list"

record AccountCreditTransaction =
  act_ID :: string
  act_Currency :: string
  act_OrderID :: string
  act_ExternalID :: string
  act_BillID :: string
  act_Amount :: "decimal option"
  act_GrossAmount :: "decimal option"
  act_InvoiceGatewayID :: string
  act_PaymentGatewayID :: string
  act_BillingProfileID :: string
  act_ExternalInvoiceID :: string
  act_ExchangeRate :: "decimal option"
  act_Status :: string
  act_GatewayMessage :: string
  act_InvoiceDetails :: attrs
  act_Metadata :: attrs
  act_AccountCredit :: attrs
  act_CreatedAt :: "time option"
  act_UpdatedAt :: "time option"

record BankTransfer =
  bt_ID :: string
  bt_Status :: string
  bt_PaymentGatewayID :: string
  bt_ReferenceNumber :: int
  bt_AccountCreditTransactionID :: string
  bt_BillingProfileID :: string
  bt_FullName :: string
  bt_GrossAmount :: decimal
  bt_Currency :: string
  bt_Comments :: string
  bt_CreatedAt :: "time option"

section \<open>Savings plans\<close>

record SavingsPlanTier =
  stier_StartAmount :: "decimal option"
  stier_Discount :: "decimal option"

record SavingsPlanSchedule =
  sch_DurationMonths :: int
  sch_MaxAmount :: "decimal option"
  sch_NoUpfrontTiers :: "SavingsPlanTier list"
  sch_UpfrontTiers :: "SavingsPlanTier list"

record SavingsPlan =
  plan_ID :: string
  plan_Name :: string
  plan_Available :: bool
  plan_Description :: string
  plan_Targets :: "SavingsPlanTarget list"
  plan_SavingSchedule :: "SavingsPlanSchedule list"
  plan_AccessMode :: string
  plan_BillingProfiles :: "string list"
  plan_CreatedAt :: "time option"
  plan_UpdatedAt :: "time option"

end
