(* ===== verification/Platform_Domain.thy ===== *)
theory Platform_Domain
  imports Cloud_Domain
begin

text \<open>
  The documents of the tenant side of the platform: users (\<open>user/user.go\<close>), members and custom
  roles of organisations (\<open>org/domain.go\<close>, \<open>org/role.go\<close>), the platform configuration
  (\<open>platformconfig/domain.go\<close>), project invites (\<open>projectinvite/projectinvite.go\<close>), promotion
  codes and their redemptions (\<open>billing/promotion.go\<close>). A promotion code is a free-form document;
  an invite is stored as a map with a fixed set of keys and is a record here.
\<close>

section \<open>Users\<close>

record Identity =
  idt_Sub :: string
  idt_Issuer :: string
  idt_Claims :: attrs

record User =
  user_ID :: string
  user_Sub :: string
  user_ModelVersion :: int
  user_Consent :: "string list"
  user_CustomInfo :: attrs
  user_FirstName :: string
  user_LastName :: string
  user_Email :: string
  user_EmailConfirmedAt :: "time option"
  user_Tags :: "string list"
  user_Identities :: "Identity list"
  user_Metadata :: attrs
  user_CreatedAt :: "time option"
  user_UpdatedAt :: "time option"

record Claims =
  claim_Sub :: string
  claim_Email :: string
  claim_GivenName :: string
  claim_FamilyName :: string
  claim_Issuer :: string

section \<open>Organisations\<close>

record Member =
  mbr_ID :: string
  mbr_OrganizationID :: string
  mbr_Sub :: string
  mbr_Roles :: "string list"
  mbr_CreatedAt :: "time option"
  mbr_UpdatedAt :: "time option"

text \<open>\<open>Member.Role\<close>: the first role is the effective one.\<close>

definition memberRole :: "Member \<Rightarrow> string" where
  "memberRole m = (case mbr_Roles m of [] \<Rightarrow> '''' | r # _ \<Rightarrow> r)"

record Role =
  role_ID :: string
  role_OrganizationID :: string
  role_Name :: string
  role_Description :: string
  role_Permissions :: "string list"
  role_CreatedAt :: "time option"
  role_UpdatedAt :: "time option"

section \<open>Platform configuration\<close>

record PlatformConfiguration =
  plat_ID :: string
  plat_Name :: string
  plat_Language :: string
  plat_DefaultConfiguration :: bool
  plat_ProjectProvisioningQuota :: "ProjectProvisioningQuota option"
  plat_OrganizationProvisioningQuota :: "ProjectProvisioningQuota option"
  plat_Rest :: "(string \<times> json) list"

section \<open>Invites and promotion codes\<close>

record ProjectInvite =
  inv_ID :: string
  inv_Email :: string
  inv_ProjectID :: string
  inv_Token :: string
  inv_ExpiresAt :: time

type_synonym PromotionCode = "(string \<times> json) list"

record PromotionCodeRedemption =
  red_ID :: string
  red_PromotionCodeID :: string
  red_OrganizationID :: string
  red_BillingProfileID :: string
  red_Source :: string
  red_CreatedAt :: time

text \<open>
  The key of a free-form document: \<open>pgdoc.Marshal\<close> takes the first non-empty string under \<open>_id\<close>
  and \<open>id\<close> and strips both, \<open>pgdoc.Unmarshal\<close> injects the key under both names.
\<close>

definition docID :: "(string \<times> json) list \<Rightarrow> string" where
  "docID m = (let i = jstr (jget m ''_id'') in if i \<noteq> '''' then i else jstr (jget m ''id''))"

definition docSetID :: "string \<Rightarrow> (string \<times> json) list \<Rightarrow> (string \<times> json) list" where
  "docSetID i m = (''id'', JLeaf (AnyString i)) # (''_id'', JLeaf (AnyString i)) #
     filter (\<lambda>(k, _). k \<noteq> ''id'' \<and> k \<noteq> ''_id'') m"

lemma docID_docSetID [simp]: "docID (docSetID i m) = i"
  by (simp add: docID_def docSetID_def jget_def jstr_def Let_def)

lemma docSetID_docSetID [simp]: "docSetID i (docSetID j m) = docSetID i m"
  by (simp add: docSetID_def)

text \<open>The injected id does not disturb the other fields.\<close>

lemma jget_docSetID: "k \<noteq> ''id'' \<Longrightarrow> k \<noteq> ''_id'' \<Longrightarrow> jget (docSetID i m) k = jget m k"
proof -
  assume k: "k \<noteq> ''id''" "k \<noteq> ''_id''"
  have "map_of (filter (\<lambda>(k, _). k \<noteq> ''id'' \<and> k \<noteq> ''_id'') m) k = map_of m k"
    using k by (induction m) auto
  with k show ?thesis by (simp add: docSetID_def jget_def)
qed

section \<open>Locks\<close>

text \<open>\<open>internal/platform/lock/shedlock.go\<close>: the row of a distributed lock, by the name of the lock.\<close>

record LockRow =
  lk_ID :: string
  lk_LockUntil :: time
  lk_LockedAt :: time
  lk_LockedBy :: string

end
