(* ===== verification/Service_World.thy ===== *)
theory Service_World
  imports Platform_Domain Doc_Store Tax_Rates
begin

text \<open>
  What the services run on: the process state and the database. A service call is a function
  \<open>world \<Rightarrow> 'a res \<times> world\<close>: it returns a result or an error and the world it leaves, so the
  writes made before an error stay. The world holds the wall clock, the per-process state of
  \<open>pgdoc.NewID\<close> and of the once-only creation of the bill table, the document tables and the log of the calls to the mail, audit, cloud
  and payment hooks. Two oracles make the environment explicit: \<open>w_ticks\<close> is how far the clock moves
  between two readings, and \<open>w_faults\<close> says which of the coming database calls fail (an
  exhausted list means no more faults). A panic is an error that no \<open>err != nil\<close> check sees.
\<close>

section \<open>The world\<close>

datatype event =
    Mail string string
  | Audit string string
  | CloudSuspend string
  | CloudResume string
  | ActivateProjects string
  | StripeCall string string

record world =
  w_time :: time
  w_ticks :: "nat list"
  w_faults :: "bool list"
  w_idProcRand :: "int list"
  w_idCounter :: int
  w_ensureBills :: "unit res option"
  w_ensureCloud :: "unit res option"
  w_profiles :: "BillingProfile table"
  w_configs :: "BillingConfiguration table"
  w_bills :: "Bill table"
  w_acctCredits :: "AccountCredit table"
  w_promoCredit :: "PromotionalCredit table"
  w_savingCtrs :: "SavingsContract table"
  w_priceAdjust :: "PriceAdjustmentRule table"
  w_suspensions :: "SuspensionProcess table"
  w_pricePlans :: "PricePlan table"
  w_pricePlanRules :: "PricePlanRule table"
  w_taxRates :: "TaxRate table"
  w_projects :: "Project table"
  w_orgs :: "Organization table"
  w_extServices :: "ExternalService table"
  w_cloudResources :: "CloudResource table"
  w_history :: "History table"
  w_metrics :: "GnocchiMetrics table"
  w_collects :: "CollectTransaction table"
  w_credits :: "AccountCreditTransaction table"
  w_cards :: "CreditCard table"
  w_gateways :: "Gateway table"
  w_bankXfers :: "BankTransfer table"
  w_cardTxns :: "CreditCardTransaction table"
  w_orders :: "Order table"
  w_savingPlans :: "SavingsPlan table"
  w_reminders :: "ReminderNotification table"
  w_users :: "User table"
  w_members :: "Member table"
  w_roles :: "Role table"
  w_platformConfigs :: "PlatformConfiguration table"
  w_invites :: "ProjectInvite table"
  w_promoCodes :: "PromotionCode table"
  w_redemptions :: "PromotionCodeRedemption table"
  w_locks :: "LockRow table"
  w_log :: "event list"

type_synonym 'a svc = "world \<Rightarrow> 'a res \<times> world"

section \<open>Calls, errors, loops\<close>

definition ret :: "'a \<Rightarrow> 'a svc" where
  "ret x w = (Inr x, w)"

definition throw :: "error \<Rightarrow> 'a svc" where
  "throw e w = (Inl e, w)"

definition liftR :: "'a res \<Rightarrow> 'a svc" where
  "liftR r w = (r, w)"

definition bnd :: "'a svc \<Rightarrow> ('a \<Rightarrow> 'b svc) \<Rightarrow> 'b svc" where
  "bnd m f w = (case m w of (Inl e, w') \<Rightarrow> (Inl e, w') | (Inr x, w') \<Rightarrow> f x w')"

text \<open>\<open>x, err := m\<close> with the error looked at or dropped by the caller; panics go through.\<close>

definition attempt :: "'a svc \<Rightarrow> 'a res svc" where
  "attempt m w = (case m w of (Inl (Panic p), w') \<Rightarrow> (Inl (Panic p), w') | (r, w') \<Rightarrow> (Inr r, w'))"

fun forS :: "('a \<Rightarrow> 's \<Rightarrow> 's svc) \<Rightarrow> 'a list \<Rightarrow> 's \<Rightarrow> 's svc" where
  "forS f [] acc = ret acc"
| "forS f (x # xs) acc = bnd (f x acc) (forS f xs)"

definition emit :: "event \<Rightarrow> unit svc" where
  "emit e w = (Inr (), w \<lparr> w_log := w_log w @ [e] \<rparr>)"

text \<open>A reading of the wall clock.\<close>

definition timeNow :: "time svc" where
  "timeNow w = (case w_ticks w of [] \<Rightarrow> (Inr (w_time w), w)
     | d # ds \<Rightarrow> (let t = w_time w + int d in (Inr t, w \<lparr> w_time := t, w_ticks := ds \<rparr>)))"

text \<open>A database call takes the next entry of the fault oracle.\<close>

definition db :: "(world \<Rightarrow> 'a res \<times> world) \<Rightarrow> 'a svc" where
  "db op w = (case w_faults w of [] \<Rightarrow> op w
     | f # fs \<Rightarrow> (let w' = w \<lparr> w_faults := fs \<rparr> in if f then (Inl (Failure ''db''), w') else op w'))"

section \<open>pgdoc.NewID\<close>

text \<open>Twelve bytes in hexadecimal: seconds, the per-process random bytes, the low bytes of the counter.\<close>

definition hexDigit :: "int \<Rightarrow> char" where
  "hexDigit n = char_of (if n < 10 then 48 + n else 87 + n)"

definition hexByte :: "int \<Rightarrow> string" where
  "hexByte b = [hexDigit (b div 16), hexDigit (b mod 16)]"

definition unixSeconds :: "time \<Rightarrow> int" where
  "unixSeconds t = t div second - 62135596800"

text \<open>The \<open>k\<close> low bytes of an integer, most significant first.\<close>

fun bigEndian :: "nat \<Rightarrow> int \<Rightarrow> int list" where
  "bigEndian 0 n = []"
| "bigEndian (Suc k) n = (n div 256 ^ k mod 256) # bigEndian k n"

definition idBytes :: "int \<Rightarrow> int list \<Rightarrow> int \<Rightarrow> int list" where
  "idBytes secs rand n = bigEndian 4 secs @ rand @ bigEndian 3 n"

definition encodeHex :: "int list \<Rightarrow> string" where
  "encodeHex bs = concat (map hexByte bs)"

definition NewID :: "string svc" where
  "NewID = bnd timeNow (\<lambda>t w.
     let n = (w_idCounter w + 1) mod 2 ^ 64 in
     (Inr (encodeHex (idBytes (unixSeconds t) (w_idProcRand w) n)), w \<lparr> w_idCounter := n \<rparr>))"

section \<open>Collections\<close>

text \<open>
  A collection is a table of the world together with the id field of its documents. As in
  \<open>pgdoc/codec.go\<close> the id lives in the key column and is injected into a document on reading.
\<close>

record 'd coll =
  c_table :: "world \<Rightarrow> 'd table"
  c_upd :: "('d table \<Rightarrow> 'd table) \<Rightarrow> world \<Rightarrow> world"
  c_ID :: "'d \<Rightarrow> string"
  c_setID :: "string \<Rightarrow> 'd \<Rightarrow> 'd"

definition profilesC :: "BillingProfile coll" where
  "profilesC = \<lparr> c_table = w_profiles, c_upd = w_profiles_update, c_ID = bp_ID, c_setID = (\<lambda>i. bp_ID_update (\<lambda>_. i)) \<rparr>"
definition configsC :: "BillingConfiguration coll" where
  "configsC = \<lparr> c_table = w_configs, c_upd = w_configs_update, c_ID = conf_ID, c_setID = (\<lambda>i. conf_ID_update (\<lambda>_. i)) \<rparr>"
definition billsC :: "Bill coll" where
  "billsC = \<lparr> c_table = w_bills, c_upd = w_bills_update, c_ID = bill_ID, c_setID = (\<lambda>i. bill_ID_update (\<lambda>_. i)) \<rparr>"
definition acctCreditsC :: "AccountCredit coll" where
  "acctCreditsC = \<lparr> c_table = w_acctCredits, c_upd = w_acctCredits_update, c_ID = ac_ID, c_setID = (\<lambda>i. ac_ID_update (\<lambda>_. i)) \<rparr>"
definition promoCreditC :: "PromotionalCredit coll" where
  "promoCreditC = \<lparr> c_table = w_promoCredit, c_upd = w_promoCredit_update, c_ID = pc_ID, c_setID = (\<lambda>i. pc_ID_update (\<lambda>_. i)) \<rparr>"
definition savingCtrsC :: "SavingsContract coll" where
  "savingCtrsC = \<lparr> c_table = w_savingCtrs, c_upd = w_savingCtrs_update, c_ID = con_ID, c_setID = (\<lambda>i. con_ID_update (\<lambda>_. i)) \<rparr>"
definition priceAdjustC :: "PriceAdjustmentRule coll" where
  "priceAdjustC = \<lparr> c_table = w_priceAdjust, c_upd = w_priceAdjust_update, c_ID = par_ID, c_setID = (\<lambda>i. par_ID_update (\<lambda>_. i)) \<rparr>"
definition suspensionsC :: "SuspensionProcess coll" where
  "suspensionsC = \<lparr> c_table = w_suspensions, c_upd = w_suspensions_update, c_ID = sp_ID, c_setID = (\<lambda>i. sp_ID_update (\<lambda>_. i)) \<rparr>"
definition projectsC :: "Project coll" where
  "projectsC = \<lparr> c_table = w_projects, c_upd = w_projects_update, c_ID = prj_ID, c_setID = (\<lambda>i. prj_ID_update (\<lambda>_. i)) \<rparr>"
definition orgsC :: "Organization coll" where
  "orgsC = \<lparr> c_table = w_orgs, c_upd = w_orgs_update, c_ID = org_ID, c_setID = (\<lambda>i. org_ID_update (\<lambda>_. i)) \<rparr>"
definition extServicesC :: "ExternalService coll" where
  "extServicesC = \<lparr> c_table = w_extServices, c_upd = w_extServices_update, c_ID = es_ID, c_setID = (\<lambda>i. es_ID_update (\<lambda>_. i)) \<rparr>"
definition cloudResourcesC :: "CloudResource coll" where
  "cloudResourcesC = \<lparr> c_table = w_cloudResources, c_upd = w_cloudResources_update, c_ID = cr_ID, c_setID = (\<lambda>i. cr_ID_update (\<lambda>_. i)) \<rparr>"
definition metricsC :: "GnocchiMetrics coll" where
  "metricsC = \<lparr> c_table = w_metrics, c_upd = w_metrics_update, c_ID = gm_ID, c_setID = (\<lambda>i. gm_ID_update (\<lambda>_. i)) \<rparr>"
definition collectsC :: "CollectTransaction coll" where
  "collectsC = \<lparr> c_table = w_collects, c_upd = w_collects_update, c_ID = ct_ID, c_setID = (\<lambda>i. ct_ID_update (\<lambda>_. i)) \<rparr>"
definition creditsC :: "AccountCreditTransaction coll" where
  "creditsC = \<lparr> c_table = w_credits, c_upd = w_credits_update, c_ID = act_ID, c_setID = (\<lambda>i. act_ID_update (\<lambda>_. i)) \<rparr>"
definition cardsC :: "CreditCard coll" where
  "cardsC = \<lparr> c_table = w_cards, c_upd = w_cards_update, c_ID = card_ID, c_setID = (\<lambda>i. card_ID_update (\<lambda>_. i)) \<rparr>"
definition gatewaysC :: "Gateway coll" where
  "gatewaysC = \<lparr> c_table = w_gateways, c_upd = w_gateways_update, c_ID = gw_ID, c_setID = (\<lambda>i. gw_ID_update (\<lambda>_. i)) \<rparr>"
definition bankXfersC :: "BankTransfer coll" where
  "bankXfersC = \<lparr> c_table = w_bankXfers, c_upd = w_bankXfers_update, c_ID = bt_ID, c_setID = (\<lambda>i. bt_ID_update (\<lambda>_. i)) \<rparr>"
definition cardTxnsC :: "CreditCardTransaction coll" where
  "cardTxnsC = \<lparr> c_table = w_cardTxns, c_upd = w_cardTxns_update, c_ID = cct_ID, c_setID = (\<lambda>i. cct_ID_update (\<lambda>_. i)) \<rparr>"
definition ordersC :: "Order coll" where
  "ordersC = \<lparr> c_table = w_orders, c_upd = w_orders_update, c_ID = ord_ID, c_setID = (\<lambda>i. ord_ID_update (\<lambda>_. i)) \<rparr>"
definition savingPlansC :: "SavingsPlan coll" where
  "savingPlansC = \<lparr> c_table = w_savingPlans, c_upd = w_savingPlans_update, c_ID = plan_ID, c_setID = (\<lambda>i. plan_ID_update (\<lambda>_. i)) \<rparr>"

definition historyC :: "History coll" where
  "historyC = \<lparr> c_table = w_history, c_upd = w_history_update, c_ID = his_ID, c_setID = (\<lambda>i. his_ID_update (\<lambda>_. i)) \<rparr>"

definition remindersC :: "ReminderNotification coll" where
  "remindersC = \<lparr> c_table = w_reminders, c_upd = w_reminders_update, c_ID = rn_ID, c_setID = (\<lambda>i. rn_ID_update (\<lambda>_. i)) \<rparr>"

definition usersC :: "User coll" where
  "usersC = \<lparr> c_table = w_users, c_upd = w_users_update, c_ID = user_ID, c_setID = (\<lambda>i. user_ID_update (\<lambda>_. i)) \<rparr>"
definition membersC :: "Member coll" where
  "membersC = \<lparr> c_table = w_members, c_upd = w_members_update, c_ID = mbr_ID, c_setID = (\<lambda>i. mbr_ID_update (\<lambda>_. i)) \<rparr>"
definition rolesC :: "Role coll" where
  "rolesC = \<lparr> c_table = w_roles, c_upd = w_roles_update, c_ID = role_ID, c_setID = (\<lambda>i. role_ID_update (\<lambda>_. i)) \<rparr>"
definition platformConfigsC :: "PlatformConfiguration coll" where
  "platformConfigsC = \<lparr> c_table = w_platformConfigs, c_upd = w_platformConfigs_update, c_ID = plat_ID, c_setID = (\<lambda>i. plat_ID_update (\<lambda>_. i)) \<rparr>"
definition invitesC :: "ProjectInvite coll" where
  "invitesC = \<lparr> c_table = w_invites, c_upd = w_invites_update, c_ID = inv_ID, c_setID = (\<lambda>i. inv_ID_update (\<lambda>_. i)) \<rparr>"
definition redemptionsC :: "PromotionCodeRedemption coll" where
  "redemptionsC = \<lparr> c_table = w_redemptions, c_upd = w_redemptions_update, c_ID = red_ID, c_setID = (\<lambda>i. red_ID_update (\<lambda>_. i)) \<rparr>"
definition promoCodesC :: "PromotionCode coll" where
  "promoCodesC = \<lparr> c_table = w_promoCodes, c_upd = w_promoCodes_update, c_ID = docID, c_setID = docSetID \<rparr>"

definition locksC :: "LockRow coll" where
  "locksC = \<lparr> c_table = w_locks, c_upd = w_locks_update, c_ID = lk_ID, c_setID = (\<lambda>i. lk_ID_update (\<lambda>_. i)) \<rparr>"

definition view :: "'d coll \<Rightarrow> world \<Rightarrow> 'd table" where
  "view c w = map (\<lambda>(i, d). (i, c_setID c i d)) (c_table c w)"

definition dbGet :: "'d coll \<Rightarrow> string \<Rightarrow> 'd option svc" where
  "dbGet c i = db (\<lambda>w. (Inr (storeGet (view c w) i), w))"

definition dbFind :: "'d coll \<Rightarrow> ('d \<Rightarrow> bool) \<Rightarrow> 'd list svc" where
  "dbFind c P = db (\<lambda>w. (Inr (storeFind P (view c w)), w))"

text \<open>\<open>Find\<close> with \<open>Sort(Asc("_id"))\<close>.\<close>

definition dbFindByID :: "'d coll \<Rightarrow> ('d \<Rightarrow> bool) \<Rightarrow> 'd list svc" where
  "dbFindByID c P = db (\<lambda>w. (Inr (storeFind P (sort_key fst (view c w))), w))"

definition dbFindOne :: "'d coll \<Rightarrow> ('d \<Rightarrow> bool) \<Rightarrow> 'd option svc" where
  "dbFindOne c P = db (\<lambda>w. (Inr (map_option snd (storeFindOne P (view c w))), w))"

definition dbExists :: "'d coll \<Rightarrow> ('d \<Rightarrow> bool) \<Rightarrow> bool svc" where
  "dbExists c P = db (\<lambda>w. (Inr (storeExists P (view c w)), w))"

definition dbInsertOne :: "'d coll \<Rightarrow> 'd \<Rightarrow> string svc" where
  "dbInsertOne c d = bnd (if c_ID c d = '''' then NewID else ret (c_ID c d)) (\<lambda>i.
     db (\<lambda>w. case storeInsertOne i i d (c_table c w) of
         Inl e \<Rightarrow> (Inl e, w)
       | Inr (j, t) \<Rightarrow> (Inr j, c_upd c (\<lambda>_. t) w)))"

definition dbReplace :: "'d coll \<Rightarrow> string \<Rightarrow> 'd \<Rightarrow> bool svc" where
  "dbReplace c i d = db (\<lambda>w. (Inr (fst (storeReplace i d (c_table c w))),
     c_upd c (\<lambda>t. snd (storeReplace i d t)) w))"

definition dbUpsert :: "'d coll \<Rightarrow> string \<Rightarrow> 'd \<Rightarrow> unit svc" where
  "dbUpsert c i d = db (\<lambda>w. (Inr (), c_upd c (storeUpsert i d) w))"

definition dbSetByID :: "'d coll \<Rightarrow> string \<Rightarrow> ('d \<Rightarrow> 'd) \<Rightarrow> bool svc" where
  "dbSetByID c i f = db (\<lambda>w. (Inr (fst (storeSetByID i f (c_table c w))),
     c_upd c (\<lambda>t. snd (storeSetByID i f t)) w))"

text \<open>\<open>SetFieldsOne\<close>: a partial update of the first document that matches.\<close>

definition dbSetFieldsOne :: "'d coll \<Rightarrow> ('d \<Rightarrow> bool) \<Rightarrow> ('d \<Rightarrow> 'd) \<Rightarrow> bool svc" where
  "dbSetFieldsOne c P f = db (\<lambda>w. case find (\<lambda>r. P (snd r)) (view c w) of None \<Rightarrow> (Inr False, w)
     | Some r \<Rightarrow> (Inr True, c_upd c (replaceRow (fst r) f) w))"

definition dbDeleteByID :: "'d coll \<Rightarrow> string \<Rightarrow> bool svc" where
  "dbDeleteByID c i = db (\<lambda>w. (Inr (fst (storeDeleteByID i (c_table c w))),
     c_upd c (\<lambda>t. snd (storeDeleteByID i t)) w))"

text \<open>\<open>DeleteMany\<close>, \<open>DeleteOne\<close> (the first document that matches) and \<open>Count\<close>.\<close>

definition dbDeleteMany :: "'d coll \<Rightarrow> ('d \<Rightarrow> bool) \<Rightarrow> int svc" where
  "dbDeleteMany c P = db (\<lambda>w. (Inr (storeCount P (view c w)),
     c_upd c (filter (\<lambda>r. \<not> P (c_setID c (fst r) (snd r)))) w))"

definition dbDeleteOne :: "'d coll \<Rightarrow> ('d \<Rightarrow> bool) \<Rightarrow> bool svc" where
  "dbDeleteOne c P = db (\<lambda>w. case find (\<lambda>r. P (snd r)) (view c w) of None \<Rightarrow> (Inr False, w)
     | Some r \<Rightarrow> (Inr True, c_upd c (filter (\<lambda>s. fst s \<noteq> fst r)) w))"

definition dbCount :: "'d coll \<Rightarrow> ('d \<Rightarrow> bool) \<Rightarrow> int svc" where
  "dbCount c P = db (\<lambda>w. (Inr (storeCount P (view c w)), w))"

text \<open>
  \<open>InsertOne\<close> into a table with a unique index (\<open>EnsureIndex\<close> with \<open>unique\<close>): \<open>K\<close> reads the indexed
  fields of a document, and a row with the same values makes the statement fail.
\<close>

definition dbInsertUnique :: "'d coll \<Rightarrow> ('d \<Rightarrow> 'k) \<Rightarrow> 'd \<Rightarrow> string svc" where
  "dbInsertUnique c K d = bnd (if c_ID c d = '''' then NewID else ret (c_ID c d)) (\<lambda>i.
     db (\<lambda>w. if \<exists>r\<in>set (c_table c w). K (snd r) = K d
       then (Inl (Failure ''duplicate key value violates unique constraint''), w)
       else case storeInsertOne i i d (c_table c w) of
         Inl e \<Rightarrow> (Inl e, w)
       | Inr (j, t) \<Rightarrow> (Inr j, c_upd c (\<lambda>_. t) w)))"

definition dbFindOneForUpdate :: "'d coll \<Rightarrow> ('d \<Rightarrow> bool) \<Rightarrow> (string \<times> 'd) option svc" where
  "dbFindOneForUpdate c P = db (\<lambda>w. (Inr (storeFindOne P (view c w)), w))"

text \<open>
  \<open>DB.WithTx\<close>: begin, run, commit. An error of the body or of the commit takes the tables back
  to what they were at the begin; clock, id counter and log are not part of the database.
\<close>

definition rollback :: "world \<Rightarrow> world \<Rightarrow> world" where
  "rollback w0 w = w0 \<lparr> w_time := w_time w, w_ticks := w_ticks w, w_faults := w_faults w,
     w_idCounter := w_idCounter w, w_ensureBills := w_ensureBills w, w_ensureCloud := w_ensureCloud w, w_log := w_log w \<rparr>"

definition dbStatement :: "unit svc" where
  "dbStatement = db (\<lambda>w. (Inr (), w))"

definition txBody :: "'a svc \<Rightarrow> 'a svc" where
  "txBody m = bnd m (\<lambda>x. bnd dbStatement (\<lambda>_. ret x))"

definition withTx :: "'a svc \<Rightarrow> 'a svc" where
  "withTx m = bnd dbStatement (\<lambda>_ w0. case txBody m w0 of
       (Inl e, w) \<Rightarrow> (Inl e, rollback w0 w)
     | (Inr x, w) \<Rightarrow> (Inr x, w))"

section \<open>Calls that leave the tables alone\<close>

text \<open>
  \<open>stored\<close> forgets everything but the tables and the random id bytes; a call is \<open>quiet\<close> if it
  never changes them. The rules of \<open>quiet_intros\<close> follow the structure of a call.
\<close>

definition stored :: "world \<Rightarrow> world" where
  "stored w = w \<lparr> w_time := 0, w_ticks := [], w_faults := [], w_idCounter := 0, w_ensureBills := None, w_ensureCloud := None, w_log := [] \<rparr>"

definition quiet :: "'a svc \<Rightarrow> bool" where
  "quiet m \<longleftrightarrow> (\<forall>w. stored (snd (m w)) = stored w)"

named_theorems quiet_intros

lemma quietI: "(\<And>w r w'. m w = (r, w') \<Longrightarrow> stored w' = stored w) \<Longrightarrow> quiet m"
  unfolding quiet_def by (metis prod.collapse)

lemma quietD: "quiet m \<Longrightarrow> m w = (r, w') \<Longrightarrow> stored w' = stored w"
  unfolding quiet_def by (metis snd_conv)

lemma quiet_ret [quiet_intros]: "quiet (ret x)"
  by (simp add: quiet_def ret_def)

lemma quiet_throw [quiet_intros]: "quiet (throw e)"
  by (simp add: quiet_def throw_def)

lemma quiet_liftR [quiet_intros]: "quiet (liftR r)"
  by (simp add: quiet_def liftR_def)

lemma quiet_emit [quiet_intros]: "quiet (emit e)"
  by (simp add: quiet_def emit_def stored_def)

lemma quiet_timeNow [quiet_intros]: "quiet timeNow"
  by (simp add: quiet_def timeNow_def stored_def Let_def split: list.splits)

lemma quiet_bnd [quiet_intros]: "quiet m \<Longrightarrow> (\<And>x. quiet (f x)) \<Longrightarrow> quiet (bnd m f)"
  unfolding quiet_def bnd_def by (auto split: prod.splits sum.splits) (metis snd_conv)+

lemma quiet_attempt [quiet_intros]: "quiet m \<Longrightarrow> quiet (attempt m)"
  unfolding quiet_def attempt_def by (auto split: prod.splits sum.splits error.splits) (metis snd_conv)+

lemma quiet_forS [quiet_intros]: "(\<And>x acc. quiet (f x acc)) \<Longrightarrow> quiet (forS f xs acc)"
  by (induction xs arbitrary: acc) (auto intro: quiet_intros)

lemma quiet_if [quiet_intros]: "(b \<Longrightarrow> quiet m) \<Longrightarrow> (\<not> b \<Longrightarrow> quiet n) \<Longrightarrow> quiet (if b then m else n)"
  by simp

lemma quiet_option [quiet_intros]:
  "(x = None \<Longrightarrow> quiet m) \<Longrightarrow> (\<And>y. x = Some y \<Longrightarrow> quiet (f y)) \<Longrightarrow> quiet (case x of None \<Rightarrow> m | Some y \<Rightarrow> f y)"
  by (cases x) auto

lemma quiet_sum [quiet_intros]:
  "(\<And>e. quiet (f e)) \<Longrightarrow> (\<And>y. quiet (g y)) \<Longrightarrow> quiet (case x of Inl e \<Rightarrow> f e | Inr y \<Rightarrow> g y)"
  by (cases x) auto

lemma quiet_prod [quiet_intros]: "(\<And>a b. quiet (f a b)) \<Longrightarrow> quiet (case p of (a, b) \<Rightarrow> f a b)"
  by (cases p) auto

lemma quiet_let [quiet_intros]: "(\<And>x. quiet (f x)) \<Longrightarrow> quiet (let x = v in f x)"
  by simp

lemma quiet_db: "(\<And>w r w'. op w = (r, w') \<Longrightarrow> stored w' = stored w) \<Longrightarrow> quiet (db op)"
  by (rule quietI) (auto simp: db_def Let_def stored_def split: list.splits if_splits)

lemma quiet_NewID [quiet_intros]: "quiet NewID"
  unfolding NewID_def by (rule quiet_bnd [OF quiet_timeNow]) (simp add: quiet_def Let_def stored_def)

lemma quiet_reads [quiet_intros]:
  "quiet (dbGet c i)" "quiet (dbFind c P)" "quiet (dbFindByID c P)" "quiet (dbFindOne c P)" "quiet (dbExists c P)"
  "quiet (dbFindOneForUpdate c P)" "quiet (dbCount c P)"
  unfolding dbGet_def dbFind_def dbFindByID_def dbFindOne_def dbExists_def dbFindOneForUpdate_def dbCount_def
  by (auto intro: quiet_db)

section \<open>Outcomes of calls\<close>

text \<open>The rules of \<open>svc_simps\<close> take a successful run apart.\<close>

named_theorems svc_simps

lemma bnd_Inr [svc_simps]:
  "bnd m f w = (Inr y, w') \<longleftrightarrow> (\<exists>x w1. m w = (Inr x, w1) \<and> f x w1 = (Inr y, w'))"
  by (auto simp: bnd_def split: prod.splits sum.splits)

lemma bnd_Inl:
  "bnd m f w = (Inl e, w') \<longleftrightarrow> m w = (Inl e, w') \<or> (\<exists>x w1. m w = (Inr x, w1) \<and> f x w1 = (Inl e, w'))"
  by (auto simp: bnd_def split: prod.splits sum.splits)

lemma ret_Inr [svc_simps]: "ret x w = (r, w') \<longleftrightarrow> r = Inr x \<and> w' = w"
  by (auto simp: ret_def)

lemma throw_Inr [svc_simps]: "throw e w = (r, w') \<longleftrightarrow> r = Inl e \<and> w' = w"
  by (auto simp: throw_def)

lemma liftR_Inr [svc_simps]: "liftR r w = (r', w') \<longleftrightarrow> r' = r \<and> w' = w"
  by (auto simp: liftR_def)

lemma emit_run [svc_simps]: "emit e w = (r, w') \<longleftrightarrow> r = Inr () \<and> w' = w \<lparr> w_log := w_log w @ [e] \<rparr>"
  by (auto simp: emit_def)

lemma attempt_Inr [svc_simps]:
  "attempt m w = (Inr r, w') \<longleftrightarrow> m w = (r, w') \<and> (\<forall>p. r \<noteq> Inl (Panic p))"
  by (auto simp: attempt_def split: prod.splits sum.splits error.splits)

lemma stored_simps [simp]:
  "stored (w \<lparr> w_log := l \<rparr>) = stored w" "stored (w \<lparr> w_faults := fs \<rparr>) = stored w"
  "stored (w \<lparr> w_time := t \<rparr>) = stored w" "stored (w \<lparr> w_ticks := ds \<rparr>) = stored w"
  "stored (w \<lparr> w_idCounter := n \<rparr>) = stored w" "stored (stored w) = stored w"
  "stored (w \<lparr> w_ensureBills := en \<rparr>) = stored w" "stored (w \<lparr> w_ensureCloud := en \<rparr>) = stored w"
  by (simp_all add: stored_def)

lemma db_Inr:
  assumes "db op w = (Inr x, w')"
  obtains w1 where "stored w1 = stored w" and "op w1 = (Inr x, w')" and "w_log w1 = w_log w" and "w_time w1 = w_time w"
proof (cases "w_faults w")
  case Nil
  then show ?thesis using assms that [of w] by (simp add: db_def)
next
  case (Cons f fs)
  then show ?thesis using assms that [of "w \<lparr> w_faults := fs \<rparr>"] by (auto simp: db_def Let_def split: if_splits)
qed

lemma timeNow_run: "timeNow w = (r, w') \<Longrightarrow> r = Inr (w_time w') \<and> w_time w \<le> w_time w' \<and> stored w' = stored w \<and> w_log w' = w_log w"
  by (auto simp: timeNow_def Let_def stored_def split: list.splits)

lemma stored_rollback [simp]: "stored (rollback w0 w) = stored w0"
  by (simp add: stored_def rollback_def)

lemma dbStatement_run: "dbStatement w = (r, w') \<Longrightarrow> stored w' = stored w \<and> w_time w' = w_time w"
  by (auto simp: dbStatement_def db_def Let_def split: list.splits if_splits)

lemma quiet_dbStatement [quiet_intros]: "quiet dbStatement"
  by (rule quietI) (simp add: dbStatement_run)

lemma withTx_Inr:
  assumes "withTx m w = (Inr x, w')"
  obtains w0 w1 where "stored w0 = stored w" and "m w0 = (Inr x, w1)" and "stored w' = stored w1" and "w_time w0 = w_time w"
proof -
  from assms obtain w0 where w0: "dbStatement w = (Inr (), w0)" and body: "txBody m w0 = (Inr x, w')"
    by (auto simp: withTx_def bnd_def split: prod.splits sum.splits)
  from body obtain w1 where "m w0 = (Inr x, w1)" and "dbStatement w1 = (Inr (), w')"
    by (auto simp: txBody_def svc_simps)
  then show ?thesis using that w0 dbStatement_run by metis
qed

lemma withTx_Inl:
  assumes "withTx m w = (Inl e, w')"
  shows "stored w' = stored w"
  using assms by (auto simp: withTx_def bnd_def split: prod.splits sum.splits dest: dbStatement_run)

text \<open>A write that fails has not happened.\<close>

lemma db_Inl:
  "db op w = (Inl e, w') \<Longrightarrow> (\<And>w1 e w2. op w1 = (Inl e, w2) \<Longrightarrow> stored w2 = stored w1) \<Longrightarrow> stored w' = stored w"
  by (fastforce simp: db_def Let_def split: list.splits if_splits)

lemma failed_writes:
  "dbReplace c i d w = (Inl e, w') \<Longrightarrow> stored w' = stored w"
  "dbSetByID c i f w = (Inl e, w') \<Longrightarrow> stored w' = stored w"
  "dbDeleteByID c i w = (Inl e, w') \<Longrightarrow> stored w' = stored w"
  "dbUpsert c i d w = (Inl e, w') \<Longrightarrow> stored w' = stored w"
  unfolding dbReplace_def dbSetByID_def dbDeleteByID_def dbUpsert_def by (auto elim: db_Inl)

lemma dbInsertOne_Inl:
  assumes "dbInsertOne c d w = (Inl e, w')"
  shows "stored w' = stored w"
proof -
  let ?gen = "if c_ID c d = [] then NewID else ret (c_ID c d)"
  have q: "quiet ?gen" by (intro quiet_intros)
  from assms consider "?gen w = (Inl e, w')"
    | i w1 where "?gen w = (Inr i, w1)" "db (\<lambda>w. case storeInsertOne i i d (c_table c w) of
         Inl e \<Rightarrow> (Inl e, w) | Inr (j, t) \<Rightarrow> (Inr j, c_upd c (\<lambda>_. t) w)) w1 = (Inl e, w')"
    by (auto simp: dbInsertOne_def bnd_Inl)
  then show ?thesis
  proof cases
    case 1
    then show ?thesis by (rule quietD [OF q])
  next
    case 2
    have "stored w' = stored w1" using 2(2) by (rule db_Inl) (auto split: sum.splits)
    then show ?thesis using quietD [OF q 2(1)] by simp
  qed
qed

text \<open>The three new deletions and the guarded insertion fail without a trace as well.\<close>

lemma failed_deletes:
  "dbDeleteMany c P w = (Inl e, w') \<Longrightarrow> stored w' = stored w"
  "dbDeleteOne c P w = (Inl e, w') \<Longrightarrow> stored w' = stored w"
  "dbSetFieldsOne c P f w = (Inl e, w') \<Longrightarrow> stored w' = stored w"
  unfolding dbDeleteMany_def dbDeleteOne_def dbSetFieldsOne_def by (auto elim!: db_Inl split: option.splits)

text \<open>A guarded insertion is a plain one or was refused; if it went through, no row had the same key.\<close>

lemma dbInsertUnique_cases:
  assumes "dbInsertUnique c K d w = (r, w')"
  shows "dbInsertOne c d w = (r, w') \<or> (stored w' = stored w \<and> (\<exists>e. r = Inl (Failure e)))"
proof -
  let ?gen = "if c_ID c d = [] then NewID else ret (c_ID c d)"
  obtain g w1 where g: "?gen w = (g, w1)" by (cases "?gen w")
  have "quiet ?gen" by (intro quiet_intros)
  then have s: "stored w1 = stored w" using g by (rule quietD)
  show ?thesis
  proof (cases g)
    case (Inl e)
    then show ?thesis using assms g by (auto simp: dbInsertUnique_def dbInsertOne_def bnd_def)
  next
    case (Inr i)
    let ?op = "\<lambda>w. case storeInsertOne i i d (c_table c w) of Inl e \<Rightarrow> (Inl e, w) | Inr (j, t) \<Rightarrow> (Inr j, c_upd c (\<lambda>_. t) w)"
    let ?dup = "\<lambda>w. \<exists>r\<in>set (c_table c w). K (snd r) = K d"
    have run: "db (\<lambda>w. if ?dup w then (Inl (Failure ''duplicate key value violates unique constraint''), w) else ?op w) w1 = (r, w')"
      using assms g Inr by (simp add: dbInsertUnique_def bnd_def)
    have "dbInsertOne c d w = db ?op w1" using g Inr by (simp add: dbInsertOne_def bnd_def)
    then show ?thesis
      using run s by (auto simp: db_def Let_def split: list.splits if_splits)
  qed
qed

lemma dbInsertUnique_Inl: "dbInsertUnique c K d w = (Inl e, w') \<Longrightarrow> stored w' = stored w"
  by (drule dbInsertUnique_cases) (auto dest: dbInsertOne_Inl)

lemma bnd_run: "m w = (Inr x, w1) \<Longrightarrow> bnd m f w = f x w1"
  by (simp add: bnd_def)

lemma db_no_fault: "w_faults w = [] \<Longrightarrow> db op w = op w"
  by (simp add: db_def)

lemma view_distinct: "distinct (map fst (view c w)) \<longleftrightarrow> distinct (map fst (c_table c w))"
  by (simp add: view_def comp_def case_prod_beta)

section \<open>The contract of a collection\<close>

text \<open>
  What a repository relies on: the table of a collection is read and written independently of
  the clock, the oracles and the log, and the id field is what the key column says.
\<close>

locale collection =
  fixes c :: "'d coll"
  assumes table_stored: "c_table c (stored w) = c_table c w"
    and table_upd: "c_table c (c_upd c f w) = f (c_table c w)"
    and upd_stored: "stored (c_upd c f w) = c_upd c f (stored w)"
    and upd_log: "w_log (c_upd c f w) = w_log w"
    and upd_time: "w_time (c_upd c f w) = w_time w"
    and id_setID: "c_ID c (c_setID c i d) = i"
    and setID_setID: "c_setID c i (c_setID c j d) = c_setID c i d"
begin

lemma view_stored: "stored w' = stored w \<Longrightarrow> view c w' = view c w"
  using table_stored [of w] table_stored [of w'] by (simp add: view_def)

lemma view_keys: "fst ` set (view c w) = fst ` set (c_table c w)"
  by (simp add: view_def image_image case_prod_beta)

lemma view_ID: "(i, d) \<in> set (view c w) \<Longrightarrow> c_ID c d = i"
  by (auto simp: view_def id_setID)

lemma view_get_ID: "storeGet (view c w) i = Some d \<Longrightarrow> c_ID c d = i"
  by (auto simp: storeGet_def view_ID dest: map_of_SomeD split: if_splits)

lemma get_run: "dbGet c i w = (Inr x, w') \<Longrightarrow> x = storeGet (view c w) i \<and> stored w' = stored w \<and> w_log w' = w_log w \<and> w_time w' = w_time w"
  unfolding dbGet_def by (erule db_Inr) (auto dest: view_stored)

lemma find_run: "dbFind c P w = (Inr x, w') \<Longrightarrow> x = storeFind P (view c w) \<and> stored w' = stored w \<and> w_log w' = w_log w \<and> w_time w' = w_time w"
  unfolding dbFind_def by (erule db_Inr) (auto dest: view_stored)

lemma find_by_id_run: "dbFindByID c P w = (Inr x, w') \<Longrightarrow>
    x = storeFind P (sort_key fst (view c w)) \<and> stored w' = stored w \<and> w_log w' = w_log w \<and> w_time w' = w_time w"
  unfolding dbFindByID_def by (erule db_Inr) (auto dest: view_stored)

lemma find_one_run: "dbFindOne c P w = (Inr x, w') \<Longrightarrow>
    x = map_option snd (storeFindOne P (view c w)) \<and> stored w' = stored w \<and> w_log w' = w_log w \<and> w_time w' = w_time w"
  unfolding dbFindOne_def by (erule db_Inr) (auto dest: view_stored)

lemma exists_run: "dbExists c P w = (Inr x, w') \<Longrightarrow> x = storeExists P (view c w) \<and> stored w' = stored w \<and> w_log w' = w_log w \<and> w_time w' = w_time w"
  unfolding dbExists_def by (erule db_Inr) (auto dest: view_stored)

lemma find_for_update_run: "dbFindOneForUpdate c P w = (Inr x, w') \<Longrightarrow>
    x = storeFindOne P (view c w) \<and> stored w' = stored w \<and> w_log w' = w_log w \<and> w_time w' = w_time w"
  unfolding dbFindOneForUpdate_def by (erule db_Inr) (auto dest: view_stored)

lemma view_replaceRow:
  "map (\<lambda>(i, d). (i, c_setID c i d)) (replaceRow key (\<lambda>_. d) t) =
   replaceRow key (\<lambda>_. c_setID c key d) (map (\<lambda>(i, d). (i, c_setID c i d)) t)"
  by (induction t) auto

lemma replace_run:
  assumes "dbReplace c i d w = (Inr b, w')"
  shows "view c w' = replaceRow i (\<lambda>_. c_setID c i d) (view c w)"
    and "stored w' = c_upd c (replaceRow i (\<lambda>_. d)) (stored w)"
    and "b \<longleftrightarrow> i \<in> fst ` set (view c w)" and "w_log w' = w_log w" and "w_time w' = w_time w"
proof -
  from assms obtain w1 where w1: "stored w1 = stored w" "w_log w1 = w_log w" "w_time w1 = w_time w"
    and b: "b \<longleftrightarrow> i \<in> fst ` set (c_table c w1)" and w': "w' = c_upd c (replaceRow i (\<lambda>_. d)) w1"
    unfolding dbReplace_def by (elim db_Inr) (auto simp: storeReplace_def)
  have "view c w' = replaceRow i (\<lambda>_. c_setID c i d) (view c w1)"
    by (simp add: w' view_def table_upd view_replaceRow)
  then show "view c w' = replaceRow i (\<lambda>_. c_setID c i d) (view c w)" using view_stored [OF w1(1)] by simp
  show "stored w' = c_upd c (replaceRow i (\<lambda>_. d)) (stored w)" by (simp add: w' upd_stored w1)
  show "b \<longleftrightarrow> i \<in> fst ` set (view c w)" using view_stored [OF w1(1)] b view_keys [of w1] by simp
  show "w_log w' = w_log w" "w_time w' = w_time w" by (simp_all add: w' upd_log upd_time w1)
qed

lemma upsert_run:
  assumes "dbUpsert c i d w = (Inr x, w')"
  shows "view c w' = storeUpsert i (c_setID c i d) (view c w)" and "stored w' = c_upd c (storeUpsert i d) (stored w)"
    and "w_log w' = w_log w"
proof -
  from assms obtain w1 where w1: "stored w1 = stored w" "w_log w1 = w_log w" and w': "w' = c_upd c (storeUpsert i d) w1"
    unfolding dbUpsert_def by (elim db_Inr) auto
  have "view c w' = storeUpsert i (c_setID c i d) (view c w1)"
    using view_keys [of w1] by (simp add: w' view_def table_upd storeUpsert_def view_replaceRow)
  then show "view c w' = storeUpsert i (c_setID c i d) (view c w)" using view_stored [OF w1(1)] by simp
  show "stored w' = c_upd c (storeUpsert i d) (stored w)" "w_log w' = w_log w" by (simp_all add: w' upd_stored upd_log w1)
qed

lemma set_by_id_run:
  assumes "dbSetByID c i f w = (Inr b, w')"
  shows "stored w' = c_upd c (replaceRow i f) (stored w)" and "w_time w' = w_time w"
    and "(\<And>j d. c_setID c j (f d) = f (c_setID c j d)) \<Longrightarrow> view c w' = replaceRow i f (view c w)"
proof -
  from assms obtain w1 where w1: "stored w1 = stored w" "w_time w1 = w_time w" and w': "w' = c_upd c (replaceRow i f) w1"
    unfolding dbSetByID_def by (elim db_Inr) (auto simp: storeSetByID_def)
  show "stored w' = c_upd c (replaceRow i f) (stored w)" "w_time w' = w_time w" by (simp_all add: w' upd_stored upd_time w1)
  assume comm: "\<And>j d. c_setID c j (f d) = f (c_setID c j d)"
  have "map (\<lambda>(j, d). (j, c_setID c j d)) (replaceRow i f t) = replaceRow i f (map (\<lambda>(j, d). (j, c_setID c j d)) t)" for t
    by (induction t) (auto simp: comm)
  then have "view c w' = replaceRow i f (view c w1)" by (simp add: w' view_def table_upd)
  then show "view c w' = replaceRow i f (view c w)" using view_stored [OF w1(1)] by simp
qed

lemma delete_run:
  assumes "dbDeleteByID c i w = (Inr b, w')"
  shows "stored w' = c_upd c (filter (\<lambda>r. fst r \<noteq> i)) (stored w)" and "view c w' = filter (\<lambda>r. fst r \<noteq> i) (view c w)"
proof -
  from assms obtain w1 where w1: "stored w1 = stored w" and w': "w' = c_upd c (filter (\<lambda>r. fst r \<noteq> i)) w1"
    unfolding dbDeleteByID_def by (elim db_Inr) (auto simp: storeDeleteByID_def)
  show "stored w' = c_upd c (filter (\<lambda>r. fst r \<noteq> i)) (stored w)" by (simp add: w' upd_stored w1)
  have "view c w' = filter (\<lambda>r. fst r \<noteq> i) (view c w1)"
    by (simp add: w' view_def table_upd filter_map comp_def case_prod_beta)
  then show "view c w' = filter (\<lambda>r. fst r \<noteq> i) (view c w)" using view_stored [OF w1] by simp
qed

lemma insert_run:
  assumes "dbInsertOne c d w = (Inr i, w')"
  shows "view c w' = view c w @ [(i, c_setID c i d)]" and "i \<notin> fst ` set (view c w)"
    and "stored w' = c_upd c (\<lambda>_. c_table c w @ [(i, d)]) (stored w)"
proof -
  let ?gen = "if c_ID c d = [] then NewID else ret (c_ID c d)"
  from assms obtain j w0 where j: "?gen w = (Inr j, w0)"
    and ins: "db (\<lambda>w. case storeInsertOne j j d (c_table c w) of Inl e \<Rightarrow> (Inl e, w) | Inr (j, t) \<Rightarrow> (Inr j, c_upd c (\<lambda>_. t) w)) w0 = (Inr i, w')"
    by (auto simp: dbInsertOne_def svc_simps)
  have "quiet ?gen" by (intro quiet_intros)
  then have w0: "stored w0 = stored w" using j by (rule quietD)
  from ins obtain w1 where w1: "stored w1 = stored w"
    and i: "i \<notin> fst ` set (c_table c w1)" and w': "w' = c_upd c (\<lambda>_. c_table c w1 @ [(i, d)]) w1"
    by (elim db_Inr) (auto simp: storeInsertOne_def Let_def w0 split: sum.splits if_splits)
  have "c_table c w1 = c_table c w" using w1 table_stored [of w] table_stored [of w1] by simp
  with i w' w1 show "view c w' = view c w @ [(i, c_setID c i d)]" "i \<notin> fst ` set (view c w)"
    and "stored w' = c_upd c (\<lambda>_. c_table c w @ [(i, d)]) (stored w)"
    unfolding view_keys by (simp_all add: view_def table_upd upd_stored)
qed


lemma insert_unique_run:
  assumes "dbInsertUnique c K d w = (Inr i, w')"
  shows "dbInsertOne c d w = (Inr i, w')" and "\<forall>r\<in>set (c_table c w). K (snd r) \<noteq> K d"
proof -
  show "dbInsertOne c d w = (Inr i, w')" using dbInsertUnique_cases [OF assms] by blast
  let ?gen = "if c_ID c d = [] then NewID else ret (c_ID c d)"
  let ?dup = "\<lambda>w. \<exists>r\<in>set (c_table c w). K (snd r) = K d"
  from assms obtain j w0 where j: "?gen w = (Inr j, w0)"
    and ins: "db (\<lambda>w. if ?dup w then (Inl (Failure ''duplicate key value violates unique constraint''), w)
      else case storeInsertOne j j d (c_table c w) of Inl e \<Rightarrow> (Inl e, w) | Inr (j, t) \<Rightarrow> (Inr j, c_upd c (\<lambda>_. t) w)) w0 = (Inr i, w')"
    unfolding dbInsertUnique_def bnd_Inr by blast
  have "quiet ?gen" by (intro quiet_intros)
  then have w0: "stored w0 = stored w" using j by (rule quietD)
  from ins show "\<forall>r\<in>set (c_table c w). K (snd r) \<noteq> K d"
  proof (rule db_Inr)
    fix w1
    assume "stored w1 = stored w0" and op: "(if ?dup w1 then (Inl (Failure ''duplicate key value violates unique constraint''), w1)
      else case storeInsertOne j j d (c_table c w1) of Inl e \<Rightarrow> (Inl e, w1) | Inr (j, t) \<Rightarrow> (Inr j, c_upd c (\<lambda>_. t) w1)) = (Inr i, w')"
    then have "c_table c w1 = c_table c w" using w0 table_stored [of w] table_stored [of w1] by simp
    moreover have "\<not> ?dup w1" using op by (cases "?dup w1") simp_all
    ultimately show ?thesis by auto
  qed
qed

lemma count_run: "dbCount c P w = (Inr x, w') \<Longrightarrow> x = storeCount P (view c w) \<and> stored w' = stored w \<and> w_log w' = w_log w \<and> w_time w' = w_time w"
  unfolding dbCount_def by (erule db_Inr) (auto dest: view_stored)

lemma delete_many_run:
  assumes "dbDeleteMany c P w = (Inr n, w')"
  shows "view c w' = filter (\<lambda>r. \<not> P (snd r)) (view c w)" and "n = storeCount P (view c w)"
    and "\<exists>f. stored w' = c_upd c f (stored w)"
proof -
  from assms obtain w1 where w1: "stored w1 = stored w" and n: "n = storeCount P (view c w1)"
    and w': "w' = c_upd c (filter (\<lambda>r. \<not> P (c_setID c (fst r) (snd r)))) w1"
    unfolding dbDeleteMany_def by (elim db_Inr) auto
  show "\<exists>f. stored w' = c_upd c f (stored w)" using w1 by (auto simp: w' upd_stored)
  have "view c w' = filter (\<lambda>r. \<not> P (snd r)) (view c w1)"
    by (simp add: w' view_def table_upd filter_map comp_def case_prod_beta)
  then show "view c w' = filter (\<lambda>r. \<not> P (snd r)) (view c w)" "n = storeCount P (view c w)"
    using view_stored [OF w1] n by simp_all
qed

lemma delete_one_run:
  assumes "dbDeleteOne c P w = (Inr b, w')"
  shows "case find (\<lambda>r. P (snd r)) (view c w) of None \<Rightarrow> \<not> b \<and> stored w' = stored w
    | Some r \<Rightarrow> b \<and> view c w' = filter (\<lambda>s. fst s \<noteq> fst r) (view c w)"
proof -
  from assms obtain w1 where w1: "stored w1 = stored w"
    and op: "(case find (\<lambda>r. P (snd r)) (view c w1) of None \<Rightarrow> (Inr False, w1)
      | Some r \<Rightarrow> (Inr True, c_upd c (filter (\<lambda>s. fst s \<noteq> fst r)) w1)) = (Inr b :: bool res, w')"
    unfolding dbDeleteOne_def by (rule db_Inr) (rule that)
  have v: "view c w1 = view c w" by (rule view_stored [OF w1])
  have f: "view c (c_upd c (filter (\<lambda>s. fst s \<noteq> k)) w1) = filter (\<lambda>s. fst s \<noteq> k) (view c w)" for k
    unfolding v [symmetric] by (simp add: view_def table_upd filter_map comp_def case_prod_beta)
  show ?thesis using op w1 f unfolding v by (auto split: option.splits)
qed

text \<open>A partial update that keeps the id field, read back.\<close>

lemma set_fields_one_run:
  assumes "dbSetFieldsOne c P f w = (Inr b, w')" and comm: "\<And>j d. c_setID c j (f d) = f (c_setID c j d)"
  shows "case find (\<lambda>r. P (snd r)) (view c w) of None \<Rightarrow> \<not> b \<and> stored w' = stored w
    | Some r \<Rightarrow> b \<and> view c w' = replaceRow (fst r) f (view c w)"
proof -
  from assms(1) obtain w1 where w1: "stored w1 = stored w"
    and op: "(case find (\<lambda>r. P (snd r)) (view c w1) of None \<Rightarrow> (Inr False, w1)
      | Some r \<Rightarrow> (Inr True, c_upd c (replaceRow (fst r) f) w1)) = (Inr b :: bool res, w')"
    unfolding dbSetFieldsOne_def by (rule db_Inr) (rule that)
  have v: "view c w1 = view c w" by (rule view_stored [OF w1])
  have "map (\<lambda>(j, d). (j, c_setID c j d)) (replaceRow k f t) = replaceRow k f (map (\<lambda>(j, d). (j, c_setID c j d)) t)" for k t
    by (induction t) (auto simp: comm)
  then have f: "view c (c_upd c (replaceRow k f) w1) = replaceRow k f (view c w)" for k
    unfolding v [symmetric] by (simp add: view_def table_upd)
  show ?thesis using op w1 f unfolding v by (auto split: option.splits)
qed

end

interpretation profiles: collection profilesC
  by unfold_locales (simp_all add: profilesC_def stored_def)
interpretation configs: collection configsC
  by unfold_locales (simp_all add: configsC_def stored_def)
interpretation bills: collection billsC
  by unfold_locales (simp_all add: billsC_def stored_def)
interpretation acctCredits: collection acctCreditsC
  by unfold_locales (simp_all add: acctCreditsC_def stored_def)
interpretation promoCredit: collection promoCreditC
  by unfold_locales (simp_all add: promoCreditC_def stored_def)
interpretation savingCtrs: collection savingCtrsC
  by unfold_locales (simp_all add: savingCtrsC_def stored_def)
interpretation priceAdjust: collection priceAdjustC
  by unfold_locales (simp_all add: priceAdjustC_def stored_def)
interpretation suspensions: collection suspensionsC
  by unfold_locales (simp_all add: suspensionsC_def stored_def)
interpretation projects: collection projectsC
  by unfold_locales (simp_all add: projectsC_def stored_def)
interpretation orgs: collection orgsC
  by unfold_locales (simp_all add: orgsC_def stored_def)
interpretation extServices: collection extServicesC
  by unfold_locales (simp_all add: extServicesC_def stored_def)
interpretation cloudResources: collection cloudResourcesC
  by unfold_locales (simp_all add: cloudResourcesC_def stored_def)
interpretation histories: collection historyC
  by unfold_locales (simp_all add: historyC_def stored_def)
interpretation metrics: collection metricsC
  by unfold_locales (simp_all add: metricsC_def stored_def)
interpretation collects: collection collectsC
  by unfold_locales (simp_all add: collectsC_def stored_def)
interpretation credits: collection creditsC
  by unfold_locales (simp_all add: creditsC_def stored_def)
interpretation cards: collection cardsC
  by unfold_locales (simp_all add: cardsC_def stored_def)
interpretation gateways: collection gatewaysC
  by unfold_locales (simp_all add: gatewaysC_def stored_def)
interpretation bankXfers: collection bankXfersC
  by unfold_locales (simp_all add: bankXfersC_def stored_def)
interpretation cardTxns: collection cardTxnsC
  by unfold_locales (simp_all add: cardTxnsC_def stored_def)
interpretation orders: collection ordersC
  by unfold_locales (simp_all add: ordersC_def stored_def)
interpretation savingPlans: collection savingPlansC
  by unfold_locales (simp_all add: savingPlansC_def stored_def)
interpretation reminders: collection remindersC
  by unfold_locales (simp_all add: remindersC_def stored_def)
interpretation users: collection usersC
  by unfold_locales (simp_all add: usersC_def stored_def)
interpretation members: collection membersC
  by unfold_locales (simp_all add: membersC_def stored_def)
interpretation roles: collection rolesC
  by unfold_locales (simp_all add: rolesC_def stored_def)
interpretation platformConfigs: collection platformConfigsC
  by unfold_locales (simp_all add: platformConfigsC_def stored_def)
interpretation invites: collection invitesC
  by unfold_locales (simp_all add: invitesC_def stored_def)
interpretation promoCodes: collection promoCodesC
  by unfold_locales (simp_all add: promoCodesC_def stored_def)
interpretation redemptions: collection redemptionsC
  by unfold_locales (simp_all add: redemptionsC_def stored_def)
interpretation locks: collection locksC
  by unfold_locales (simp_all add: locksC_def stored_def)

section \<open>Ids sort by creation\<close>

lemma hexDigit_less: "0 \<le> a \<Longrightarrow> a < b \<Longrightarrow> b < 16 \<Longrightarrow> hexDigit a < hexDigit b"
proof -
  have "\<forall>a\<in>set [0..15]. \<forall>b\<in>set [0..15]. a < b \<longrightarrow> hexDigit a < hexDigit b" by code_simp
  then show "0 \<le> a \<Longrightarrow> a < b \<Longrightarrow> b < 16 \<Longrightarrow> hexDigit a < hexDigit b" by force
qed

lemma hexByte_less:
  assumes "0 \<le> a" "a < b" "b < 256"
  shows "hexByte a @ x < hexByte b @ y"
proof (cases "a div 16 = b div 16")
  case True
  then have "a mod 16 < b mod 16" using assms by (smt (verit) mult_div_mod_eq)
  then have "hexDigit (a mod 16) < hexDigit (b mod 16)" by (intro hexDigit_less) auto
  then show ?thesis using True by (simp add: hexByte_def)
next
  case False
  then have "hexDigit (a div 16) < hexDigit (b div 16)" using assms by (intro hexDigit_less) auto
  then show ?thesis by (simp add: hexByte_def)
qed

lemma encodeHex_less:
  assumes "length as = length bs" "as < bs" "set (as @ bs) \<subseteq> {0..<256}"
  shows "encodeHex as < encodeHex bs"
  using assms
proof (induction as bs rule: list_induct2)
  case (Cons a as b bs)
  then show ?case using hexByte_less [of a b "encodeHex as" "encodeHex bs"]
    by (auto simp: encodeHex_def hexByte_def)
qed simp

lemma length_bigEndian [simp]: "length (bigEndian k n) = k"
  by (induction k) auto

lemma set_bigEndian: "set (bigEndian k n) \<subseteq> {0..<256}"
  by (induction k) auto

lemma mod_Suc_split: "(n::int) mod 256 ^ Suc k = 256 ^ k * (n div 256 ^ k mod 256) + n mod 256 ^ k"
  using zmod_zmult2_eq [of 256 n "256 ^ k"] by (simp add: mult.commute)

lemma bigEndian_cong: "n mod 256 ^ k = m mod 256 ^ k \<Longrightarrow> bigEndian k n = bigEndian k m"
proof (induction k)
  case (Suc k)
  have "n mod 256 ^ k = m mod 256 ^ k"
    using Suc.prems mod_mod_cancel [of "256 ^ k" "256 ^ Suc k" n] mod_mod_cancel [of "256 ^ k" "256 ^ Suc k" m]
    by (simp add: le_imp_power_dvd)
  then show ?case using Suc mod_Suc_split [of n k] mod_Suc_split [of m k] by simp
qed simp

lemma bigEndian_less: "n mod 256 ^ k < m mod 256 ^ k \<Longrightarrow> bigEndian k n < bigEndian k m"
proof (induction k)
  case (Suc k)
  let ?a = "n div 256 ^ k mod 256" and ?b = "m div 256 ^ k mod 256"
  have lt: "256 ^ k * ?a + n mod 256 ^ k < 256 ^ k * ?b + m mod 256 ^ k"
    using Suc.prems mod_Suc_split [of n k] mod_Suc_split [of m k] by simp
  have nm: "0 \<le> n mod 256 ^ k" "m mod 256 ^ k < 256 ^ k" by simp_all
  have "?a \<le> ?b"
  proof (rule ccontr)
    assume "\<not> ?a \<le> ?b"
    then have "256 ^ k * (?b + 1) \<le> (256::int) ^ k * ?a" by (intro mult_left_mono) auto
    then show False using lt nm by (simp add: distrib_left)
  qed
  then show ?case using lt Suc.IH by auto
qed simp

lemma append_less: "length xs = length ys \<Longrightarrow> xs < ys \<Longrightarrow> xs @ u < ys @ v"
  for xs ys :: "int list"
  by (induction xs ys rule: list_induct2) auto

lemma append_less_right: "u < v \<Longrightarrow> xs @ u < xs @ v" for xs :: "int list"
  by (induction xs) auto

lemma idBytes_less:
  assumes "0 \<le> s" "s \<le> s'" "s' < 2 ^ 32" "0 \<le> n" "n < n'" "n' < 2 ^ 24"
  shows "idBytes s r n < idBytes s' r n'"
proof (cases "s = s'")
  case True
  have "bigEndian 3 n < bigEndian 3 n'" using assms by (intro bigEndian_less) simp
  then show ?thesis using True by (simp add: idBytes_def append_less_right)
next
  case False
  then have "bigEndian 4 s < bigEndian 4 s'" using assms by (intro bigEndian_less) simp
  then show ?thesis unfolding idBytes_def by (intro append_less) simp
qed

lemma length_encodeHex: "length (encodeHex bs) = 2 * length bs"
  by (induction bs) (auto simp: encodeHex_def hexByte_def)

lemma NewID_run:
  "NewID w = (Inr i, w') \<longleftrightarrow> (\<exists>w1. timeNow w = (Inr (w_time w1), w1) \<and>
     w' = w1 \<lparr> w_idCounter := (w_idCounter w + 1) mod 2 ^ 64 \<rparr> \<and> w_idProcRand w1 = w_idProcRand w \<and>
     i = encodeHex (idBytes (unixSeconds (w_time w1)) (w_idProcRand w) ((w_idCounter w + 1) mod 2 ^ 64)))"
  by (auto simp: NewID_def svc_simps Let_def timeNow_def split: list.splits)

lemma NewID_nonempty: "NewID w = (Inr i, w') \<Longrightarrow> i \<noteq> []"
proof
  assume "NewID w = (Inr i, w')" and "i = []"
  then obtain bs n where "[] = encodeHex (idBytes bs (w_idProcRand w) n)" by (auto simp: NewID_run)
  then have "length (encodeHex (idBytes bs (w_idProcRand w) n)) = 0" by (metis list.size(3))
  then show False by (simp add: idBytes_def length_encodeHex)
qed

lemma dbInsertOne_nonempty: "dbInsertOne c d w = (Inr i, w') \<Longrightarrow> i \<noteq> []"
  by (auto simp: dbInsertOne_def svc_simps storeInsertOne_def Let_def dest!: NewID_nonempty
      split: if_splits elim!: db_Inr)

text \<open>
  C25. Ids minted by one process sort in the order they were minted: an id has 24 characters, and
  an id minted later (the clock has not gone back, the three counter bytes have not wrapped and
  the seconds fit in four bytes) is greater in the order the keyset paging and the consumption
  order of the credits rely on.
\<close>

theorem new_ids_increase:
  assumes "NewID w = (Inr i, w1)" and "NewID w2 = (Inr j, w3)"
    and "w_time w1 \<le> w_time w2" and "w_idCounter w1 \<le> w_idCounter w2" and "w_idProcRand w2 = w_idProcRand w"
    and "length (w_idProcRand w) = 5" and "set (w_idProcRand w) \<subseteq> {0..<256}"
    and "0 \<le> unixSeconds (w_time w)" and "unixSeconds (w_time w3) < 2 ^ 32"
    and "0 \<le> w_idCounter w" and "w_idCounter w2 + 1 < 2 ^ 24"
  shows "length i = 24 \<and> length j = 24 \<and> i < j"
proof -
  from assms(1) obtain v where v: "timeNow w = (Inr (w_time v), v)" "w1 = v \<lparr> w_idCounter := (w_idCounter w + 1) mod 2 ^ 64 \<rparr>"
    and i: "i = encodeHex (idBytes (unixSeconds (w_time v)) (w_idProcRand w) ((w_idCounter w + 1) mod 2 ^ 64))"
    by (auto simp: NewID_run)
  from assms(2) obtain u where u: "timeNow w2 = (Inr (w_time u), u)" "w3 = u \<lparr> w_idCounter := (w_idCounter w2 + 1) mod 2 ^ 64 \<rparr>"
    and j: "j = encodeHex (idBytes (unixSeconds (w_time u)) (w_idProcRand w) ((w_idCounter w2 + 1) mod 2 ^ 64))"
    using assms(5) by (auto simp: NewID_run)
  let ?n = "(w_idCounter w + 1) mod 2 ^ 64" and ?m = "(w_idCounter w2 + 1) mod 2 ^ 64"
  have time: "w_time w \<le> w_time v" "w_time v \<le> w_time u" using timeNow_run [OF v(1)] timeNow_run [OF u(1)] assms(3) v(2) by auto
  then have secs: "unixSeconds (w_time w) \<le> unixSeconds (w_time v)" "unixSeconds (w_time v) \<le> unixSeconds (w_time u)"
    by (simp_all add: unixSeconds_def zdiv_mono1)
  have n: "0 \<le> ?n" "?n \<le> w_idCounter w2" using assms(4) v(2) by simp_all
  have m: "?m = w_idCounter w2 + 1" using n assms(11) by (intro mod_pos_pos_trivial) auto
  have less: "idBytes (unixSeconds (w_time v)) (w_idProcRand w) ?n < idBytes (unixSeconds (w_time u)) (w_idProcRand w) ?m"
    using secs assms(8,9,11) u(2) n m by (intro idBytes_less) auto
  have bytes: "set (idBytes s (w_idProcRand w) k) \<subseteq> {0..<256}" for s k
    using assms(7) set_bigEndian [of 4 s] set_bigEndian [of 3 k] by (auto simp: idBytes_def)
  have "i < j" unfolding i j
    by (rule encodeHex_less [OF _ less]) (use bytes in \<open>auto simp: idBytes_def\<close>)
  moreover have "length i = 24" "length j = 24" unfolding i j by (simp_all add: length_encodeHex idBytes_def assms(6))
  ultimately show ?thesis by simp
qed

definition ex_world :: world where
  "ex_world = \<lparr> w_time = 63900000000000000000, w_ticks = [5, 7], w_faults = [], w_idProcRand = [1, 2, 3, 250, 5],
     w_idCounter = 4095, w_ensureBills = None, w_ensureCloud = None, w_profiles = [], w_configs = [], w_bills = [], w_acctCredits = [], w_promoCredit = [],
     w_savingCtrs = [], w_priceAdjust = [], w_suspensions = [], w_pricePlans = [], w_pricePlanRules = [],
     w_taxRates = [], w_projects = [], w_orgs = [], w_extServices = [], w_cloudResources = [], w_history = [],
     w_metrics = [], w_collects = [], w_credits = [], w_cards = [], w_gateways = [], w_bankXfers = [],
     w_cardTxns = [], w_orders = [], w_savingPlans = [],
     w_reminders = [], w_users = [], w_members = [], w_roles = [], w_platformConfigs = [], w_invites = [],
     w_promoCodes = [], w_redemptions = [], w_locks = [], w_log = [] \<rparr>"

theorem new_ids_increase_witness:
  "\<exists>i j w1 w3. NewID ex_world = (Inr i, w1) \<and> NewID w1 = (Inr j, w3) \<and> i < j"
proof -
  let ?w1 = "snd (NewID ex_world)" and ?i = "''692aa800010203fa05001000''" and ?j = "''692aa800010203fa05001001''"
  have i: "fst (NewID ex_world) = Inr ?i" by code_simp
  have j: "fst (NewID ?w1) = Inr ?j" by code_simp
  have "length (w_idProcRand ex_world) = 5" "set (w_idProcRand ex_world) \<subseteq> {0..<256}"
    "0 \<le> unixSeconds (w_time ex_world)" "0 \<le> w_idCounter ex_world"
    by (simp_all add: ex_world_def unixSeconds_def)
  moreover have "w_idProcRand ?w1 = w_idProcRand ex_world" "unixSeconds (w_time (snd (NewID ?w1))) < 2 ^ 32"
    "w_idCounter ?w1 + 1 < 2 ^ 24"
    by (simp_all add: NewID_def bnd_def timeNow_def ex_world_def Let_def unixSeconds_def)
  ultimately have "?i < ?j" using i j new_ids_increase [of ex_world ?i ?w1 ?w1 ?j "snd (NewID ?w1)"] by (simp add: prod_eq_iff)
  then show ?thesis using i j by (metis prod.collapse)
qed

end
