(* ===== verification/Bill_Repo.thy ===== *)
theory Bill_Repo
  imports Service_World Bill_Build
begin

text \<open>
  \<open>pricing/billrepo.go\<close>: creating, leasing and saving the bill of the running cycle;
  \<open>pricing/charge.go\<close>: the charge of the resources of one profile and service onto that bill;
  \<open>pricing/apiadapter.go\<close>: the mapping of the wire resources. The lease of a bill is its
  \<open>lockedAt\<close>; it is compared with the wall clock, never with the charge instant.
\<close>

section \<open>The bill of the cycle\<close>

definition lockDuration :: duration where
  "lockDuration = minute"

definition currentOpen :: "string \<Rightarrow> time \<Rightarrow> Bill \<Rightarrow> bool" where
  "currentOpen bpID cycleStart b \<longleftrightarrow> bill_BillingProfileID b = bpID \<and> bill_Status b = BillOpen \<and>
     (case bill_BillingCycle b of None \<Rightarrow> False
      | Some cy \<Rightarrow> (case cycle_StartDate cy of None \<Rightarrow> False | Some s \<Rightarrow> cycleStart \<le> s))"

definition ExistsCurrentMonthBill :: "string \<Rightarrow> time \<Rightarrow> bool svc" where
  "ExistsCurrentMonthBill bpID cycleStart = dbExists billsC (currentOpen bpID cycleStart)"

definition freshBill :: "string \<Rightarrow> time \<Rightarrow> time \<Rightarrow> time \<Rightarrow> string \<Rightarrow> Bill" where
  "freshBill bpID cycleStart cycleEnd now currency =
    \<lparr> bill_ID = '''', bill_Status = BillOpen, bill_Items = [], bill_InvoiceCurrency = currency,
      bill_BillingProfileID = bpID,
      bill_BillingCycle = Some \<lparr> cycle_StartDate = Some cycleStart, cycle_EndDate = Some cycleEnd \<rparr>,
      bill_Adjustments = [], bill_AppliedAccountCredits = [], bill_AppliedPromotionalCredits = [],
      bill_CollectedAmounts = [], bill_DueAt = None, bill_SentAt = None, bill_LockedAt = Some now,
      bill_CreatedAt = Some now, bill_UpdatedAt = Some now \<rparr>"

definition CreateBill :: "string \<Rightarrow> time \<Rightarrow> time \<Rightarrow> time \<Rightarrow> string \<Rightarrow> Bill svc" where
  "CreateBill bpID cycleStart cycleEnd now currency =
    (let bill = freshBill bpID cycleStart cycleEnd now currency in
     bnd (dbInsertOne billsC bill) (\<lambda>i. ret (bill \<lparr> bill_ID := i \<rparr>)))"

text \<open>\<open>sync.Once\<close>: the outcome of the first creation of the table is kept for the process.\<close>

definition ensureBills :: "unit svc" where
  "ensureBills w = (case w_ensureBills w of
       Some r \<Rightarrow> (r, w)
     | None \<Rightarrow> (case dbStatement w of (r, w') \<Rightarrow> (r, w' \<lparr> w_ensureBills := Some r \<rparr>)))"

definition claimable :: "string \<Rightarrow> time \<Rightarrow> time \<Rightarrow> Bill \<Rightarrow> bool" where
  "claimable bpID cycleStart now b \<longleftrightarrow> currentOpen bpID cycleStart b \<and>
     (case bill_LockedAt b of None \<Rightarrow> False | Some l \<Rightarrow> l \<le> now)"

definition GetAndLockBill :: "string \<Rightarrow> time \<Rightarrow> time \<Rightarrow> Bill option svc" where
  "GetAndLockBill bpID cycleStart now =
    bnd ensureBills (\<lambda>_. withTx (
      bnd (dbFindOneForUpdate billsC (claimable bpID cycleStart now)) (\<lambda>r. case r of
          None \<Rightarrow> ret None
        | Some (i, b) \<Rightarrow>
            bnd (dbSetByID billsC i (\<lambda>d. d \<lparr> bill_LockedAt := Some (now + lockDuration) \<rparr>)) (\<lambda>_. ret (Some b)))))"

text \<open>The retry loop: each attempt looks one lease further into the future.\<close>

fun acquireBill :: "nat \<Rightarrow> string \<Rightarrow> time \<Rightarrow> time \<Rightarrow> Bill option svc" where
  "acquireBill 0 bpID cycleStart lockNow = ret None"
| "acquireBill (Suc n) bpID cycleStart lockNow =
    bnd (GetAndLockBill bpID cycleStart lockNow) (\<lambda>r. case r of
        Some b \<Rightarrow> ret (Some b)
      | None \<Rightarrow> acquireBill n bpID cycleStart (lockNow + lockDuration))"

definition GetCurrentBill :: "string \<Rightarrow> time \<Rightarrow> time \<Rightarrow> string \<Rightarrow> Bill svc" where
  "GetCurrentBill bpID cycleStart cycleEnd currency =
    bnd timeNow (\<lambda>lockNow.
    bnd (ExistsCurrentMonthBill bpID cycleStart) (\<lambda>found.
    bnd (if found then ret () else bnd (CreateBill bpID cycleStart cycleEnd lockNow currency) (\<lambda>_. ret ())) (\<lambda>_.
    bnd (acquireBill 5 bpID cycleStart lockNow) (\<lambda>r. case r of
        Some b \<Rightarrow> ret b
      | None \<Rightarrow> throw (Failure ''pricing: could not acquire bill lock'')))))"

definition SaveBill :: "Bill \<Rightarrow> Bill svc" where
  "SaveBill bill = bnd timeNow (\<lambda>now.
     let bill = bill \<lparr> bill_UpdatedAt := Some now \<rparr> in
     if bill_ID bill = '''' then bnd (dbInsertOne billsC bill) (\<lambda>i. ret (bill \<lparr> bill_ID := i \<rparr>))
     else bnd (dbReplace billsC (bill_ID bill) bill) (\<lambda>_. ret bill))"

section \<open>The charge\<close>

text \<open>
  \<open>adjust\<close> is the optional closure that runs on the bill after the rating loop. The engine
  reads its clock once per resource.
\<close>

definition chargeResource :: "declib \<Rightarrow> RatingContext \<Rightarrow> BillingContext \<Rightarrow> PricePlanRule list \<Rightarrow> BillingResource \<Rightarrow> Bill \<Rightarrow> Bill svc" where
  "chargeResource L rc bc rules res bill = bnd timeNow (\<lambda>t.
     bnd (liftR (ApplyPricePlanRules L t rules res (rc_TimeUnit rc))) (\<lambda>results.
     ret (SaveChargingToBill L rc bc bill res results (rc_CycleTimestamp rc))))"

definition ChargeBillingResources :: "declib \<Rightarrow> RatingContext \<Rightarrow> BillingContext \<Rightarrow> string \<Rightarrow> PricePlanRule list \<Rightarrow>
    BillingResource list \<Rightarrow> time \<Rightarrow> time \<Rightarrow> string \<Rightarrow> (Bill \<Rightarrow> Bill res) option \<Rightarrow> Bill svc" where
  "ChargeBillingResources L rc bc bpID rules resources cycleStart cycleEnd currency adjust =
    bnd (GetCurrentBill bpID cycleStart cycleEnd currency) (\<lambda>bill.
    bnd (forS (chargeResource L rc bc rules) resources bill) (\<lambda>bill.
    bnd (case adjust of None \<Rightarrow> ret bill | Some f \<Rightarrow> liftR (f bill)) SaveBill))"

section \<open>The wire adapter\<close>

record APIResourceAttribute =
  api_ra_Type :: string
  api_ra_Name :: string
  api_ra_IsUsage :: "bool option"

record APIBillingResourceType =
  api_brt_ResourceType :: string
  api_brt_Attributes :: "APIResourceAttribute list"

record APIBillingResource =
  api_br_ResourceID :: string
  api_br_ProjectID :: string
  api_br_ResourceType :: string
  api_br_CreatedAt :: "time option"
  api_br_DeletedAt :: "time option"
  api_br_DisplayPrice :: bool
  api_br_Values :: attrs
  api_br_NotEligibleForBilling :: bool
  api_br_BillingResourceType :: "APIBillingResourceType option"

record APIBillingContext =
  api_bc_TimeUnitLimits :: "(string \<times> int) list"

definition FromAPIResourceType :: "APIBillingResourceType option \<Rightarrow> BillingResourceType option" where
  "FromAPIResourceType inp = (case inp of None \<Rightarrow> None
     | Some t \<Rightarrow> Some \<lparr> brt_ResourceType = api_brt_ResourceType t,
         brt_Attributes = map (\<lambda>a. \<lparr> ra_Type = api_ra_Type a, ra_Name = api_ra_Name a, ra_IsUsage = api_ra_IsUsage a \<rparr>)
           (api_brt_Attributes t) \<rparr>)"

definition FromAPIResource :: "APIBillingResource option \<Rightarrow> BillingResource option" where
  "FromAPIResource inp = (case inp of None \<Rightarrow> None
     | Some r \<Rightarrow> Some \<lparr> br_ResourceID = api_br_ResourceID r, br_ProjectID = api_br_ProjectID r,
         br_ResourceType = api_br_ResourceType r, br_CreatedAt = api_br_CreatedAt r, br_DeletedAt = api_br_DeletedAt r,
         br_DisplayPrice = api_br_DisplayPrice r, br_Values = api_br_Values r,
         br_NotEligibleForBilling = api_br_NotEligibleForBilling r,
         br_BillingResourceType = FromAPIResourceType (api_br_BillingResourceType r) \<rparr>)"

definition FromAPIResources :: "APIBillingResource option list \<Rightarrow> BillingResource list" where
  "FromAPIResources inp = List.map_filter FromAPIResource inp"

definition FromAPIResourceTypes :: "APIBillingResourceType option list \<Rightarrow> BillingResourceType list" where
  "FromAPIResourceTypes inp = List.map_filter FromAPIResourceType inp"

definition FromAPIBillingContext :: "APIBillingContext \<Rightarrow> BillingContext" where
  "FromAPIBillingContext c = \<lparr> bc_TimeUnitLimits = api_bc_TimeUnitLimits c \<rparr>"

definition ToAPIBillingContext :: "BillingContext \<Rightarrow> APIBillingContext" where
  "ToAPIBillingContext c = \<lparr> api_bc_TimeUnitLimits = bc_TimeUnitLimits c \<rparr>"

section \<open>Leasing a bill\<close>

lemma quiet_ensureBills [quiet_intros]: "quiet ensureBills"
  by (rule quietI) (auto simp: ensureBills_def split: option.splits prod.splits dest: dbStatement_run)

lemma ensureBills_time: "ensureBills w = (r, w') \<Longrightarrow> w_time w' = w_time w"
  by (auto simp: ensureBills_def split: option.splits prod.splits dest: dbStatement_run)

definition lease :: "time \<Rightarrow> Bill \<Rightarrow> Bill" where
  "lease l b = b \<lparr> bill_LockedAt := Some l \<rparr>"

lemma GetAndLockBill_run:
  assumes "GetAndLockBill bpID cycleStart t w = (Inr r, w')"
  shows "r = map_option snd (storeFindOne (claimable bpID cycleStart t) (view billsC w))"
    and "view billsC w' = (case storeFindOne (claimable bpID cycleStart t) (view billsC w) of
        None \<Rightarrow> view billsC w | Some (i, b) \<Rightarrow> replaceRow i (lease (t + lockDuration)) (view billsC w))"
    and "\<exists>f. stored w' = w_bills_update f (stored w)"
proof -
  let ?P = "claimable bpID cycleStart t" and ?set = "\<lambda>d. d \<lparr> bill_LockedAt := Some (t + lockDuration) \<rparr>"
  let ?body = "bnd (dbFindOneForUpdate billsC ?P) (\<lambda>r. case r of None \<Rightarrow> ret None
    | Some (i, b) \<Rightarrow> bnd (dbSetByID billsC i ?set) (\<lambda>_. ret (Some b)))"
  from assms obtain w0 where "ensureBills w = (Inr (), w0)" and tx: "withTx ?body w0 = (Inr r, w')"
    by (auto simp: GetAndLockBill_def bnd_Inr [of ensureBills])
  then have s0: "stored w0 = stored w" using quietD [OF quiet_ensureBills] by blast
  from tx obtain w1 w2 where w1: "stored w1 = stored w0" and body: "?body w1 = (Inr r, w2)" and w': "stored w' = stored w2"
    by (rule withTx_Inr)
  have v1: "view billsC w1 = view billsC w" using s0 w1 by (intro bills.view_stored) simp
  have v': "view billsC w' = view billsC w2" by (rule bills.view_stored [OF w'])
  from body obtain x w3 where x: "dbFindOneForUpdate billsC ?P w1 = (Inr x, w3)"
    and rest: "(case x of None \<Rightarrow> ret None | Some (i, b) \<Rightarrow> bnd (dbSetByID billsC i ?set) (\<lambda>_. ret (Some b))) w3 = (Inr r, w2)"
    by (auto simp: bnd_Inr)
  note x = bills.find_for_update_run [OF x]
  have v3: "view billsC w3 = view billsC w" using x s0 w1 by (intro bills.view_stored) simp
  show "r = map_option snd (storeFindOne ?P (view billsC w))"
    using x rest v1 by (auto simp: svc_simps split: option.splits prod.splits)
  have "view billsC w' = (case x of None \<Rightarrow> view billsC w | Some (i, b) \<Rightarrow> replaceRow i (lease (t + lockDuration)) (view billsC w))
    \<and> (\<exists>f. stored w' = w_bills_update f (stored w))"
  proof (cases x)
    case None
    then have "w2 = w3" using rest by (simp add: svc_simps)
    then have "stored w' = stored w" using w' x w1 s0 by simp
    then have "stored w' = w_bills_update (\<lambda>b. b) (stored w)" by simp
    then show ?thesis using None v' v3 \<open>w2 = w3\<close> by auto
  next
    case (Some p)
    obtain i b where p: "p = (i, b)" by (cases p)
    then obtain b' where set: "dbSetByID billsC i ?set w3 = (Inr b', w2)" using rest Some by (auto simp: svc_simps)
    have "view billsC w2 = replaceRow i ?set (view billsC w3)"
      by (rule bills.set_by_id_run(3) [OF set]) (simp add: billsC_def)
    moreover have "stored w2 = w_bills_update (replaceRow i ?set) (stored w3)"
      using bills.set_by_id_run(1) [OF set] by (simp add: billsC_def)
    moreover have "?set = lease (t + lockDuration)" by (rule ext) (simp add: lease_def)
    ultimately show ?thesis using Some p v' v3 w' x w1 s0 by auto
  qed
  then show "view billsC w' = (case storeFindOne ?P (view billsC w) of
      None \<Rightarrow> view billsC w | Some (i, b) \<Rightarrow> replaceRow i (lease (t + lockDuration)) (view billsC w))"
    and "\<exists>f. stored w' = w_bills_update f (stored w)"
    using x v1 by simp_all
qed

text \<open>Two worlds that differ at most in their bills.\<close>

definition only_bills :: "world \<Rightarrow> world \<Rightarrow> bool" where
  "only_bills w w' \<longleftrightarrow> w_bills_update (\<lambda>_. []) (stored w') = w_bills_update (\<lambda>_. []) (stored w)"

lemma only_billsI: "stored w' = w_bills_update f (stored w) \<Longrightarrow> only_bills w w'"
  by (simp add: only_bills_def)

lemma only_bills_trans: "only_bills w w1 \<Longrightarrow> only_bills w1 w' \<Longrightarrow> only_bills w w'"
  by (simp add: only_bills_def)

lemma only_bills_stored: "stored w' = stored w \<Longrightarrow> only_bills w w'"
  by (simp add: only_bills_def)

lemma currentOpen_lease [simp]: "currentOpen bpID cs (lease l b) = currentOpen bpID cs b"
  by (simp add: currentOpen_def lease_def)

lemma acquireBill_run:
  assumes "acquireBill n bpID cs t w = (Inr r, w')"
  shows "only_bills w w' \<and> (case r of
      None \<Rightarrow> view billsC w' = view billsC w \<and> (\<forall>k<n. \<not> storeExists (claimable bpID cs (t + int k * lockDuration)) (view billsC w))
    | Some b \<Rightarrow> \<exists>i l. t \<le> l \<and> storeFindOne (claimable bpID cs l) (view billsC w) = Some (i, b) \<and>
        view billsC w' = replaceRow i (lease (l + lockDuration)) (view billsC w))"
  using assms
proof (induction n arbitrary: t w)
  case 0
  then show ?case by (simp add: svc_simps only_bills_stored)
next
  case (Suc n)
  from Suc.prems obtain x w1 where x: "GetAndLockBill bpID cs t w = (Inr x, w1)"
    and rest: "(case x of Some b \<Rightarrow> ret (Some b) | None \<Rightarrow> acquireBill n bpID cs (t + lockDuration)) w1 = (Inr r, w')"
    by (auto simp: bnd_Inr)
  note run = GetAndLockBill_run [OF x]
  have only: "only_bills w w1" using run(3) only_billsI by blast
  show ?case
  proof (cases x)
    case None
    then have no: "storeFindOne (claimable bpID cs t) (view billsC w) = None" using run(1) by simp
    then have v1: "view billsC w1 = view billsC w" using run(2) by simp
    have "acquireBill n bpID cs (t + lockDuration) w1 = (Inr r, w')" using rest None by simp
    note IH = Suc.IH [OF this, unfolded v1]
    have "\<not> storeExists (claimable bpID cs (t + int k * lockDuration)) (view billsC w)"
      if "r = None" "k < Suc n" for k
    proof (cases k)
      case 0
      then show ?thesis using no by (simp add: storeFindOne_None)
    next
      case (Suc j)
      then show ?thesis using IH that by (simp add: algebra_simps)
    qed
    moreover have "only_bills w w'" using IH only only_bills_trans by blast
    moreover have "\<exists>i l. t \<le> l \<and> storeFindOne (claimable bpID cs l) (view billsC w) = Some (i, b) \<and>
        view billsC w' = replaceRow i (lease (l + lockDuration)) (view billsC w)" if r: "r = Some b" for b
    proof -
      from IH r obtain i l where "t + lockDuration \<le> l" "storeFindOne (claimable bpID cs l) (view billsC w) = Some (i, b)"
        "view billsC w' = replaceRow i (lease (l + lockDuration)) (view billsC w)" by auto
      moreover from this(1) have "t \<le> l" by (simp add: lockDuration_def)
      ultimately show ?thesis by blast
    qed
    ultimately show ?thesis using IH by (cases r) simp_all
  next
    case (Some b)
    then obtain i where "storeFindOne (claimable bpID cs t) (view billsC w) = Some (i, b)" using run(1) by auto
    then show ?thesis using run(2) rest Some only by (auto simp: svc_simps intro!: exI [of _ i] exI [of _ t])
  qed
qed

lemma currentOpen_freshBill [simp]: "currentOpen bpID cs (freshBill bpID cs ce now cur \<lparr> bill_ID := i \<rparr>)"
  by (simp add: currentOpen_def freshBill_def)

lemma CreateBill_run:
  assumes "CreateBill bpID cs ce now cur w = (Inr b, w')"
  shows "view billsC w' = view billsC w @ [(bill_ID b, b)]" and "bill_ID b \<notin> fst ` set (view billsC w)"
    and "b = freshBill bpID cs ce now cur \<lparr> bill_ID := bill_ID b \<rparr>" and "only_bills w w'" and "bill_ID b \<noteq> []"
proof -
  from assms obtain i where ins: "dbInsertOne billsC (freshBill bpID cs ce now cur) w = (Inr i, w')"
    and b: "b = freshBill bpID cs ce now cur \<lparr> bill_ID := i \<rparr>"
    by (auto simp: CreateBill_def svc_simps Let_def)
  show "view billsC w' = view billsC w @ [(bill_ID b, b)]" "bill_ID b \<notin> fst ` set (view billsC w)"
    using bills.insert_run [OF ins] by (simp_all add: b billsC_def)
  show "b = freshBill bpID cs ce now cur \<lparr> bill_ID := bill_ID b \<rparr>" by (simp add: b)
  show "only_bills w w'" using bills.insert_run(3) [OF ins] by (intro only_billsI) (simp add: billsC_def)
  show "bill_ID b \<noteq> []" using dbInsertOne_nonempty [OF ins] by (simp add: b)
qed

text \<open>What the lease loop starts from: the bills, with a fresh one if none is open for the cycle.\<close>

lemma GetCurrentBill_run:
  assumes "GetCurrentBill bpID cs ce cur w = (Inr b, w')"
  obtains t l where "only_bills w w'"
    and "if storeExists (currentOpen bpID cs) (view billsC w) then t = view billsC w
         else \<exists>i now. i \<noteq> [] \<and> i \<notin> fst ` set (view billsC w) \<and> t = view billsC w @ [(i, freshBill bpID cs ce now cur \<lparr> bill_ID := i \<rparr>)]"
    and "(bill_ID b, b) \<in> set t" and "currentOpen bpID cs b" and "w_time w + lockDuration \<le> l"
    and "view billsC w' = replaceRow (bill_ID b) (lease l) t"
proof -
  let ?ex = "storeExists (currentOpen bpID cs) (view billsC w)"
  from assms obtain now w1 f w2 w3 where now: "timeNow w = (Inr now, w1)"
    and f: "ExistsCurrentMonthBill bpID cs w1 = (Inr f, w2)"
    and cr: "(if f then ret () else bnd (CreateBill bpID cs ce now cur) (\<lambda>_. ret ())) w2 = (Inr (), w3)"
    and acq: "acquireBill 5 bpID cs now w3 = (Inr (Some b), w')"
    unfolding GetCurrentBill_def by (auto simp: svc_simps simp del: acquireBill.simps split: option.splits)
  have w1: "w_time w \<le> now" "stored w1 = stored w" using timeNow_run [OF now] by auto
  have f': "f = storeExists (currentOpen bpID cs) (view billsC w1)" "stored w2 = stored w1"
    using bills.exists_run [OF f [unfolded ExistsCurrentMonthBill_def]] by auto
  have v2: "view billsC w2 = view billsC w" and v1: "view billsC w1 = view billsC w"
    using w1 f' by (auto intro: bills.view_stored)
  let ?t = "if ?ex then view billsC w3 = view billsC w
    else \<exists>i now. i \<noteq> [] \<and> i \<notin> fst ` set (view billsC w) \<and> view billsC w3 = view billsC w @ [(i, freshBill bpID cs ce now cur \<lparr> bill_ID := i \<rparr>)]"
  have t: "?t \<and> only_bills w2 w3"
  proof (cases f)
    case True
    then have "w3 = w2" using cr by (simp add: svc_simps)
    then show ?thesis using True f' v1 v2 by (simp add: only_bills_stored)
  next
    case False
    then obtain b where b: "CreateBill bpID cs ce now cur w2 = (Inr b, w3)" using cr by (auto simp: svc_simps)
    note run = CreateBill_run [OF b, unfolded v2]
    have "view billsC w3 = view billsC w @ [(bill_ID b, freshBill bpID cs ce now cur \<lparr> bill_ID := bill_ID b \<rparr>)]"
      using run(1) run(3) by simp
    then show ?thesis using run False f' v1 by auto
  qed
  have "only_bills w w2" using w1 f' by (intro only_bills_stored) simp
  moreover note acq = acquireBill_run [OF acq, simplified]
  ultimately have only: "only_bills w w'" using t only_bills_trans by blast
  from acq obtain i l where il: "now \<le> l" "storeFindOne (claimable bpID cs l) (view billsC w3) = Some (i, b)"
    "view billsC w' = replaceRow i (lease (l + lockDuration)) (view billsC w3)" by auto
  note found = storeFindOne_Some [OF il(2)]
  have "bill_ID b = i" using bills.view_ID [OF found(1)] by (simp add: billsC_def)
  then show ?thesis
    using that [of "view billsC w3" "l + lockDuration"] only t found il w1 by (simp add: claimable_def split: option.splits)
qed

lemma claimed_rows:
  assumes "if storeExists P v then t = v else \<exists>i now. i \<noteq> [] \<and> i \<notin> fst ` set v \<and> t = v @ [(i, F i now)]"
    and "distinct (map fst v)" and "(key, b) \<in> set t" and "v' = replaceRow key (lease l) t"
  shows "map_of v' key = Some (lease l b)"
    and "\<And>i d. i \<noteq> key \<Longrightarrow> map_of v i = Some d \<Longrightarrow> map_of v' i = Some d"
    and "\<And>i d. map_of v i = Some d \<Longrightarrow> \<exists>l. map_of v' i = Some (d \<lparr> bill_LockedAt := l \<rparr>)"
proof -
  have dt: "distinct (map fst t)" using assms(1,2) by (auto split: if_splits)
  obtain u where u: "t = v @ u" "fst ` set u \<inter> fst ` set v = {}" using assms(1) by (auto split: if_splits)
  have key: "map_of t key = Some b" using dt assms(3) by simp
  then show k: "map_of v' key = Some (lease l b)" by (simp add: assms(4) map_of_replaceRow)
  show other: "map_of v' i = Some d" if "i \<noteq> key" "map_of v i = Some d" for i d
    using map_of_append_fresh [OF u(2) that(2)] that(1) key by (simp add: assms(4) map_of_replaceRow u(1))
  show "\<exists>l. map_of v' i = Some (d \<lparr> bill_LockedAt := l \<rparr>)" if "map_of v i = Some d" for i d
  proof (cases "i = key")
    case True
    then have "d = b" using map_of_append_fresh [OF u(2) that] key u(1) by simp
    then show ?thesis using True k by (auto simp: lease_def)
  next
    case False
    have "d = d \<lparr> bill_LockedAt := bill_LockedAt d \<rparr>" by simp
    then show ?thesis using other [OF False that] by metis
  qed
qed

text \<open>
  C26. Claiming the bill of the cycle: the bill returned is open, belongs to the profile and to the
  cycle, and is leased for at least a minute from the call; every other bill and every other
  table is untouched. A bill is created only if none is open for the cycle, so a profile with
  at most one open bill per cycle never gets a second one.
\<close>

theorem current_bill_claimed:
  assumes "GetCurrentBill bpID cs ce cur w = (Inr b, w')" and "distinct (map fst (w_bills w))"
  shows "currentOpen bpID cs b \<and> only_bills w w' \<and>
    storeCount (currentOpen bpID cs) (view billsC w') = max 1 (storeCount (currentOpen bpID cs) (view billsC w)) \<and>
    (\<exists>l. w_time w + lockDuration \<le> l \<and> map_of (view billsC w') (bill_ID b) = Some (lease l b)) \<and>
    (\<forall>i d. i \<noteq> bill_ID b \<longrightarrow> map_of (view billsC w) i = Some d \<longrightarrow> map_of (view billsC w') i = Some d)"
proof (rule GetCurrentBill_run [OF assms(1)])
  fix t l
  let ?P = "currentOpen bpID cs" and ?v = "view billsC w"
  assume only: "only_bills w w'" and open': "?P b" and l: "w_time w + lockDuration \<le> l" and b: "(bill_ID b, b) \<in> set t"
    and v': "view billsC w' = replaceRow (bill_ID b) (lease l) t"
    and t: "if storeExists ?P ?v then t = ?v
         else \<exists>i now. i \<noteq> [] \<and> i \<notin> fst ` set ?v \<and> t = ?v @ [(i, freshBill bpID cs ce now cur \<lparr> bill_ID := i \<rparr>)]"
  have dv: "distinct (map fst ?v)" using assms(2) view_distinct [of billsC w] by (simp add: billsC_def)
  have "storeCount ?P t = max 1 (storeCount ?P ?v)"
  proof (cases "storeExists ?P ?v")
    case True
    then have "filter (\<lambda>r. ?P (snd r)) ?v \<noteq> []" by (auto simp: storeExists_def filter_empty_conv)
    then have "1 \<le> length (filter (\<lambda>r. ?P (snd r)) ?v)" by (simp add: Suc_leI)
    then show ?thesis using True t by (simp add: storeCount_def)
  next
    case False
    then have "filter (\<lambda>r. ?P (snd r)) ?v = []" by (auto simp: storeExists_def filter_empty_conv)
    then show ?thesis using False t by (auto simp: storeCount_def)
  qed
  moreover note claimed_rows [OF t dv b v']
  ultimately show ?thesis using only open' l v' by (auto simp: replaceRow_count)
qed

theorem current_bill_claimed_witness:
  "case GetCurrentBill ''bp'' 0 1 ''EUR'' ex_world of
     (Inl _, _) \<Rightarrow> False
   | (Inr b, w') \<Rightarrow> currentOpen ''bp'' 0 b \<and> storeCount (currentOpen ''bp'' 0) (view billsC w') = 1"
proof -
  have "case GetCurrentBill ''bp'' 0 1 ''EUR'' ex_world of (Inl _, _) \<Rightarrow> False | (Inr _, _) \<Rightarrow> True" by code_simp
  then obtain b w' where run: "GetCurrentBill ''bp'' 0 1 ''EUR'' ex_world = (Inr b, w')" by (auto split: prod.splits sum.splits)
  have "view billsC ex_world = []" "distinct (map fst (w_bills ex_world))" by (simp_all add: view_def billsC_def ex_world_def)
  then show ?thesis using run current_bill_claimed [OF run] by (simp add: storeCount_def)
qed

section \<open>Without faults the bill is acquired\<close>

definition calm :: "world \<Rightarrow> bool" where
  "calm w \<longleftrightarrow> w_faults w = [] \<and> (w_ensureBills w = None \<or> w_ensureBills w = Some (Inr ()))"

lemma GetAndLockBill_calm:
  assumes "calm w"
  obtains r w' where "GetAndLockBill bpID cs t w = (Inr r, w')" and "calm w'"
proof -
  obtain w1 where w1: "ensureBills w = (Inr (), w1)" "w_faults w1 = []" "w_ensureBills w1 = Some (Inr ())"
    using assms by (auto simp: calm_def ensureBills_def dbStatement_def db_no_fault)
  show ?thesis
    by (cases "storeFindOne (claimable bpID cs t) (view billsC w1)")
      (use w1 that in \<open>auto simp: GetAndLockBill_def bnd_def withTx_def txBody_def dbStatement_def db_no_fault
        dbFindOneForUpdate_def dbSetByID_def ret_def calm_def billsC_def split: prod.splits\<close>)
qed

lemma acquireBill_calm: "calm w \<Longrightarrow> \<exists>r w'. acquireBill n bpID cs t w = (Inr r, w')"
proof (induction n arbitrary: t w)
  case (Suc n)
  from Suc.prems obtain r w' where r: "GetAndLockBill bpID cs t w = (Inr r, w')" "calm w'" by (rule GetAndLockBill_calm)
  then show ?case using Suc.IH [of w' "t + lockDuration"] by (cases r) (auto simp: bnd_def ret_def)
qed (simp add: ret_def)

lemma timeNow_calm:
  assumes "calm w"
  obtains now w1 where "timeNow w = (Inr now, w1)" and "calm w1" and "stored w1 = stored w" and "w_time w \<le> now"
proof -
  obtain r w1 where r: "timeNow w = (r, w1)" by (cases "timeNow w")
  note run = timeNow_run [OF r]
  have "calm w1" using assms r by (auto simp: calm_def timeNow_def Let_def split: list.splits)
  then show ?thesis using that r run by metis
qed

lemma NewID_calm:
  assumes "calm w"
  obtains i w' where "NewID w = (Inr i, w')" and "calm w'"
proof -
  obtain now w1 where "timeNow w = (Inr now, w1)" "calm w1" using timeNow_calm [OF assms] by blast
  then show ?thesis using that by (simp add: NewID_def bnd_def Let_def calm_def)
qed

lemma CreateBill_calm:
  assumes "calm w" and "\<And>i w1. NewID w = (Inr i, w1) \<Longrightarrow> i \<notin> fst ` set (w_bills w)"
  obtains b w' where "CreateBill bpID cs ce now cur w = (Inr b, w')" and "calm w'"
proof -
  obtain i w1 where i: "NewID w = (Inr i, w1)" "calm w1" using NewID_calm [OF assms(1)] by blast
  have "stored w1 = stored w" using quietD [OF quiet_NewID] i(1) by blast
  then have "w_bills w1 = w_bills w" using bills.table_stored [of w1] bills.table_stored [of w] by (simp add: billsC_def)
  then have fresh: "i \<notin> fst ` set (w_bills w1)" using assms(2) i(1) by simp
  show ?thesis
    using that i fresh
    by (simp add: CreateBill_def dbInsertOne_def bnd_def billsC_def freshBill_def db_no_fault calm_def storeInsertOne_def
        Let_def ret_def)
qed



section \<open>Failed calls\<close>

lemma GetAndLockBill_Inl: "GetAndLockBill bpID cs t w = (Inl e, w') \<Longrightarrow> stored w' = stored w"
  unfolding GetAndLockBill_def bnd_Inl [of ensureBills]
  using quietD [OF quiet_ensureBills] by (auto dest!: withTx_Inl)

lemma acquireBill_Inl:
  "acquireBill n bpID cs t w = (Inl e, w') \<Longrightarrow> view billsC w' = view billsC w \<and> only_bills w w'"
proof (induction n arbitrary: t w)
  case (Suc n)
  from Suc.prems consider "GetAndLockBill bpID cs t w = (Inl e, w')"
    | w1 where "GetAndLockBill bpID cs t w = (Inr None, w1)" "acquireBill n bpID cs (t + lockDuration) w1 = (Inl e, w')"
    by (auto simp: bnd_Inl svc_simps split: option.splits)
  then show ?case
  proof cases
    case 1
    then have "stored w' = stored w" by (rule GetAndLockBill_Inl)
    then show ?thesis using bills.view_stored only_bills_stored by blast
  next
    case 2
    note run = GetAndLockBill_run [OF 2(1)]
    have "view billsC w1 = view billsC w" using run(1,2) by (simp split: option.splits)
    moreover have "only_bills w w1" using run(3) only_billsI by blast
    ultimately show ?thesis using Suc.IH [OF 2(2)] only_bills_trans by metis
  qed
qed (simp add: svc_simps)

lemma CreateBill_Inl: "CreateBill bpID cs ce now cur w = (Inl e, w') \<Longrightarrow> stored w' = stored w"
  by (auto simp: CreateBill_def Let_def bnd_Inl svc_simps dest: dbInsertOne_Inl)

lemma GetCurrentBill_Inl:
  assumes "GetCurrentBill bpID cs ce cur w = (Inl e, w')"
  shows "only_bills w w' \<and> (\<exists>u. view billsC w' = view billsC w @ u \<and> fst ` set u \<inter> fst ` set (view billsC w) = {} \<and>
    distinct (map fst u) \<and> [] \<notin> fst ` set u)"
proof -
  let ?fresh = "\<lambda>w1. \<exists>u. view billsC w1 = view billsC w @ u \<and> fst ` set u \<inter> fst ` set (view billsC w) = {} \<and>
    distinct (map fst u) \<and> [] \<notin> fst ` set u"
  let ?create = "\<lambda>f now. if f then ret () else bnd (CreateBill bpID cs ce now cur) (\<lambda>_. ret ())"
  have same: "only_bills w w1 \<and> ?fresh w1" if "stored w1 = stored w" for w1
    using bills.view_stored [OF that] only_bills_stored [OF that] by simp
  obtain now w1 where now: "timeNow w = (Inr now, w1)" "stored w1 = stored w" using timeNow_run by (metis prod.collapse)
  show ?thesis
  proof (cases "ExistsCurrentMonthBill bpID cs w1")
    case (Pair r w2)
    then have s2: "stored w2 = stored w"
      using quietD [OF quiet_reads(5)] now by (metis ExistsCurrentMonthBill_def)
    show ?thesis
    proof (cases r)
      case (Inl e')
      then show ?thesis using assms now Pair s2 same by (auto simp: GetCurrentBill_def bnd_def)
    next
      case (Inr f)
      obtain r3 w3 where c3: "?create f now w2 = (r3, w3)" by (cases "?create f now w2")
      have w3: "only_bills w w3 \<and> ?fresh w3"
      proof (cases "f \<or> (\<exists>e. r3 = Inl e)")
        case True
        then have "stored w3 = stored w2" using c3 by (auto simp: svc_simps bnd_Inl dest: CreateBill_Inl split: if_splits)
        then show ?thesis using s2 same by simp
      next
        case False
        then obtain b where b: "CreateBill bpID cs ce now cur w2 = (Inr b, w3)"
          using c3 by (cases r3) (auto simp: svc_simps)
        show ?thesis using CreateBill_run [OF b] bills.view_stored [OF s2] only_bills_stored [OF s2] only_bills_trans by auto
      qed
      show ?thesis
      proof (cases r3)
        case (Inl e')
        then show ?thesis using assms now Pair Inr c3 w3 by (simp add: GetCurrentBill_def bnd_def)
      next
        case (Inr u)
        obtain r4 w4 where c4: "acquireBill 5 bpID cs now w3 = (r4, w4)" by (cases "acquireBill 5 bpID cs now w3")
        have "w' = w4 \<and> (r4 = Inl e \<or> r4 = Inr None)"
          using assms now Pair \<open>r = Inr f\<close> c3 Inr c4
          by (cases r4) (simp_all add: GetCurrentBill_def bnd_def ret_def throw_def split: option.splits)
        then have "view billsC w' = view billsC w3 \<and> only_bills w3 w'"
          using c4 acquireBill_Inl [of 5 bpID cs now w3 e w4] acquireBill_run [of 5 bpID cs now w3 None w4] by auto
        then show ?thesis using w3 only_bills_trans [of w w3 w'] by simp
      qed
    qed
  qed
qed

section \<open>The charge of a profile\<close>

lemma quiet_chargeResource [quiet_intros]: "quiet (chargeResource L rc bc rules res bill)"
  unfolding chargeResource_def by (intro quiet_intros)

lemma SaveChargingToBill_ID [simp]: "bill_ID (SaveChargingToBill L rc bc bill res results t) = bill_ID bill"
  by (simp add: SaveChargingToBill_def Let_def)

text \<open>The bill after the rating loop, for given results of the engine.\<close>

definition charged :: "declib \<Rightarrow> RatingContext \<Rightarrow> BillingContext \<Rightarrow> (BillingResource \<times> PricePlanRuleResult list) list \<Rightarrow> Bill \<Rightarrow> Bill" where
  "charged L rc bc rs bill = fold (\<lambda>(res, results) b. SaveChargingToBill L rc bc b res results (rc_CycleTimestamp rc)) rs bill"

lemma charged_ID [simp]: "bill_ID (charged L rc bc rs bill) = bill_ID bill"
  by (induction rs arbitrary: bill) (auto simp: charged_def)

lemma chargeResource_run:
  "chargeResource L rc bc rules res bill w = (Inr bill', w') \<Longrightarrow>
    \<exists>t results. ApplyPricePlanRules L t rules res (rc_TimeUnit rc) = Inr results \<and>
      bill' = SaveChargingToBill L rc bc bill res results (rc_CycleTimestamp rc)"
  by (auto simp: chargeResource_def svc_simps) metis

lemma chargeLoop_run:
  assumes "forS (chargeResource L rc bc rules) resources bill w = (Inr bill', w')"
  shows "\<exists>rs. map fst rs = resources \<and> bill' = charged L rc bc rs bill \<and>
    (\<forall>(res, results)\<in>set rs. \<exists>t. ApplyPricePlanRules L t rules res (rc_TimeUnit rc) = Inr results)"
  using assms
proof (induction resources arbitrary: bill w)
  case Nil
  then show ?case by (auto simp: svc_simps charged_def)
next
  case (Cons res resources)
  from Cons.prems obtain t results w1 where r: "ApplyPricePlanRules L t rules res (rc_TimeUnit rc) = Inr results"
    and rest: "forS (chargeResource L rc bc rules) resources (SaveChargingToBill L rc bc bill res results (rc_CycleTimestamp rc)) w1 = (Inr bill', w')"
    by (auto simp: svc_simps dest!: chargeResource_run)
  from Cons.IH [OF rest] obtain rs where "map fst rs = resources"
    "bill' = charged L rc bc rs (SaveChargingToBill L rc bc bill res results (rc_CycleTimestamp rc))"
    "\<forall>(res, results)\<in>set rs. \<exists>t. ApplyPricePlanRules L t rules res (rc_TimeUnit rc) = Inr results" by blast
  then show ?case using r by (intro exI [of _ "(res, results) # rs"]) (auto simp: charged_def)
qed

lemma SaveBill_run:
  assumes "SaveBill b w = (Inr b', w')" and "bill_ID b \<noteq> []"
  shows "\<exists>now. b' = b \<lparr> bill_UpdatedAt := Some now \<rparr>"
    and "view billsC w' = replaceRow (bill_ID b) (\<lambda>_. b') (view billsC w)" and "only_bills w w'"
proof -
  from assms obtain now w1 x where now: "timeNow w = (Inr now, w1)" and b': "b' = b \<lparr> bill_UpdatedAt := Some now \<rparr>"
    and rep: "dbReplace billsC (bill_ID b) b' w1 = (Inr x, w')"
    by (auto simp: SaveBill_def svc_simps Let_def)
  have s1: "stored w1 = stored w" using timeNow_run [OF now] by simp
  show "\<exists>now. b' = b \<lparr> bill_UpdatedAt := Some now \<rparr>" using b' by blast
  show "view billsC w' = replaceRow (bill_ID b) (\<lambda>_. b') (view billsC w)"
    using bills.replace_run(1) [OF rep] bills.view_stored [OF s1] by (simp add: billsC_def b')
  show "only_bills w w'" using bills.replace_run(2) [OF rep] s1 by (intro only_billsI) (simp add: billsC_def)
qed

lemma SaveBill_Inl:
  assumes "SaveBill b w = (Inl e, w')"
  shows "stored w' = stored w"
proof -
  obtain now w1 where now: "timeNow w = (Inr now, w1)" "stored w1 = stored w" using timeNow_run by (metis prod.collapse)
  let ?b = "b \<lparr> bill_UpdatedAt := Some now \<rparr>"
  have "(let b = ?b in if bill_ID b = [] then bnd (dbInsertOne billsC b) (\<lambda>i. ret (b \<lparr> bill_ID := i \<rparr>))
      else bnd (dbReplace billsC (bill_ID b) b) (\<lambda>_. ret b)) w1 = (Inl e, w')"
    using assms unfolding SaveBill_def bnd_run [of timeNow, OF now(1)] .
  then have "stored w' = stored w1"
    by (cases "bill_ID b = []") (auto simp: Let_def bnd_Inl svc_simps dest: dbInsertOne_Inl failed_writes)
  then show ?thesis using now by simp
qed

definition rated :: "declib \<Rightarrow> RatingContext \<Rightarrow> PricePlanRule list \<Rightarrow> BillingResource list \<Rightarrow>
    (BillingResource \<times> PricePlanRuleResult list) list \<Rightarrow> bool" where
  "rated L rc rules resources rs \<longleftrightarrow> map fst rs = resources \<and>
     (\<forall>(res, results)\<in>set rs. \<exists>t. ApplyPricePlanRules L t rules res (rc_TimeUnit rc) = Inr results)"

definition adjusted :: "(Bill \<Rightarrow> Bill res) option \<Rightarrow> Bill \<Rightarrow> Bill \<Rightarrow> bool" where
  "adjusted adjust b b' \<longleftrightarrow> (case adjust of None \<Rightarrow> b' = b | Some f \<Rightarrow> f b = Inr b')"

lemma chargeRest_run:
  assumes run: "bnd (forS (chargeResource L rc bc rules) resources b) (\<lambda>b.
      bnd (case adjust of None \<Rightarrow> ret b | Some f \<Rightarrow> liftR (f b)) SaveBill) w1 = (r, w')"
    and adj: "\<And>f b b'. adjust = Some f \<Longrightarrow> f b = Inr b' \<Longrightarrow> bill_ID b' = bill_ID b"
    and ne: "bill_ID b \<noteq> []"
  shows "case r of Inl e \<Rightarrow> stored w' = stored w1
    | Inr bill \<Rightarrow> only_bills w1 w' \<and> view billsC w' = replaceRow (bill_ID b) (\<lambda>_. bill) (view billsC w1) \<and>
        (\<exists>rs b' now. rated L rc rules resources rs \<and> adjusted adjust (charged L rc bc rs b) b' \<and>
           bill = b' \<lparr> bill_UpdatedAt := Some now \<rparr>)"
proof -
  let ?loop = "forS (chargeResource L rc bc rules) resources b"
  let ?adj = "\<lambda>b. case adjust of None \<Rightarrow> ret b | Some f \<Rightarrow> liftR (f b)"
  obtain r2 w2 where loop: "?loop w1 = (r2, w2)" by (cases "?loop w1")
  have q2: "stored w2 = stored w1" by (rule quietD [of ?loop, OF _ loop]) (intro quiet_intros)
  show ?thesis
  proof (cases r2)
    case (Inl e)
    then have "r = Inl e" "w' = w2" using run loop by (simp_all add: bnd_def)
    then show ?thesis using q2 by simp
  next
    case (Inr b2)
    then obtain rs where rs: "b2 = charged L rc bc rs b" "rated L rc rules resources rs"
      using chargeLoop_run [of L rc bc rules resources b w1 b2 w2] loop by (auto simp: rated_def)
    obtain r3 where r3: "?adj b2 w2 = (r3, w2)" and adj3: "\<And>b3. r3 = Inr b3 \<Longrightarrow> adjusted adjust b2 b3"
      by (cases adjust) (auto simp: ret_def liftR_def adjusted_def)
    have save: "bnd (?adj b2) SaveBill w2 = (r, w')" using run loop Inr by (simp add: bnd_def)
    show ?thesis
    proof (cases r3)
      case (Inl e)
      then have "r = Inl e" "w' = w2" using save r3 by (simp_all add: bnd_def)
      then show ?thesis using q2 by simp
    next
      case (Inr b3)
      then have id: "bill_ID b3 = bill_ID b" using adj3 adj rs(1) by (auto simp: adjusted_def split: option.splits)
      have save: "SaveBill b3 w2 = (r, w')" using save r3 Inr by (simp add: bnd_def)
      show ?thesis
      proof (cases r)
        case (Inl e)
        then show ?thesis using SaveBill_Inl [of b3 w2 e w'] save q2 by simp
      next
        case R: (Inr bill)
        have "bill_ID b3 \<noteq> []" using id ne by simp
        note saved = SaveBill_run [OF save [unfolded R] this, unfolded id bills.view_stored [OF q2]]
        have "only_bills w1 w'" using saved(3) only_bills_stored [OF q2] only_bills_trans by blast
        then show ?thesis using R rs adj3 [OF Inr] saved(1,2) by auto
      qed
    qed
  qed
qed

text \<open>Whatever its outcome, a charge changes only rows that are open for the profile and the cycle.\<close>

definition bills_ok :: "world \<Rightarrow> bool" where
  "bills_ok w \<longleftrightarrow> distinct (map fst (view billsC w)) \<and> [] \<notin> fst ` set (view billsC w)"

lemma bills_ok_iff: "bills_ok w \<longleftrightarrow> distinct (map fst (w_bills w)) \<and> [] \<notin> fst ` set (w_bills w)"
  using view_distinct [of billsC w] bills.view_keys [of w] by (simp add: bills_ok_def billsC_def)

definition spares :: "(Bill \<Rightarrow> bool) \<Rightarrow> world \<Rightarrow> world \<Rightarrow> bool" where
  "spares P w w' \<longleftrightarrow> only_bills w w' \<and> (bills_ok w \<longrightarrow> bills_ok w' \<and>
     (\<forall>i d. map_of (view billsC w) i = Some d \<longrightarrow> \<not> P d \<longrightarrow> map_of (view billsC w') i = Some d))"

lemma spares_stored:
  assumes "stored w' = stored w" shows "spares P w w'"
  using bills.view_stored [OF assms] only_bills_stored [OF assms] by (simp add: spares_def bills_ok_def)

lemma spares_trans: "spares P w w1 \<Longrightarrow> spares P w1 w' \<Longrightarrow> spares P w w'"
  unfolding spares_def using only_bills_trans by blast

lemma spares_mono: "spares P w w' \<Longrightarrow> (\<And>d. P d \<Longrightarrow> Q d) \<Longrightarrow> spares Q w w'"
  unfolding spares_def by blast

lemma ChargeBillingResources_spares:
  assumes run: "ChargeBillingResources L rc bc bpID rules resources cs ce cur adjust w = (r, w')"
    and adj: "\<And>f b b'. adjust = Some f \<Longrightarrow> f b = Inr b' \<Longrightarrow> bill_ID b' = bill_ID b"
    and ok: "bills_ok w"
  shows "spares (currentOpen bpID cs) w w'"
proof (cases "GetCurrentBill bpID cs ce cur w")
  case (Pair r1 w1)
  have dv: "distinct (map fst (view billsC w))" "[] \<notin> fst ` set (view billsC w)" using ok by (simp_all add: bills_ok_def)
  show ?thesis
  proof (cases r1)
    case (Inl e)
    then have r: "w' = w1" using run Pair by (simp add: ChargeBillingResources_def bnd_def)
    then obtain u where u: "only_bills w w'" "view billsC w' = view billsC w @ u" "fst ` set u \<inter> fst ` set (view billsC w) = {}"
      "distinct (map fst u)" "[] \<notin> fst ` set u"
      using GetCurrentBill_Inl Pair Inl by blast
    then show ?thesis using dv map_of_append_fresh [OF u(3)] by (auto simp: spares_def bills_ok_def)
  next
    case (Inr b)
    with Pair have "GetCurrentBill bpID cs ce cur w = (Inr b, w1)" by simp
    then obtain t l where only: "only_bills w w1" and open': "currentOpen bpID cs b" and b: "(bill_ID b, b) \<in> set t"
      and v1: "view billsC w1 = replaceRow (bill_ID b) (lease l) t"
      and t: "if storeExists (currentOpen bpID cs) (view billsC w) then t = view billsC w
         else \<exists>i now. i \<noteq> [] \<and> i \<notin> fst ` set (view billsC w) \<and> t = view billsC w @ [(i, freshBill bpID cs ce now cur \<lparr> bill_ID := i \<rparr>)]"
      by (rule GetCurrentBill_run)
    note rows = claimed_rows [OF t dv(1) b v1]
    have t_ok: "distinct (map fst t)" "[] \<notin> fst ` set t" using t dv by (auto split: if_splits)
    have key: "d = b" if "map_of (view billsC w) (bill_ID b) = Some d" for d
    proof -
      have "map_of t (bill_ID b) = Some d" using t that by (auto split: if_splits simp: map_add_def dest: map_of_SomeD)
      moreover have "map_of t (bill_ID b) = Some b" using t_ok(1) b by simp
      ultimately show ?thesis by simp
    qed
    have ne: "bill_ID b \<noteq> []" using b t_ok(2) by force
    let ?rest = "\<lambda>b. bnd (forS (chargeResource L rc bc rules) resources b) (\<lambda>b.
      bnd (case adjust of None \<Rightarrow> ret b | Some f \<Rightarrow> liftR (f b)) SaveBill)"
    have "?rest b w1 = (r, w')" using run Pair Inr by (simp add: ChargeBillingResources_def bnd_def)
    note rest = chargeRest_run [OF this adj ne]
    have "only_bills w1 w' \<and> (\<exists>f. view billsC w' = replaceRow (bill_ID b) f (view billsC w1))"
    proof (cases r)
      case (Inl e)
      then have s: "stored w' = stored w1" using rest by simp
      have "replaceRow k (\<lambda>d. d) t = t" for k and t :: "Bill table" by (induction t) auto
      then have "view billsC w' = replaceRow (bill_ID b) (\<lambda>d. d) (view billsC w1)" using bills.view_stored [OF s] by simp
      then show ?thesis using only_bills_stored [OF s] by blast
    next
      case (Inr bill)
      then show ?thesis using rest by auto
    qed
    then obtain f where f: "only_bills w1 w'" "view billsC w' = replaceRow (bill_ID b) f (view billsC w1)" by blast
    have "map_of (view billsC w') i = Some d" if "map_of (view billsC w) i = Some d" "\<not> currentOpen bpID cs d" for i d
    proof -
      have i: "i \<noteq> bill_ID b" using key that open' by auto
      show ?thesis using rows(1) rows(2) [OF i that(1)] i by (simp add: f(2) map_of_replaceRow)
    qed
    moreover have "bills_ok w'" using t_ok by (simp add: bills_ok_def f(2) v1 replaceRow_keys replaceRow_key_set)
    moreover have "only_bills w w'" using only f(1) only_bills_trans by blast
    ultimately show ?thesis unfolding spares_def by blast
  qed
qed



end
