(* ===== verification/Billing_Repo.thy ===== *)
theory Billing_Repo
  imports Service_World Settlement Decimal_Reference
begin

text \<open>
  The repository of \<open>internal/platform/billing\<close> over the document tables (\<open>repo.go\<close>,
  \<open>credits.go\<close>, \<open>suspension_process.go\<close>, the credit insert of \<open>promotion.go\<close>), the balance
  reads (\<open>balance.go\<close>) and the mail hook (\<open>notify.go\<close>). An operation of the sources that returns
  \<open>(nil, nil)\<close> for an absent document returns \<open>None\<close> here. Of a mail only the template key and the
  recipient are kept; the template variables are not modelled.
\<close>

section \<open>The hooks\<close>

text \<open>Which of the optional collaborators are wired; a nil hook is never called.\<close>

record hooks =
  h_notifier :: bool
  h_audit :: bool
  h_clouds :: bool
  h_activateProjects :: bool
  h_reviewer :: bool

definition notify :: "hooks \<Rightarrow> string \<Rightarrow> string \<Rightarrow> unit svc" where
  "notify H key recipient = (if \<not> h_notifier H \<or> trimSpace recipient = '''' then ret () else emit (Mail key recipient))"

definition profileFullName :: "BillingProfile \<Rightarrow> string" where
  "profileFullName p = trimSpace (bp_FirstName p @ '' '' @ bp_LastName p)"

section \<open>Profiles and configuration\<close>

definition FindByID :: "string \<Rightarrow> BillingProfile option svc" where
  "FindByID i = dbGet profilesC i"

definition FindByStatus :: "string \<Rightarrow> BillingProfile list svc" where
  "FindByStatus status = dbFind profilesC (\<lambda>p. bp_Status p = status)"

definition AllBillingProfiles :: "BillingProfile list svc" where
  "AllBillingProfiles = dbFind profilesC (\<lambda>_. True)"

definition profileExists :: "string \<Rightarrow> bool svc" where
  "profileExists i = (if i = '''' then ret False else dbExists profilesC (\<lambda>p. bp_ID p = i))"

definition IsActive :: "string \<Rightarrow> bool svc" where
  "IsActive i = bnd (FindByID i) (\<lambda>p. ret (case p of None \<Rightarrow> False | Some bp \<Rightarrow> bp_Status bp = StatusActive))"

definition Configuration :: "(string \<times> bool option \<times> bool) svc" where
  "Configuration = bnd (dbFindOne configsC (\<lambda>_. True)) (\<lambda>r. ret (case r of None \<Rightarrow> ('''', None, False)
     | Some c \<Rightarrow> (conf_BaseCurrency c, conf_PromotionCodesEnabled c, True)))"

definition BaseCurrency :: "string svc" where
  "BaseCurrency = bnd Configuration (\<lambda>(bc, _, _). ret bc)"

text \<open>\<open>x, _ := r.BaseCurrency(ctx)\<close>: an error leaves the empty string.\<close>

definition baseCurrencyOrEmpty :: "string svc" where
  "baseCurrencyOrEmpty = bnd (attempt BaseCurrency) (\<lambda>r. ret (case r of Inl _ \<Rightarrow> '''' | Inr bc \<Rightarrow> bc))"

definition SuspensionConfiguration :: "BillingAutomaticSuspensionConfig option svc" where
  "SuspensionConfiguration = bnd (dbFindOne configsC (\<lambda>_. True)) (\<lambda>r. ret (case r of None \<Rightarrow> None | Some c \<Rightarrow> conf_SuspensionConfiguration c))"

definition autoActivationFlow :: "AutoActivationFlow option svc" where
  "autoActivationFlow = bnd (dbFindOne configsC (\<lambda>_. True)) (\<lambda>r. ret (case r of None \<Rightarrow> None | Some c \<Rightarrow> conf_AutoActivationFlow c))"

definition ProvisioningPromotionals :: "ProvisioningPromotional list svc" where
  "ProvisioningPromotionals = bnd (dbFindOne configsC (\<lambda>_. True)) (\<lambda>r. ret (case r of None \<Rightarrow> [] | Some c \<Rightarrow> conf_Promotionals c))"

definition Update :: "BillingProfile \<Rightarrow> BillingProfile svc" where
  "Update bp = bnd timeNow (\<lambda>now. let bp = bp \<lparr> bp_UpdatedAt := Some now \<rparr> in
     bnd (dbReplace profilesC (bp_ID bp) bp) (\<lambda>_. ret bp))"

definition DeleteProfile :: "string \<Rightarrow> unit svc" where
  "DeleteProfile i = bnd (dbDeleteByID profilesC i) (\<lambda>_. ret ())"

definition newProfile :: "string \<Rightarrow> Owner \<Rightarrow> string \<Rightarrow> time \<Rightarrow> BillingProfile" where
  "newProfile orgID owner currency now = \<lparr> bp_ID = '''', bp_OrganizationID = orgID, bp_Sub = '''', bp_AffiliateID = '''',
     bp_Status = StatusNew, bp_Email = owner_Email owner, bp_FirstName = owner_FirstName owner, bp_LastName = owner_LastName owner,
     bp_Currency = currency, bp_Company = False, bp_CompanyName = '''', bp_VatCode = '''', bp_TaxPayer = False, bp_Address = '''',
     bp_City = '''', bp_County = '''', bp_Country = '''', bp_ZipCode = '''', bp_Phone = '''', bp_IdentityValidationID = '''',
     bp_DefaultCardID = '''', bp_ProjectProvisioningQuota = None, bp_OverwriteSuspension = False, bp_SuspensionConfiguration = None,
     bp_Reseller = None, bp_Contacts = [\<lparr> contact_Name = owner_FullName owner, contact_Email = owner_Email owner \<rparr>],
     bp_PricePlanConfig = Some \<lparr> ppc_PricePlanIDs = [], ppc_IncludePublicPricePlans = True \<rparr>, bp_CustomInfo = [],
     bp_Verifications = [], bp_ActivationConstraints = [], bp_CreatedAt = Some now, bp_UpdatedAt = Some now, bp_ActivatedAt = None \<rparr>"

definition CreateForOrganization :: "string \<Rightarrow> Owner \<Rightarrow> string svc" where
  "CreateForOrganization orgID owner = bnd timeNow (\<lambda>now. bnd baseCurrencyOrEmpty (\<lambda>currency.
     dbInsertOne profilesC (newProfile orgID owner currency now)))"

section \<open>Bills, credits, contracts\<close>

definition BillsByBillingProfile :: "string \<Rightarrow> Bill list svc" where
  "BillsByBillingProfile bpID = dbFind billsC (\<lambda>b. bill_BillingProfileID b = bpID)"

definition SentBills :: "string \<Rightarrow> Bill list svc" where
  "SentBills bpID = dbFind billsC (\<lambda>b. bill_BillingProfileID b = bpID \<and> bill_Status b = BillSent)"

definition AllBills :: "Bill list svc" where
  "AllBills = dbFind billsC (\<lambda>_. True)"

definition CountSentBills :: "string \<Rightarrow> int svc" where
  "CountSentBills bpID = db (\<lambda>w. (Inr (storeCount (\<lambda>b. bill_BillingProfileID b = bpID \<and> bill_Status b = BillSent) (view billsC w)), w))"

definition HasOverdueBills :: "string \<Rightarrow> bool svc" where
  "HasOverdueBills bpID = bnd timeNow (\<lambda>now. let cutoff = addDate now 0 0 (- 3) in
     dbExists billsC (\<lambda>b. bill_BillingProfileID b = bpID \<and> bill_Status b = BillSent \<and>
       (case bill_SentAt b of None \<Rightarrow> False | Some s \<Rightarrow> s < cutoff)))"

definition DeleteBill :: "string \<Rightarrow> unit svc" where
  "DeleteBill i = bnd (dbDeleteByID billsC i) (\<lambda>_. ret ())"

definition BillByID :: "string \<Rightarrow> Bill option svc" where
  "BillByID i = dbGet billsC i"

definition replaceByID :: "'d coll \<Rightarrow> string \<Rightarrow> 'd \<Rightarrow> unit svc" where
  "replaceByID c i d = (if i = '''' then throw (Failure ''billing: save requires an id'')
     else bnd (dbReplace c i d) (\<lambda>_. ret ()))"

definition SaveBillDoc :: "Bill \<Rightarrow> unit svc" where
  "SaveBillDoc bill = replaceByID billsC (bill_ID bill) bill"

definition AccountCreditsByProfile :: "string \<Rightarrow> AccountCredit list svc" where
  "AccountCreditsByProfile bpID = dbFindByID acctCreditsC (\<lambda>c. ac_BillingProfileID c = bpID)"

definition notExpired :: "string \<Rightarrow> time \<Rightarrow> PromotionalCredit \<Rightarrow> bool" where
  "notExpired bpID now c \<longleftrightarrow> pc_BillingProfileID c = bpID \<and> (case pc_ExpirationDate c of None \<Rightarrow> False | Some e \<Rightarrow> e > now)"

definition PromotionalCreditCandidates :: "declib \<Rightarrow> string \<Rightarrow> time \<Rightarrow> PromotionalCredit list svc" where
  "PromotionalCreditCandidates L bpID now = bnd (dbFindByID promoCreditC (notExpired bpID now)) (\<lambda>all.
     ret (filter (\<lambda>c. case pc_RemainingAmount c of None \<Rightarrow> False | Some a \<Rightarrow> d_is_positive L a) all))"

definition SaveAccountCredit :: "AccountCredit \<Rightarrow> unit svc" where
  "SaveAccountCredit ac = replaceByID acctCreditsC (ac_ID ac) ac"

definition SavePromotionalCredit :: "PromotionalCredit \<Rightarrow> unit svc" where
  "SavePromotionalCredit pc = replaceByID promoCreditC (pc_ID pc) pc"

definition AccountCreditByID :: "string \<Rightarrow> AccountCredit option svc" where
  "AccountCreditByID i = dbGet acctCreditsC i"

definition DeleteAccountCredit :: "string \<Rightarrow> unit svc" where
  "DeleteAccountCredit i = bnd (dbDeleteByID acctCreditsC i) (\<lambda>_. ret ())"

definition CreateAccountCredit :: "AccountCredit \<Rightarrow> AccountCredit svc" where
  "CreateAccountCredit ac = bnd (dbInsertOne acctCreditsC ac) (\<lambda>i. ret (ac \<lparr> ac_ID := i \<rparr>))"

definition InsertPromotionalCredit :: "PromotionalCredit \<Rightarrow> PromotionalCredit svc" where
  "InsertPromotionalCredit pc = bnd (dbInsertOne promoCreditC (pc \<lparr> pc_ID := '''' \<rparr>)) (\<lambda>i. ret (pc \<lparr> pc_ID := i \<rparr>))"

definition PromotionalCreditsByBillingProfile :: "string \<Rightarrow> PromotionalCredit list svc" where
  "PromotionalCreditsByBillingProfile bpID = dbFind promoCreditC (\<lambda>c. pc_BillingProfileID c = bpID)"

definition PriceAdjustmentRulesByPricePlanIDs :: "string list \<Rightarrow> PriceAdjustmentRule list svc" where
  "PriceAdjustmentRulesByPricePlanIDs ids = (if ids = [] then ret []
     else dbFind priceAdjustC (\<lambda>r. par_PricePlanID r \<in> set ids \<and> par_Enabled r))"

definition SavingsContractsByBillingProfile :: "string \<Rightarrow> SavingsContract list svc" where
  "SavingsContractsByBillingProfile bpID = dbFind savingCtrsC (\<lambda>c. con_BillingProfileID c = bpID)"

definition AllSavingsContracts :: "SavingsContract list svc" where
  "AllSavingsContracts = dbFind savingCtrsC (\<lambda>_. True)"

definition SaveSavingsContract :: "SavingsContract \<Rightarrow> SavingsContract svc" where
  "SaveSavingsContract c = bnd timeNow (\<lambda>now. let c = c \<lparr> con_UpdatedAt := Some now \<rparr> in
     bnd (dbReplace savingCtrsC (con_ID c) c) (\<lambda>_. ret c))"

definition SavingsContractByID :: "string \<Rightarrow> SavingsContract option svc" where
  "SavingsContractByID i = dbGet savingCtrsC i"

definition AccountCreditTotal :: "declib \<Rightarrow> string \<Rightarrow> decimal svc" where
  "AccountCreditTotal L bpID = bnd (dbFind acctCreditsC (\<lambda>c. ac_BillingProfileID c = bpID)) (\<lambda>credits.
     ret (fold (\<lambda>c t. case ac_Amount c of None \<Rightarrow> t | Some a \<Rightarrow> d_add L t a) credits (d_zero L)))"

definition AvailablePromotionalTotal :: "declib \<Rightarrow> string \<Rightarrow> time \<Rightarrow> decimal svc" where
  "AvailablePromotionalTotal L bpID now = bnd (dbFind promoCreditC (notExpired bpID now)) (\<lambda>credits.
     ret (fold (\<lambda>c t. case pc_RemainingAmount c of None \<Rightarrow> t | Some a \<Rightarrow> d_add L t a) credits (d_zero L)))"

definition AllTaxRates :: "TaxRate list svc" where
  "AllTaxRates = db (\<lambda>w. (Inr (storeFind (\<lambda>_. True) (w_taxRates w)), w))"

section \<open>Dunning processes\<close>

definition FindFirstSuspensionByStatusIn :: "string \<Rightarrow> string list \<Rightarrow> SuspensionProcess option svc" where
  "FindFirstSuspensionByStatusIn bpID statuses = dbFindOne suspensionsC (\<lambda>p. sp_BillingProfileID p = bpID \<and> sp_Status p \<in> set statuses)"

definition FindFirstSuspensionByStatus :: "string \<Rightarrow> string \<Rightarrow> SuspensionProcess option svc" where
  "FindFirstSuspensionByStatus bpID status = dbFindOne suspensionsC (\<lambda>p. sp_BillingProfileID p = bpID \<and> sp_Status p = status)"

definition ExistsSuspensionByStatusIn :: "string \<Rightarrow> string list \<Rightarrow> bool svc" where
  "ExistsSuspensionByStatusIn bpID statuses = dbExists suspensionsC (\<lambda>p. sp_BillingProfileID p = bpID \<and> sp_Status p \<in> set statuses)"

definition AllSuspensionsByBillingProfile :: "string \<Rightarrow> SuspensionProcess list svc" where
  "AllSuspensionsByBillingProfile bpID = dbFind suspensionsC (\<lambda>p. sp_BillingProfileID p = bpID)"

definition SaveSuspensionProcess :: "SuspensionProcess \<Rightarrow> SuspensionProcess svc" where
  "SaveSuspensionProcess sp = bnd timeNow (\<lambda>now. let sp = sp \<lparr> sp_UpdatedAt := Some now \<rparr> in
     if sp_ID sp = '''' then
       (let sp = sp \<lparr> sp_CreatedAt := Some now \<rparr> in bnd (dbInsertOne suspensionsC sp) (\<lambda>i. ret (sp \<lparr> sp_ID := i \<rparr>)))
     else bnd (dbReplace suspensionsC (sp_ID sp) sp) (\<lambda>_. ret sp))"

section \<open>Balance\<close>

definition unsettled :: "Bill \<Rightarrow> bool" where
  "unsettled b \<longleftrightarrow> bill_Status b = BillSent \<or> bill_Status b = BillOpen"

definition sumUnpaid :: "declib \<Rightarrow> Bill list \<Rightarrow> decimal" where
  "sumUnpaid L bs = fold (\<lambda>b t. if unsettled b then d_add L t (scaleTotal L (GetUnpaidAmountBillProductCurrency L b)) else t) bs (d_zero L)"

definition CurrentBalance :: "declib \<Rightarrow> string \<Rightarrow> time \<Rightarrow> decimal svc" where
  "CurrentBalance L bpID now = bnd (AccountCreditTotal L bpID) (\<lambda>acct.
     bnd (AvailablePromotionalTotal L bpID now) (\<lambda>promo.
     bnd (BillsByBillingProfile bpID) (\<lambda>bs.
     ret (scaleTotal L (d_sub L (d_add L acct promo) (sumUnpaid L bs))))))"

definition CurrentDue :: "declib \<Rightarrow> string \<Rightarrow> decimal svc" where
  "CurrentDue L bpID = bnd (BillsByBillingProfile bpID) (\<lambda>bs. ret (scaleTotal L (sumUnpaid L bs)))"

definition overdueAt :: "time \<Rightarrow> Bill \<Rightarrow> time option" where
  "overdueAt now b = (if bill_Status b = BillSent then (case bill_DueAt b of None \<Rightarrow> None | Some d \<Rightarrow> if d \<le> now then Some d else None) else None)"

definition DueBills :: "string \<Rightarrow> time \<Rightarrow> time list svc" where
  "DueBills bpID now = bnd (BillsByBillingProfile bpID) (\<lambda>bs. ret (List.map_filter (overdueAt now) bs))"

section \<open>Reads leave the tables alone\<close>

lemmas repo_read_defs = FindByID_def FindByStatus_def AllBillingProfiles_def profileExists_def IsActive_def Configuration_def
  BaseCurrency_def baseCurrencyOrEmpty_def SuspensionConfiguration_def autoActivationFlow_def ProvisioningPromotionals_def
  BillsByBillingProfile_def SentBills_def AllBills_def HasOverdueBills_def BillByID_def AccountCreditsByProfile_def
  PromotionalCreditCandidates_def AccountCreditByID_def PromotionalCreditsByBillingProfile_def
  PriceAdjustmentRulesByPricePlanIDs_def SavingsContractsByBillingProfile_def AllSavingsContracts_def SavingsContractByID_def
  AccountCreditTotal_def AvailablePromotionalTotal_def FindFirstSuspensionByStatusIn_def FindFirstSuspensionByStatus_def
  ExistsSuspensionByStatusIn_def AllSuspensionsByBillingProfile_def

lemma quiet_repo_reads [quiet_intros]:
  "quiet (FindByID i)" "quiet (FindByStatus s)" "quiet AllBillingProfiles" "quiet (profileExists i)" "quiet (IsActive i)"
  "quiet Configuration" "quiet BaseCurrency" "quiet baseCurrencyOrEmpty" "quiet SuspensionConfiguration"
  "quiet autoActivationFlow" "quiet ProvisioningPromotionals" "quiet (BillsByBillingProfile b)" "quiet (SentBills b)"
  "quiet AllBills" "quiet (HasOverdueBills b)" "quiet (BillByID i)" "quiet (AccountCreditsByProfile b)"
  "quiet (PromotionalCreditCandidates L b now)" "quiet (AccountCreditByID i)" "quiet (PromotionalCreditsByBillingProfile b)"
  "quiet (PriceAdjustmentRulesByPricePlanIDs ids)" "quiet (SavingsContractsByBillingProfile b)" "quiet AllSavingsContracts"
  "quiet (SavingsContractByID i)" "quiet (AccountCreditTotal L b)" "quiet (AvailablePromotionalTotal L b now)"
  "quiet (FindFirstSuspensionByStatusIn b ss)" "quiet (FindFirstSuspensionByStatus b s)" "quiet (ExistsSuspensionByStatusIn b ss)"
  "quiet (AllSuspensionsByBillingProfile b)"
  unfolding repo_read_defs by (intro quiet_intros)+

lemma quiet_more_reads [quiet_intros]: "quiet AllTaxRates" "quiet (CountSentBills b)"
  unfolding AllTaxRates_def CountSentBills_def by (auto intro: quiet_db)

lemma quiet_balance [quiet_intros]: "quiet (CurrentBalance L b now)" "quiet (CurrentDue L b)" "quiet (DueBills b now)"
  unfolding CurrentBalance_def CurrentDue_def DueBills_def by (intro quiet_intros)+

lemma quiet_notify [quiet_intros]: "quiet (notify H key recipient)"
  unfolding notify_def by (intro quiet_intros)

section \<open>The balance\<close>

text \<open>What a profile can spend, and what its open and sent bills still ask for.\<close>

definition spendable :: "world \<Rightarrow> string \<Rightarrow> time \<Rightarrow> rat" where
  "spendable w bpID now =
    (\<Sum>c\<leftarrow>storeFind (\<lambda>c. ac_BillingProfileID c = bpID) (view acctCreditsC w). oval (ac_Amount c)) +
    (\<Sum>c\<leftarrow>storeFind (notExpired bpID now) (view promoCreditC w). oval (pc_RemainingAmount c))"

definition due_total :: "world \<Rightarrow> string \<Rightarrow> rat" where
  "due_total w bpID =
    (\<Sum>b\<leftarrow>storeFind (\<lambda>b. bill_BillingProfileID b = bpID) (view billsC w). if unsettled b then round_at 2 (net_total b - paid_total b) else 0)"

context decimal_lib
begin

lemma val_fold_option:
  "val (fold (\<lambda>c t. case f c of None \<Rightarrow> t | Some a \<Rightarrow> d_add L t a) cs t) = val t + (\<Sum>c\<leftarrow>cs. oval (f c))"
  by (induction cs arbitrary: t) (auto simp: val_simps oval_def split: option.splits)

lemma val_scaleTotal_unpaid: "val (scaleTotal L (GetUnpaidAmountBillProductCurrency L b)) = round_at 2 (net_total b - paid_total b)"
  by (simp add: scaleTotal_def val_simps round_at_exact has_places_mono [of 2])

lemma val_sumUnpaid: "val (sumUnpaid L bs) = (\<Sum>b\<leftarrow>bs. if unsettled b then round_at 2 (net_total b - paid_total b) else 0)"
proof -
  have "val (fold (\<lambda>b t. if unsettled b then d_add L t (scaleTotal L (GetUnpaidAmountBillProductCurrency L b)) else t) bs t)
      = val t + (\<Sum>b\<leftarrow>bs. if unsettled b then round_at 2 (net_total b - paid_total b) else 0)" for t
    by (induction bs arbitrary: t) (simp_all add: val_scaleTotal_unpaid val_simps)
  then show ?thesis by (simp add: sumUnpaid_def val_simps)
qed

lemma CurrentBalance_run:
  assumes "CurrentBalance L bpID now w = (Inr bal, w')"
  shows "val bal = round_at 4 (spendable w bpID now - due_total w bpID)"
proof -
  from assms obtain a w1 p w2 bs w3 where a: "AccountCreditTotal L bpID w = (Inr a, w1)"
    and p: "AvailablePromotionalTotal L bpID now w1 = (Inr p, w2)" and bs: "BillsByBillingProfile bpID w2 = (Inr bs, w3)"
    and bal: "bal = scaleTotal L (d_sub L (d_add L a p) (sumUnpaid L bs))"
    by (auto simp: CurrentBalance_def svc_simps)
  have s1: "stored w1 = stored w" by (rule quietD [of "AccountCreditTotal L bpID", OF _ a]) (intro quiet_intros)
  have s2: "stored w2 = stored w1" by (rule quietD [of "AvailablePromotionalTotal L bpID now", OF _ p]) (intro quiet_intros)
  have "val a = (\<Sum>c\<leftarrow>storeFind (\<lambda>c. ac_BillingProfileID c = bpID) (view acctCreditsC w). oval (ac_Amount c))"
    using a by (auto simp: AccountCreditTotal_def svc_simps val_fold_option val_simps dest!: acctCredits.find_run)
  moreover have "val p = (\<Sum>c\<leftarrow>storeFind (notExpired bpID now) (view promoCreditC w). oval (pc_RemainingAmount c))"
    using p promoCredit.view_stored [OF s1]
    by (auto simp: AvailablePromotionalTotal_def svc_simps val_fold_option val_simps dest!: promoCredit.find_run)
  moreover have "bs = storeFind (\<lambda>b. bill_BillingProfileID b = bpID) (view billsC w)"
    using bills.find_run [OF bs [unfolded BillsByBillingProfile_def]] bills.view_stored [of w2 w] s1 s2 by simp
  ultimately show ?thesis
    by (simp add: bal scaleTotal_def val_simps val_sumUnpaid spendable_def due_total_def)
qed

lemma CurrentDue_run:
  assumes "CurrentDue L bpID w = (Inr due, w')"
  shows "val due = due_total w bpID"
proof -
  from assms obtain bs where bs: "bs = storeFind (\<lambda>b. bill_BillingProfileID b = bpID) (view billsC w)"
    and due: "due = scaleTotal L (sumUnpaid L bs)"
    by (auto simp: CurrentDue_def BillsByBillingProfile_def svc_simps dest!: bills.find_run)
  have "has_places 4 (\<Sum>b\<leftarrow>bs. if unsettled b then round_at 2 (net_total b - paid_total b) else 0)"
    by (rule has_places_sum_list) (auto intro: has_places_mono [of 2])
  then show ?thesis by (simp add: due scaleTotal_def val_simps val_sumUnpaid round_at_exact due_total_def bs)
qed

end

lemma due_total_stored: "stored w' = stored w \<Longrightarrow> due_total w' bpID = due_total w bpID"
  by (drule bills.view_stored) (simp add: due_total_def)

text \<open>A small shop for the examples: one profile with a sent bill of \<open>due\<close> cents and a credit of \<open>credit\<close> cents.\<close>

definition ex_profile :: BillingProfile where
  "ex_profile = newProfile ''org'' \<lparr> owner_Sub = ''s'', owner_Email = ''a@b'', owner_FirstName = ''A'', owner_LastName = ''B'',
     owner_FullName = ''A B'' \<rparr> ''EUR'' 0 \<lparr> bp_ID := ''bp'', bp_Status := StatusActive \<rparr>"

definition ex_conf :: BillingConfiguration where
  "ex_conf = \<lparr> conf_ID = ''conf'', conf_BaseCurrency = ''EUR'', conf_PromotionCodesEnabled = None,
     conf_SuspensionConfiguration = Some (ex_config SuspensionTypeBalance), conf_AutoActivationFlow = None, conf_Promotionals = [],
     conf_ReminderDaysBeforeExpiry = [] \<rparr>"

definition ex_hooks :: hooks where
  "ex_hooks = \<lparr> h_notifier = True, h_audit = True, h_clouds = True, h_activateProjects = True, h_reviewer = True \<rparr>"

definition ex_shop :: "int \<Rightarrow> int \<Rightarrow> world" where
  "ex_shop due credit = ex_world \<lparr> w_profiles := [(''bp'', ex_profile)], w_configs := [(''conf'', ex_conf)],
     w_bills := [(''b1'', ex_charged_bill due \<lparr> bill_Status := BillSent, bill_DueAt := Some 0 \<rparr>)],
     w_acctCredits := [(''a1'', ex_credit ''a1'' credit (- 2))] \<rparr>"

text \<open>
  C29. Balance and due amount reconcile: read from the same tables, the balance is what the profile
  can spend (account credits and promotional credits that have not expired) less the due amount,
  rounded at four places; the due amount is exactly the sum of the unpaid amounts of the open
  and sent bills.
\<close>

theorem balance_reconciles:
  assumes "decimal_lib L" and "CurrentBalance L bpID now w = (Inr bal, w1)"
    and "CurrentDue L bpID w2 = (Inr due, w3)" and "stored w2 = stored w"
  shows "val bal = round_at 4 (spendable w bpID now - val due) \<and> val due = due_total w bpID"
  using decimal_lib.CurrentBalance_run [OF assms(1,2)] decimal_lib.CurrentDue_run [OF assms(1,3)] due_total_stored [OF assms(4)]
  by simp

theorem balance_reconciles_witness:
  "case (CurrentBalance ref_lib ''bp'' 0 (ex_shop 1000 300), CurrentDue ref_lib ''bp'' (ex_shop 1000 300)) of
     ((Inr bal, _), (Inr due, _)) \<Rightarrow> val bal = round_at 4 (spendable (ex_shop 1000 300) ''bp'' 0 - val due)
   | _ \<Rightarrow> False"
proof -
  let ?b = "CurrentBalance ref_lib ''bp'' 0 (ex_shop 1000 300)" and ?d = "CurrentDue ref_lib ''bp'' (ex_shop 1000 300)"
  have "case ?b of (Inl _, _) \<Rightarrow> False | (Inr _, _) \<Rightarrow> True" "case ?d of (Inl _, _) \<Rightarrow> False | (Inr _, _) \<Rightarrow> True" by code_simp+
  then obtain bal w1 due w3 where run: "?b = (Inr bal, w1)" "?d = (Inr due, w3)" by (auto split: prod.splits sum.splits)
  then show ?thesis using balance_reconciles [OF ref.decimal_lib_axioms run refl] by simp
qed

end
