(* ===== verification/Go_Float.thy ===== *)
theory Go_Float
  imports Decimal_Lib "HOL-Library.Log_Nat"
begin

text \<open>
  The \<open>float64\<close> of the language, as far as the sources compute with it: a value is its IEEE 754
  bit pattern (the one \<open>AnyFloat64\<close> carries), a finite pattern denotes a rational, and an
  operation rounds the exact result to the nearest pattern, ties to even. The lemmas show that
  a number with a significand of at most 53 bits goes through unchanged, so that conversions
  of integers, division by a power of two and \<open>math.Ceil\<close> are exact.
\<close>

section \<open>Bit patterns and their numbers\<close>

definition f64_neg :: "64 word \<Rightarrow> bool" where
  "f64_neg w \<longleftrightarrow> 2 ^ 63 \<le> uint w"

definition f64_bits :: "64 word \<Rightarrow> int" where
  "f64_bits w = uint w mod 2 ^ 63"

text \<open>The magnitude bits of the infinities: exponent 2047, empty significand.\<close>

definition f64_infBits :: int where
  "f64_infBits = 2047 * 2 ^ 52"

definition f64_finite :: "64 word \<Rightarrow> bool" where
  "f64_finite w \<longleftrightarrow> f64_bits w < f64_infBits"

definition f64_nan :: "64 word \<Rightarrow> bool" where
  "f64_nan w \<longleftrightarrow> f64_infBits < f64_bits w"

definition f64_mag :: "int \<Rightarrow> rat" where
  "f64_mag k = (let e = k div 2 ^ 52; f = k mod 2 ^ 52 in
     if e = 0 then of_int f * 2 powi (- 1074) else of_int (f + 2 ^ 52) * 2 powi (e - 1075))"

definition f64_val :: "64 word \<Rightarrow> rat" where
  "f64_val w = (if f64_neg w then - 1 else 1) * f64_mag (f64_bits w)"

section \<open>Rounding to a pattern\<close>

definition flog2 :: "rat \<Rightarrow> int" where
  "flog2 x = (if 1 \<le> x then bitlen \<lfloor>x\<rfloor> - 1 else - bitlen (\<lceil>1 / x\<rceil> - 1))"

definition f64_roundMag :: "rat \<Rightarrow> int" where
  "f64_roundMag x = (if x = 0 then 0
     else let e = max (- 1074) (flog2 x - 52) in min f64_infBits ((e + 1074) * 2 ^ 52 + half_even (x / 2 powi e)))"

definition f64_make :: "bool \<Rightarrow> int \<Rightarrow> 64 word" where
  "f64_make s k = word_of_int ((if s then 2 ^ 63 else 0) + k)"

definition f64_of :: "bool \<Rightarrow> rat \<Rightarrow> 64 word" where
  "f64_of s x = f64_make s (f64_roundMag x)"

definition f64_NaN :: "64 word" where
  "f64_NaN = f64_make False (f64_infBits + 2 ^ 51)"

definition f64_of_int :: "int \<Rightarrow> 64 word" where
  "f64_of_int n = f64_of (n < 0) (of_int \<bar>n\<bar>)"

section \<open>Operations\<close>

definition f64_mul :: "64 word \<Rightarrow> 64 word \<Rightarrow> 64 word" where
  "f64_mul a b = (let s = (f64_neg a \<noteq> f64_neg b) in
     if f64_nan a \<or> f64_nan b then f64_NaN
     else if f64_finite a \<and> f64_finite b then f64_of s \<bar>f64_val a * f64_val b\<bar>
     else if (f64_finite a \<and> f64_bits a = 0) \<or> (f64_finite b \<and> f64_bits b = 0) then f64_NaN
     else f64_make s f64_infBits)"

definition f64_div :: "64 word \<Rightarrow> 64 word \<Rightarrow> 64 word" where
  "f64_div a b = (let s = (f64_neg a \<noteq> f64_neg b) in
     if f64_nan a \<or> f64_nan b then f64_NaN
     else if \<not> f64_finite a then (if f64_finite b then f64_make s f64_infBits else f64_NaN)
     else if \<not> f64_finite b then f64_make s 0
     else if f64_bits b = 0 then (if f64_bits a = 0 then f64_NaN else f64_make s f64_infBits)
     else f64_of s \<bar>f64_val a / f64_val b\<bar>)"

definition f64_add :: "64 word \<Rightarrow> 64 word \<Rightarrow> 64 word" where
  "f64_add a b = (if f64_nan a \<or> f64_nan b then f64_NaN
     else if f64_finite a \<and> f64_finite b then
       (let x = f64_val a + f64_val b in f64_of (if x = 0 then f64_neg a \<and> f64_neg b else x < 0) \<bar>x\<bar>)
     else if f64_finite a then b
     else if f64_finite b then a
     else if f64_neg a = f64_neg b then a else f64_NaN)"

text \<open>The conversion to an integer drops the fraction.\<close>

definition f64_trunc :: "64 word \<Rightarrow> int" where
  "f64_trunc a = (if f64_val a < 0 then \<lceil>f64_val a\<rceil> else \<lfloor>f64_val a\<rfloor>)"

definition f64_ceil :: "64 word \<Rightarrow> 64 word" where
  "f64_ceil a = (if f64_finite a then f64_of (f64_neg a) \<bar>of_int \<lceil>f64_val a\<rceil>\<bar> else a)"

text \<open>Comparisons with a finite constant; every comparison with NaN is false.\<close>

definition f64_le_rat :: "64 word \<Rightarrow> rat \<Rightarrow> bool" where
  "f64_le_rat a c \<longleftrightarrow> \<not> f64_nan a \<and> (if f64_finite a then f64_val a \<le> c else f64_neg a)"

definition f64_lt_rat :: "64 word \<Rightarrow> rat \<Rightarrow> bool" where
  "f64_lt_rat a c \<longleftrightarrow> \<not> f64_nan a \<and> (if f64_finite a then f64_val a < c else f64_neg a)"

section \<open>Short numbers are represented exactly\<close>

text \<open>At most 53 bits of significand within the exponent range.\<close>

definition f64_exact :: "rat \<Rightarrow> bool" where
  "f64_exact x \<longleftrightarrow> (\<exists>m e. x = of_int m * 2 powi e \<and> 0 \<le> m \<and> m < 2 ^ 53 \<and> - 1074 \<le> e \<and> e \<le> 971)"

lemma bitlen_interval:
  assumes "0 < n" shows "2 ^ nat (bitlen n - 1) \<le> n \<and> n < 2 ^ nat (bitlen n) \<and> 1 \<le> bitlen n"
proof -
  note b = bitlen_bounds [OF assms]
  moreover have "1 \<le> bitlen n"
  proof (rule ccontr)
    assume "\<not> 1 \<le> bitlen n"
    then have "nat (bitlen n) = 0" by simp
    with b assms show False by simp
  qed
  ultimately show ?thesis by blast
qed

lemma powi_nat: "0 \<le> k \<Longrightarrow> (2 :: rat) powi k = of_int (2 ^ nat k)"
  by (simp add: power_int_def)

lemma flog2_bounds:
  assumes "0 < x" shows "2 powi flog2 x \<le> x \<and> x < 2 powi (flog2 x + 1)"
proof (cases "1 \<le> x")
  case True
  define n where "n = \<lfloor>x\<rfloor>"
  have n: "1 \<le> n" "of_int n \<le> x" "x < of_int (n + 1)" using True by (auto simp: n_def; linarith)+
  have b: "2 ^ nat (bitlen n - 1) \<le> n" "n + 1 \<le> 2 ^ nat (bitlen n)" "1 \<le> bitlen n"
    using bitlen_interval [of n] n(1) by auto
  have "(2 :: rat) powi (bitlen n - 1) \<le> of_int n" using b by (simp only: powi_nat of_int_le_iff)
  moreover have "of_int (n + 1) \<le> (2 :: rat) powi bitlen n" using b by (simp only: powi_nat of_int_le_iff)
  ultimately have "2 powi (bitlen n - 1) \<le> x \<and> x < 2 powi (bitlen n - 1 + 1)"
    using n order_trans less_le_trans by (auto simp del: of_int_add)
  then show ?thesis using True by (simp add: flog2_def n_def)
next
  case False
  define n where "n = \<lceil>1 / x\<rceil> - 1"
  have inv: "1 < 1 / x" using False assms by simp
  have n: "1 \<le> n" "of_int n < 1 / x" "1 / x \<le> of_int (n + 1)" using inv by (auto simp: n_def; linarith)+
  have b: "2 ^ nat (bitlen n - 1) \<le> n" "n + 1 \<le> 2 ^ nat (bitlen n)" "1 \<le> bitlen n"
    using bitlen_interval [of n] n(1) by auto
  have "(2 :: rat) powi (bitlen n - 1) \<le> of_int n" using b by (simp only: powi_nat of_int_le_iff)
  then have lo: "(2 :: rat) powi (bitlen n - 1) < 1 / x" using n(2) by (rule le_less_trans)
  have "of_int (n + 1) \<le> (2 :: rat) powi bitlen n" using b by (simp only: powi_nat of_int_le_iff)
  with n(3) have hi: "1 / x \<le> (2 :: rat) powi bitlen n" by (rule order_trans)
  have "2 powi (- bitlen n) \<le> x" using hi assms by (simp add: power_int_minus field_simps)
  moreover have "x < 2 powi (- bitlen n + 1)"
    using lo assms by (simp add: power_int_minus power_int_diff power_int_add field_simps)
  ultimately show ?thesis using False by (simp add: flog2_def n_def)
qed


text \<open>The pattern of an exactly representable number reads back as that number.\<close>

lemma f64_mag_pack:
  assumes "0 \<le> k" and "k < 2 ^ 53" and "- 1074 \<le> e" and "e = - 1074 \<or> 2 ^ 52 \<le> k"
  shows "f64_mag ((e + 1074) * 2 ^ 52 + k) = of_int k * 2 powi e"
proof (cases "k < 2 ^ 52")
  case True
  with assms have "e = - 1074" by auto
  with True assms show ?thesis by (simp add: f64_mag_def)
next
  case False
  have "(e + 1074) * 2 ^ 52 + k = (k - 2 ^ 52) + (e + 1075) * 2 ^ 52" by (simp add: algebra_simps)
  moreover have "((k - 2 ^ 52) + (e + 1075) * 2 ^ 52) div 2 ^ 52 = e + 1075"
    using False assms by (subst div_mult_self1) (auto simp: div_pos_pos_trivial)
  moreover have "((k - 2 ^ 52) + (e + 1075) * 2 ^ 52) mod 2 ^ 52 = k - 2 ^ 52"
    using False assms(2) by (subst mod_mult_self1, intro mod_pos_pos_trivial) auto
  ultimately have "((e + 1074) * 2 ^ 52 + k) div 2 ^ 52 = e + 1075" "((e + 1074) * 2 ^ 52 + k) mod 2 ^ 52 = k - 2 ^ 52"
    by (simp_all only:)
  then have "f64_mag ((e + 1074) * 2 ^ 52 + k) = of_int (k - 2 ^ 52 + 2 ^ 52) * 2 powi (e + 1075 - 1075)"
    using assms(3) unfolding f64_mag_def Let_def by (simp only:) simp
  then show ?thesis by simp
qed

lemma f64_roundMag_exact:
  assumes "f64_exact x" and "0 \<le> x"
  shows "f64_mag (f64_roundMag x) = x \<and> 0 \<le> f64_roundMag x \<and> f64_roundMag x < f64_infBits"
proof (cases "x = 0")
  case True
  then show ?thesis by (simp add: f64_roundMag_def f64_mag_def f64_infBits_def)
next
  case False
  with assms(2) have pos: "0 < x" by simp
  from assms(1) obtain m e where m: "x = of_int m * 2 powi e" "m < 2 ^ 53" and e: "- 1074 \<le> e" "e \<le> 971"
    by (auto simp: f64_exact_def)
  define e' where "e' = max (- 1074) (flog2 x - 52)"
  define k where "k = m * 2 ^ nat (e - e')"
  note lg = flog2_bounds [OF pos]
  have "x < of_int (2 ^ 53) * 2 powi e" unfolding m(1) by (intro mult_strict_right_mono) (use m(2) in \<open>simp_all only: of_int_less_iff\<close>, simp)
  also have "\<dots> = 2 powi (e + 53)" by (simp add: power_int_add)
  finally have "(2 :: rat) powi flog2 x < 2 powi (e + 53)" using lg by simp
  then have "flog2 x < e + 53"
    using power_int_increasing [of "e + 53" "flog2 x" "2 :: rat"] by (meson not_le one_le_numeral)
  then have le: "e' \<le> e" using e by (simp add: e'_def)
  have xk: "x = of_int k * 2 powi e'"
  proof -
    have "(2 :: rat) powi e = 2 powi (e - e') * 2 powi e'" by (simp flip: power_int_add)
    moreover have "(2 :: rat) powi (e - e') = of_int (2 ^ nat (e - e'))" by (rule powi_nat) (use le in simp)
    ultimately show ?thesis by (simp add: m(1) k_def)
  qed
  have "(2 :: rat) powi (flog2 x + 1) \<le> 2 powi (e' + 53)" by (rule power_int_increasing) (auto simp: e'_def)
  with lg have "x < 2 powi (e' + 53)" by linarith
  also have "\<dots> = of_int (2 ^ 53) * 2 powi e'" by (simp add: power_int_add)
  finally have "of_int k < (of_int (2 ^ 53) :: rat)" unfolding xk by (rule mult_right_less_imp_less) simp
  then have hi: "k < 2 ^ 53" by (simp only: of_int_less_iff)
  have lo: "e' = - 1074 \<or> 2 ^ 52 \<le> k"
  proof (cases "e' = - 1074")
    case False
    then have "flog2 x = e' + 52" by (auto simp: e'_def max_def split: if_splits)
    with lg have "2 powi (e' + 52) \<le> x" by simp
    moreover have "(2 :: rat) powi (e' + 52) = of_int (2 ^ 52) * 2 powi e'" by (simp add: power_int_add)
    ultimately have "(of_int (2 ^ 52) :: rat) \<le> of_int k" using mult_right_le_imp_le [of _ "2 powi e'"] unfolding xk by simp
    then have "2 ^ 52 \<le> k" by (simp only: of_int_le_iff)
    then show ?thesis ..
  qed simp
  have k0: "0 \<le> k" using pos zero_less_power_int [of "2 :: rat" e'] unfolding xk by (auto simp: zero_less_mult_iff dest: order.asym)
  have "half_even (x / 2 powi e') = k" unfolding xk by simp
  moreover have "e' \<le> 971" "- 1074 \<le> e'" using le e by (auto simp: e'_def)
  moreover from this have "(e' + 1074) * 2 ^ 52 + k < f64_infBits" using hi by (simp add: f64_infBits_def)
  ultimately have "f64_roundMag x = (e' + 1074) * 2 ^ 52 + k"
    using False by (simp add: f64_roundMag_def Let_def e'_def [symmetric])
  then show ?thesis
    using f64_mag_pack [OF k0 hi \<open>- 1074 \<le> e'\<close> lo] k0 \<open>- 1074 \<le> e'\<close> \<open>_ < f64_infBits\<close> by (simp add: xk)
qed


lemma f64_make_parts:
  assumes "0 \<le> k" and "k < 2 ^ 63"
  shows "f64_bits (f64_make s k) = k" and "f64_neg (f64_make s k) \<longleftrightarrow> s"
proof -
  have "uint (f64_make s k) = (if s then 2 ^ 63 else 0) + k"
    using assms unfolding f64_make_def uint_word_of_int by (intro mod_pos_pos_trivial) auto
  with assms show "f64_bits (f64_make s k) = k" "f64_neg (f64_make s k) \<longleftrightarrow> s"
    by (auto simp: f64_bits_def f64_neg_def)
qed

lemma f64_of_exact:
  assumes "f64_exact x" and "0 \<le> x"
  shows "f64_finite (f64_of s x)" and "f64_val (f64_of s x) = (if s then - x else x)" and "f64_neg (f64_of s x) \<longleftrightarrow> s"
proof -
  note r = f64_roundMag_exact [OF assms]
  then have "f64_roundMag x < 2 ^ 63" by (simp add: f64_infBits_def)
  with r show "f64_finite (f64_of s x)" "f64_val (f64_of s x) = (if s then - x else x)" "f64_neg (f64_of s x) \<longleftrightarrow> s"
    by (simp_all add: f64_of_def f64_finite_def f64_val_def f64_make_parts)
qed

lemma f64_exactI: "0 \<le> m \<Longrightarrow> m < 2 ^ 53 \<Longrightarrow> - 1074 \<le> e \<Longrightarrow> e \<le> 971 \<Longrightarrow> f64_exact (of_int m * 2 powi e)"
  unfolding f64_exact_def by blast

lemma f64_exact_int: "0 \<le> n \<Longrightarrow> n < 2 ^ 53 \<Longrightarrow> f64_exact (of_int n)"
  using f64_exactI [of n 0] by simp

lemma f64_of_int_val: "\<bar>n\<bar> < 2 ^ 53 \<Longrightarrow> f64_val (f64_of_int n) = of_int n"
  using f64_of_exact(2) [OF f64_exact_int [of "\<bar>n\<bar>"]] by (simp add: f64_of_int_def)

lemma f64_of_int_finite: "\<bar>n\<bar> < 2 ^ 53 \<Longrightarrow> f64_finite (f64_of_int n)"
  using f64_of_exact(1) [OF f64_exact_int [of "\<bar>n\<bar>"]] by (simp add: f64_of_int_def)

lemma f64_mag_exact:
  assumes "0 \<le> k" and "k < f64_infBits" shows "f64_exact (f64_mag k)" and "0 \<le> f64_mag k"
proof -
  have b: "0 \<le> k mod 2 ^ 52" "k mod 2 ^ 52 < 2 ^ 52" "0 \<le> k div 2 ^ 52" "k div 2 ^ 52 \<le> 2046"
    using assms by (auto simp: f64_infBits_def pos_imp_zdiv_nonneg_iff)
  have "f64_exact (of_int (k mod 2 ^ 52) * 2 powi (- 1074))" by (rule f64_exactI) (use b in auto)
  moreover have "f64_exact (of_int (k mod 2 ^ 52 + 2 ^ 52) * 2 powi (k div 2 ^ 52 - 1075))" if "k div 2 ^ 52 \<noteq> 0"
    by (rule f64_exactI) (use b that in auto)
  ultimately show "f64_exact (f64_mag k)" unfolding f64_mag_def Let_def by (simp only: split: if_split) blast
  show "0 \<le> f64_mag k"
    unfolding f64_mag_def Let_def using b by (auto intro!: mult_nonneg_nonneg)
qed

lemma f64_val_exact: "f64_finite w \<Longrightarrow> f64_exact \<bar>f64_val w\<bar>"
  using f64_mag_exact [of "f64_bits w"] by (simp add: f64_val_def f64_finite_def f64_bits_def)

text \<open>Halving a number of at least one thirty times loses nothing, and neither does \<open>math.Ceil\<close>.\<close>

lemma f64_exact_shift:
  assumes "f64_exact x" and "1 \<le> x" shows "f64_exact (x / 2 ^ 30)"
proof -
  from assms(1) obtain m e where m: "x = of_int m * 2 powi e" "0 \<le> m" "m < 2 ^ 53" and e: "e \<le> 971"
    by (auto simp: f64_exact_def)
  have "- 53 < e"
  proof (rule ccontr)
    assume "\<not> - 53 < e"
    then have "(2 :: rat) powi e \<le> 2 powi (- 53)" by (intro power_int_increasing) auto
    then have "x \<le> of_int m * 2 powi (- 53)" unfolding m(1) using m(2) by (intro mult_left_mono) auto
    also have "\<dots> < of_int (2 ^ 53) * 2 powi (- 53)" using m(3) by (intro mult_strict_right_mono) (simp_all only: of_int_less_iff, simp)
    finally show False using assms(2) by (simp add: power_int_minus)
  qed
  moreover have "x / 2 ^ 30 = of_int m * 2 powi (e - 30)" by (simp add: m(1) power_int_diff)
  ultimately show ?thesis using f64_exactI [OF m(2,3), of "e - 30"] e by simp
qed

lemma f64_exact_ceil:
  assumes "f64_exact x" and "0 \<le> x" shows "f64_exact (of_int \<lceil>x\<rceil>)"
proof -
  from assms(1) obtain m e where m: "x = of_int m * 2 powi e" "0 \<le> m" "m < 2 ^ 53" and e: "- 1074 \<le> e" "e \<le> 971"
    by (auto simp: f64_exact_def)
  show ?thesis
  proof (cases "0 \<le> e")
    case True
    then have "x = of_int (m * 2 ^ nat e)" by (simp add: m(1) powi_nat)
    then have "of_int \<lceil>x\<rceil> = x" by (simp only: ceiling_of_int)
    with assms(1) show ?thesis by (simp only:)
  next
    case False
    then have "(2 :: rat) powi e \<le> 2 powi 0" by (intro power_int_increasing) auto
    then have "x \<le> of_int m" unfolding m(1) using m(2) by (simp add: mult_left_le)
    then have "\<lceil>x\<rceil> \<le> m" by (simp add: ceiling_le_iff)
    moreover have "0 \<le> \<lceil>x\<rceil>" using assms(2) by linarith
    ultimately show ?thesis using m(3) by (intro f64_exact_int) linarith+
  qed
qed

lemma f64_ceil_val:
  assumes "f64_finite w" and "0 \<le> f64_val w"
  shows "f64_finite (f64_ceil w)" and "f64_val (f64_ceil w) = of_int \<lceil>f64_val w\<rceil>"
proof -
  have ex: "f64_exact (of_int \<lceil>f64_val w\<rceil>)" "0 \<le> (of_int \<lceil>f64_val w\<rceil> :: rat)"
    using f64_exact_ceil f64_val_exact [OF assms(1)] assms(2) by auto
  have zero: "f64_neg w \<Longrightarrow> f64_val w = 0"
    using assms f64_mag_exact(2) [of "f64_bits w"] by (auto simp: f64_val_def f64_finite_def f64_bits_def)
  from f64_of_exact [OF ex] zero assms(1) ex(2) show "f64_finite (f64_ceil w)" "f64_val (f64_ceil w) = of_int \<lceil>f64_val w\<rceil>"
    by (auto simp: f64_ceil_def)
qed

text \<open>An operation with an exact result is exact.\<close>

lemma f64_not_nan: "f64_finite w \<Longrightarrow> \<not> f64_nan w"
  by (simp add: f64_nan_def f64_finite_def)

lemma f64_val_sign: "f64_finite w \<Longrightarrow> f64_val w = (if f64_neg w then - \<bar>f64_val w\<bar> else \<bar>f64_val w\<bar>)"
  using f64_mag_exact(2) [of "f64_bits w"] by (auto simp: f64_val_def f64_finite_def f64_bits_def)

lemma f64_add_exact:
  assumes "f64_finite a" "f64_finite b" "f64_exact \<bar>f64_val a + f64_val b\<bar>"
  shows "f64_finite (f64_add a b)" and "f64_val (f64_add a b) = f64_val a + f64_val b"
  using assms f64_of_exact(1,2) [OF assms(3)] f64_not_nan by (auto simp: f64_add_def Let_def)

lemma f64_div_exact:
  assumes "f64_finite a" "f64_finite b" "f64_val b \<noteq> 0" "f64_exact \<bar>f64_val a / f64_val b\<bar>"
  shows "f64_finite (f64_div a b)" and "f64_val (f64_div a b) = f64_val a / f64_val b"
proof -
  have "f64_bits b \<noteq> 0" using assms(3) by (auto simp: f64_val_def f64_mag_def)
  then have q: "f64_div a b = f64_of (f64_neg a \<noteq> f64_neg b) \<bar>f64_val a / f64_val b\<bar>"
    using assms(1,2) f64_not_nan by (simp add: f64_div_def)
  show "f64_finite (f64_div a b)" unfolding q by (rule f64_of_exact(1) [OF assms(4)]) simp
  have "f64_val (f64_div a b) = (if f64_neg a \<noteq> f64_neg b then - \<bar>f64_val a / f64_val b\<bar> else \<bar>f64_val a / f64_val b\<bar>)"
    unfolding q by (rule f64_of_exact(2) [OF assms(4)]) simp
  also have "\<dots> = f64_val a / f64_val b"
    using f64_val_sign [OF assms(1)] f64_val_sign [OF assms(2)] by (auto simp: abs_divide split: if_splits)
  finally show "f64_val (f64_div a b) = f64_val a / f64_val b" .
qed

end
