(* ===== verification/Go_Fmt.thy ===== *)
theory Go_Fmt
  imports Go_Float Go_Time
begin

text \<open>
  The text functions of \<open>fmt\<close>, \<open>strconv\<close>, \<open>strings\<close> and \<open>time\<close> that the cloud components
  use: \<open>%v\<close> of a \<open>float64\<close> (shortest digits that read back, \<open>%e\<close> outside \<open>1e-4 .. 1e6\<close>),
  \<open>Time.String\<close> of a UTC time, \<open>strconv.Atoi\<close>, \<open>strings.Split\<close> and \<open>strings.Cut\<close> at a
  one-character separator, \<open>strings.ReplaceAll\<close> of one character by another.
\<close>

section \<open>Numbers\<close>

text \<open>The position of the first decimal digit of a positive number, and its shortest digits.\<close>

definition flog10 :: "rat \<Rightarrow> int" where
  "flog10 x = (if 1 \<le> x then int (length (show_nat (nat \<lfloor>x\<rfloor>))) - 1
     else - int (length (show_nat (nat (\<lceil>1 / x\<rceil> - 1)))))"

text \<open>
  With \<open>n\<close> digits the candidates are the truncation and the next number up; a candidate is
  good if it rounds to the same pattern.
\<close>

fun shortestFrom :: "nat \<Rightarrow> nat \<Rightarrow> rat \<Rightarrow> int \<times> int" where
  "shortestFrom 0 n x = (let s = flog10 x - 16 in (half_even (x / 10 powi s), s))"
| "shortestFrom (Suc fuel) n x = (let s = flog10 x - int n; q = x / 10 powi s;
     good = (\<lambda>d. f64_roundMag (of_int d * 10 powi s) = f64_roundMag x) in
     if good \<lfloor>q\<rfloor> \<and> good \<lceil>q\<rceil> then (half_even q, s)
     else if good \<lfloor>q\<rfloor> then (\<lfloor>q\<rfloor>, s)
     else if good \<lceil>q\<rceil> then (\<lceil>q\<rceil>, s)
     else shortestFrom fuel (Suc n) x)"

text \<open>Seventeen digits always read back, so sixteen attempts come before them.\<close>

definition shortestDigits :: "rat \<Rightarrow> string \<times> int" where
  "shortestDigits x = (let (d, s) = shortestFrom 16 0 x; ds = show_nat (nat d);
     core = rev (dropWhile (\<lambda>c. c = CHR ''0'') (rev ds)) in (core, s + int (length ds)))"

definition replicateZero :: "nat \<Rightarrow> string" where
  "replicateZero n = replicate n (CHR ''0'')"

definition padLeft :: "nat \<Rightarrow> string \<Rightarrow> string" where
  "padLeft k ds = replicateZero (k - length ds) @ ds"

text \<open>\<open>p\<close> is the decimal point: the number is \<open>0.ds * 10 ^ p\<close>.\<close>

definition fmtE :: "string \<Rightarrow> int \<Rightarrow> string" where
  "fmtE ds p = (let e = p - 1 in
     take 1 ds @ (if length ds > 1 then ''.'' @ drop 1 ds else '''') @ ''e'' @ (if e < 0 then ''-'' else ''+'')
     @ padLeft 2 (show_nat (nat \<bar>e\<bar>)))"

definition fmtF :: "string \<Rightarrow> int \<Rightarrow> string" where
  "fmtF ds p = (if p \<le> 0 then ''0.'' @ replicateZero (nat (- p)) @ ds
     else if int (length ds) \<le> p then ds @ replicateZero (nat p - length ds)
     else take (nat p) ds @ ''.'' @ drop (nat p) ds)"

definition showFloat64 :: "64 word \<Rightarrow> string" where
  "showFloat64 w = (if f64_nan w then ''NaN'' else if \<not> f64_finite w then (if f64_neg w then ''-Inf'' else ''+Inf'')
     else (if f64_neg w then ''-'' else '''') @
       (if f64_bits w = 0 then ''0''
        else let (ds, p) = shortestDigits \<bar>f64_val w\<bar> in if p - 1 < - 4 \<or> 6 \<le> p - 1 then fmtE ds p else fmtF ds p))"

section \<open>Times\<close>

text \<open>\<open>Time.String\<close> in UTC: \<open>2006-01-02 15:04:05.999999999 +0000 UTC\<close>, trailing zeros of the fraction dropped.\<close>

definition fractionText :: "int \<Rightarrow> string" where
  "fractionText ns = (if ns = 0 then '''' else ''.'' @ rev (dropWhile (\<lambda>c. c = CHR ''0'') (rev (padLeft 9 (show_nat (nat ns))))))"

definition timeString :: "time \<Rightarrow> string" where
  "timeString t = (let c = clockOf t; two = (\<lambda>n. padLeft 2 (show_nat (nat n))) in
     padLeft 4 (itoa (yearOf t)) @ ''-'' @ two (monthOf t) @ ''-'' @ two (dayOf t) @ '' ''
     @ two (c div hour) @ '':'' @ two (c div minute mod 60) @ '':'' @ two (c div second mod 60)
     @ fractionText (c mod second) @ '' +0000 UTC'')"

section \<open>Strings\<close>

text \<open>\<open>strconv.Atoi\<close>: an optional sign and decimal digits, within the range of a 64-bit \<open>int\<close>.\<close>

definition isDigit :: "char \<Rightarrow> bool" where
  "isDigit c = (let n = of_char c :: nat in 48 \<le> n \<and> n \<le> 57)"

definition digitsVal :: "string \<Rightarrow> int" where
  "digitsVal ds = fold (\<lambda>c a. a * 10 + (of_char c - 48)) ds 0"

definition unsignedVal :: "string \<Rightarrow> int option" where
  "unsignedVal ds = (if ds \<noteq> [] \<and> list_all isDigit ds then Some (digitsVal ds) else None)"

definition atoi :: "string \<Rightarrow> int option" where
  "atoi s = (let v = (if hasPrefix s ''-'' then map_option uminus (unsignedVal (drop 1 s))
       else if hasPrefix s ''+'' then unsignedVal (drop 1 s) else unsignedVal s) in
     case v of Some n \<Rightarrow> if - (2 ^ 63) \<le> n \<and> n < 2 ^ 63 then Some n else None | None \<Rightarrow> None)"

fun splitOn :: "char \<Rightarrow> string \<Rightarrow> string list" where
  "splitOn c [] = [[]]"
| "splitOn c (x # xs) = (if x = c then [] # splitOn c xs else
     (case splitOn c xs of [] \<Rightarrow> [[x]] | p # ps \<Rightarrow> (x # p) # ps))"

text \<open>\<open>strings.Cut\<close>: the text before and after the first separator, if there is one.\<close>

definition cutAt :: "char \<Rightarrow> string \<Rightarrow> (string \<times> string) option" where
  "cutAt c s = (if c \<in> set s then Some (takeWhile (\<lambda>x. x \<noteq> c) s, drop 1 (dropWhile (\<lambda>x. x \<noteq> c) s)) else None)"

definition replaceChar :: "char \<Rightarrow> char \<Rightarrow> string \<Rightarrow> string" where
  "replaceChar a b s = map (\<lambda>c. if c = a then b else c) s"

lemma splitOn_nonempty: "splitOn c s \<noteq> []"
  by (induction s) (auto split: list.splits)

lemma splitOn_parts: "p \<in> set (splitOn c s) \<Longrightarrow> c \<notin> set p"
  by (induction s arbitrary: p) (auto split: list.splits if_splits)

text \<open>Joining the parts with the separator gives the text back.\<close>

lemma splitOn_join: "concat (map (\<lambda>p. p @ [c]) (splitOn c s)) = s @ [c]"
  by (induction s) (auto split: list.splits simp: splitOn_nonempty)

lemma atoi_range: "atoi s = Some n \<Longrightarrow> - (2 ^ 63) \<le> n \<and> n < 2 ^ 63"
  by (auto simp: atoi_def Let_def split: option.splits if_splits)

end
