(* ===== verification/Billing_Resource.thy ===== *)
theory Billing_Resource
  imports Bill_Repo Go_Fmt Decimal_Reference "HOL-Library.AList"
begin

text \<open>
  \<open>cloud/billingresource\<close>: the bridge from the cached cloud resources to the priced resources of
  the rating engine, one provider per billable type, the dispatch over the registry that
  \<open>cmd/api/main.go\<close> builds, and the values stamped on every resource; \<open>cloud/gpu.go\<close>, the GPU
  model and count of a flavor; \<open>cloud/metrics\<close>, the read of the
  monthly traffic record of a server. A Go map of values is an association list with distinct keys, written by
  \<open>AList.update\<close>. The values of a cached document are the JSON values the store decodes, so its
  numbers are \<open>float64\<close>.
\<close>

section \<open>Cached values as attribute values\<close>

text \<open>\<open>fmt.Sprint\<close> of a decoded value; a map prints its entries in key order.\<close>

definition joinSp :: "string list \<Rightarrow> string" where
  "joinSp ps = concat (map (\<lambda>(i, p). (if i = (0 :: nat) then p else '' '' @ p)) (enumerate 0 ps))"

definition sprintAny :: "declib \<Rightarrow> any \<Rightarrow> string" where
  "sprintAny L v = (case v of AnyNil \<Rightarrow> ''<nil>''
     | AnyBool b \<Rightarrow> (if b then ''true'' else ''false'')
     | AnyString s \<Rightarrow> s
     | AnyInt n \<Rightarrow> itoa n
     | AnyDecimal d \<Rightarrow> d_string L d
     | AnyFloat64 w \<Rightarrow> showFloat64 w
     | AnyFloat32 w \<Rightarrow> d_format_float32 L w
     | AnyNumber s \<Rightarrow> s
     | AnyOther s \<Rightarrow> s)"

fun sprint :: "declib \<Rightarrow> json \<Rightarrow> string" where
  "sprint L (JLeaf a) = sprintAny L a"
| "sprint L (JArray vs) = ''['' @ joinSp (map (sprint L) vs) @ '']''"
| "sprint L (JObject kvs) = ''map['' @ joinSp (map snd (sort_key fst (map (\<lambda>(k, v). (k, k @ '':'' @ sprint L v)) kvs))) @ '']''"

text \<open>A value put into a \<open>map[string]any\<close> of attributes: maps and lists count only through their text.\<close>

definition anyOf :: "declib \<Rightarrow> json \<Rightarrow> any" where
  "anyOf L v = (case v of JLeaf a \<Rightarrow> a | _ \<Rightarrow> AnyOther (sprint L v))"

definition toDec :: "declib \<Rightarrow> json \<Rightarrow> decimal option" where
  "toDec L v = (case v of JLeaf (AnyInt n) \<Rightarrow> Some (d_of_int L n)
     | JLeaf (AnyFloat64 w) \<Rightarrow> Some (d_of_float64 L w)
     | JLeaf (AnyDecimal d) \<Rightarrow> Some d
     | _ \<Rightarrow> None)"

definition numOf :: "json \<Rightarrow> 64 word" where
  "numOf v = (case v of JLeaf (AnyFloat64 w) \<Rightarrow> w | JLeaf (AnyInt n) \<Rightarrow> f64_of_int n | _ \<Rightarrow> f64_of_int 0)"

definition setVal :: "string \<Rightarrow> any \<Rightarrow> attrs \<Rightarrow> attrs" where
  "setVal k v m = AList.update k v m"

section \<open>GPUs of a flavor\<close>

definition NormalizeGPUAlias :: "string \<Rightarrow> string" where
  "NormalizeGPUAlias s = replaceChar (CHR ''_'') (CHR ''-'') (toLower (trimSpace s))"

text \<open>One \<open>alias:count\<close> entry of the PCI alias list; malformed and non-positive entries are skipped.\<close>

definition gpuEntry :: "string \<Rightarrow> (string \<times> int) option" where
  "gpuEntry part = (case cutAt (CHR '':'') (trimSpace part) of None \<Rightarrow> None
     | Some (name, n) \<Rightarrow> (case atoi (trimSpace n) of None \<Rightarrow> None
         | Some c \<Rightarrow> if c \<le> 0 then None else Some (name, c)))"

definition gpuStep :: "string \<Rightarrow> string \<times> int \<Rightarrow> string \<times> int" where
  "gpuStep part acc = (case gpuEntry part of None \<Rightarrow> acc
     | Some (name, c) \<Rightarrow> (if fst acc = '''' then NormalizeGPUAlias name else fst acc, i64 (snd acc + c)))"

definition GPUFromFlavor :: "json \<Rightarrow> string \<times> int" where
  "GPUFromFlavor specs = (case specs of JObject extraSpecs \<Rightarrow>
       (let alias' = jget extraSpecs ''pci_passthrough:alias'';
            mc = (case alias' of JLeaf (AnyString s) \<Rightarrow>
                    if trimSpace s \<noteq> '''' then fold gpuStep (splitOn (CHR '','') s) ('''', 0) else ('''', 0)
                  | _ \<Rightarrow> ('''', 0)) in
        if 0 < snd mc then mc
        else (case jget extraSpecs ''resources:VGPU'' of JLeaf (AnyString v) \<Rightarrow>
                (case atoi (trimSpace v) of Some c \<Rightarrow> if 0 < c then (''vgpu'', c) else ('''', 0) | None \<Rightarrow> ('''', 0))
              | _ \<Rightarrow> ('''', 0)))
     | _ \<Rightarrow> ('''', 0))"

definition ServerIsVolumeBacked :: "(string \<times> json) list \<Rightarrow> bool" where
  "ServerIsVolumeBacked data = (if jget data ''volumeBacked'' = JLeaf (AnyBool True) then True
     else (case mapAt data ''server'' of None \<Rightarrow> False
       | Some server \<Rightarrow> (case map_of server ''image'' of None \<Rightarrow> False
           | Some (JLeaf AnyNil) \<Rightarrow> True
           | Some (JLeaf (AnyString s)) \<Rightarrow> trimSpace s = ''''
           | Some (JObject img) \<Rightarrow> trimSpace (jstr (jget img ''id'')) = ''''
           | _ \<Rightarrow> False)))"

section \<open>The declared types\<close>

definition attrOf :: "string \<Rightarrow> string \<Rightarrow> APIResourceAttribute" where
  "attrOf t n = \<lparr> api_ra_Type = t, api_ra_Name = n, api_ra_IsUsage = None \<rparr>"

definition usageAttr :: "string \<Rightarrow> APIResourceAttribute" where
  "usageAttr n = \<lparr> api_ra_Type = ''number'', api_ra_Name = n, api_ra_IsUsage = Some True \<rparr>"

definition instanceType :: APIBillingResourceType where
  "instanceType = \<lparr> api_brt_ResourceType = ''instance'', api_brt_Attributes =
     [attrOf ''string'' ''instance_type'', attrOf ''number'' ''ram_mb'', attrOf ''number'' ''ram_gb'', attrOf ''number'' ''vcpus'',
      attrOf ''number'' ''root_disk_gb'', attrOf ''number'' ''gpu_count'', attrOf ''string'' ''gpu_model'',
      attrOf ''string'' ''display_name'', attrOf ''string'' ''host'', attrOf ''string'' ''status'', attrOf ''string'' ''image'',
      attrOf ''boolean'' ''is_bareMetal'', attrOf ''string'' ''availability_zone''] \<rparr>"

definition instanceTrafficType :: APIBillingResourceType where
  "instanceTrafficType = \<lparr> api_brt_ResourceType = ''instance_traffic'', api_brt_Attributes =
     [usageAttr ''incoming_private_traffic_mb'', usageAttr ''outgoing_private_traffic_mb'',
      usageAttr ''incoming_public_traffic_mb'', usageAttr ''outgoing_public_traffic_mb'',
      usageAttr ''total_public_traffic_mb'', usageAttr ''total_private_traffic_mb'', usageAttr ''total_traffic_mb'',
      attrOf ''string'' ''display_name''] \<rparr>"

definition volumeType :: APIBillingResourceType where
  "volumeType = \<lparr> api_brt_ResourceType = ''volume'', api_brt_Attributes =
     [attrOf ''number'' ''size'', attrOf ''boolean'' ''bootable'', attrOf ''string'' ''type'', attrOf ''string'' ''status'',
      attrOf ''string'' ''availability_zone'', attrOf ''string'' ''display_name''] \<rparr>"

definition floatingIPType :: APIBillingResourceType where
  "floatingIPType = \<lparr> api_brt_ResourceType = ''floating_ip'', api_brt_Attributes =
     [attrOf ''string'' ''status'', attrOf ''string'' ''floating_network_id'', attrOf ''string'' ''display_name''] \<rparr>"

definition loadBalancerType :: APIBillingResourceType where
  "loadBalancerType = \<lparr> api_brt_ResourceType = ''load_balancer'', api_brt_Attributes =
     [attrOf ''string'' ''flavor_id'', attrOf ''string'' ''display_name'', attrOf ''string'' ''operating_status''] \<rparr>"

definition kubernetesClusterType :: APIBillingResourceType where
  "kubernetesClusterType = \<lparr> api_brt_ResourceType = ''kubernetes_cluster'', api_brt_Attributes =
     [attrOf ''string'' ''display_name'', attrOf ''string'' ''version'', attrOf ''string'' ''status'', attrOf ''string'' ''endpoint'',
      attrOf ''number'' ''cp_replicas'', attrOf ''number'' ''node_groups''] \<rparr>"

definition databaseClusterType :: APIBillingResourceType where
  "databaseClusterType = \<lparr> api_brt_ResourceType = ''database_cluster'', api_brt_Attributes =
     [attrOf ''string'' ''display_name'', attrOf ''string'' ''engine'', attrOf ''string'' ''version'', attrOf ''string'' ''status'',
      attrOf ''string'' ''endpoint'', attrOf ''number'' ''replicas'', attrOf ''number'' ''vcpus_total'',
      attrOf ''number'' ''ram_gb_total'', attrOf ''number'' ''storage_gb_total'', attrOf ''number'' ''autoscale_enabled'',
      attrOf ''number'' ''read_endpoint_lb''] \<rparr>"

definition bucketType :: APIBillingResourceType where
  "bucketType = \<lparr> api_brt_ResourceType = ''bucket'', api_brt_Attributes =
     [attrOf ''string'' ''display_name'', attrOf ''number'' ''size_gb'', attrOf ''number'' ''object_count''] \<rparr>"

definition Catalog :: "APIBillingResourceType option list" where
  "Catalog = map Some [instanceType, instanceTrafficType, volumeType, floatingIPType, loadBalancerType,
     kubernetesClusterType, databaseClusterType, bucketType]"

section \<open>Providers\<close>

definition resourceOf :: "CloudResource \<Rightarrow> string \<Rightarrow> string \<Rightarrow> attrs \<Rightarrow> APIBillingResourceType \<Rightarrow> bool \<Rightarrow> APIBillingResource" where
  "resourceOf cr rid rt values t notEligible = \<lparr> api_br_ResourceID = rid, api_br_ProjectID = cr_ProjectID cr,
     api_br_ResourceType = rt, api_br_CreatedAt = None, api_br_DeletedAt = None, api_br_DisplayPrice = False,
     api_br_Values = values, api_br_NotEligibleForBilling = notEligible, api_br_BillingResourceType = Some t \<rparr>"

definition serverNotEligibleStatuses :: "string list" where
  "serverNotEligibleStatuses = [''DELETED'', ''ERROR'', ''UNKNOWN'', ''BUILD'']"

definition instanceBR :: "declib \<Rightarrow> CloudResource \<Rightarrow> bool \<Rightarrow> APIBillingResource option res" where
  "instanceBR L cr notEligible = (case mapAt (cr_Data cr) ''server'' of None \<Rightarrow> Inr None
     | Some server \<Rightarrow>
       (let flavor = (case mapAt server ''flavor'' of None \<Rightarrow> [] | Some f \<Rightarrow> f);
            rootDisk = (if ServerIsVolumeBacked (cr_Data cr) then AnyInt 0 else anyOf L (jget flavor ''disk''));
            (gpuModel, gpuCount) = GPUFromFlavor (jget flavor ''extra_specs'');
            values =
              [(''instance_type'', AnyString (jstr (jget (cr_Data cr) ''flavorName''))), (''ram_mb'', anyOf L (jget flavor ''ram'')),
               (''vcpus'', anyOf L (jget flavor ''vcpus'')), (''root_disk_gb'', rootDisk),
               (''display_name'', anyOf L (jget server ''name'')), (''host'', anyOf L (jget server ''host'')),
               (''status'', anyOf L (jget server ''status'')), (''is_bareMetal'', AnyBool False),
               (''availability_zone'', anyOf L (jget server ''availabilityZone'')),
               (''gpu_model'', AnyString gpuModel), (''gpu_count'', AnyInt gpuCount)];
            values = (case mapAt server ''image'' of None \<Rightarrow> values
              | Some img \<Rightarrow> setVal ''image'' (anyOf L (jget img ''id'')) values) in
        bindR (case toDec L (jget flavor ''ram'') of None \<Rightarrow> Inr values
            | Some ramMB \<Rightarrow> (case d_div_round L ramMB (d_of_int L 1024) 2 of
                None \<Rightarrow> Inl (Panic ''decimal division by 0'') | Some gb \<Rightarrow> Inr (setVal ''ram_gb'' (AnyDecimal gb) values)))
          (\<lambda>values. Inr (Some (resourceOf cr (cr_ID cr) ''instance'' values instanceType notEligible)))))"

definition FindForCurrentMonth :: "string \<Rightarrow> time \<Rightarrow> GnocchiMetrics option svc" where
  "FindForCurrentMonth resourceID cycleStart = dbFindOne metricsC (\<lambda>m. gm_ResourceID m = resourceID \<and>
     (case gm_BillingCycle m of None \<Rightarrow> False
      | Some c \<Rightarrow> (case cycle_StartDate c of None \<Rightarrow> False | Some s \<Rightarrow> cycleStart \<le> s)))"

definition trafficBR :: "CloudResource \<Rightarrow> APIBillingResource option svc" where
  "trafficBR cr = bnd timeNow (\<lambda>now. bnd (FindForCurrentMonth (cr_ID cr) (firstDayOfCurrentMonth now)) (\<lambda>m.
     case m of None \<Rightarrow> ret None
     | Some m \<Rightarrow> (case gm_Details m of None \<Rightarrow> ret None
       | Some d \<Rightarrow>
         (let dn = (case mapAt (cr_Data cr) ''server'' of None \<Rightarrow> cr_ExternalID cr
               | Some server \<Rightarrow> (let n = jstr (jget server ''name'') in if n \<noteq> '''' then n else cr_ExternalID cr));
              values =
                [(''incoming_private_traffic_mb'', AnyDecimal (gd_IncomingPrivateTrafficMb d)),
                 (''outgoing_private_traffic_mb'', AnyDecimal (gd_OutgoingPrivateTrafficMb d)),
                 (''incoming_public_traffic_mb'', AnyDecimal (gd_IncomingPublicTrafficMb d)),
                 (''outgoing_public_traffic_mb'', AnyDecimal (gd_OutgoingPublicTrafficMb d)),
                 (''total_public_traffic_mb'', AnyDecimal (gd_TotalPublicTrafficMb d)),
                 (''total_private_traffic_mb'', AnyDecimal (gd_TotalPrivateTrafficMb d)),
                 (''total_traffic_mb'', AnyDecimal (gd_TotalTrafficMb d)),
                 (''display_name'', AnyString dn)] in
          ret (Some (resourceOf cr (''instance_traffic-'' @ cr_ID cr) ''instance_traffic'' values instanceTrafficType False))))))"

definition serverProvider :: "declib \<Rightarrow> APIBillingContext \<Rightarrow> CloudResource \<Rightarrow> APIBillingResource option list svc" where
  "serverProvider L bc cr =
     (let notEligible = (case mapAt (cr_Data cr) ''server'' of None \<Rightarrow> False
            | Some server \<Rightarrow> jstr (jget server ''status'') \<in> set serverNotEligibleStatuses) in
      bnd (liftR (instanceBR L cr notEligible)) (\<lambda>inst.
        let out = (case inst of None \<Rightarrow> [] | Some b \<Rightarrow> [Some b]) in
        if notEligible then ret out
        else bnd (trafficBR cr) (\<lambda>tr. ret (case tr of None \<Rightarrow> out | Some b \<Rightarrow> out @ [Some b]))))"

definition volumeNotEligibleStatuses :: "string list" where
  "volumeNotEligibleStatuses = [''error'', ''deleting'', ''creating'', ''error_deleting'']"

definition volumeProvider :: "declib \<Rightarrow> APIBillingContext \<Rightarrow> CloudResource \<Rightarrow> APIBillingResource option list svc" where
  "volumeProvider L bc cr = (case mapAt (cr_Data cr) ''volume'' of None \<Rightarrow> ret []
     | Some vol \<Rightarrow>
       (let name = jstr (jget vol ''name'');
            dn = (if name = '''' then ''volume-'' @ sprint L (jget vol ''size'') @ ''gb-'' @ sprint L (jget vol ''volume_type'') else name);
            values = [(''size'', anyOf L (jget vol ''size'')), (''bootable'', anyOf L (jget vol ''bootable'')),
              (''type'', anyOf L (jget vol ''volume_type'')), (''status'', anyOf L (jget vol ''status'')),
              (''availability_zone'', anyOf L (jget vol ''availability_zone'')), (''display_name'', AnyString dn)] in
        ret [Some (resourceOf cr (cr_ID cr) ''volume'' values volumeType
          (toLower (jstr (jget vol ''status'')) \<in> set volumeNotEligibleStatuses))]))"

definition floatingIPProvider :: "declib \<Rightarrow> APIBillingContext \<Rightarrow> CloudResource \<Rightarrow> APIBillingResource option list svc" where
  "floatingIPProvider L bc cr =
     (let values = [(''display_name'', AnyString (''floating-ip-'' @ cr_ExternalID cr))];
          values = (case mapAt (cr_Data cr) ''floatingIp'' of None \<Rightarrow> values
            | Some fip \<Rightarrow> setVal ''floating_network_id'' (anyOf L (jget fip ''floating_network_id''))
                (setVal ''status'' (anyOf L (jget fip ''status'')) values)) in
      ret [Some (resourceOf cr (cr_ID cr) ''floating_ip'' values floatingIPType False)])"

definition loadBalancerProvider :: "declib \<Rightarrow> APIBillingContext \<Rightarrow> CloudResource \<Rightarrow> APIBillingResource option list svc" where
  "loadBalancerProvider L bc cr =
     (let (values, notEligible) = (case mapAt (cr_Data cr) ''loadBalancer'' of None \<Rightarrow> ([], False)
            | Some lb \<Rightarrow> ([(''flavor_id'', anyOf L (jget lb ''flavor_id'')), (''display_name'', anyOf L (jget lb ''name'')),
                  (''operating_status'', anyOf L (jget lb ''operating_status''))],
                jstr (jget lb ''operating_status'') = ''ERROR'')) in
      ret [Some (resourceOf cr (cr_ID cr) ''load_balancer'' values loadBalancerType notEligible)])"

definition kubernetesClusterProvider :: "declib \<Rightarrow> APIBillingContext \<Rightarrow> CloudResource \<Rightarrow> APIBillingResource option list svc" where
  "kubernetesClusterProvider L bc cr =
     (let (values, notEligible) = (case mapAt (cr_Data cr) ''cluster'' of None \<Rightarrow> ([], True)
            | Some c \<Rightarrow>
              (let values = [(''display_name'', anyOf L (jget c ''name'')), (''version'', anyOf L (jget c ''version'')),
                     (''status'', anyOf L (jget c ''status'')), (''cp_replicas'', anyOf L (jget c ''cp_replicas''))];
                   values = (case jget c ''node_groups'' of JArray groups \<Rightarrow> setVal ''node_groups'' (AnyInt (int (length groups))) values
                     | _ \<Rightarrow> values);
                   endpoint = jstr (jget c ''endpoint'') in
               (setVal ''endpoint'' (AnyString endpoint) values, endpoint = ''''))) in
      ret [Some (resourceOf cr (cr_ID cr) ''kubernetes_cluster'' values kubernetesClusterType notEligible)])"

text \<open>\<open>databasecluster.go\<close> reads numbers with \<open>num\<close>, which agrees with \<open>numOf\<close> on decoded values.\<close>

definition databaseClusterProvider :: "declib \<Rightarrow> APIBillingContext \<Rightarrow> CloudResource \<Rightarrow> APIBillingResource option list svc" where
  "databaseClusterProvider L bc cr =
     (let (values, notEligible) = (case mapAt (cr_Data cr) ''database'' of None \<Rightarrow> ([], True)
            | Some d \<Rightarrow>
              (let r = numOf (jget d ''replicas'');
                   replicas = (if f64_lt_rat r 1 then f64_of_int 1 else r);
                   readLB = f64_of_int (if jget d ''read_endpoint_lb'' = JLeaf (AnyBool True) then 1 else 0);
                   endpoint = jstr (jget d ''endpoint'') in
               ([(''display_name'', anyOf L (jget d ''name'')), (''engine'', anyOf L (jget d ''engine'')),
                 (''version'', anyOf L (jget d ''version'')), (''status'', anyOf L (jget d ''status'')),
                 (''replicas'', anyOf L (jget d ''replicas'')),
                 (''vcpus_total'', AnyFloat64 (f64_mul (numOf (jget d ''cpu'')) replicas)),
                 (''ram_gb_total'', AnyFloat64 (f64_mul (numOf (jget d ''memory_gib'')) replicas)),
                 (''storage_gb_total'', AnyFloat64 (f64_mul (numOf (jget d ''storage_gib'')) replicas)),
                 (''autoscale_enabled'', AnyFloat64 (numOf (jget d ''autoscale_enabled''))),
                 (''read_endpoint_lb'', AnyFloat64 readLB), (''endpoint'', AnyString endpoint)],
                endpoint = ''''))) in
      ret [Some (resourceOf cr (cr_ID cr) ''database_cluster'' values databaseClusterType notEligible)])"

definition sizeGB :: "json \<Rightarrow> 64 word" where
  "sizeGB v = (let b = numOf v in if f64_le_rat b 0 then f64_of_int 0 else f64_ceil (f64_div b (f64_of_int (2 ^ 30))))"

definition bucketProvider :: "declib \<Rightarrow> APIBillingContext \<Rightarrow> CloudResource \<Rightarrow> APIBillingResource option list svc" where
  "bucketProvider L bc cr =
     (let n = jstr (jget (cr_Data cr) ''bucketName''); name = (if n = '''' then cr_ExternalID cr else n);
          values = [(''display_name'', AnyString name), (''size_gb'', AnyFloat64 (sizeGB (jget (cr_Data cr) ''sizeInBytes''))),
            (''object_count'', AnyFloat64 (numOf (jget (cr_Data cr) ''objectCount'')))] in
      ret [Some (resourceOf cr (cr_ID cr) ''bucket'' values bucketType False)])"

section \<open>Dispatch\<close>

type_synonym provider = "APIBillingContext \<Rightarrow> CloudResource \<Rightarrow> APIBillingResource option list svc"

definition defaultRegistry :: "declib \<Rightarrow> (string \<times> provider) list" where
  "defaultRegistry L = [(''SERVER'', serverProvider L), (''VOLUME'', volumeProvider L), (''FLOATING_IP'', floatingIPProvider L),
     (''LOAD_BALANCER'', loadBalancerProvider L), (''KUBERNETES_CLUSTER'', kubernetesClusterProvider L),
     (''DATABASE_CLUSTER'', databaseClusterProvider L), (''BUCKET'', bucketProvider L)]"

definition ensureStringAttr :: "APIBillingResourceType \<Rightarrow> string \<Rightarrow> APIBillingResourceType" where
  "ensureStringAttr t name = (if name \<in> set (map api_ra_Name (api_brt_Attributes t)) then t
     else t \<lparr> api_brt_Attributes := api_brt_Attributes t @ [attrOf ''string'' name] \<rparr>)"

definition stampOne :: "CloudResource \<Rightarrow> APIBillingResource \<Rightarrow> APIBillingResource" where
  "stampOne cr b =
     (let created = (case cr_Info cr of Some i \<Rightarrow> (case info_CreatedAt i of Some c \<Rightarrow> Some c | None \<Rightarrow> cr_CreatedAt cr)
            | None \<Rightarrow> cr_CreatedAt cr);
          b = (case created of None \<Rightarrow> b
            | Some c \<Rightarrow> b \<lparr> api_br_Values := setVal ''createdAt'' (AnyOther (timeString c)) (api_br_Values b), api_br_CreatedAt := created \<rparr>) in
      case api_br_BillingResourceType b of None \<Rightarrow> b
      | Some t \<Rightarrow> b \<lparr> api_br_BillingResourceType := Some (ensureStringAttr (ensureStringAttr t ''region'') ''service_id''),
          api_br_Values := setVal ''service_id'' (AnyString (cr_ServiceID cr))
            (setVal ''region'' (AnyString (cr_Region cr)) (api_br_Values b)) \<rparr>)"

definition stampResourceValues :: "APIBillingResource option list \<Rightarrow> CloudResource \<Rightarrow> APIBillingResource option list" where
  "stampResourceValues brs cr = map (map_option (stampOne cr)) brs"

definition FindByProjectAndService :: "string \<Rightarrow> string \<Rightarrow> CloudResource list svc" where
  "FindByProjectAndService projectID serviceID =
     dbFind cloudResourcesC (\<lambda>r. cr_ProjectID r = projectID \<and> cr_ServiceID r = serviceID)"

definition billResource :: "(string \<times> provider) list \<Rightarrow> APIBillingContext \<Rightarrow> CloudResource \<Rightarrow>
    APIBillingResource option list \<Rightarrow> APIBillingResource option list svc" where
  "billResource registry bc cr out = (case map_of registry (cr_Type cr) of None \<Rightarrow> ret out
     | Some p \<Rightarrow> bnd (p bc cr) (\<lambda>brs. ret (out @ stampResourceValues brs cr)))"

definition GetBillingResources :: "(string \<times> provider) list \<Rightarrow> string \<Rightarrow> string \<Rightarrow> APIBillingContext \<Rightarrow>
    APIBillingResource option list svc" where
  "GetBillingResources registry projectID serviceID bc = bnd (FindByProjectAndService projectID serviceID) (\<lambda>resources.
     forS (billResource registry bc) resources [])"

section \<open>What a provider promises\<close>

text \<open>
  A provider only reads, bills for the resource's own project and fills no attribute that the
  type it hands out does not declare: the engine aborts the whole run on an undeclared one.
\<close>

definition attrNames :: "APIBillingResourceType \<Rightarrow> string set" where
  "attrNames t = set (map api_ra_Name (api_brt_Attributes t))"

definition declares :: "CloudResource \<Rightarrow> APIBillingResource \<Rightarrow> bool" where
  "declares cr r \<longleftrightarrow> api_br_ProjectID r = cr_ProjectID cr \<and> (\<exists>t. api_br_BillingResourceType r = Some t \<and>
     distinct (map fst (api_br_Values r)) \<and> fst ` set (api_br_Values r) \<subseteq> attrNames t)"

definition stamped :: "CloudResource \<Rightarrow> APIBillingResource \<Rightarrow> bool" where
  "stamped cr r \<longleftrightarrow> api_br_ProjectID r = cr_ProjectID cr \<and> (\<exists>t. api_br_BillingResourceType r = Some t \<and>
     distinct (map fst (api_br_Values r)) \<and> fst ` set (api_br_Values r) \<subseteq> insert ''createdAt'' (attrNames t) \<and>
     ''region'' \<in> attrNames t \<and> ''service_id'' \<in> attrNames t \<and>
     map_of (api_br_Values r) ''region'' = Some (AnyString (cr_Region cr)) \<and>
     map_of (api_br_Values r) ''service_id'' = Some (AnyString (cr_ServiceID cr)))"

lemma attrNames_ensure: "attrNames (ensureStringAttr t n) = insert n (attrNames t)"
  by (auto simp: ensureStringAttr_def attrNames_def attrOf_def)

lemma setVal_keys: "fst ` set (setVal k v m) = insert k (fst ` set m)"
  by (simp add: setVal_def dom_update flip: dom_map_of_conv_image_fst) (simp add: update_conv')

lemma setVal_distinct: "distinct (map fst m) \<Longrightarrow> distinct (map fst (setVal k v m))"
  by (simp add: setVal_def distinct_update)

lemma setVal_get: "map_of (setVal k v m) k' = (if k' = k then Some v else map_of m k')"
  by (simp add: setVal_def update_conv)

lemma stampOne_stamped:
  assumes "declares cr r" shows "stamped cr (stampOne cr r)"
proof -
  from assms obtain t where r: "api_br_ProjectID r = cr_ProjectID cr" "api_br_BillingResourceType r = Some t"
    "distinct (map fst (api_br_Values r))" "fst ` set (api_br_Values r) \<subseteq> attrNames t"
    by (auto simp: declares_def)
  then show ?thesis
    by (auto simp: stamped_def stampOne_def Let_def attrNames_ensure setVal_keys setVal_get intro!: setVal_distinct split: option.splits)
qed

locale billing_provider =
  fixes p :: provider
  assumes emits: "p bc cr w = (Inr brs, w') \<Longrightarrow> b \<in> set brs \<Longrightarrow> \<exists>r. b = Some r \<and> declares cr r"
    and reads_only: "quiet (p bc cr)"
begin

lemma emits_stamped:
  "p bc cr w = (Inr brs, w') \<Longrightarrow> b \<in> set (stampResourceValues brs cr) \<Longrightarrow> \<exists>r. b = Some r \<and> stamped cr r"
  by (auto simp: stampResourceValues_def dest!: emits intro: stampOne_stamped)

end

lemmas declared_types = instanceType_def instanceTrafficType_def volumeType_def floatingIPType_def loadBalancerType_def
  kubernetesClusterType_def databaseClusterType_def bucketType_def attrOf_def usageAttr_def

lemma declares_resourceOf:
  "declares cr (resourceOf cr rid rt values t ne) \<longleftrightarrow> distinct (map fst values) \<and> fst ` set values \<subseteq> attrNames t"
  by (auto simp: declares_def resourceOf_def)

lemma quiet_trafficBR [quiet_intros]: "quiet (trafficBR cr)"
  unfolding trafficBR_def FindForCurrentMonth_def Let_def by (intro quiet_intros)

lemma instanceBR_declares: "instanceBR L cr ne = Inr (Some r) \<Longrightarrow> declares cr r"
  by (auto simp: instanceBR_def Let_def bindR_eq_Inr setVal_keys declares_resourceOf attrNames_def declared_types
      intro!: setVal_distinct split: option.splits prod.splits)

lemma trafficBR_declares: "trafficBR cr w = (Inr (Some r), w') \<Longrightarrow> declares cr r"
  by (auto simp: trafficBR_def Let_def svc_simps declares_resourceOf attrNames_def declared_types split: option.splits)

interpretation server: billing_provider "serverProvider L"
proof unfold_locales
  show "\<exists>r. b = Some r \<and> declares cr r" if "serverProvider L bc cr w = (Inr brs, w')" "b \<in> set brs" for bc cr w brs w' b
    using that by (auto simp: serverProvider_def Let_def svc_simps instanceBR_declares dest!: trafficBR_declares split: if_splits option.splits)
  show "quiet (serverProvider L bc cr)" for bc cr
    unfolding serverProvider_def Let_def by (intro quiet_intros)
qed

interpretation volume: billing_provider "volumeProvider L"
  by unfold_locales (auto simp: volumeProvider_def Let_def svc_simps declares_resourceOf attrNames_def declared_types
      intro!: quiet_intros split: option.splits)

interpretation floating_ip: billing_provider "floatingIPProvider L"
  by unfold_locales (auto simp: floatingIPProvider_def Let_def svc_simps declares_resourceOf attrNames_def declared_types setVal_keys
      intro!: quiet_intros setVal_distinct split: option.splits)

interpretation load_balancer: billing_provider "loadBalancerProvider L"
  by unfold_locales (auto simp: loadBalancerProvider_def Let_def svc_simps declares_resourceOf attrNames_def declared_types
      intro!: quiet_intros split: option.splits)

interpretation kubernetes: billing_provider "kubernetesClusterProvider L"
  by unfold_locales (auto simp: kubernetesClusterProvider_def Let_def svc_simps declares_resourceOf attrNames_def declared_types setVal_keys
      intro!: quiet_intros setVal_distinct split: option.splits json.splits)

interpretation database: billing_provider "databaseClusterProvider L"
  by unfold_locales (auto simp: databaseClusterProvider_def Let_def svc_simps declares_resourceOf attrNames_def declared_types
      intro!: quiet_intros split: option.splits)

interpretation bucket: billing_provider "bucketProvider L"
  by unfold_locales (auto simp: bucketProvider_def Let_def svc_simps declares_resourceOf attrNames_def declared_types
      intro!: quiet_intros)

lemma default_providers: "map_of (defaultRegistry L) t = Some p \<Longrightarrow> billing_provider p"
  using server.billing_provider_axioms volume.billing_provider_axioms floating_ip.billing_provider_axioms
    load_balancer.billing_provider_axioms kubernetes.billing_provider_axioms database.billing_provider_axioms
    bucket.billing_provider_axioms
  by (auto simp: defaultRegistry_def split: if_splits)

section \<open>The dispatch over a registry\<close>

lemma forS_invariant:
  assumes "forS f xs acc w = (Inr acc', w')" and "I acc"
    and "\<And>x a v a' v'. x \<in> set xs \<Longrightarrow> I a \<Longrightarrow> f x a v = (Inr a', v') \<Longrightarrow> I a'"
  shows "I acc'"
  using assms
proof (induction xs arbitrary: acc w)
  case (Cons x xs)
  from Cons.prems(1) obtain a w1 where a: "f x acc w = (Inr a, w1)" "forS f xs a w1 = (Inr acc', w')"
    by (auto simp: svc_simps)
  have "I a" by (rule Cons.prems(3) [OF _ Cons.prems(2) a(1)]) simp
  show ?case by (rule Cons.IH [OF a(2) \<open>I a\<close>]) (rule Cons.prems(3), simp_all)
qed (simp add: svc_simps)

locale billing_registry =
  fixes registry :: "(string \<times> provider) list"
  assumes providers: "map_of registry t = Some p \<Longrightarrow> billing_provider p"
begin

lemma quiet_GetBillingResources [quiet_intros]: "quiet (GetBillingResources registry pid sid bc)"
  unfolding GetBillingResources_def FindByProjectAndService_def billResource_def
  by (intro quiet_intros billing_provider.reads_only providers)

lemma dispatched:
  assumes "GetBillingResources registry pid sid bc w = (Inr out, w')" and "b \<in> set out"
  shows "\<exists>cr r. cr \<in> set (storeFind (\<lambda>r. cr_ProjectID r = pid \<and> cr_ServiceID r = sid) (view cloudResourcesC w)) \<and>
    b = Some r \<and> stamped cr r"
proof -
  from assms(1) obtain rs w1 where rs: "FindByProjectAndService pid sid w = (Inr rs, w1)"
    and loop: "forS (billResource registry bc) rs [] w1 = (Inr out, w')"
    by (auto simp: GetBillingResources_def svc_simps)
  have src: "rs = storeFind (\<lambda>r. cr_ProjectID r = pid \<and> cr_ServiceID r = sid) (view cloudResourcesC w)"
    using rs by (auto simp: FindByProjectAndService_def dest!: cloudResources.find_run)
  have "\<forall>b\<in>set out. \<exists>cr r. cr \<in> set rs \<and> b = Some r \<and> stamped cr r"
    using loop
  proof (rule forS_invariant)
    fix cr a v a' v'
    assume cr: "cr \<in> set rs" and I: "\<forall>b\<in>set a. \<exists>cr r. cr \<in> set rs \<and> b = Some r \<and> stamped cr r"
      and step: "billResource registry bc cr a v = (Inr a', v')"
    show "\<forall>b\<in>set a'. \<exists>cr r. cr \<in> set rs \<and> b = Some r \<and> stamped cr r"
    proof (cases "map_of registry (cr_Type cr)")
      case None
      with step I show ?thesis by (simp add: billResource_def svc_simps)
    next
      case (Some p)
      with step obtain brs v1 where p: "p bc cr v = (Inr brs, v1)" and a': "a' = a @ stampResourceValues brs cr"
        by (auto simp: billResource_def svc_simps)
      from billing_provider.emits_stamped [OF providers [OF Some] p] I cr show ?thesis unfolding a' by auto
    qed
  qed simp
  with assms(2) src show ?thesis by blast
qed

end

interpretation default_registry: billing_registry "defaultRegistry L"
  by (rule billing_registry.intro) (rule default_providers)

text \<open>A cached floating IP, for the example below.\<close>

definition ex_fip :: CloudResource where
  "ex_fip = \<lparr> cr_ID = ''r1'', cr_ProjectID = ''p1'', cr_UserID = '''', cr_ExternalID = ''e1'', cr_ServiceID = ''s1'',
     cr_Type = ''FLOATING_IP'', cr_PricePlan = JLeaf AnyNil, cr_Region = ''eu-1'', cr_AvailabilityZone = '''',
     cr_Data = [(''floatingIp'', JObject [(''status'', JLeaf (AnyString ''ACTIVE''))])], cr_EphemeralData = [],
     cr_CreatedAt = Some 0, cr_UpdatedAt = None, cr_Info = None \<rparr>"

definition ex_cloud :: world where
  "ex_cloud = ex_world \<lparr> w_cloudResources := [(''r1'', ex_fip)] \<rparr>"

lemma ex_cloud_run: "\<exists>r. GetBillingResources (defaultRegistry ref_lib) ''p1'' ''s1'' \<lparr> api_bc_TimeUnitLimits = [] \<rparr> ex_cloud = (Inr [Some r], ex_cloud)"
  by (simp add: GetBillingResources_def FindByProjectAndService_def dbFind_def db_def bnd_def ret_def ex_cloud_def ex_world_def
      storeFind_def view_def cloudResourcesC_def ex_fip_def billResource_def defaultRegistry_def floatingIPProvider_def
      stampResourceValues_def mapAt_def Let_def)

text \<open>
  C30. Every resource that the billing pass gathers for a project and service carries a declared
  type, bills that project, and has a value only for attributes the type declares (and the
  creation time); region and service id are always declared and filled from the cached resource,
  so that a price rule filtering on them finds a declared attribute.
\<close>

theorem billing_values_declared:
  assumes "GetBillingResources (defaultRegistry L) pid sid bc w = (Inr out, w')" and "b \<in> set out"
  shows "\<exists>cr r t. cr \<in> set (storeFind (\<lambda>r. cr_ProjectID r = pid \<and> cr_ServiceID r = sid) (view cloudResourcesC w)) \<and>
    b = Some r \<and> api_br_ProjectID r = pid \<and> api_br_BillingResourceType r = Some t \<and>
    distinct (map fst (api_br_Values r)) \<and>
    fst ` set (api_br_Values r) \<subseteq> insert ''createdAt'' (set (map api_ra_Name (api_brt_Attributes t))) \<and>
    {''region'', ''service_id''} \<subseteq> set (map api_ra_Name (api_brt_Attributes t)) \<and>
    map_of (api_br_Values r) ''region'' = Some (AnyString (cr_Region cr)) \<and>
    map_of (api_br_Values r) ''service_id'' = Some (AnyString sid)"
proof -
  from default_registry.dispatched [OF assms] obtain cr r where
    cr: "cr \<in> set (storeFind (\<lambda>r. cr_ProjectID r = pid \<and> cr_ServiceID r = sid) (view cloudResourcesC w))"
    and b: "b = Some r" and st: "stamped cr r" by blast
  from cr have "cr_ProjectID cr = pid" "cr_ServiceID cr = sid" by (auto simp: storeFind_def)
  with st obtain t where "api_br_ProjectID r = pid" "api_br_BillingResourceType r = Some t" "distinct (map fst (api_br_Values r))"
    "fst ` set (api_br_Values r) \<subseteq> insert ''createdAt'' (attrNames t)" "{''region'', ''service_id''} \<subseteq> attrNames t"
    "map_of (api_br_Values r) ''region'' = Some (AnyString (cr_Region cr))"
    "map_of (api_br_Values r) ''service_id'' = Some (AnyString sid)"
    unfolding stamped_def by blast
  with cr b show ?thesis unfolding attrNames_def by blast
qed

theorem billing_values_declared_witness:
  "\<exists>r t. fst (GetBillingResources (defaultRegistry ref_lib) ''p1'' ''s1'' \<lparr> api_bc_TimeUnitLimits = [] \<rparr> ex_cloud) = Inr [Some r] \<and>
    api_br_BillingResourceType r = Some t \<and> ''region'' \<in> set (map api_ra_Name (api_brt_Attributes t)) \<and>
    map_of (api_br_Values r) ''service_id'' = Some (AnyString ''s1'')"
proof -
  from ex_cloud_run obtain r where run: "GetBillingResources (defaultRegistry ref_lib) ''p1'' ''s1'' \<lparr> api_bc_TimeUnitLimits = [] \<rparr> ex_cloud
      = (Inr [Some r], ex_cloud)" by blast
  have "Some r \<in> set [Some r]" by simp
  from billing_values_declared [OF run this] run show ?thesis by auto
qed

section \<open>Bucket sizes\<close>

lemma f64_div_pow30:
  assumes "f64_finite b" and "1 \<le> f64_val b"
  shows "f64_finite (f64_div b (f64_of_int (2 ^ 30))) \<and> f64_val (f64_div b (f64_of_int (2 ^ 30))) = f64_val b / 2 ^ 30"
proof -
  let ?g = "f64_of_int (2 ^ 30)"
  have g: "f64_finite ?g" "f64_val ?g = 2 ^ 30" using f64_of_int_finite [of "2 ^ 30"] f64_of_int_val [of "2 ^ 30"] by simp_all
  have gn: "\<not> f64_neg ?g" using f64_of_exact(3) [OF f64_exact_int [of "2 ^ 30"], of False] by (simp add: f64_of_int_def)
  have g0: "f64_bits ?g \<noteq> 0" using g(2) by (auto simp: f64_val_def f64_mag_def split: if_splits)
  have nn: "\<not> f64_nan b" "\<not> f64_nan ?g" using assms(1) g(1) by (auto simp: f64_nan_def f64_finite_def)
  have bn: "\<not> f64_neg b"
    using assms f64_mag_exact(2) [of "f64_bits b"] by (auto simp: f64_val_def f64_finite_def f64_bits_def)
  have "f64_exact (f64_val b / 2 ^ 30)" using f64_exact_shift f64_val_exact [OF assms(1)] assms(2) by simp
  from f64_of_exact [OF this, of False] show ?thesis
    using assms g gn g0 nn bn by (simp add: f64_div_def Let_def)
qed

text \<open>
  The billed size of a bucket of at least one byte is exactly its size in GiB rounded up:
  no floating-point error enters, and a non-empty bucket is billed for at least one unit.
\<close>

lemma bucket_size_rounds_up:
  assumes "numOf v = b" and "f64_finite b" and "1 \<le> f64_val b"
  shows "f64_val (sizeGB v) = of_int \<lceil>f64_val b / 2 ^ 30\<rceil> \<and> 1 \<le> f64_val (sizeGB v)"
proof -
  note d = f64_div_pow30 [OF assms(2,3)]
  have "sizeGB v = f64_ceil (f64_div b (f64_of_int (2 ^ 30)))"
    using assms by (simp add: sizeGB_def f64_le_rat_def)
  moreover have "f64_val (f64_ceil (f64_div b (f64_of_int (2 ^ 30)))) = of_int \<lceil>f64_val (f64_div b (f64_of_int (2 ^ 30)))\<rceil>"
    by (rule f64_ceil_val) (use d assms(3) in auto)
  ultimately have "f64_val (sizeGB v) = of_int \<lceil>f64_val b / 2 ^ 30\<rceil>" using d by (simp only:)
  moreover have "1 \<le> \<lceil>f64_val b / 2 ^ 30\<rceil>" using assms(3) by (simp add: one_le_ceiling)
  ultimately show ?thesis by simp
qed

end
