(* ===== verification/Service_Logic.thy ===== *)
theory Service_Logic
  imports Service_World
begin

text \<open>
  A small program logic for service calls. \<open>triple P m Q E\<close> says that from a world satisfying
  \<open>P\<close> the call ends, if it returns a value, in a world satisfying \<open>Q\<close> for that value, and if it
  fails (an error or a panic, wherever it is raised) in a world satisfying \<open>E\<close>. The rules follow the
  structure of a call; assertions about the tables alone are carried through every call that
  only reads.
\<close>

definition triple :: "(world \<Rightarrow> bool) \<Rightarrow> 'a svc \<Rightarrow> ('a \<Rightarrow> world \<Rightarrow> bool) \<Rightarrow> (world \<Rightarrow> bool) \<Rightarrow> bool" where
  "triple P m Q E \<longleftrightarrow> (\<forall>w r w'. P w \<longrightarrow> m w = (r, w') \<longrightarrow> (case r of Inl e \<Rightarrow> E w' | Inr x \<Rightarrow> Q x w'))"

lemma tripleI: "(\<And>w r w'. P w \<Longrightarrow> m w = (r, w') \<Longrightarrow> (case r of Inl e \<Rightarrow> E w' | Inr x \<Rightarrow> Q x w')) \<Longrightarrow> triple P m Q E"
  unfolding triple_def by blast

lemma tripleD: "triple P m Q E \<Longrightarrow> P w \<Longrightarrow> m w = (r, w') \<Longrightarrow> (case r of Inl e \<Rightarrow> E w' | Inr x \<Rightarrow> Q x w')"
  unfolding triple_def by blast

lemma triple_conseq:
  "triple P m Q E \<Longrightarrow> (\<And>w. P' w \<Longrightarrow> P w) \<Longrightarrow> (\<And>x w. Q x w \<Longrightarrow> Q' x w) \<Longrightarrow> (\<And>w. E w \<Longrightarrow> E' w) \<Longrightarrow> triple P' m Q' E'"
  unfolding triple_def by (fastforce split: sum.splits)

lemma triple_pre: "triple P m Q E \<Longrightarrow> (\<And>w. P' w \<Longrightarrow> P w) \<Longrightarrow> triple P' m Q E"
  by (rule triple_conseq)

text \<open>A precondition that does not mention the world can be assumed; an existential one can be opened.\<close>

lemma triple_fact: "(A \<Longrightarrow> triple P m Q E) \<Longrightarrow> triple (\<lambda>w. A \<and> P w) m Q E"
  unfolding triple_def by blast

lemma triple_ex: "(\<And>y. triple (P y) m Q E) \<Longrightarrow> triple (\<lambda>w. \<exists>y. P y w) m Q E"
  unfolding triple_def by blast

lemma triple_ret: "(\<And>w. P w \<Longrightarrow> Q x w) \<Longrightarrow> triple P (ret x) Q E"
  by (rule tripleI) (auto simp: ret_def)

lemma triple_throw: "(\<And>w. P w \<Longrightarrow> E w) \<Longrightarrow> triple P (throw e) Q E"
  by (rule tripleI) (auto simp: throw_def)

lemma triple_liftR: "(\<And>w x. P w \<Longrightarrow> r = Inr x \<Longrightarrow> Q x w) \<Longrightarrow> (\<And>w. P w \<Longrightarrow> E w) \<Longrightarrow> triple P (liftR r) Q E"
  by (rule tripleI) (auto simp: liftR_def split: sum.splits)

lemma triple_bnd:
  assumes "triple P m R E" and "\<And>x. triple (R x) (f x) Q E" shows "triple P (bnd m f) Q E"
proof (rule tripleI)
  fix w r w'
  assume P: "P w" and run: "bnd m f w = (r, w')"
  obtain r1 w1 where m: "m w = (r1, w1)" by (cases "m w")
  show "case r of Inl e \<Rightarrow> E w' | Inr x \<Rightarrow> Q x w'"
  proof (cases r1)
    case (Inl e)
    then show ?thesis using run m tripleD [OF assms(1) P m] by (auto simp: bnd_def)
  next
    case (Inr x)
    then have "f x w1 = (r, w')" using run m by (simp add: bnd_def)
    then show ?thesis using tripleD [OF assms(2)] tripleD [OF assms(1) P m] Inr by simp
  qed
qed

lemma triple_seq:
  "triple P m R E' \<Longrightarrow> (\<And>w. E' w \<Longrightarrow> E w) \<Longrightarrow> (\<And>x. triple (R x) (f x) Q E) \<Longrightarrow> triple P (bnd m f) Q E"
  by (rule triple_bnd [OF triple_conseq [of P m R E']])

lemma triple_attempt:
  "triple P m Q E \<Longrightarrow> triple P (attempt m) (\<lambda>r w. case r of Inl _ \<Rightarrow> E w | Inr x \<Rightarrow> Q x w) E"
  unfolding triple_def attempt_def by (fastforce split: prod.splits sum.splits error.splits)

lemma triple_forS:
  assumes "\<And>x acc. x \<in> set xs \<Longrightarrow> triple (I acc) (f x acc) I E" and "\<And>w acc. I acc w \<Longrightarrow> E w"
  shows "triple (I acc) (forS f xs acc) I E"
  using assms(1)
proof (induction xs arbitrary: acc)
  case Nil
  show ?case by (simp add: triple_ret)
next
  case (Cons x xs)
  have "triple (I a) (forS f xs a) I E" for a by (rule Cons.IH) (simp add: Cons.prems)
  moreover have "triple (I acc) (f x acc) I E" by (rule Cons.prems) simp
  ultimately show ?case by (simp add: triple_bnd)
qed

lemma triple_if: "(b \<Longrightarrow> triple P m Q E) \<Longrightarrow> (\<not> b \<Longrightarrow> triple P n Q E) \<Longrightarrow> triple P (if b then m else n) Q E"
  by simp

lemma triple_option:
  "(x = None \<Longrightarrow> triple P m Q E) \<Longrightarrow> (\<And>y. x = Some y \<Longrightarrow> triple P (f y) Q E) \<Longrightarrow>
    triple P (case x of None \<Rightarrow> m | Some y \<Rightarrow> f y) Q E"
  by (cases x) auto

text \<open>A call that never panics hides every failure from an \<open>attempt\<close>.\<close>

definition calm :: "'a svc \<Rightarrow> bool" where
  "calm m \<longleftrightarrow> (\<forall>w p w'. m w \<noteq> (Inl (Panic p), w'))"

named_theorems calm_intros

lemma calm_ret [calm_intros]: "calm (ret x)"
  by (simp add: calm_def ret_def)

lemma calm_emit [calm_intros]: "calm (emit e)"
  by (simp add: calm_def emit_def)

lemma calm_timeNow [calm_intros]: "calm timeNow"
  by (simp add: calm_def timeNow_def Let_def split: list.splits)

lemma calm_NewID [calm_intros]: "calm NewID"
  by (auto simp: calm_def NewID_def bnd_def timeNow_def Let_def split: list.splits prod.splits)

lemma calm_bnd [calm_intros]: "calm m \<Longrightarrow> (\<And>x. calm (f x)) \<Longrightarrow> calm (bnd m f)"
  unfolding calm_def bnd_def by (auto split: prod.splits sum.splits)

lemma calm_if [calm_intros]: "(b \<Longrightarrow> calm m) \<Longrightarrow> (\<not> b \<Longrightarrow> calm n) \<Longrightarrow> calm (if b then m else n)"
  by simp

lemma calm_db: "(\<And>w p w'. op w \<noteq> (Inl (Panic p), w')) \<Longrightarrow> calm (db op)"
  by (simp add: calm_def db_def Let_def split: list.splits)

lemma calm_calls [calm_intros]:
  "calm (dbGet c i)" "calm (dbFind c P)" "calm (dbFindOne c P)" "calm (dbReplace c i d)" "calm (dbUpsert c i d)"
  "calm (dbExists c P)" "calm (dbCount c P)" "calm (dbSetByID c i f)" "calm (dbDeleteByID c i)" "calm (dbDeleteMany c P)"
  unfolding dbGet_def dbFind_def dbFindOne_def dbReplace_def dbUpsert_def dbExists_def dbCount_def dbSetByID_def
    dbDeleteByID_def dbDeleteMany_def
  by (auto intro: calm_db)

lemma calm_firsts [calm_intros]: "calm (dbDeleteOne c P)" "calm (dbSetFieldsOne c P f)"
  unfolding dbDeleteOne_def dbSetFieldsOne_def by (auto intro!: calm_db split: option.splits)

lemma calm_insert [calm_intros]: "calm (dbInsertOne c d)"
  unfolding dbInsertOne_def
  by (intro calm_intros calm_db) (auto simp: storeInsertOne_def Let_def split: sum.splits if_splits)

lemma calm_insert_unique [calm_intros]: "calm (dbInsertUnique c K d)"
  using calm_insert [of c d] dbInsertUnique_cases [of c K d] unfolding calm_def by (metis error.distinct(5) sum.inject(1))

lemma calm_throw [calm_intros]: "(\<And>p. e \<noteq> Panic p) \<Longrightarrow> calm (throw e)"
  by (simp add: calm_def throw_def)

lemma calm_option [calm_intros]:
  "(x = None \<Longrightarrow> calm m) \<Longrightarrow> (\<And>y. x = Some y \<Longrightarrow> calm (k y)) \<Longrightarrow> calm (case x of None \<Rightarrow> m | Some y \<Rightarrow> k y)"
  by (cases x) auto

lemma calm_attempt [calm_intros]: "calm m \<Longrightarrow> calm (attempt m)"
  unfolding calm_def attempt_def by (auto split: prod.splits sum.splits error.splits)

lemma calm_forS [calm_intros]: "(\<And>x acc. calm (f x acc)) \<Longrightarrow> calm (forS f xs acc)"
  by (induction xs arbitrary: acc) (auto intro: calm_intros)

lemma triple_attempt_calm:
  "triple P m Q E \<Longrightarrow> calm m \<Longrightarrow> (\<And>x w. Q x w \<Longrightarrow> R w) \<Longrightarrow> (\<And>w. E w \<Longrightarrow> R w) \<Longrightarrow> triple P (attempt m) (\<lambda>_. R) F"
  unfolding triple_def attempt_def calm_def by (fastforce split: prod.splits sum.splits error.splits)

section \<open>Assertions about the tables\<close>

definition tables :: "(world \<Rightarrow> bool) \<Rightarrow> bool" where
  "tables P \<longleftrightarrow> (\<forall>w w'. stored w' = stored w \<longrightarrow> P w \<longrightarrow> P w')"

lemma tablesD: "tables P \<Longrightarrow> stored w' = stored w \<Longrightarrow> P w \<Longrightarrow> P w'"
  unfolding tables_def by blast

lemma tables_conj: "tables P \<Longrightarrow> tables Q \<Longrightarrow> tables (\<lambda>w. P w \<and> Q w)"
  unfolding tables_def by blast

lemma tables_const: "tables (\<lambda>w. A)"
  unfolding tables_def by blast

text \<open>A call that only reads keeps every such assertion, also when it fails.\<close>

lemma triple_read:
  assumes "quiet m" and "tables P" and "\<And>w x w'. P w \<Longrightarrow> m w = (Inr x, w') \<Longrightarrow> stored w' = stored w \<Longrightarrow> R x w'"
  shows "triple P m (\<lambda>x w. P w \<and> R x w) P"
proof (rule tripleI)
  fix w r w'
  assume P: "P w" and run: "m w = (r, w')"
  have s: "stored w' = stored w" using quietD [OF assms(1) run] .
  have "P w'" using tablesD [OF assms(2) s P] .
  then show "case r of Inl e \<Rightarrow> P w' | Inr x \<Rightarrow> P w' \<and> R x w'"
    using assms(3) [OF P _ s] run by (cases r) auto
qed

lemma triple_quiet: "quiet m \<Longrightarrow> tables P \<Longrightarrow> triple P m (\<lambda>_. P) P"
  using triple_read [of m P "\<lambda>_ _. True"] by simp

lemma triple_skip:
  assumes "quiet m" and "tables P" and "\<And>w. P w \<Longrightarrow> E w" and "\<And>x. triple P (f x) Q E"
  shows "triple P (bnd m f) Q E"
  by (rule triple_seq [OF triple_quiet [OF assms(1,2)] assms(3,4)])

lemma triple_know:
  assumes "quiet m" and "tables P" and "\<And>w. P w \<Longrightarrow> E w" and "\<And>w x w'. P w \<Longrightarrow> m w = (Inr x, w') \<Longrightarrow> R x"
    and "\<And>x. R x \<Longrightarrow> triple P (f x) Q E"
  shows "triple P (bnd m f) Q E"
proof (rule triple_seq [OF triple_read [OF assms(1,2), of "\<lambda>x _. R x"] assms(3)])
  show "triple (\<lambda>w. P w \<and> R x) (f x) Q E" for x
    using assms(5) [of x] by (auto simp: triple_def)
qed (use assms(4) in auto)

context collection
begin

lemma tables_view: "tables (\<lambda>w. R (view c w))"
  unfolding tables_def using view_stored by metis

lemma find_one_triple: "tables P \<Longrightarrow> triple P (dbFindOne c S) (\<lambda>x w. P w \<and> x = map_option snd (storeFindOne S (view c w))) P"
  by (rule triple_read [OF quiet_reads(4)], assumption, drule find_one_run, drule view_stored, simp)

lemma find_triple: "tables P \<Longrightarrow> triple P (dbFind c S) (\<lambda>x w. P w \<and> x = storeFind S (view c w)) P"
  by (rule triple_read [OF quiet_reads(2)], assumption, drule find_run, drule view_stored, simp)

lemma get_triple: "tables P \<Longrightarrow> triple P (dbGet c i) (\<lambda>x w. P w \<and> x = storeGet (view c w) i) P"
  by (rule triple_read [OF quiet_reads(1)], assumption, drule get_run, drule view_stored, simp)

lemma exists_triple: "tables P \<Longrightarrow> triple P (dbExists c S) (\<lambda>x w. P w \<and> x = storeExists S (view c w)) P"
  by (rule triple_read [OF quiet_reads(5)], assumption, drule exists_run, drule view_stored, simp)

lemma replace_triple:
  assumes "tables P"
  shows "triple P (dbReplace c i d) (\<lambda>_ w'. \<exists>w. P w \<and> view c w' = replaceRow i (\<lambda>_. c_setID c i d) (view c w) \<and>
    stored w' = c_upd c (replaceRow i (\<lambda>_. d)) (stored w)) P"
  by (rule tripleI) (use assms in \<open>auto dest: replace_run failed_writes(1) tablesD split: sum.splits\<close>)

lemma insert_triple:
  assumes "tables P"
  shows "triple P (dbInsertOne c d) (\<lambda>i w'. i \<noteq> [] \<and> (\<exists>w. P w \<and> view c w' = view c w @ [(i, c_setID c i d)] \<and> i \<notin> fst ` set (view c w) \<and>
    stored w' = c_upd c (\<lambda>_. c_table c w @ [(i, d)]) (stored w))) P"
  by (rule tripleI) (use assms in \<open>auto dest: insert_run dbInsertOne_Inl dbInsertOne_nonempty tablesD split: sum.splits\<close>)

end

section \<open>Calls that keep what is observed\<close>

text \<open>\<open>keeps f m\<close>: the observation \<open>f\<close> of the world is the same after the call; \<open>leaves c m\<close>: the rows of a table are.\<close>

definition keeps :: "(world \<Rightarrow> 'b) \<Rightarrow> 'a svc \<Rightarrow> bool" where
  "keeps f m \<longleftrightarrow> (\<forall>w r w'. m w = (r, w') \<longrightarrow> f w' = f w)"

abbreviation leaves :: "'d coll \<Rightarrow> 'a svc \<Rightarrow> bool" where
  "leaves c \<equiv> keeps (view c)"

definition apart :: "'d coll \<Rightarrow> 'e coll \<Rightarrow> bool" where
  "apart c e \<longleftrightarrow> (\<forall>f w. view c (c_upd e f w) = view c w)"

named_theorems leaves_intros

lemma leavesD: "keeps f m \<Longrightarrow> m w = (r, w') \<Longrightarrow> f w' = f w"
  unfolding keeps_def by blast

lemma keeps_comp: "keeps f m \<Longrightarrow> keeps (\<lambda>w. g (f w)) m"
  unfolding keeps_def by metis

lemma leaves_bnd [leaves_intros]: "keeps f m \<Longrightarrow> (\<And>x. keeps f (k x)) \<Longrightarrow> keeps f (bnd m k)"
  unfolding keeps_def bnd_def by (fastforce split: prod.splits sum.splits)

lemma leaves_attempt [leaves_intros]: "keeps f m \<Longrightarrow> keeps f (attempt m)"
  unfolding keeps_def attempt_def by (auto split: prod.splits sum.splits error.splits)

lemma leaves_forS [leaves_intros]: "(\<And>x acc. keeps f (k x acc)) \<Longrightarrow> keeps f (forS k xs acc)"
  by (induction xs arbitrary: acc) (auto simp: leaves_bnd, simp add: keeps_def ret_def)

lemma leaves_if [leaves_intros]: "(b \<Longrightarrow> keeps f m) \<Longrightarrow> (\<not> b \<Longrightarrow> keeps f n) \<Longrightarrow> keeps f (if b then m else n)"
  by simp

lemma leaves_option [leaves_intros]:
  "(x = None \<Longrightarrow> keeps f m) \<Longrightarrow> (\<And>y. x = Some y \<Longrightarrow> keeps f (k y)) \<Longrightarrow> keeps f (case x of None \<Rightarrow> m | Some y \<Rightarrow> k y)"
  by (cases x) auto

lemma leaves_sum [leaves_intros]:
  "(\<And>e. x = Inl e \<Longrightarrow> keeps f (m e)) \<Longrightarrow> (\<And>y. x = Inr y \<Longrightarrow> keeps f (k y)) \<Longrightarrow> keeps f (case x of Inl e \<Rightarrow> m e | Inr y \<Rightarrow> k y)"
  by (cases x) auto

lemma keeps_prod: "(\<And>a b. keeps f (k a b)) \<Longrightarrow> keeps f (case x of (a, b) \<Rightarrow> k a b)"
  by (simp add: case_prod_beta)

lemma leaves_let [leaves_intros]: "(\<And>x. keeps f (k x)) \<Longrightarrow> keeps f (let x = v in k x)"
  by simp

lemma leaves_triple: "keeps f m \<Longrightarrow> triple (\<lambda>w. f w = v) m (\<lambda>_ w. f w = v) (\<lambda>w. f w = v)"
  by (rule tripleI) (auto dest: leavesD split: sum.splits)

text \<open>An assertion about what is observed survives the call.\<close>

lemma keeps_triple: "keeps f m \<Longrightarrow> triple (\<lambda>w. Q (f w)) m (\<lambda>_ w. Q (f w)) (\<lambda>w. Q (f w))"
  by (rule tripleI) (auto dest: leavesD split: sum.splits)

lemma leaves_simple [leaves_intros]: "keeps f (ret x)" "keeps f (throw e)" "keeps f (liftR s)"
  by (simp_all add: keeps_def ret_def throw_def liftR_def)

context collection
begin

lemma leaves_quiet: "quiet m \<Longrightarrow> leaves c m"
  unfolding keeps_def by (blast intro: view_stored quietD)

lemma leaves_db: "(\<And>w r w'. op w = (r, w') \<Longrightarrow> view c w' = view c w) \<Longrightarrow> leaves c (db op)"
  unfolding keeps_def
proof (intro allI impI)
  fix w r w'
  assume op: "\<And>w r w'. op w = (r, w') \<Longrightarrow> view c w' = view c w" and run: "db op w = (r, w')"
  have fault: "view c (w \<lparr> w_faults := fs \<rparr>) = view c w" for fs by (rule view_stored) simp
  show "view c w' = view c w"
    using run op fault by (auto simp: db_def Let_def split: list.splits if_splits)
qed

lemma leaves_writes:
  assumes "apart c e"
  shows "leaves c (dbReplace e i d)" and "leaves c (dbUpsert e i d)" and "leaves c (dbDeleteByID e i)" and "leaves c (dbInsertOne e d)"
proof -
  have a: "view c (c_upd e f w) = view c w" for f w using assms by (simp add: apart_def)
  show "leaves c (dbReplace e i d)" "leaves c (dbUpsert e i d)" "leaves c (dbDeleteByID e i)"
    unfolding dbReplace_def dbUpsert_def dbDeleteByID_def by (auto intro!: leaves_db simp: a)
  show "leaves c (dbInsertOne e d)"
    unfolding dbInsertOne_def
    by (intro leaves_bnd leaves_db, intro leaves_if leaves_quiet quiet_NewID quiet_ret) (auto simp: a split: sum.splits)
qed

lemma leaves_more_writes:
  assumes "apart c e"
  shows "leaves c (dbSetByID e i f)" and "leaves c (dbSetFieldsOne e P f)" and "leaves c (dbDeleteMany e P)"
    and "leaves c (dbDeleteOne e P)" and "leaves c (dbInsertUnique e K x)"
proof -
  have a: "view c (c_upd e f w) = view c w" for f w using assms by (simp add: apart_def)
  show "leaves c (dbSetByID e i f)" "leaves c (dbDeleteMany e P)"
    unfolding dbSetByID_def dbDeleteMany_def by (auto intro!: leaves_db simp: a)
  show "leaves c (dbSetFieldsOne e P f)" "leaves c (dbDeleteOne e P)"
    unfolding dbSetFieldsOne_def dbDeleteOne_def by (auto intro!: leaves_db simp: a split: option.splits)
  show "leaves c (dbInsertUnique e K x)"
    unfolding dbInsertUnique_def
    by (intro leaves_bnd leaves_db, intro leaves_if leaves_quiet quiet_NewID quiet_ret) (auto simp: a split: sum.splits if_splits)
qed

end

end
