(* ===== verification/User_Repo.thy ===== *)
theory User_Repo
  imports Service_Logic "HOL-Library.AList"
begin

text \<open>
  \<open>internal/platform/user/user.go\<close>: the tenant principal, one document per \<open>sub\<close>. Every request
  resolves its principal by get-or-create; a lost race with another first request is settled by
  the unique index on \<open>sub\<close>. The request context carries the claims of the validated token.
\<close>

definition FullName :: "User \<Rightarrow> string" where
  "FullName u = (let full = trimSpace (user_FirstName u @ '' '' @ user_LastName u) in
     if full = '''' then user_Email u else full)"

definition computeLanguage :: "attrs \<Rightarrow> string" where
  "computeLanguage ci = (case map_of ci ''lang'' of
     Some (AnyString v) \<Rightarrow> if equalFold v ''ro-ro'' then ''RO'' else ''EN''
   | _ \<Rightarrow> ''EN'')"

definition FindByEmail :: "string \<Rightarrow> User option svc" where
  "FindByEmail email = dbFindOne usersC (\<lambda>u. user_Email u = email)"

definition FindBySub :: "string \<Rightarrow> User option svc" where
  "FindBySub sub = dbFindOne usersC (\<lambda>u. user_Sub u = sub)"

definition userExistsByID :: "string \<Rightarrow> bool svc" where
  "userExistsByID i = dbExists usersC (\<lambda>u. user_ID u = i)"

definition newUser :: "Claims \<Rightarrow> time \<Rightarrow> User" where
  "newUser c now = \<lparr> user_ID = '''', user_Sub = claim_Sub c, user_ModelVersion = 1, user_Consent = [], user_CustomInfo = [],
     user_FirstName = claim_GivenName c, user_LastName = claim_FamilyName c, user_Email = claim_Email c,
     user_EmailConfirmedAt = None, user_Tags = [],
     user_Identities = [\<lparr> idt_Sub = claim_Sub c, idt_Issuer = claim_Issuer c, idt_Claims = [] \<rparr>],
     user_Metadata = [], user_CreatedAt = Some now, user_UpdatedAt = Some now \<rparr>"

text \<open>The changed fields of an existing user; the claims only ever overwrite with something non-empty.\<close>

definition refreshed :: "Claims \<Rightarrow> User \<Rightarrow> User" where
  "refreshed c u = u \<lparr>
     user_Email := (if claim_Email c \<noteq> '''' then claim_Email c else user_Email u),
     user_FirstName := (if claim_GivenName c \<noteq> '''' then claim_GivenName c else user_FirstName u),
     user_LastName := (if claim_FamilyName c \<noteq> '''' then claim_FamilyName c else user_LastName u) \<rparr>"

text \<open>What a refresh finds to write: each field that the claims give and that differs.\<close>

definition refreshNeeded :: "Claims \<Rightarrow> User \<Rightarrow> bool" where
  "refreshNeeded c u \<longleftrightarrow> (claim_Email c \<noteq> '''' \<and> claim_Email c \<noteq> user_Email u) \<or>
     (claim_GivenName c \<noteq> '''' \<and> claim_GivenName c \<noteq> user_FirstName u) \<or>
     (claim_FamilyName c \<noteq> '''' \<and> claim_FamilyName c \<noteq> user_LastName u)"

text \<open>The partial update writes only the fields that differ from what was read.\<close>

definition refreshSet :: "Claims \<Rightarrow> User \<Rightarrow> time \<Rightarrow> User \<Rightarrow> User" where
  "refreshSet c existing now d = d \<lparr>
     user_Email := (if claim_Email c \<noteq> '''' \<and> claim_Email c \<noteq> user_Email existing then claim_Email c else user_Email d),
     user_FirstName := (if claim_GivenName c \<noteq> '''' \<and> claim_GivenName c \<noteq> user_FirstName existing then claim_GivenName c else user_FirstName d),
     user_LastName := (if claim_FamilyName c \<noteq> '''' \<and> claim_FamilyName c \<noteq> user_LastName existing then claim_FamilyName c else user_LastName d),
     user_UpdatedAt := Some now \<rparr>"

definition FromClaims :: "Claims \<Rightarrow> User svc" where
  "FromClaims c = bnd (FindBySub (claim_Sub c)) (\<lambda>existing. bnd timeNow (\<lambda>now. case existing of
     None \<Rightarrow> (let u = newUser c now in
       bnd (attempt (dbInsertUnique usersC user_Sub u)) (\<lambda>r. case r of
           Inr i \<Rightarrow> ret (u \<lparr> user_ID := i \<rparr>)
         | Inl e \<Rightarrow> bnd (attempt (FindBySub (claim_Sub c))) (\<lambda>again. case again of
               Inr (Some v) \<Rightarrow> ret v
             | _ \<Rightarrow> throw e)))
   | Some u \<Rightarrow> (if \<not> refreshNeeded c u then ret u
       else bnd (dbSetFieldsOne usersC (\<lambda>d. user_Sub d = claim_Sub c) (refreshSet c u now)) (\<lambda>_.
         ret (refreshed c u \<lparr> user_UpdatedAt := Some now \<rparr>)))))"

definition Require :: "Claims option \<Rightarrow> string \<Rightarrow> User svc" where
  "Require rc sub = bnd (FindBySub sub) (\<lambda>u. case u of
     Some u \<Rightarrow> ret u
   | None \<Rightarrow> (case rc of
         Some c \<Rightarrow> if claim_Sub c \<noteq> '''' \<and> claim_Sub c = sub then FromClaims c
           else throw (HTTPError 400 ''User is not initialized'')
       | None \<Rightarrow> throw (HTTPError 400 ''User is not initialized'')))"

text \<open>\<open>h.principal\<close>: \<open>httpx.RC(ctx).Sub\<close> dereferences the request context.\<close>

definition principal :: "Claims option \<Rightarrow> User svc" where
  "principal rc = (case rc of None \<Rightarrow> throw (Panic ''nil pointer'') | Some c \<Rightarrow> Require rc (claim_Sub c))"

definition UpdateName :: "string \<Rightarrow> string \<Rightarrow> string \<Rightarrow> (User option \<times> bool) svc" where
  "UpdateName sub firstName lastName = bnd (FindBySub sub) (\<lambda>u. case u of None \<Rightarrow> ret (None, False)
   | Some u \<Rightarrow> (let f = (firstName \<noteq> '''' \<and> firstName \<noteq> user_FirstName u); l = (lastName \<noteq> '''' \<and> lastName \<noteq> user_LastName u);
       chg = (\<lambda>d. d \<lparr> user_FirstName := (if f then firstName else user_FirstName d),
                       user_LastName := (if l then lastName else user_LastName d) \<rparr>) in
       if \<not> f \<and> \<not> l then ret (Some u, False)
       else bnd timeNow (\<lambda>now.
         bnd (dbSetFieldsOne usersC (\<lambda>d. user_Sub d = sub) (\<lambda>d. chg d \<lparr> user_UpdatedAt := Some now \<rparr>)) (\<lambda>_.
           ret (Some (chg u \<lparr> user_UpdatedAt := Some now \<rparr>), True)))))"

definition replaceCustomInfo :: "string \<Rightarrow> attrs \<Rightarrow> unit svc" where
  "replaceCustomInfo sub ci = bnd timeNow (\<lambda>now.
     bnd (dbSetFieldsOne usersC (\<lambda>d. user_Sub d = sub) (\<lambda>d. d \<lparr> user_CustomInfo := ci, user_UpdatedAt := Some now \<rparr>)) (\<lambda>_. ret ()))"

definition SetCustomInfo :: "string \<Rightarrow> string \<Rightarrow> any \<Rightarrow> attrs option svc" where
  "SetCustomInfo sub key v = bnd (FindBySub sub) (\<lambda>u. case u of None \<Rightarrow> ret None
   | Some u \<Rightarrow> (let ci = AList.update key v (user_CustomInfo u) in bnd (replaceCustomInfo sub ci) (\<lambda>_. ret (Some ci))))"

definition DeleteCustomInfo :: "string \<Rightarrow> string \<Rightarrow> attrs option svc" where
  "DeleteCustomInfo sub key = bnd (FindBySub sub) (\<lambda>u. case u of None \<Rightarrow> ret None
   | Some u \<Rightarrow> (let ci = AList.delete key (user_CustomInfo u) in bnd (replaceCustomInfo sub ci) (\<lambda>_. ret (Some ci))))"

section \<open>What a request finds\<close>

lemma FindBySub_run:
  assumes "FindBySub sub w = (Inr x, w')"
  shows "stored w' = stored w" and "case x of None \<Rightarrow> \<not> storeExists (\<lambda>u. user_Sub u = sub) (view usersC w)
    | Some u \<Rightarrow> user_Sub u = sub \<and> (user_ID u, u) \<in> set (view usersC w)"
proof -
  have x: "x = map_option snd (storeFindOne (\<lambda>u. user_Sub u = sub) (view usersC w))" and s: "stored w' = stored w"
    using users.find_one_run [OF assms [unfolded FindBySub_def]] by simp_all
  show "stored w' = stored w" by (rule s)
  show "case x of None \<Rightarrow> \<not> storeExists (\<lambda>u. user_Sub u = sub) (view usersC w)
    | Some u \<Rightarrow> user_Sub u = sub \<and> (user_ID u, u) \<in> set (view usersC w)"
  proof (cases "storeFindOne (\<lambda>u. user_Sub u = sub) (view usersC w)")
    case None
    then show ?thesis using x storeFindOne_None [of "\<lambda>u. user_Sub u = sub" "view usersC w"] by (simp del: storeFindOne_None)
  next
    case (Some r)
    obtain i u where r: "r = (i, u)" by (cases r)
    have "(i, u) \<in> set (view usersC w)" "user_Sub u = sub" using storeFindOne_Some [OF Some [unfolded r]] by simp_all
    moreover have "user_ID u = i" using users.view_ID [OF calculation(1)] by (simp add: usersC_def)
    ultimately show ?thesis using x Some r by simp
  qed
qed

text \<open>
  The principal of a request: whoever is returned carries the subject of the token and is stored,
  also when the first request of the user lost the race for the insertion.
\<close>

lemma FromClaims_found:
  assumes "FromClaims c w = (Inr u, w')"
  shows "user_Sub u = claim_Sub c"
proof -
  from assms obtain ex w1 now w2 where ex: "FindBySub (claim_Sub c) w = (Inr ex, w1)" and now: "timeNow w1 = (Inr now, w2)"
    and rest: "(case ex of
     None \<Rightarrow> (let u = newUser c now in
       bnd (attempt (dbInsertUnique usersC user_Sub u)) (\<lambda>r. case r of
           Inr i \<Rightarrow> ret (u \<lparr> user_ID := i \<rparr>)
         | Inl e \<Rightarrow> bnd (attempt (FindBySub (claim_Sub c))) (\<lambda>again. case again of Inr (Some v) \<Rightarrow> ret v | _ \<Rightarrow> throw e)))
   | Some u \<Rightarrow> (if \<not> refreshNeeded c u then ret u
       else bnd (dbSetFieldsOne usersC (\<lambda>d. user_Sub d = claim_Sub c) (refreshSet c u now)) (\<lambda>_.
         ret (refreshed c u \<lparr> user_UpdatedAt := Some now \<rparr>)))) w2 = (Inr u, w')"
    unfolding FromClaims_def bnd_Inr by blast
  show ?thesis
  proof (cases ex)
    case (Some v)
    then have "user_Sub v = claim_Sub c" using FindBySub_run(2) [OF ex] by simp
    then show ?thesis using rest Some by (auto simp: svc_simps refreshed_def split: if_splits)
  next
    case None
    then obtain r w3 where r: "attempt (dbInsertUnique usersC user_Sub (newUser c now)) w2 = (Inr r, w3)"
      and k: "(case r of Inr i \<Rightarrow> ret (newUser c now \<lparr> user_ID := i \<rparr>)
         | Inl e \<Rightarrow> bnd (attempt (FindBySub (claim_Sub c))) (\<lambda>again. case again of Inr (Some v) \<Rightarrow> ret v | _ \<Rightarrow> throw e)) w3 = (Inr u, w')"
      using rest by (auto simp: Let_def bnd_Inr)
    show ?thesis
    proof (cases r)
      case (Inr i)
      then show ?thesis using k by (auto simp: svc_simps newUser_def)
    next
      case (Inl e)
      then obtain a w4 where "attempt (FindBySub (claim_Sub c)) w3 = (Inr a, w4)"
        and "(case a of Inr (Some v) \<Rightarrow> ret v | _ \<Rightarrow> throw e) w4 = (Inr u, w')"
        using k by (auto simp: bnd_Inr)
      then show ?thesis using FindBySub_run(2) [of "claim_Sub c" w3 "Some u" w4]
        by (auto simp: svc_simps split: sum.splits option.splits)
    qed
  qed
qed

lemma principal_found:
  assumes "principal rc w = (Inr u, w')"
  obtains c where "rc = Some c" and "user_Sub u = claim_Sub c"
proof (cases rc)
  case None
  then show ?thesis using assms by (simp add: principal_def throw_def)
next
  case (Some c)
  from assms Some obtain x w1 where x: "FindBySub (claim_Sub c) w = (Inr x, w1)"
    and k: "(case x of Some u \<Rightarrow> ret u | None \<Rightarrow> (if claim_Sub c \<noteq> [] then FromClaims c
       else throw (HTTPError 400 ''User is not initialized''))) w1 = (Inr u, w')"
    by (auto simp: principal_def Require_def bnd_Inr cong: option.case_cong)
  have "user_Sub u = claim_Sub c"
  proof (cases x)
    case None
    then show ?thesis using k FromClaims_found [of c w1 u w'] by (auto simp: throw_def split: if_splits)
  next
    case (Some v)
    then show ?thesis using k FindBySub_run(2) [OF x] by (auto simp: svc_simps)
  qed
  then show ?thesis using that Some by blast
qed

text \<open>Resolving the principal touches the users table only.\<close>

context collection
begin

lemma leaves_FromClaims:
  assumes "apart c usersC"
  shows "leaves c (FromClaims cl)"
proof -
  have find: "leaves c (FindBySub sub)" for sub
    unfolding FindBySub_def by (intro leaves_quiet quiet_intros)
  show ?thesis
    unfolding FromClaims_def Let_def
    by (intro leaves_intros find leaves_more_writes assms leaves_quiet [OF quiet_timeNow])
qed

lemma leaves_principal:
  assumes "apart c usersC"
  shows "leaves c (principal rc)"
proof -
  have "leaves c (FindBySub sub)" for sub
    unfolding FindBySub_def by (intro leaves_quiet quiet_intros)
  then show ?thesis
    unfolding principal_def Require_def by (intro leaves_intros leaves_FromClaims assms)
qed

end

end
