(* ===== verification/Rbac.thy ===== *)
theory Rbac
  imports Go_Prelude "HOL-Library.List_Lexorder" "HOL-Library.Char_ord"
begin

text \<open>
  \<open>internal/platform/rbac\<close>, the authorisation kernel: the permission keys (\<open>permission.go\<close>), the
  wildcard matcher and the expansion of a set of patterns into keys (\<open>matcher.go\<close>), the check of a
  custom role's patterns (\<open>meta.go\<close>) and the tables of the built-in roles (\<open>roles.go\<close>). The locale
  \<open>grants\<close> is what the policies rely on: a list of patterns grants a key if one of them covers it,
  so adding patterns never takes a permission away.
\<close>

section \<open>Permission keys\<close>

definition AllPermissions :: "string list" where
  "AllPermissions =
    [''organization:read'', ''organization:create'', ''organization:update'', ''organization:delete'',
     ''organization:manage_members'', ''organization:manage_roles'', ''organization:audit'',
     ''project:create'', ''project:update'', ''project:delete'', ''project:manage_members'',
     ''project:cloud_resource:read'', ''project:cloud_resource:manage'', ''project:cloud_resource:api_access'',
     ''billing_profile:read'', ''billing_profile:create'', ''billing_profile:update'', ''billing_profile:delete'',
     ''billing_profile:read_invoices'', ''billing_profile:download_invoices'',
     ''billing_profile:manage_payment_methods'', ''billing_profile:add_funds'', ''billing_profile:read_transactions'']"

definition descriptions :: "(string \<times> string) list" where
  "descriptions =
    [(''organization:read'', ''View organization details''),
     (''organization:create'', ''Create new organizations''),
     (''organization:update'', ''Edit organization settings/metadata''),
     (''organization:delete'', ''Delete organizations''),
     (''organization:manage_members'', ''Add/remove users from organization''),
     (''organization:manage_roles'', ''Assign roles to organization members''),
     (''organization:audit'', ''View audit logs''),
     (''project:create'', ''Create new projects within an organization''),
     (''project:update'', ''Edit project settings''),
     (''project:delete'', ''Delete projects''),
     (''project:manage_members'', ''Add/remove project members''),
     (''project:cloud_resource:read'', ''View cloud resources without API credential access''),
     (''project:cloud_resource:manage'', ''Read and write cloud resources via UI without API credential access''),
     (''project:cloud_resource:api_access'', ''Full cloud resource access including API credential management''),
     (''billing_profile:read'', ''View billing profile details''),
     (''billing_profile:create'', ''Create new billing profiles''),
     (''billing_profile:update'', ''Edit payment methods, billing info''),
     (''billing_profile:delete'', ''Delete billing profiles''),
     (''billing_profile:read_invoices'', ''View invoices''),
     (''billing_profile:download_invoices'', ''Download invoice PDFs''),
     (''billing_profile:manage_payment_methods'', ''Add/remove payment methods''),
     (''billing_profile:add_funds'', ''Add funds to billing profile''),
     (''billing_profile:read_transactions'', ''View payment history'')]"

definition Description :: "string \<Rightarrow> string" where
  "Description key = (case map_of descriptions key of None \<Rightarrow> '''' | Some d \<Rightarrow> d)"

section \<open>The matcher\<close>

definition hasSuffix :: "string \<Rightarrow> string \<Rightarrow> bool" where
  "hasSuffix s p \<longleftrightarrow> hasPrefix (rev s) (rev p)"

definition MatchesPattern :: "string \<Rightarrow> string \<Rightarrow> bool" where
  "MatchesPattern pattern key =
    (if pattern = '''' \<or> key = '''' then False
     else if pattern = ''*'' then True
     else if pattern = key then True
     else if hasSuffix pattern '':*'' then hasPrefix key (take (length pattern - 2) pattern @ '':'')
     else False)"

fun Matches :: "string list \<Rightarrow> string \<Rightarrow> bool" where
  "Matches [] key = False"
| "Matches (p # ps) key = (if MatchesPattern p key then True else Matches ps key)"

definition ExpandPatterns :: "string list \<Rightarrow> string list" where
  "ExpandPatterns patterns = (if patterns = [] then [] else sort (filter (Matches patterns) AllPermissions))"

section \<open>Validation\<close>

text \<open>\<open>strings.SplitN(key, ":", 2)[0]\<close>.\<close>

definition ResourceType :: "string \<Rightarrow> string" where
  "ResourceType key = takeWhile (\<lambda>c. c \<noteq> CHR '':'') key"

definition validResourceTypes :: "string list" where
  "validResourceTypes = map ResourceType AllPermissions"

definition IsValidPermission :: "string \<Rightarrow> bool" where
  "IsValidPermission p =
    (if p = ''*'' then True
     else if p \<in> set AllPermissions then True
     else if hasSuffix p '':*'' then take (length p - 2) p \<in> set validResourceTypes
     else False)"

record PermissionMeta =
  pm_Key :: string
  pm_Description :: string
  pm_ResourceType :: string

definition AllPermissionMeta :: "PermissionMeta list" where
  "AllPermissionMeta = map (\<lambda>k. \<lparr> pm_Key = k, pm_Description = Description k, pm_ResourceType = ResourceType k \<rparr>) AllPermissions"

section \<open>Built-in roles\<close>

definition RoleOwner :: string where "RoleOwner = ''OWNER''"
definition RoleAdmin :: string where "RoleAdmin = ''ADMIN''"
definition RoleMember :: string where "RoleMember = ''MEMBER''"
definition RoleBilling :: string where "RoleBilling = ''BILLING''"

definition staticRolePermissions :: "(string \<times> string list) list" where
  "staticRolePermissions =
    [(RoleOwner, [''organization:*'', ''project:*'', ''billing_profile:*'']),
     (RoleAdmin, [''organization:read'', ''organization:update'', ''organization:manage_members'',
        ''organization:manage_roles'', ''project:*'', ''billing_profile:*'']),
     (RoleMember, [''organization:read'', ''project:create'', ''project:cloud_resource:*'',
        ''billing_profile:read'', ''billing_profile:read_invoices'',
        ''billing_profile:download_invoices'', ''billing_profile:read_transactions''])]"

definition IsStaticRole :: "string \<Rightarrow> bool" where
  "IsStaticRole role \<longleftrightarrow> map_of staticRolePermissions role \<noteq> None"

definition RolePermissions :: "string \<Rightarrow> string list" where
  "RolePermissions role = (case map_of staticRolePermissions role of Some p \<Rightarrow> p | None \<Rightarrow> [])"

definition RoleHasPermission :: "string \<Rightarrow> string \<Rightarrow> bool" where
  "RoleHasPermission role key = Matches (RolePermissions role) key"

section \<open>What a list of patterns grants\<close>

locale grants =
  fixes covers :: "'p \<Rightarrow> 'k \<Rightarrow> bool"
    and granted :: "'p list \<Rightarrow> 'k \<Rightarrow> bool"
  assumes granted_iff: "granted ps k \<longleftrightarrow> (\<exists>p\<in>set ps. covers p k)"
begin

lemma granted_mono: "set ps \<subseteq> set qs \<Longrightarrow> granted ps k \<Longrightarrow> granted qs k"
  by (auto simp: granted_iff)

lemma granted_append: "granted (ps @ qs) k \<longleftrightarrow> granted ps k \<or> granted qs k"
  by (auto simp: granted_iff)

lemma granted_empty: "\<not> granted [] k"
  by (simp add: granted_iff)

text \<open>Patterns that cover no more than another list's grant no more.\<close>

lemma granted_le: "(\<And>p. p \<in> set ps \<Longrightarrow> covers p k \<Longrightarrow> granted qs k) \<Longrightarrow> granted ps k \<Longrightarrow> granted qs k"
  by (auto simp: granted_iff)

end

lemma Matches_iff: "Matches ps key \<longleftrightarrow> (\<exists>p\<in>set ps. MatchesPattern p key)"
  by (induction ps) auto

interpretation rb: grants MatchesPattern Matches
  by unfold_locales (rule Matches_iff)

lemma hasSuffix_iff: "hasSuffix s p \<longleftrightarrow> (\<exists>t. s = t @ p)"
  unfolding hasSuffix_def hasPrefix_iff by (metis rev_append rev_rev_ident)

text \<open>The matcher, declaratively: a star covers all keys, a key itself, \<open>r:*\<close> every key under \<open>r:\<close>.\<close>

lemma MatchesPattern_iff:
  "MatchesPattern p k \<longleftrightarrow> k \<noteq> '''' \<and> (p = ''*'' \<or> p = k \<or> (\<exists>r t. p = r @ '':*'' \<and> k = r @ '':'' @ t))"
proof -
  have "hasSuffix p '':*'' \<and> hasPrefix k (take (length p - 2) p @ '':'') \<longleftrightarrow> (\<exists>r t. p = r @ '':*'' \<and> k = r @ '':'' @ t)"
    by (auto simp: hasSuffix_iff hasPrefix_iff)
  then show ?thesis by (auto simp: MatchesPattern_def)
qed

lemma AllPermissions_distinct: "distinct AllPermissions"
  by code_simp

lemma AllPermissions_nonempty: "k \<in> set AllPermissions \<Longrightarrow> k \<noteq> ''''"
  by (auto simp: AllPermissions_def)

text \<open>
  The expansion of a pattern list is the sorted list of exactly the keys it grants, each once;
  so checking a key against the patterns and looking it up in the expansion agree.
\<close>

lemma expansion_exact:
  shows "set (ExpandPatterns ps) = {k \<in> set AllPermissions. Matches ps k}"
    and "sorted (ExpandPatterns ps)" and "distinct (ExpandPatterns ps)"
  using rb.granted_empty AllPermissions_distinct by (auto simp: ExpandPatterns_def)

text \<open>A valid pattern covers at least one key.\<close>

lemma valid_pattern_covers:
  assumes "IsValidPermission p"
  shows "\<exists>k\<in>set AllPermissions. MatchesPattern p k"
proof -
  have keys: "\<forall>k\<in>set AllPermissions. MatchesPattern k k" by (auto simp: MatchesPattern_iff dest: AllPermissions_nonempty)
  have types: "\<forall>r\<in>set validResourceTypes. \<exists>k\<in>set AllPermissions. MatchesPattern (r @ '':*'') k" by code_simp
  have star: "\<exists>k\<in>set AllPermissions. MatchesPattern ''*'' k" by code_simp
  consider "p = ''*''" | "p \<in> set AllPermissions"
    | "hasSuffix p '':*''" "take (length p - 2) p \<in> set validResourceTypes"
    using assms by (auto simp: IsValidPermission_def split: if_splits)
  then show ?thesis
  proof cases
    case 3
    from 3(1) obtain r where r: "p = r @ '':*''" by (auto simp: hasSuffix_iff)
    then have "r \<in> set validResourceTypes" using 3(2) by simp
    then show ?thesis using types r by blast
  qed (use keys star in auto)
qed

text \<open>The built-in roles are ordered: an owner may do everything, an admin what a member may.\<close>

lemma static_roles_ordered:
  assumes "k \<in> set AllPermissions"
  shows "RoleHasPermission RoleMember k \<Longrightarrow> RoleHasPermission RoleAdmin k" and "RoleHasPermission RoleOwner k"
proof -
  have "\<forall>k\<in>set AllPermissions. RoleHasPermission RoleMember k \<longrightarrow> RoleHasPermission RoleAdmin k" by code_simp
  with assms show "RoleHasPermission RoleMember k \<Longrightarrow> RoleHasPermission RoleAdmin k" by blast
  have "\<forall>k\<in>set AllPermissions. RoleHasPermission RoleOwner k" by code_simp
  with assms show "RoleHasPermission RoleOwner k" by blast
qed

text \<open>
  What separates them: only an owner deletes the organisation or reads its audit log; a member
  manages neither members nor roles nor projects.
\<close>

lemma static_roles_separated:
  "\<not> RoleHasPermission RoleAdmin ''organization:delete''" "\<not> RoleHasPermission RoleAdmin ''organization:audit''"
  "RoleHasPermission RoleAdmin ''organization:manage_members''" "RoleHasPermission RoleAdmin ''organization:manage_roles''"
  "\<not> RoleHasPermission RoleMember ''organization:manage_members''" "\<not> RoleHasPermission RoleMember ''organization:manage_roles''"
  "\<not> RoleHasPermission RoleMember ''project:manage_members''" "\<not> RoleHasPermission RoleMember ''billing_profile:update''"
  by code_simp+

text \<open>
  The pattern \<open>project:cloud_resource:*\<close> that the member role is built from is no valid pattern
  for a custom role: a custom role cannot be given the member role's permissions verbatim.
\<close>

lemma member_patterns_not_all_valid:
  "''project:cloud_resource:*'' \<in> set (RolePermissions RoleMember)" "\<not> IsValidPermission ''project:cloud_resource:*''"
  "MatchesPattern ''project:cloud_resource:*'' ''project:cloud_resource:manage''"
  by code_simp+

lemma static_role_names: "IsStaticRole r \<longleftrightarrow> r = RoleOwner \<or> r = RoleAdmin \<or> r = RoleMember"
  by (auto simp: IsStaticRole_def staticRolePermissions_def)

lemma billing_role_grants_nothing: "\<not> IsStaticRole RoleBilling" "RolePermissions RoleBilling = []"
  by code_simp+

end
