(* ===== verification/Org_Repo.thy ===== *)
theory Org_Repo
  imports User_Repo Billing_Repo Rbac
begin

text \<open>
  \<open>internal/platform/org/repo.go\<close> and \<open>policy.go\<close>: organisations, their members and custom roles,
  and the policy that resolves a user's role in an organisation to permissions: a built-in role
  through the \<open>rbac\<close> tables, any other through the patterns of the custom role of that name. The
  unique indexes on \<open>(organizationId, sub)\<close> and \<open>(organizationId, name)\<close> are part of the insertions.
\<close>

section \<open>Organisations\<close>

definition orgInsert :: "Organization \<Rightarrow> Organization svc" where
  "orgInsert o' = bnd timeNow (\<lambda>now. let o' = o' \<lparr> org_CreatedAt := Some now, org_UpdatedAt := Some now \<rparr> in
     bnd (dbInsertOne orgsC o') (\<lambda>i. ret (o' \<lparr> org_ID := i \<rparr>)))"

definition orgSave :: "Organization \<Rightarrow> Organization svc" where
  "orgSave o' = bnd timeNow (\<lambda>now. let o' = o' \<lparr> org_UpdatedAt := Some now \<rparr> in
     bnd (dbSetByID orgsC (org_ID o') (\<lambda>d. d \<lparr> org_Name := org_Name o', org_Description := org_Description o',
       org_BillingProfileID := org_BillingProfileID o', org_CustomInfo := org_CustomInfo o', org_UpdatedAt := Some now \<rparr>)) (\<lambda>_. ret o'))"

definition orgFindByID :: "string \<Rightarrow> Organization option svc" where
  "orgFindByID i = dbGet orgsC i"

definition FindAllByBillingProfileID :: "string \<Rightarrow> Organization list svc" where
  "FindAllByBillingProfileID bpID = dbFind orgsC (\<lambda>o'. org_BillingProfileID o' = bpID)"

definition orgFindByIDs :: "string list \<Rightarrow> Organization list svc" where
  "orgFindByIDs ids = (if ids = [] then ret [] else dbFind orgsC (\<lambda>o'. org_ID o' \<in> set ids))"

definition orgDelete :: "string \<Rightarrow> unit svc" where
  "orgDelete i = bnd (dbDeleteByID orgsC i) (\<lambda>_. ret ())"

definition CountProjects :: "string \<Rightarrow> int svc" where
  "CountProjects orgID = dbCount projectsC (\<lambda>p. prj_OrganizationID p = orgID)"

section \<open>Members\<close>

definition memberKey :: "Member \<Rightarrow> string \<times> string" where
  "memberKey m = (mbr_OrganizationID m, mbr_Sub m)"

definition orgAddMember :: "string \<Rightarrow> string \<Rightarrow> string \<Rightarrow> Member svc" where
  "orgAddMember orgID sub role = bnd timeNow (\<lambda>now. let m = \<lparr> mbr_ID = '''', mbr_OrganizationID = orgID, mbr_Sub = sub,
       mbr_Roles = [role], mbr_CreatedAt = Some now, mbr_UpdatedAt = Some now \<rparr> in
     bnd (dbInsertUnique membersC memberKey m) (\<lambda>i. ret (m \<lparr> mbr_ID := i \<rparr>)))"

definition FindMember :: "string \<Rightarrow> string \<Rightarrow> Member option svc" where
  "FindMember orgID sub = dbFindOne membersC (\<lambda>m. memberKey m = (orgID, sub))"

definition orgMembers :: "string \<Rightarrow> Member list svc" where
  "orgMembers orgID = dbFind membersC (\<lambda>m. mbr_OrganizationID m = orgID)"

definition MembersForSub :: "string \<Rightarrow> Member list svc" where
  "MembersForSub sub = dbFind membersC (\<lambda>m. mbr_Sub m = sub)"

definition OrgIDsForSub :: "string \<Rightarrow> string list svc" where
  "OrgIDsForSub sub = bnd (MembersForSub sub) (\<lambda>ms. ret (map mbr_OrganizationID ms))"

definition orgUpdateMemberRole :: "string \<Rightarrow> string \<Rightarrow> string \<Rightarrow> unit svc" where
  "orgUpdateMemberRole orgID sub role = bnd timeNow (\<lambda>now.
     bnd (dbSetFieldsOne membersC (\<lambda>m. memberKey m = (orgID, sub)) (\<lambda>m. m \<lparr> mbr_Roles := [role], mbr_UpdatedAt := Some now \<rparr>)) (\<lambda>_. ret ()))"

definition orgRemoveMember :: "string \<Rightarrow> string \<Rightarrow> unit svc" where
  "orgRemoveMember orgID sub = bnd (dbDeleteOne membersC (\<lambda>m. memberKey m = (orgID, sub))) (\<lambda>_. ret ())"

definition DeleteAllMembers :: "string \<Rightarrow> unit svc" where
  "DeleteAllMembers orgID = bnd (dbDeleteMany membersC (\<lambda>m. mbr_OrganizationID m = orgID)) (\<lambda>_. ret ())"

section \<open>Custom roles\<close>

definition roleKey :: "Role \<Rightarrow> string \<times> string" where
  "roleKey r = (role_OrganizationID r, role_Name r)"

definition InsertRole :: "Role \<Rightarrow> Role svc" where
  "InsertRole r = bnd timeNow (\<lambda>now. let r = r \<lparr> role_CreatedAt := Some now, role_UpdatedAt := Some now \<rparr> in
     bnd (dbInsertUnique rolesC roleKey r) (\<lambda>i. ret (r \<lparr> role_ID := i \<rparr>)))"

definition SaveRole :: "Role \<Rightarrow> Role svc" where
  "SaveRole r = bnd timeNow (\<lambda>now. let r = r \<lparr> role_UpdatedAt := Some now \<rparr> in
     bnd (dbSetByID rolesC (role_ID r) (\<lambda>d. d \<lparr> role_Description := role_Description r,
       role_Permissions := role_Permissions r, role_UpdatedAt := Some now \<rparr>)) (\<lambda>_. ret r))"

definition FindRoleByID :: "string \<Rightarrow> Role option svc" where
  "FindRoleByID i = dbGet rolesC i"

definition FindRoleByOrgAndName :: "string \<Rightarrow> string \<Rightarrow> Role option svc" where
  "FindRoleByOrgAndName orgID name = dbFindOne rolesC (\<lambda>r. roleKey r = (orgID, name))"

definition ExistsRoleByOrgAndName :: "string \<Rightarrow> string \<Rightarrow> bool svc" where
  "ExistsRoleByOrgAndName orgID name = dbExists rolesC (\<lambda>r. roleKey r = (orgID, name))"

definition RolesByOrg :: "string \<Rightarrow> Role list svc" where
  "RolesByOrg orgID = dbFind rolesC (\<lambda>r. role_OrganizationID r = orgID)"

definition DeleteRole :: "string \<Rightarrow> unit svc" where
  "DeleteRole i = bnd (dbDeleteByID rolesC i) (\<lambda>_. ret ())"

definition DeleteAllRoles :: "string \<Rightarrow> unit svc" where
  "DeleteAllRoles orgID = bnd (dbDeleteMany rolesC (\<lambda>r. role_OrganizationID r = orgID)) (\<lambda>_. ret ())"

definition customRolePermissions :: "string \<Rightarrow> string \<Rightarrow> string list svc" where
  "customRolePermissions orgID name = bnd (FindRoleByOrgAndName orgID name) (\<lambda>r. ret (case r of None \<Rightarrow> [] | Some r \<Rightarrow> role_Permissions r))"

section \<open>The policy\<close>

text \<open>A lookup that fails counts as no role, a permission read that fails as no patterns.\<close>

definition policyRole :: "string \<Rightarrow> string \<Rightarrow> string option svc" where
  "policyRole orgID sub = bnd (attempt (FindMember orgID sub)) (\<lambda>r. ret (case r of Inr (Some m) \<Rightarrow> Some (memberRole m) | _ \<Rightarrow> None))"

definition policyPatterns :: "string \<Rightarrow> string \<Rightarrow> string list svc" where
  "policyPatterns orgID role = (if IsStaticRole role then ret (RolePermissions role)
     else bnd (attempt (customRolePermissions orgID role)) (\<lambda>r. ret (case r of Inr ps \<Rightarrow> ps | Inl _ \<Rightarrow> [])))"

definition HasPermission :: "string \<Rightarrow> string \<Rightarrow> string \<Rightarrow> bool svc" where
  "HasPermission sub orgID permKey = bnd (policyRole orgID sub) (\<lambda>role. case role of None \<Rightarrow> ret False
     | Some role \<Rightarrow> if IsStaticRole role then ret (RoleHasPermission role permKey)
         else bnd (policyPatterns orgID role) (\<lambda>perms. ret (Matches perms permKey)))"

definition UserPermissionKeys :: "string \<Rightarrow> string \<Rightarrow> string list svc" where
  "UserPermissionKeys sub orgID = bnd (policyRole orgID sub) (\<lambda>role. case role of None \<Rightarrow> ret []
     | Some role \<Rightarrow> policyPatterns orgID role)"

definition policyIsMember :: "string \<Rightarrow> string \<Rightarrow> bool svc" where
  "policyIsMember orgID sub = bnd (policyRole orgID sub) (\<lambda>role. ret (role \<noteq> None))"

definition policyIsOwner :: "string \<Rightarrow> string \<Rightarrow> bool svc" where
  "policyIsOwner orgID sub = bnd (policyRole orgID sub) (\<lambda>role. ret (role = Some RoleOwner))"

definition policyIsAdmin :: "string \<Rightarrow> string \<Rightarrow> bool svc" where
  "policyIsAdmin orgID sub = bnd (policyRole orgID sub) (\<lambda>role. ret (role = Some RoleAdmin \<or> role = Some RoleOwner))"

definition UserRole :: "string \<Rightarrow> string \<Rightarrow> string svc" where
  "UserRole orgID sub = bnd (policyRole orgID sub) (\<lambda>role. ret (case role of None \<Rightarrow> '''' | Some r \<Rightarrow> r))"

definition RequirePermission :: "string \<Rightarrow> string \<Rightarrow> string \<Rightarrow> unit svc" where
  "RequirePermission sub orgID permKey = bnd (HasPermission sub orgID permKey) (\<lambda>ok. if ok then ret ()
     else throw (HTTPError 403 (''You do not have permission to perform this action: '' @ Description permKey)))"

end
