(* ===== verification/Charge_Job.thy ===== *)
theory Charge_Job
  imports Billing_Resource Billing_Repo Plan_Selection Org_Repo
begin

text \<open>
  \<open>billingjob/billingjob.go\<close>, the charge job: for every active profile and every external
  service, gather the billable resources of the profile's enabled projects, choose the price
  rules, and charge them onto the bill of the month; a failing profile does not stop the
  others. The plan and rule queries swallow their errors one by one, as the adapters of
  \<open>pricing/repo.go\<close> do. The decryption of service secrets, which the job does not read, is a
  parameter, and so is the registry of providers.
\<close>

section \<open>The cycle\<close>

definition monthBounds :: "time \<Rightarrow> time \<times> time" where
  "monthBounds now = (let start = mkDate (yearOf now) (monthOf now) 1 0 in (start, addDate start 0 1 0))"

definition truncateForTimeUnit :: "time \<Rightarrow> string \<Rightarrow> time" where
  "truncateForTimeUnit now timeUnit = (if timeUnit = TimeUnitMinute then timeTruncate now minute
     else if timeUnit = TimeUnitHour then timeTruncate now hour
     else if timeUnit = TimeUnitMonth then mkDate (yearOf now) (monthOf now) (dayOf now) 0
     else now)"

section \<open>Plans and rules, with failing queries\<close>

definition planFindByID :: "string \<Rightarrow> PricePlan option svc" where
  "planFindByID i = bnd (attempt (db (\<lambda>w. (Inr (FindPricePlanByID (w_pricePlans w) i), w)))) (\<lambda>r.
     ret (case r of Inl _ \<Rightarrow> None | Inr p \<Rightarrow> p))"

definition planPublic :: "PricePlan list svc" where
  "planPublic = bnd (attempt (db (\<lambda>w. (Inr (PublicPricePlans (w_pricePlans w)), w)))) (\<lambda>r.
     ret (case r of Inl _ \<Rightarrow> [] | Inr ps \<Rightarrow> ps))"

definition ruleFind :: "string \<Rightarrow> string \<Rightarrow> PricePlanRule list svc" where
  "ruleFind i u = bnd (attempt (db (\<lambda>w. (Inr (RulesByPricePlanIDAndTimeUnit (w_pricePlanRules w) i u), w)))) (\<lambda>r.
     ret (case r of Inl _ \<Rightarrow> [] | Inr rs \<Rightarrow> rs))"

definition scopedPlan :: "string \<Rightarrow> PricePlan list \<Rightarrow> PricePlan list svc" where
  "scopedPlan i plans = bnd (planFindByID i) (\<lambda>p. ret (case p of None \<Rightarrow> plans
     | Some pp \<Rightarrow> if pp_Enabled pp \<and> pp_AccessMode pp = AccessScoped then plans @ [pp] else plans))"

definition selectPlans :: "string list \<Rightarrow> bool \<Rightarrow> PricePlan list svc" where
  "selectPlans ids includePublic = (if ids \<noteq> [] then bnd (forS scopedPlan ids []) (\<lambda>plans.
       if includePublic then bnd planPublic (\<lambda>ps. ret (plans @ ps)) else ret plans)
     else planPublic)"

definition plansForService :: "string list \<Rightarrow> bool \<Rightarrow> string \<Rightarrow> PricePlan list svc" where
  "plansForService ids includePublic serviceID = bnd (selectPlans ids includePublic) (\<lambda>ps.
     ret (filter (\<lambda>pp. IsServiceProviderScoped pp serviceID) ps))"

definition applicableRules :: "PricePlan list \<Rightarrow> string \<Rightarrow> PricePlanRule list svc" where
  "applicableRules plans timeUnit = forS (\<lambda>pp acc. bnd (ruleFind (pp_ID pp) timeUnit) (\<lambda>rs. ret (acc @ rs))) plans []"

section \<open>Projects and resources\<close>

definition AllByBillingProfile :: "string \<Rightarrow> string list \<Rightarrow> Project list svc" where
  "AllByBillingProfile bpID orgIDs = dbFind projectsC (\<lambda>p. prj_BillingProfileID p = bpID \<or> prj_OrganizationID p \<in> set orgIDs)"

definition activeProjectsWithServices :: "string \<Rightarrow> Project list svc" where
  "activeProjectsWithServices bpID = bnd (FindAllByBillingProfileID bpID) (\<lambda>orgs.
     bnd (AllByBillingProfile bpID (map org_ID orgs)) (\<lambda>ps. ret (filter (\<lambda>p. IsEnabled p \<and> HasServices p) ps)))"

definition billingResources :: "(string \<times> provider) list \<Rightarrow> BillingContext \<Rightarrow> Project list \<Rightarrow> string \<Rightarrow>
    APIBillingResource option list svc" where
  "billingResources registry bc projects serviceID = forS (\<lambda>p out.
     if \<not> HasService p serviceID then ret out
     else bnd (GetBillingResources registry (prj_ID p) serviceID (ToAPIBillingContext bc)) (\<lambda>brs. ret (out @ brs))) projects []"

definition ListServices :: "(json \<Rightarrow> json) \<Rightarrow> ExternalService list svc" where
  "ListServices decrypt = bnd (dbFind extServicesC (\<lambda>_. True)) (\<lambda>es.
     ret (map (\<lambda>e. e \<lparr> es_Secret := decrypt (es_Secret e) \<rparr>) es))"

definition billingEnabled :: "bool svc" where
  "billingEnabled = bnd Configuration (\<lambda>(_, _, found). ret found)"

definition billingContext :: BillingContext where
  "billingContext = \<lparr> bc_TimeUnitLimits = [] \<rparr>"

definition pricePlanConfig :: "BillingProfile \<Rightarrow> string list \<times> bool" where
  "pricePlanConfig p = (case bp_PricePlanConfig p of None \<Rightarrow> ([], False)
     | Some c \<Rightarrow> (ppc_PricePlanIDs c, ppc_IncludePublicPricePlans c))"

section \<open>Adjustments\<close>

definition contractCovers :: "time \<Rightarrow> time \<Rightarrow> SavingsContract \<Rightarrow> bool" where
  "contractCovers cycleStart cycleEnd c = (case (con_StartDate c, con_EndDate c) of
       (Some s, Some e) \<Rightarrow> s \<le> cycleStart \<and> cycleEnd \<le> e | _ \<Rightarrow> False)"

definition contractAdj :: "declib \<Rightarrow> SavingsContract \<Rightarrow> SavingsContractAdj" where
  "contractAdj L c = \<lparr> sc_ID = con_ID c, sc_SavingsPlanName = con_SavingsPlanName c,
     sc_MonthlyCommittedAmount = (case con_MonthlyCommittedAmount c of None \<Rightarrow> d_zero L | Some a \<Rightarrow> a),
     sc_DiscountRate = (case con_DiscountRate c of None \<Rightarrow> d_zero L | Some r \<Rightarrow> r),
     sc_PaidUpfront = con_PaidUpfront c, sc_StartDate = con_StartDate c, sc_EndDate = con_EndDate c,
     sc_Targets = map (\<lambda>t. \<lparr> at_ResourceType = spt_ResourceType t, at_Filters = spt_Filters t \<rparr>) (con_Targets c) \<rparr>"

definition availableSavingsAdj :: "declib \<Rightarrow> string \<Rightarrow> time \<Rightarrow> time \<Rightarrow> SavingsContractAdj list svc" where
  "availableSavingsAdj L bpID cycleStart cycleEnd = bnd (attempt (SavingsContractsByBillingProfile bpID)) (\<lambda>r.
     ret (case r of Inl _ \<Rightarrow> [] | Inr cs \<Rightarrow> map (contractAdj L) (filter (contractCovers cycleStart cycleEnd) cs)))"

definition billAdjuster :: "declib \<Rightarrow> BillingProfile \<Rightarrow> PricePlan list \<Rightarrow> time \<Rightarrow> time \<Rightarrow> (Bill \<Rightarrow> Bill res) option svc" where
  "billAdjuster L profile plans cycleStart cycleEnd =
     bnd (availableSavingsAdj L (bp_ID profile) cycleStart cycleEnd) (\<lambda>savings.
     bnd (attempt (PriceAdjustmentRulesByPricePlanIDs (map pp_ID plans))) (\<lambda>r.
       let rules = (case r of Inl _ \<Rightarrow> [] | Inr rs \<Rightarrow> rs); catalog = map Some (FromAPIResourceTypes Catalog) in
       ret (if savings = [] \<and> rules = [] then None
         else Some (\<lambda>bill. bindR (ApplySavingsContractDiscounts L bill savings catalog) (\<lambda>bill.
           ApplyPriceAdjustmentRules L bill rules catalog)))))"

section \<open>The job\<close>

definition chargeService :: "declib \<Rightarrow> (string \<times> provider) list \<Rightarrow> BillingProfile \<Rightarrow> BillingContext \<Rightarrow> Project list \<Rightarrow>
    string \<Rightarrow> time \<Rightarrow> time \<Rightarrow> time \<Rightarrow> ExternalService \<Rightarrow> unit \<Rightarrow> unit svc" where
  "chargeService L registry profile bc projects timeUnit cycleTimestamp cycleStart cycleEnd es u =
     (let rc = \<lparr> rc_TimeUnit = timeUnit, rc_CycleTimestamp = cycleTimestamp \<rparr>; (planIDs, includePublic) = pricePlanConfig profile in
      bnd (billingResources registry bc projects (es_ID es)) (\<lambda>resources.
      bnd (plansForService planIDs includePublic (es_ID es)) (\<lambda>plans.
      bnd (applicableRules plans timeUnit) (\<lambda>rules.
      bnd (billAdjuster L profile plans cycleStart cycleEnd) (\<lambda>adjust.
      bnd (ChargeBillingResources L rc bc (bp_ID profile) rules (FromAPIResources resources) cycleStart cycleEnd
        (bp_Currency profile) adjust) (\<lambda>_. ret ()))))))"

definition chargeBillingResource :: "declib \<Rightarrow> (string \<times> provider) list \<Rightarrow> BillingProfile \<Rightarrow> BillingContext \<Rightarrow>
    ExternalService list \<Rightarrow> string \<Rightarrow> time \<Rightarrow> time \<Rightarrow> time \<Rightarrow> unit svc" where
  "chargeBillingResource L registry profile bc services timeUnit cycleTimestamp cycleStart cycleEnd =
     bnd (activeProjectsWithServices (bp_ID profile)) (\<lambda>projects.
       forS (chargeService L registry profile bc projects timeUnit cycleTimestamp cycleStart cycleEnd) services ())"

text \<open>The loop keeps the first error and goes on.\<close>

definition chargeProfile :: "declib \<Rightarrow> (string \<times> provider) list \<Rightarrow> ExternalService list \<Rightarrow> string \<Rightarrow> time \<Rightarrow>
    BillingProfile \<Rightarrow> error option \<Rightarrow> error option svc" where
  "chargeProfile L registry services timeUnit now profile firstErr =
     (let (cycleStart, cycleEnd) = monthBounds now in
      bnd (attempt (chargeBillingResource L registry profile billingContext services timeUnit
        (truncateForTimeUnit now timeUnit) cycleStart cycleEnd)) (\<lambda>r.
      ret (case r of Inl e \<Rightarrow> (if firstErr = None then Some e else firstErr) | Inr _ \<Rightarrow> firstErr)))"

definition Charge :: "declib \<Rightarrow> (string \<times> provider) list \<Rightarrow> (json \<Rightarrow> json) \<Rightarrow> string \<Rightarrow> time \<Rightarrow> unit svc" where
  "Charge L registry decrypt timeUnit now = bnd billingEnabled (\<lambda>enabled. if \<not> enabled then ret () else
     bnd (FindByStatus StatusActive) (\<lambda>profiles.
     bnd (ListServices decrypt) (\<lambda>services.
     bnd (forS (chargeProfile L registry services timeUnit now) profiles None) (\<lambda>firstErr.
       case firstErr of None \<Rightarrow> ret () | Some e \<Rightarrow> throw e))))"

definition ActiveProfileIDs :: "string list svc" where
  "ActiveProfileIDs = bnd billingEnabled (\<lambda>enabled. if \<not> enabled then ret [] else
     bnd (FindByStatus StatusActive) (\<lambda>profiles. ret (map bp_ID profiles)))"

definition ChargeProfileByID :: "declib \<Rightarrow> (string \<times> provider) list \<Rightarrow> (json \<Rightarrow> json) \<Rightarrow> string \<Rightarrow> string \<Rightarrow> time \<Rightarrow> unit svc" where
  "ChargeProfileByID L registry decrypt profileID timeUnit now = bnd billingEnabled (\<lambda>enabled. if \<not> enabled then ret () else
     bnd (FindByID profileID) (\<lambda>p. case p of None \<Rightarrow> ret ()
     | Some profile \<Rightarrow> if bp_Status profile \<noteq> StatusActive then ret () else
       bnd (ListServices decrypt) (\<lambda>services.
         let (cycleStart, cycleEnd) = monthBounds now in
         chargeBillingResource L registry profile billingContext services timeUnit (truncateForTimeUnit now timeUnit) cycleStart cycleEnd)))"

section \<open>The window of a charge\<close>

lemma monthBounds_span: "monthBounds now = (firstDayOfCurrentMonth now, lastDayOfCurrentMonth now + 1)"
proof -
  let ?s = "mkDate (yearOf now) (monthOf now) 1 0"
  have "1 \<le> daysIn (yearOf now) (monthOf now)" using daysIn_bounds [of "monthOf now" "yearOf now"] by simp
  then have "addDate ?s 0 1 0 = mkDate (yearOf now) (monthOf now + 1) 1 0"
    by (simp add: addDate_def date_mkDate)
  also have "\<dots> = ?s + daysInMonth now * day"
    using dateDays_next_month [of "monthOf now" "yearOf now" 1] by (simp add: mkDate_def daysInMonth_eq algebra_simps)
  finally show ?thesis
    using month_span [of now] by (simp add: monthBounds_def Let_def firstDayOfCurrentMonth_def totalHoursCurrentMonth_def)
qed

text \<open>Every truncation steps back to a multiple of a unit that divides the day.\<close>

lemma truncate_unit: "\<exists>d. 0 < d \<and> d dvd day \<and> truncateForTimeUnit now u = now - now mod d"
proof -
  have "mkDate (yearOf now) (monthOf now) (dayOf now) 0 = now - now mod day"
    by (simp add: mkDate_def dayNumber_def minus_mod_eq_div_mult)
  then show ?thesis
    by (intro exI [of _ "if u = TimeUnitMinute then minute else if u = TimeUnitHour then hour else if u = TimeUnitMonth then day else 1"])
      (simp add: truncateForTimeUnit_def timeTruncate_def)
qed

lemma truncate_date:
  assumes "truncateForTimeUnit now u = t"
  shows "dayNumber t = dayNumber now" and "t \<le> now" and "dayNumber now * day \<le> t"
proof -
  from truncate_unit obtain d where d: "0 < d" "d dvd day" "t = now - now mod d" using assms by blast
  then obtain k where k: "day = d * k" by blast
  have "now mod day mod d = now mod d" using d(2) by (rule mod_mod_cancel)
  moreover have "now mod day mod d \<le> now mod day" using d(1) by (intro zmod_le_nonneg_dividend) simp
  ultimately have le: "now mod d \<le> now mod day" by simp
  have now: "now = dayNumber now * day + now mod day" by (simp add: dayNumber_def)
  have "0 \<le> now mod d" using d(1) by simp
  with d(3) show le': "t \<le> now" by simp
  show ge: "dayNumber now * day \<le> t" using le now d(3) by linarith
  have "t < dayNumber now * day + day" using le' now pos_mod_bound [of day now] by linarith
  then show "dayNumber t = dayNumber now"
    using ge by (simp add: dayNumber_def [of t] int_div_pos_eq [of t day "dayNumber now" "t - dayNumber now * day"])
qed


section \<open>What a charge may write\<close>

text \<open>A call is \<open>safe\<close> for a set of bills if from every sound bill table it writes nothing else.\<close>

definition safe :: "(Bill \<Rightarrow> bool) \<Rightarrow> 'a svc \<Rightarrow> bool" where
  "safe P m \<longleftrightarrow> (\<forall>w r w'. m w = (r, w') \<longrightarrow> bills_ok w \<longrightarrow> spares P w w')"

named_theorems safe_intros

lemma safeD: "safe P m \<Longrightarrow> m w = (r, w') \<Longrightarrow> bills_ok w \<Longrightarrow> spares P w w'"
  unfolding safe_def by blast

lemma safe_quiet: "quiet m \<Longrightarrow> safe P m"
  unfolding safe_def using quietD spares_stored by metis

lemma safe_bnd [safe_intros]:
  assumes "safe P m" and "\<And>x w w'. m w = (Inr x, w') \<Longrightarrow> safe P (f x)" shows "safe P (bnd m f)"
  unfolding safe_def
proof (intro allI impI)
  fix w r w'
  assume run: "bnd m f w = (r, w')" and ok: "bills_ok w"
  obtain r1 w1 where m: "m w = (r1, w1)" by (cases "m w")
  note sp = safeD [OF assms(1) m ok]
  show "spares P w w'"
  proof (cases r1)
    case (Inl e)
    then show ?thesis using run m sp by (simp add: bnd_def)
  next
    case (Inr x)
    then have f: "f x w1 = (r, w')" using run m by (simp add: bnd_def)
    have "bills_ok w1" using sp ok by (simp add: spares_def)
    from safeD [OF assms(2) [OF m [unfolded Inr]] f this] sp show ?thesis using spares_trans by blast
  qed
qed

lemma safe_attempt [safe_intros]: "safe P m \<Longrightarrow> safe P (attempt m)"
  unfolding safe_def attempt_def by (auto split: prod.splits sum.splits error.splits)

lemma safe_forS [safe_intros]: "(\<And>x acc. x \<in> set xs \<Longrightarrow> safe P (f x acc)) \<Longrightarrow> safe P (forS f xs acc)"
proof (induction xs arbitrary: acc)
  case Nil
  show ?case by (simp add: safe_quiet quiet_ret)
next
  case (Cons x xs)
  then show ?case by (auto intro!: safe_bnd)
qed

lemma safe_mono: "safe P m \<Longrightarrow> (\<And>d. P d \<Longrightarrow> Q d) \<Longrightarrow> safe Q m"
  unfolding safe_def using spares_mono by blast

lemma quiet_plan_reads [quiet_intros]: "quiet (planFindByID i)" "quiet planPublic" "quiet (ruleFind i u)"
  unfolding planFindByID_def planPublic_def ruleFind_def by (intro quiet_intros quiet_db; simp)+

lemma quiet_job_reads [quiet_intros]:
  "quiet (plansForService ids inc sid)" "quiet (applicableRules plans u)" "quiet (activeProjectsWithServices bpID)"
  "quiet (ListServices dec)" "quiet billingEnabled" "quiet (billAdjuster L p plans cs ce)"
  unfolding plansForService_def selectPlans_def scopedPlan_def applicableRules_def activeProjectsWithServices_def
    FindAllByBillingProfileID_def AllByBillingProfile_def ListServices_def billingEnabled_def billAdjuster_def
    availableSavingsAdj_def Let_def
  by (intro quiet_intros)+

lemma adjusters_keep_ID:
  assumes "billAdjuster L p plans cs ce w = (Inr (Some f), w')" and "f b = Inr b'"
  shows "bill_ID b' = bill_ID b"
  using assms
  by (auto simp: billAdjuster_def svc_simps Let_def bindR_eq_Inr ApplySavingsContractDiscounts_def ApplyPriceAdjustmentRules_def
      split: if_splits)

lemma quiet_billingResources [quiet_intros]:
  assumes "billing_registry registry" shows "quiet (billingResources registry bc projects sid)"
  unfolding billingResources_def by (intro quiet_intros billing_registry.quiet_GetBillingResources [OF assms])

lemma safe_charge [safe_intros]:
  assumes "\<And>f b b'. adjust = Some f \<Longrightarrow> f b = Inr b' \<Longrightarrow> bill_ID b' = bill_ID b"
  shows "safe (currentOpen bpID cs) (ChargeBillingResources L rc bc bpID rules resources cs ce cur adjust)"
  unfolding safe_def using ChargeBillingResources_spares assms by blast

lemma safe_chargeService [safe_intros]:
  assumes "billing_registry registry"
  shows "safe (currentOpen (bp_ID p) cs) (chargeService L registry p bc projects u ts cs ce es x)"
  unfolding chargeService_def Let_def
  by (cases "pricePlanConfig p", simp only: prod.case)
    (intro safe_intros safe_quiet quiet_intros assms, auto dest: adjusters_keep_ID)

lemma safe_chargeProfile:
  assumes "billing_registry registry"
  shows "safe (currentOpen (bp_ID p) (fst (monthBounds now))) (chargeProfile L registry services u now p err)"
  unfolding chargeProfile_def chargeBillingResource_def Let_def case_prod_beta
  by (intro safe_intros safe_quiet quiet_intros assms)

text \<open>The bills that a charge at an instant may write.\<close>

definition chargeable :: "BillingProfile list \<Rightarrow> time \<Rightarrow> Bill \<Rightarrow> bool" where
  "chargeable profiles now b \<longleftrightarrow> (\<exists>p\<in>set profiles. currentOpen (bp_ID p) (fst (monthBounds now)) b)"

lemma Charge_spares:
  assumes reg: "billing_registry registry" and run: "Charge L registry dec u now w = (r, w')" and ok: "bills_ok w"
  shows "spares (chargeable (storeFind (\<lambda>p. bp_Status p = StatusActive) (view profilesC w)) now) w w'"
proof -
  let ?ps = "storeFind (\<lambda>p. bp_Status p = StatusActive) (view profilesC w)"
  let ?rest = "\<lambda>profiles. bnd (ListServices dec) (\<lambda>services.
     bnd (forS (chargeProfile L registry services u now) profiles None) (\<lambda>firstErr.
       case firstErr of None \<Rightarrow> ret () | Some e \<Rightarrow> throw e))"
  have rest: "safe (chargeable ?ps now) (?rest ?ps)"
    by (intro safe_intros safe_mono [OF safe_chargeProfile [OF reg]] safe_quiet quiet_intros) (auto simp: chargeable_def)
  obtain r1 w1 where e: "billingEnabled w = (r1, w1)" by (cases "billingEnabled w")
  have s1: "stored w1 = stored w" by (rule quietD [of billingEnabled, OF _ e]) (intro quiet_intros)
  obtain r2 w2 where f: "FindByStatus StatusActive w1 = (r2, w2)" by (cases "FindByStatus StatusActive w1")
  have s2: "stored w2 = stored w" using quietD [of "FindByStatus StatusActive", OF _ f] s1 quiet_repo_reads(2) by simp
  consider "w' = w1" | "w' = w2" | "r2 = Inr ?ps" "?rest ?ps w2 = (r, w')"
  proof (cases "r1 = Inr True \<and> (\<exists>ps. r2 = Inr ps)")
    case True
    then obtain ps where r2: "r2 = Inr ps" by blast
    with f have "ps = ?ps" using profiles.find_run [of _ w1 ps w2] profiles.view_stored [OF s1] by (simp add: FindByStatus_def)
    then show ?thesis using run e f True r2 that(3) by (simp add: Charge_def bnd_def)
  next
    case False
    then show ?thesis using run e f that(1,2) by (cases r1; cases r2) (auto simp: Charge_def bnd_def ret_def split: if_splits)
  qed
  then show ?thesis
  proof cases
    case 3
    have "bills_ok w2" using ok bills.view_stored [OF s2] by (simp add: bills_ok_def)
    then show ?thesis using safeD [OF rest 3(2)] spares_stored [OF s2] spares_trans by blast
  qed (use s1 s2 spares_stored in auto)
qed

text \<open>
  C33. The charge job writes nothing but the open bills of the running cycle that belong to active
  profiles, whatever fails on the way: every other bill (sent, paid, of an earlier cycle or of a
  profile that is not active) is unchanged, and so is every other table.
\<close>

theorem charge_job_writes:
  assumes "Charge L (defaultRegistry L) dec timeUnit now w = (r, w')"
    and "distinct (map fst (w_bills w))" and "[] \<notin> fst ` set (w_bills w)"
    and "map_of (view billsC w) i = Some b"
    and "\<And>p. p \<in> set (storeFind (\<lambda>p. bp_Status p = StatusActive) (view profilesC w)) \<Longrightarrow>
      \<not> currentOpen (bp_ID p) (fst (monthBounds now)) b"
  shows "map_of (view billsC w') i = Some b \<and> only_bills w w'"
proof -
  have "bills_ok w" using assms(2,3) by (simp add: bills_ok_iff)
  from Charge_spares [OF default_registry.billing_registry_axioms assms(1) this] this assms(4,5) show ?thesis
    unfolding spares_def chargeable_def by blast
qed

theorem charge_job_writes_witness:
  "\<exists>r w'. Charge ref_lib (defaultRegistry ref_lib) id TimeUnitHour 0 (ex_shop 1000 300) = (r, w') \<and>
    map_of (view billsC w') ''b1'' = map_of (view billsC (ex_shop 1000 300)) ''b1'' \<and>
    map_of (view billsC (ex_shop 1000 300)) ''b1'' \<noteq> None"
proof -
  let ?w = "ex_shop 1000 300" and ?b = "ex_charged_bill 1000 \<lparr> bill_Status := BillSent, bill_DueAt := Some 0 \<rparr>"
  obtain r w' where run: "Charge ref_lib (defaultRegistry ref_lib) id TimeUnitHour 0 ?w = (r, w')"
    by (cases "Charge ref_lib (defaultRegistry ref_lib) id TimeUnitHour 0 ?w")
  have b: "map_of (view billsC ?w) ''b1'' = Some (?b \<lparr> bill_ID := ''b1'' \<rparr>)"
    by (simp add: view_def billsC_def ex_shop_def)
  have "distinct (map fst (w_bills ?w))" "[] \<notin> fst ` set (w_bills ?w)" by (simp_all add: ex_shop_def)
  from charge_job_writes [OF run this b] have "map_of (view billsC w') ''b1'' = Some (?b \<lparr> bill_ID := ''b1'' \<rparr>)"
    by (simp add: currentOpen_def)
  with run b show ?thesis by simp
qed

section \<open>The job and its fan-out\<close>

lemma reads_agree:
  assumes "dbFind c P w = (r, w1)" and "collection c" and "storeFind P (view c w) = [d]" and "distinct (map fst (c_table c w))"
    and "[] \<notin> fst ` set (c_table c w)"
  shows "dbGet c (c_ID c d) w = ((case r of Inl e \<Rightarrow> Inl e | Inr _ \<Rightarrow> Inr (Some d)), w1)"
    and "r = Inl (Failure ''db'') \<or> r = Inr [d]"
proof -
  have "d \<in> set (storeFind P (view c w))" using assms(3) by simp
  then obtain i where i: "(i, d) \<in> set (view c w)" by (auto simp: storeFind_def)
  then have ID: "c_ID c d = i" by (rule collection.view_ID [OF assms(2)])
  have "distinct (map fst (view c w))" using assms(4) view_distinct by metis
  moreover have "i \<noteq> []" using i assms(5) collection.view_keys [OF assms(2), of w] by force
  ultimately have get: "storeGet (view c w) (c_ID c d) = Some d" using i by (simp add: storeGet_def ID)
  have same: "view c (w \<lparr> w_faults := fs \<rparr>) = view c w" for fs by (rule collection.view_stored [OF assms(2)]) simp
  show "dbGet c (c_ID c d) w = ((case r of Inl e \<Rightarrow> Inl e | Inr _ \<Rightarrow> Inr (Some d)), w1)" "r = Inl (Failure ''db'') \<or> r = Inr [d]"
    using assms(1,3) get same by (auto simp: dbFind_def dbGet_def db_def Let_def split: list.splits if_splits)
qed

text \<open>
  C34. The in-process job and the queue consumer do the same work: with one active profile, a run of
  the job and a run of the consumer on that profile's id end in the same result and leave the
  same world, with the same database calls failing.
\<close>

theorem fanout_matches_job:
  assumes "storeFind (\<lambda>p. bp_Status p = StatusActive) (view profilesC w) = [p]"
    and "distinct (map fst (w_profiles w))" and "[] \<notin> fst ` set (w_profiles w)"
  shows "ChargeProfileByID L registry dec (bp_ID p) timeUnit now w = Charge L registry dec timeUnit now w"
proof -
  obtain r1 w1 where e: "billingEnabled w = (r1, w1)" by (cases "billingEnabled w")
  have s1: "stored w1 = stored w" by (rule quietD [of billingEnabled, OF _ e]) (intro quiet_intros)
  then have t1: "w_profiles w1 = w_profiles w" by (auto simp: stored_def dest: arg_cong [of _ _ w_profiles])
  obtain r2 w2 where f: "dbFind profilesC (\<lambda>p. bp_Status p = StatusActive) w1 = (r2, w2)" by (cases "dbFind profilesC (\<lambda>p. bp_Status p = StatusActive) w1")
  have "storeFind (\<lambda>p. bp_Status p = StatusActive) (view profilesC w1) = [p]" using assms(1) profiles.view_stored [OF s1] by simp
  from reads_agree [OF f profiles.collection_axioms this] assms(2,3) t1
  have g: "dbGet profilesC (bp_ID p) w1 = ((case r2 of Inl e \<Rightarrow> Inl e | Inr _ \<Rightarrow> Inr (Some p)), w2)"
    and r2: "r2 = Inl (Failure ''db'') \<or> r2 = Inr [p]" by (simp_all add: profilesC_def)
  have act: "bp_Status p = StatusActive"
    using arg_cong [OF assms(1), of set] by (auto simp: storeFind_def)
  let ?m = "\<lambda>services. case monthBounds now of (cs, ce) \<Rightarrow>
    chargeBillingResource L registry p billingContext services timeUnit (truncateForTimeUnit now timeUnit) cs ce"
  have tail: "?m services v = bnd (forS (chargeProfile L registry services timeUnit now) [p] None) (\<lambda>firstErr.
       case firstErr of None \<Rightarrow> ret () | Some e \<Rightarrow> throw e) v" for services v
    by (auto simp: chargeProfile_def bnd_def attempt_def ret_def throw_def split: prod.splits sum.splits error.splits)
  show ?thesis
  proof (cases r1)
    case (Inl x)
    then show ?thesis using e by (simp add: Charge_def ChargeProfileByID_def bnd_def)
  next
    case (Inr en)
    show ?thesis
    proof (cases "en \<and> r2 = Inr [p]")
      case True
      have "bnd (ListServices dec) ?m w2 = bnd (ListServices dec) (\<lambda>services. bnd (forS (chargeProfile L registry services timeUnit now) [p] None)
         (\<lambda>firstErr. case firstErr of None \<Rightarrow> ret () | Some e \<Rightarrow> throw e)) w2"
        by (simp add: bnd_def [of "ListServices dec"] tail split: prod.splits sum.splits)
      then show ?thesis using True Inr e f g act
        by (simp add: Charge_def ChargeProfileByID_def bnd_def [of billingEnabled] FindByStatus_def FindByID_def
            bnd_def [of "dbFind profilesC _"] bnd_def [of "dbGet profilesC _"] Let_def del: forS.simps)
    next
      case False
      then show ?thesis using Inr e f g r2 by (auto simp: Charge_def ChargeProfileByID_def bnd_def FindByStatus_def FindByID_def ret_def)
    qed
  qed
qed

theorem fanout_matches_job_witness:
  "ChargeProfileByID ref_lib (defaultRegistry ref_lib) id ''bp'' TimeUnitHour 0 (ex_shop 1000 300)
     = Charge ref_lib (defaultRegistry ref_lib) id TimeUnitHour 0 (ex_shop 1000 300)"
proof -
  let ?w = "ex_shop 1000 300"
  have "storeFind (\<lambda>p. bp_Status p = StatusActive) (view profilesC ?w) = [ex_profile]"
    by (simp add: storeFind_def view_def profilesC_def ex_shop_def ex_profile_def newProfile_def)
  moreover have "distinct (map fst (w_profiles ?w))" "[] \<notin> fst ` set (w_profiles ?w)" by (simp_all add: ex_shop_def)
  moreover have "bp_ID ex_profile = ''bp''" by (simp add: ex_profile_def)
  ultimately show ?thesis using fanout_matches_job [of ?w ex_profile ref_lib "defaultRegistry ref_lib" id TimeUnitHour 0] by simp
qed

end
