(* ===== verification/Suspension_Job.thy ===== *)
theory Suspension_Job
  imports Billing_Repo Service_Logic
begin

text \<open>
  \<open>billing/suspension_job.go\<close>, the dunning job: \<open>ExecuteDunning\<close> evaluates every active profile,
  opens a dunning process when the first limit is crossed, sends the reminders that are due and
  suspends at the last limit; \<open>ReviewBillingProfile\<close> resolves the process of a profile that has
  recovered. A process saved in memory is threaded through, as the code mutates it. The calls to
  the cloud, mail and audit hooks are logged; cloud errors are swallowed by the code.
\<close>

section \<open>Operations\<close>

definition auditEvent :: "hooks \<Rightarrow> string \<Rightarrow> string \<Rightarrow> unit svc" where
  "auditEvent H action procID = (if \<not> h_audit H then ret () else bnd timeNow (\<lambda>_. emit (Audit action procID)))"

definition suspensionConfigFor :: "BillingAutomaticSuspensionConfig option \<Rightarrow> BillingProfile \<Rightarrow> BillingAutomaticSuspensionConfig option" where
  "suspensionConfigFor global profile =
     (if bp_SuspensionConfiguration profile \<noteq> None \<and> bp_OverwriteSuspension profile then bp_SuspensionConfiguration profile else global)"

definition createProcess :: "BillingAutomaticSuspensionConfig \<Rightarrow> BillingProfile \<Rightarrow> string \<Rightarrow> time \<Rightarrow> SuspensionProcess" where
  "createProcess cfg profile baseCurrency now = \<lparr> sp_ID = '''', sp_Status = SuspensionInProgress,
     sp_BillingProfileID = bp_ID profile,
     sp_Notifications = map (\<lambda>l. \<lparr> sn_SuspensionLimit = l, sn_Balance = None, sn_Currency = baseCurrency, sn_SentAt = None,
       sn_CreatedAt = Some now \<rparr>) (cfg_Notifications cfg),
     sp_CreatedAt = None, sp_UpdatedAt = None \<rparr>"

definition suspend :: "hooks \<Rightarrow> SuspensionProcess \<Rightarrow> BillingProfile \<Rightarrow> unit svc" where
  "suspend H proc profile =
     bnd (if h_clouds H then emit (CloudSuspend (bp_ID profile)) else ret ()) (\<lambda>_.
     bnd (SaveSuspensionProcess (proc \<lparr> sp_Status := SuspensionSuspended \<rparr>)) (\<lambda>proc.
     bnd (Update (profile \<lparr> bp_Status := StatusSuspended \<rparr>)) (\<lambda>profile.
     bnd (notify H ''notify_customer_is_suspended'' (bp_Email profile)) (\<lambda>_.
     auditEvent H ''SUSPEND'' (sp_ID proc)))))"

definition resume :: "hooks \<Rightarrow> BillingProfile \<Rightarrow> unit svc" where
  "resume H profile =
     bnd (Update (profile \<lparr> bp_Status := StatusActive \<rparr>)) (\<lambda>profile.
     bnd (if h_clouds H then emit (CloudResume (bp_ID profile)) else ret ()) (\<lambda>_.
     notify H ''notify_customer_is_resumed'' (bp_Email profile)))"

text \<open>The process of the profile: the one in progress, or a new one, which is saved and audited.\<close>

definition openProcess :: "hooks \<Rightarrow> BillingAutomaticSuspensionConfig \<Rightarrow> BillingProfile \<Rightarrow> string \<Rightarrow> time \<Rightarrow> SuspensionProcess svc" where
  "openProcess H cfg profile baseCurrency now =
     bnd (FindFirstSuspensionByStatus (bp_ID profile) SuspensionInProgress) (\<lambda>found. case found of Some proc \<Rightarrow> ret proc
     | None \<Rightarrow> bnd (SaveSuspensionProcess (createProcess cfg profile baseCurrency now)) (\<lambda>proc.
         bnd (auditEvent H ''CREATE'' (sp_ID proc)) (\<lambda>_. ret proc)))"

definition sendReminders :: "declib \<Rightarrow> hooks \<Rightarrow> BillingAutomaticSuspensionConfig \<Rightarrow> BillingProfile \<Rightarrow> decimal \<Rightarrow> time list \<Rightarrow>
    time \<Rightarrow> SuspensionProcess \<Rightarrow> SuspensionProcess svc" where
  "sendReminders L H cfg profile balance dueAts now proc =
     (let (n, marked) = MarkNotificationsToSend L cfg (sp_Notifications proc) dueAts balance now;
          proc = proc \<lparr> sp_Notifications := marked \<rparr> in
      if n = 0 then ret proc
      else bnd (SaveSuspensionProcess proc) (\<lambda>proc.
        let template = (if cfg_Type cfg = SuspensionTypeBalance then ''notify_customer_before_suspension_balance''
              else ''notify_customer_before_suspension'') in
        bnd (notify H template (bp_Email profile)) (\<lambda>_.
        bnd (auditEvent H ''NOTIFY'' (sp_ID proc)) (\<lambda>_. ret proc))))"

definition executeBillingProfile :: "declib \<Rightarrow> hooks \<Rightarrow> BillingAutomaticSuspensionConfig option \<Rightarrow> BillingProfile \<Rightarrow> string \<Rightarrow>
    time \<Rightarrow> bool svc" where
  "executeBillingProfile L H global profile baseCurrency now =
     (case suspensionConfigFor global profile of None \<Rightarrow> ret False
      | Some cfg \<Rightarrow> if \<not> cfg_Enabled cfg then ret False else
        (case StartAtSuspensionLimit L cfg of None \<Rightarrow> ret False
         | Some limit \<Rightarrow>
           bnd (CurrentBalance L (bp_ID profile) now) (\<lambda>balance.
           bnd (DueBills (bp_ID profile) now) (\<lambda>dueAts.
           if bp_Status profile \<noteq> StatusActive \<or> \<not> IsEligibleForSuspension L (Some cfg) limit balance dueAts now then ret False
           else bnd (FindFirstSuspensionByStatus (bp_ID profile) SuspensionSuspended) (\<lambda>already.
             if already \<noteq> None then ret False
             else bnd (openProcess H cfg profile baseCurrency now) (\<lambda>proc.
               bnd (sendReminders L H cfg profile balance dueAts now proc) (\<lambda>proc.
               case cfg_SuspendedAt cfg of None \<Rightarrow> ret False
               | Some suspendedAt \<Rightarrow> if IsEligibleForSuspension L (Some cfg) suspendedAt balance dueAts now
                   then bnd (suspend H proc profile) (\<lambda>_. ret True) else ret False)))))))"

definition isReseller :: "BillingProfile \<Rightarrow> bool" where
  "isReseller p = (case bp_Reseller p of None \<Rightarrow> False | Some r \<Rightarrow> rs_Enabled r)"

definition dunningStep :: "declib \<Rightarrow> hooks \<Rightarrow> BillingAutomaticSuspensionConfig option \<Rightarrow> string \<Rightarrow> time \<Rightarrow> BillingProfile \<Rightarrow> int \<Rightarrow> int svc" where
  "dunningStep L H global baseCurrency now profile suspended =
     (if isReseller profile then ret suspended
      else bnd (attempt (executeBillingProfile L H global profile baseCurrency now)) (\<lambda>r.
        ret (case r of Inl _ \<Rightarrow> suspended | Inr did \<Rightarrow> if did then suspended + 1 else suspended)))"

definition ExecuteDunning :: "declib \<Rightarrow> hooks \<Rightarrow> int svc" where
  "ExecuteDunning L H = bnd timeNow (\<lambda>now.
     bnd SuspensionConfiguration (\<lambda>global. case global of None \<Rightarrow> ret 0
     | Some g \<Rightarrow> if \<not> cfg_Enabled g then ret 0 else
       bnd BaseCurrency (\<lambda>baseCurrency.
       bnd (FindByStatus StatusActive) (\<lambda>profiles.
         forS (dunningStep L H global baseCurrency now) profiles 0))))"

definition ReviewBillingProfile :: "declib \<Rightarrow> hooks \<Rightarrow> BillingProfile \<Rightarrow> unit svc" where
  "ReviewBillingProfile L H profile = bnd timeNow (\<lambda>now.
     bnd SuspensionConfiguration (\<lambda>global. case global of None \<Rightarrow> ret ()
     | Some g \<Rightarrow> if \<not> cfg_Enabled g then ret () else
       (let cfg = suspensionConfigFor global profile in
        case (case cfg of None \<Rightarrow> None | Some c \<Rightarrow> StartAtSuspensionLimit L c) of None \<Rightarrow> ret ()
        | Some limit \<Rightarrow>
          bnd (ExistsSuspensionByStatusIn (bp_ID profile) [SuspensionInProgress, SuspensionSuspended]) (\<lambda>found.
          if \<not> found then ret ()
          else bnd (CurrentBalance L (bp_ID profile) now) (\<lambda>balance.
            bnd (DueBills (bp_ID profile) now) (\<lambda>dueAts.
            if IsEligibleForSuspension L cfg limit balance dueAts now then ret ()
            else bnd (FindFirstSuspensionByStatusIn (bp_ID profile) [SuspensionInProgress, SuspensionSuspended]) (\<lambda>p.
              case p of None \<Rightarrow> ret ()
              | Some proc \<Rightarrow>
                bnd (if sp_Status proc = SuspensionSuspended then resume H profile else ret ()) (\<lambda>_.
                bnd (SaveSuspensionProcess (proc \<lparr> sp_Status := SuspensionResolved \<rparr>)) (\<lambda>proc.
                auditEvent H ''UNSUSPEND'' (sp_ID proc))))))))))"

section \<open>At most one open process\<close>

definition openFor :: "string \<Rightarrow> SuspensionProcess \<Rightarrow> bool" where
  "openFor bpID p \<longleftrightarrow> sp_BillingProfileID p = bpID \<and> sp_Status p \<in> {SuspensionInProgress, SuspensionSuspended}"

definition processes_ok :: "world \<Rightarrow> bool" where
  "processes_ok w \<longleftrightarrow> distinct (map fst (view suspensionsC w)) \<and> [] \<notin> fst ` set (view suspensionsC w) \<and>
     (\<forall>bpID. storeCount (openFor bpID) (view suspensionsC w) \<le> 1)"

definition process_at :: "SuspensionProcess \<Rightarrow> world \<Rightarrow> bool" where
  "process_at p w \<longleftrightarrow> sp_ID p \<noteq> [] \<and> (\<exists>d. map_of (view suspensionsC w) (sp_ID p) = Some d \<and>
     sp_BillingProfileID d = sp_BillingProfileID p \<and> sp_Status d \<in> {SuspensionInProgress, SuspensionSuspended})"

text \<open>The process in hand is open itself and overwrites an open one of the same profile.\<close>

definition live :: "SuspensionProcess \<Rightarrow> world \<Rightarrow> bool" where
  "live p w \<longleftrightarrow> processes_ok w \<and> process_at p w \<and> sp_Status p \<in> {SuspensionInProgress, SuspensionSuspended}"

lemma tables_processes [intro]: "tables processes_ok" "tables (process_at p)" "tables (live p)"
proof -
  show "tables processes_ok"
    using suspensions.tables_view [of "\<lambda>t. distinct (map fst t) \<and> [] \<notin> fst ` set t \<and> (\<forall>bpID. storeCount (openFor bpID) t \<le> 1)"]
    by (simp add: processes_ok_def [abs_def])
  show "tables (process_at p)"
    using suspensions.tables_view [of "\<lambda>t. sp_ID p \<noteq> [] \<and> (\<exists>d. map_of t (sp_ID p) = Some d \<and>
       sp_BillingProfileID d = sp_BillingProfileID p \<and> sp_Status d \<in> {SuspensionInProgress, SuspensionSuspended})"]
    by (simp add: process_at_def [abs_def])
  then show "tables (live p)"
    unfolding live_def [abs_def] by (intro tables_conj \<open>tables processes_ok\<close> tables_const)
qed

lemma stored_process:
  assumes "processes_ok w" and "map_of (view suspensionsC w) i = Some p" and "sp_ID p = i"
    and "sp_Status p \<in> {SuspensionInProgress, SuspensionSuspended}"
  shows "live p w"
proof -
  have "i \<noteq> []" using assms(1) map_of_SomeD [OF assms(2)] by (force simp: processes_ok_def)
  then show ?thesis using assms by (auto simp: live_def process_at_def)
qed

text \<open>Replacing a row by one that counts no more than it did cannot raise the count.\<close>

lemma replaceRow_count_le:
  assumes "map_of t k = Some d" and "P new \<Longrightarrow> P d"
  shows "storeCount P (replaceRow k (\<lambda>_. new) t) \<le> storeCount P t"
  using assms by (induction t) (auto simp: storeCount_def split: if_splits)

lemma quiet_auditEvent [quiet_intros]: "quiet (auditEvent H a i)"
  unfolding auditEvent_def by (intro quiet_intros)

lemma save_new_process:
  assumes "sp_ID p = []" and "sp_Status p = SuspensionInProgress"
  shows "triple (\<lambda>w. processes_ok w \<and> storeCount (openFor (sp_BillingProfileID p)) (view suspensionsC w) = 0) (SaveSuspensionProcess p)
    live processes_ok"
proof -
  let ?P = "\<lambda>w. processes_ok w \<and> storeCount (openFor (sp_BillingProfileID p)) (view suspensionsC w) = 0"
  have t: "tables ?P" by (intro tables_conj tables_processes suspensions.tables_view)
  let ?d = "\<lambda>now. p \<lparr> sp_UpdatedAt := Some now, sp_CreatedAt := Some now \<rparr>"
  have step: "live (?d now \<lparr> sp_ID := i \<rparr>) w'"
    if w: "?P w" and v: "view suspensionsC w' = view suspensionsC w @ [(i, ?d now \<lparr> sp_ID := i \<rparr>)]" and i: "i \<notin> fst ` set (view suspensionsC w)" "i \<noteq> []"
    for w w' now i
  proof -
    have "storeCount (openFor bpID) (view suspensionsC w') \<le> 1" for bpID
      using w v by (cases "bpID = sp_BillingProfileID p") (auto simp: processes_ok_def storeCount_def openFor_def)
    moreover have "map_of (view suspensionsC w') i = Some (?d now \<lparr> sp_ID := i \<rparr>)"
      using v i(1) by (simp add: map_add_Some_iff map_of_eq_None_iff)
    ultimately show ?thesis using w v i assms(2) by (intro stored_process [of _ i]) (auto simp: processes_ok_def)
  qed
  show ?thesis
  proof (unfold SaveSuspensionProcess_def Let_def, rule triple_skip [OF quiet_timeNow t])
    show "triple ?P (if sp_ID (p \<lparr> sp_UpdatedAt := Some now \<rparr>) = [] then bnd (dbInsertOne suspensionsC (?d now)) (\<lambda>i. ret (?d now \<lparr> sp_ID := i \<rparr>))
        else bnd (dbReplace suspensionsC (sp_ID (p \<lparr> sp_UpdatedAt := Some now \<rparr>)) (p \<lparr> sp_UpdatedAt := Some now \<rparr>))
          (\<lambda>_. ret (p \<lparr> sp_UpdatedAt := Some now \<rparr>))) live processes_ok" for now
      using step by (simp add: assms(1), intro triple_seq [OF suspensions.insert_triple [OF t]] triple_ret) (force simp: suspensionsC_def)+
  qed blast
qed

lemma save_process:
  "triple (\<lambda>w. processes_ok w \<and> process_at p w) (SaveSuspensionProcess p)
    (\<lambda>p' w. processes_ok w \<and> (\<exists>now. p' = p \<lparr> sp_UpdatedAt := Some now \<rparr>) \<and> map_of (view suspensionsC w) (sp_ID p) = Some p') processes_ok"
proof -
  let ?P = "\<lambda>w. processes_ok w \<and> process_at p w"
  have t: "tables ?P" by (intro tables_conj tables_processes)
  let ?d = "\<lambda>now. p \<lparr> sp_UpdatedAt := Some now \<rparr>"
  have step: "processes_ok w' \<and> map_of (view suspensionsC w') (sp_ID p) = Some (?d now)"
    if w: "?P w" and v: "view suspensionsC w' = replaceRow (sp_ID p) (\<lambda>_. ?d now) (view suspensionsC w)" for w w' now
  proof -
    from w obtain d where d: "map_of (view suspensionsC w) (sp_ID p) = Some d" "sp_BillingProfileID d = sp_BillingProfileID p"
      "sp_Status d \<in> {SuspensionInProgress, SuspensionSuspended}" by (auto simp: process_at_def)
    have "storeCount (openFor bpID) (view suspensionsC w') \<le> storeCount (openFor bpID) (view suspensionsC w)" for bpID
      unfolding v by (rule replaceRow_count_le [OF d(1)]) (use d in \<open>auto simp: openFor_def\<close>)
    then show ?thesis using w d v by (auto simp: processes_ok_def map_of_replaceRow intro: order_trans)
  qed
  have "sp_ID p \<noteq> []" if "?P w" for w using that by (simp add: process_at_def)
  then consider "sp_ID p \<noteq> []" | "\<And>w. \<not> ?P w" by blast
  then show ?thesis
  proof cases
    case 1
    show ?thesis
    proof (unfold SaveSuspensionProcess_def Let_def, rule triple_skip [OF quiet_timeNow t])
      show "triple ?P (if sp_ID (?d now) = [] then bnd (dbInsertOne suspensionsC (?d now \<lparr> sp_CreatedAt := Some now \<rparr>))
            (\<lambda>i. ret (?d now \<lparr> sp_CreatedAt := Some now, sp_ID := i \<rparr>))
          else bnd (dbReplace suspensionsC (sp_ID (?d now)) (?d now)) (\<lambda>_. ret (?d now)))
          (\<lambda>p' w. processes_ok w \<and> (\<exists>now. p' = p \<lparr> sp_UpdatedAt := Some now \<rparr>) \<and> map_of (view suspensionsC w) (sp_ID p) = Some p') processes_ok" for now
        using step by (simp add: 1, intro triple_seq [OF suspensions.replace_triple [OF t]] triple_ret) (force simp: suspensionsC_def)+
    qed blast
  next
    case 2
    then show ?thesis by (auto simp: triple_def)
  qed
qed

lemma save_live:
  assumes "\<And>w. live p w \<Longrightarrow> live q w"
  shows "triple (live p) (SaveSuspensionProcess q) live processes_ok"
proof (rule tripleI)
  fix w r w'
  assume p: "live p w" and run: "SaveSuspensionProcess q w = (r, w')"
  note q = assms [OF p]
  have "case r of Inl e \<Rightarrow> processes_ok w'
     | Inr p' \<Rightarrow> processes_ok w' \<and> (\<exists>now. p' = q \<lparr> sp_UpdatedAt := Some now \<rparr>) \<and> map_of (view suspensionsC w') (sp_ID q) = Some p'"
    using tripleD [OF save_process _ run] q by (simp add: live_def)
  then show "case r of Inl e \<Rightarrow> processes_ok w' | Inr p' \<Rightarrow> live p' w'"
    using q stored_process [of w' "sp_ID q"] by (cases r) (auto simp: live_def [of q])
qed

lemma view_other_table:
  assumes "stored w' = w_profiles_update f (stored w)" shows "view suspensionsC w' = view suspensionsC w"
proof -
  have "w_suspensions (stored w') = w_suspensions (stored w)" by (simp add: assms)
  then show ?thesis by (simp add: view_def suspensionsC_def stored_def)
qed

lemma update_keeps_processes: "triple processes_ok (Update bp) (\<lambda>_. processes_ok) processes_ok"
  and update_keeps_process: "triple (\<lambda>w. processes_ok w \<and> process_at p w) (Update bp) (\<lambda>_ w. processes_ok w \<and> process_at p w)
    (\<lambda>w. processes_ok w \<and> process_at p w)"
proof -
  have keep: "triple P (Update bp) (\<lambda>_. P) P" if t: "tables P" and v: "\<And>w w'. view suspensionsC w' = view suspensionsC w \<Longrightarrow> P w \<Longrightarrow> P w'" for P
    unfolding Update_def Let_def
    by (intro triple_skip [OF quiet_timeNow t] triple_seq [OF profiles.replace_triple [OF t]] triple_ret)
      (auto intro: v dest: view_other_table simp: profilesC_def)
  show "triple processes_ok (Update bp) (\<lambda>_. processes_ok) processes_ok"
    by (rule keep) (auto simp: processes_ok_def)
  show "triple (\<lambda>w. processes_ok w \<and> process_at p w) (Update bp) (\<lambda>_ w. processes_ok w \<and> process_at p w)
    (\<lambda>w. processes_ok w \<and> process_at p w)"
  proof (rule keep)
    show "tables (\<lambda>w. processes_ok w \<and> process_at p w)" by (intro tables_conj tables_processes)
    show "processes_ok w' \<and> process_at p w'" if "view suspensionsC w' = view suspensionsC w" "processes_ok w \<and> process_at p w" for w w'
      using that(2) unfolding processes_ok_def process_at_def that(1) .
  qed
qed

lemma found_process:
  assumes "processes_ok w" and "storeFindOne S (view suspensionsC w) = Some (i, d)"
    and "sp_Status d \<in> {SuspensionInProgress, SuspensionSuspended}"
  shows "live d w"
proof -
  note f = storeFindOne_Some [OF assms(2)]
  have ID: "sp_ID d = i" using suspensions.view_ID [OF f(1)] by (simp add: suspensionsC_def)
  have "map_of (view suspensionsC w) i = Some d" using f(1) assms(1) by (simp add: processes_ok_def)
  then show ?thesis using stored_process [OF assms(1) _ ID assms(3)] by blast
qed

lemma no_process:
  assumes "storeFindOne (\<lambda>p. sp_BillingProfileID p = b \<and> sp_Status p = SuspensionSuspended) t = None"
    and "storeFindOne (\<lambda>p. sp_BillingProfileID p = b \<and> sp_Status p = SuspensionInProgress) t = None"
  shows "storeCount (openFor b) t = 0"
  using assms by (auto simp: storeFindOne_None storeExists_def storeCount_def openFor_def filter_empty_conv)

lemma openProcess_ok:
  "triple (\<lambda>w. processes_ok w \<and> storeFindOne (\<lambda>p. sp_BillingProfileID p = bp_ID profile \<and> sp_Status p = SuspensionSuspended) (view suspensionsC w) = None)
     (openProcess H cfg profile cur now) live processes_ok"
proof -
  let ?S = "\<lambda>p. sp_BillingProfileID p = bp_ID profile \<and> sp_Status p = SuspensionSuspended"
  let ?I = "\<lambda>p. sp_BillingProfileID p = bp_ID profile \<and> sp_Status p = SuspensionInProgress"
  let ?P = "\<lambda>w. processes_ok w \<and> storeFindOne ?S (view suspensionsC w) = None"
  let ?p = "createProcess cfg profile cur now"
  have t: "tables ?P" by (intro tables_conj tables_processes suspensions.tables_view)
  have new: "triple (\<lambda>w. ?P w \<and> None = map_option snd (storeFindOne ?I (view suspensionsC w)))
      (bnd (SaveSuspensionProcess ?p) (\<lambda>proc. bnd (auditEvent H ''CREATE'' (sp_ID proc)) (\<lambda>_. ret proc))) live processes_ok"
    by (rule triple_seq [OF triple_pre [OF save_new_process [of ?p]]])
      (auto simp: createProcess_def live_def dest: no_process intro!: triple_skip [OF quiet_auditEvent] tables_processes(3) triple_ret)
  have old: "triple (\<lambda>w. ?P w \<and> Some proc = map_option snd (storeFindOne ?I (view suspensionsC w))) (ret proc) live processes_ok" for proc
  proof (rule triple_ret)
    fix w
    assume w: "?P w \<and> Some proc = map_option snd (storeFindOne ?I (view suspensionsC w))"
    then obtain i where i: "storeFindOne ?I (view suspensionsC w) = Some (i, proc)" by (cases "storeFindOne ?I (view suspensionsC w)") auto
    have "sp_Status proc \<in> {SuspensionInProgress, SuspensionSuspended}" using storeFindOne_Some [OF i] by simp
    then show "live proc w" using w found_process [OF _ i] by blast
  qed
  show ?thesis
    unfolding openProcess_def FindFirstSuspensionByStatus_def
  proof (rule triple_seq [OF suspensions.find_one_triple [OF t]])
    show "triple (\<lambda>w. ?P w \<and> x = map_option snd (storeFindOne ?I (view suspensionsC w)))
      (case x of None \<Rightarrow> bnd (SaveSuspensionProcess ?p) (\<lambda>proc. bnd (auditEvent H ''CREATE'' (sp_ID proc)) (\<lambda>_. ret proc))
       | Some proc \<Rightarrow> ret proc) live processes_ok" for x
      by (cases x; simp only: option.case) (rule new, rule old)
  qed blast
qed

lemma sendReminders_ok:
  "triple (live p) (sendReminders L H cfg profile balance dueAts now p) live processes_ok"
proof -
  have t: "tables (live q)" for q by (rule tables_processes)
  obtain n marked where mk: "MarkNotificationsToSend L cfg (sp_Notifications p) dueAts balance now = (n, marked)"
    by (cases "MarkNotificationsToSend L cfg (sp_Notifications p) dueAts balance now")
  let ?q = "p \<lparr> sp_Notifications := marked \<rparr>"
  have q: "live p w \<Longrightarrow> live ?q w" for w by (simp add: live_def process_at_def)
  have saved: "triple (live p) (SaveSuspensionProcess ?q) live processes_ok"
    by (rule save_live) (simp_all add: live_def process_at_def)
  show ?thesis
    unfolding sendReminders_def mk Let_def prod.case
    by (intro triple_if triple_seq [OF saved] triple_skip [OF quiet_notify t] triple_skip [OF quiet_auditEvent t] triple_ret)
      (use q in \<open>auto simp: live_def\<close>)
qed

lemma suspend_ok: "triple (live p) (suspend H p profile) (\<lambda>_. processes_ok) processes_ok"
proof -
  have q: "quiet (if h_clouds H then emit (CloudSuspend (bp_ID profile)) else ret ())" by (intro quiet_intros)
  have saved: "triple (live p) (SaveSuspensionProcess (p \<lparr> sp_Status := SuspensionSuspended \<rparr>)) live processes_ok"
    by (rule save_live) (simp add: live_def process_at_def)
  have upd: "triple (live x) (Update y) (\<lambda>_. processes_ok) processes_ok" for x y
    by (rule triple_pre [OF update_keeps_processes]) (simp add: live_def)
  show ?thesis
    unfolding suspend_def
    by (intro triple_skip [OF q] triple_seq [OF saved] triple_seq [OF upd] triple_skip [OF quiet_notify] triple_quiet [OF quiet_auditEvent])
      (auto simp: live_def)
qed

lemma executeBillingProfile_ok: "triple processes_ok (executeBillingProfile L H global profile cur now) (\<lambda>_. processes_ok) processes_ok"
proof -
  let ?S = "\<lambda>p. sp_BillingProfileID p = bp_ID profile \<and> sp_Status p = SuspensionSuspended"
  have t: "tables processes_ok" by (rule tables_processes)
  have rest: "triple (live p) (case cfg_SuspendedAt cfg of None \<Rightarrow> ret False
      | Some s \<Rightarrow> if IsEligibleForSuspension L (Some cfg) s balance dueAts now then bnd (suspend H p profile) (\<lambda>_. ret True) else ret False)
      (\<lambda>_. processes_ok) processes_ok" for cfg balance dueAts p
    by (intro triple_option triple_if triple_seq [OF suspend_ok] triple_ret) (auto simp: live_def)
  have go: "triple (\<lambda>w. processes_ok w \<and> already = map_option snd (storeFindOne ?S (view suspensionsC w)))
      (if already \<noteq> None then ret False else bnd (openProcess H cfg profile cur now) (\<lambda>p.
         bnd (sendReminders L H cfg profile balance dueAts now p) (\<lambda>p. case cfg_SuspendedAt cfg of None \<Rightarrow> ret False
      | Some s \<Rightarrow> if IsEligibleForSuspension L (Some cfg) s balance dueAts now then bnd (suspend H p profile) (\<lambda>_. ret True) else ret False)))
      (\<lambda>_. processes_ok) processes_ok" for already cfg balance dueAts
    by (intro triple_if triple_seq [OF triple_pre [OF openProcess_ok]] triple_seq [OF sendReminders_ok] rest triple_ret)
      (auto simp del: split_paired_Ex split_paired_All)
  show ?thesis
    unfolding executeBillingProfile_def FindFirstSuspensionByStatus_def
    by (intro triple_option triple_if triple_skip [OF quiet_balance(1) t] triple_skip [OF quiet_balance(3) t]
        triple_seq [OF suspensions.find_one_triple [OF t]] go triple_ret) auto
qed

lemma resume_ok:
  "triple (\<lambda>w. processes_ok w \<and> process_at p w) (resume H profile) (\<lambda>_ w. processes_ok w \<and> process_at p w) processes_ok"
proof -
  have t: "tables (\<lambda>w. processes_ok w \<and> process_at p w)" by (intro tables_conj tables_processes)
  have q: "quiet (if h_clouds H then emit (CloudResume (bp_ID x)) else ret ())" for x by (intro quiet_intros)
  show ?thesis
    unfolding resume_def
    by (rule triple_seq [OF update_keeps_process], blast, rule triple_skip [OF q t], blast,
        rule triple_conseq [OF triple_quiet [OF quiet_notify t]]) blast+
qed

lemma ExecuteDunning_ok: "triple processes_ok (ExecuteDunning L H) (\<lambda>_. processes_ok) processes_ok"
proof -
  have t: "tables processes_ok" by (rule tables_processes)
  have step: "triple processes_ok (dunningStep L H global cur now profile n) (\<lambda>_. processes_ok) processes_ok" for global cur now profile n
    unfolding dunningStep_def
    by (intro triple_if triple_ret triple_seq [OF triple_attempt [OF executeBillingProfile_ok]]) (auto split: sum.splits)
  show ?thesis
    unfolding ExecuteDunning_def
    by (intro triple_option triple_if triple_skip [OF quiet_timeNow t] triple_skip [OF quiet_repo_reads(9) t]
        triple_skip [OF quiet_repo_reads(7) t] triple_skip [OF quiet_repo_reads(2) t] triple_ret
        triple_forS [where I = "\<lambda>_. processes_ok"] step) auto
qed

lemma ReviewBillingProfile_ok: "triple processes_ok (ReviewBillingProfile L H profile) (\<lambda>_. processes_ok) processes_ok"
proof -
  have t: "tables processes_ok" by (rule tables_processes)
  let ?O = "\<lambda>p. sp_BillingProfileID p = bp_ID profile \<and> sp_Status p \<in> set [SuspensionInProgress, SuspensionSuspended]"
  let ?P = "\<lambda>p w. processes_ok w \<and> process_at p w"
  have tP: "tables (?P p)" for p by (intro tables_conj tables_processes)
  have resolve: "triple (?P p) (bnd (if sp_Status p = SuspensionSuspended then resume H profile else ret ()) (\<lambda>_.
      bnd (SaveSuspensionProcess (p \<lparr> sp_Status := SuspensionResolved \<rparr>)) (\<lambda>p. auditEvent H ''UNSUSPEND'' (sp_ID p))))
      (\<lambda>_. processes_ok) processes_ok" for p
  proof (rule triple_bnd [of _ _ "\<lambda>_. ?P p"])
    show "triple (?P p) (if sp_Status p = SuspensionSuspended then resume H profile else ret ()) (\<lambda>_. ?P p) processes_ok"
      by (intro triple_if resume_ok triple_ret)
    show "triple (?P p) (bnd (SaveSuspensionProcess (p \<lparr> sp_Status := SuspensionResolved \<rparr>)) (\<lambda>p. auditEvent H ''UNSUSPEND'' (sp_ID p)))
        (\<lambda>_. processes_ok) processes_ok"
      by (rule triple_seq [OF triple_pre [OF save_process [of "p \<lparr> sp_Status := SuspensionResolved \<rparr>"]]])
        (auto simp: process_at_def intro!: triple_conseq [OF triple_quiet [OF quiet_auditEvent t]])
  qed
  have found: "triple (\<lambda>w. processes_ok w \<and> x = map_option snd (storeFindOne ?O (view suspensionsC w)))
      (case x of None \<Rightarrow> ret () | Some p \<Rightarrow> bnd (if sp_Status p = SuspensionSuspended then resume H profile else ret ()) (\<lambda>_.
      bnd (SaveSuspensionProcess (p \<lparr> sp_Status := SuspensionResolved \<rparr>)) (\<lambda>p. auditEvent H ''UNSUSPEND'' (sp_ID p))))
      (\<lambda>_. processes_ok) processes_ok" for x
  proof (rule triple_option)
    fix p
    assume x: "x = Some p"
    have "?P p w" if w: "processes_ok w \<and> x = map_option snd (storeFindOne ?O (view suspensionsC w))" for w
    proof -
      from w x obtain i where i: "storeFindOne ?O (view suspensionsC w) = Some (i, p)"
        by (cases "storeFindOne ?O (view suspensionsC w)") auto
      have "sp_Status p \<in> {SuspensionInProgress, SuspensionSuspended}" using storeFindOne_Some [OF i] by auto
      then show ?thesis using found_process [OF _ i] w by (simp add: live_def)
    qed
    then show "triple (\<lambda>w. processes_ok w \<and> x = map_option snd (storeFindOne ?O (view suspensionsC w)))
      (bnd (if sp_Status p = SuspensionSuspended then resume H profile else ret ()) (\<lambda>_.
      bnd (SaveSuspensionProcess (p \<lparr> sp_Status := SuspensionResolved \<rparr>)) (\<lambda>p. auditEvent H ''UNSUSPEND'' (sp_ID p))))
      (\<lambda>_. processes_ok) processes_ok" by (rule triple_pre [OF resolve])
  qed (rule triple_ret, blast)
  show ?thesis
    unfolding ReviewBillingProfile_def FindFirstSuspensionByStatusIn_def Let_def
    by (intro triple_option triple_if triple_skip [OF quiet_timeNow t] triple_skip [OF quiet_repo_reads(9) t]
        triple_skip [OF quiet_repo_reads(29) t] triple_skip [OF quiet_balance(1) t] triple_skip [OF quiet_balance(3) t]
        triple_seq [OF suspensions.find_one_triple [OF t]] found triple_ret) auto
qed

text \<open>
  The runs of a deployment: it starts without processes, the two operations run in any order and
  end in any way, and between them anything may happen that leaves the processes alone.
\<close>

inductive dunning_reachable :: "declib \<Rightarrow> hooks \<Rightarrow> world \<Rightarrow> bool" for L H where
  start: "w_suspensions w = [] \<Longrightarrow> dunning_reachable L H w"
| dunning: "dunning_reachable L H w \<Longrightarrow> ExecuteDunning L H w = (r, w') \<Longrightarrow> dunning_reachable L H w'"
| review: "dunning_reachable L H w \<Longrightarrow> ReviewBillingProfile L H p w = (r', w') \<Longrightarrow> dunning_reachable L H w'"
| other: "dunning_reachable L H w \<Longrightarrow> w_suspensions w' = w_suspensions w \<Longrightarrow> dunning_reachable L H w'"

lemma reachable_processes_ok: "dunning_reachable L H w \<Longrightarrow> processes_ok w"
proof (induction rule: dunning_reachable.induct)
  case (start w)
  then show ?case by (simp add: processes_ok_def view_def suspensionsC_def storeCount_def)
next
  case (dunning w r w')
  then show ?case using tripleD [OF ExecuteDunning_ok dunning.IH dunning.hyps(2)] by (cases r) simp_all
next
  case (review w p r' w')
  then show ?case using tripleD [OF ReviewBillingProfile_ok review.IH review.hyps(2)] by (cases r') simp_all
next
  case (other w w')
  then have "view suspensionsC w' = view suspensionsC w" by (simp add: view_def suspensionsC_def)
  with other.IH show ?case by (simp add: processes_ok_def)
qed

text \<open>
  C35. However the dunning job and the reviews run and fail, a profile never has two dunning
  processes that are in progress or suspended.
\<close>

theorem one_open_process:
  assumes "dunning_reachable L H w"
  shows "storeCount (\<lambda>p. sp_BillingProfileID p = bpID \<and> sp_Status p \<in> {SuspensionInProgress, SuspensionSuspended}) (view suspensionsC w) \<le> 1"
  using reachable_processes_ok [OF assms] by (simp add: processes_ok_def openFor_def [abs_def])

text \<open>All hooks wired: a profile far below its limit is suspended by the first run.\<close>

theorem one_open_process_witness:
  "\<exists>w'. ExecuteDunning ref_lib ex_hooks (ex_shop 10000 300) = (Inr 1, w') \<and>
     storeCount (\<lambda>p. sp_BillingProfileID p = ''bp'' \<and> sp_Status p \<in> {SuspensionInProgress, SuspensionSuspended}) (view suspensionsC w') \<le> 1"
proof -
  have "fst (ExecuteDunning ref_lib ex_hooks (ex_shop 10000 300)) = Inr 1" by code_simp
  then obtain w' where run: "ExecuteDunning ref_lib ex_hooks (ex_shop 10000 300) = (Inr 1, w')" by (metis prod.collapse)
  have "w_suspensions (ex_shop 10000 300) = []" by (simp add: ex_shop_def ex_world_def)
  from one_open_process [OF dunning_reachable.dunning [OF dunning_reachable.start [OF this] run]] run show ?thesis by blast
qed

section \<open>Who is suspended\<close>

definition suspendable :: "declib \<Rightarrow> BillingAutomaticSuspensionConfig option \<Rightarrow> time \<Rightarrow> world \<Rightarrow> BillingProfile \<Rightarrow> bool" where
  "suspendable L global now w p \<longleftrightarrow> bp_Status p = StatusActive \<and> \<not> isReseller p \<and>
     (\<exists>cfg s bal. suspensionConfigFor global p = Some cfg \<and> cfg_Enabled cfg \<and> cfg_SuspendedAt cfg = Some s \<and>
        val bal = round_at 4 (spendable w (bp_ID p) now - due_total w (bp_ID p)) \<and>
        IsEligibleForSuspension L (Some cfg) s bal
          (List.map_filter (overdueAt now) (storeFind (\<lambda>b. bill_BillingProfileID b = bp_ID p) (view billsC w))) now)"

text \<open>Credits and bills as they were; a profile as it was, or suspended for a reason.\<close>

definition suspending :: "declib \<Rightarrow> BillingAutomaticSuspensionConfig option \<Rightarrow> time \<Rightarrow> world \<Rightarrow> world \<Rightarrow> bool" where
  "suspending L global now w0 w \<longleftrightarrow> view billsC w = view billsC w0 \<and> view acctCreditsC w = view acctCreditsC w0 \<and>
     view promoCreditC w = view promoCreditC w0 \<and> map fst (view profilesC w) = map fst (view profilesC w0) \<and>
     (\<forall>i p. map_of (view profilesC w0) i = Some p \<longrightarrow> map_of (view profilesC w) i = Some p \<or>
        suspendable L global now w0 p \<and>
        (\<exists>upd. map_of (view profilesC w) i = Some (p \<lparr> bp_Status := StatusSuspended, bp_UpdatedAt := Some upd \<rparr>)))"

lemma tables_suspending: "tables (suspending L global now w0)"
  unfolding tables_def
proof (intro allI impI)
  fix w w'
  assume s: "stored w' = stored w" and h: "suspending L global now w0 w"
  show "suspending L global now w0 w'"
    using h unfolding suspending_def bills.view_stored [OF s] acctCredits.view_stored [OF s] promoCredit.view_stored [OF s] profiles.view_stored [OF s] .
qed

lemma save_process_frame:
  assumes "SaveSuspensionProcess p w = (r, w')"
  shows "view billsC w' = view billsC w" "view acctCreditsC w' = view acctCreditsC w" "view promoCreditC w' = view promoCreditC w"
    "view profilesC w' = view profilesC w"
proof -
  have "triple (\<lambda>w1. stored w1 = stored w) (SaveSuspensionProcess p)
      (\<lambda>_ w'. \<exists>f. stored w' = w_suspensions_update f (stored w)) (\<lambda>w1. stored w1 = stored w)"
  proof -
    have t: "tables (\<lambda>w1. stored w1 = stored w)" by (simp add: tables_def)
    show ?thesis
      unfolding SaveSuspensionProcess_def Let_def
      by (intro triple_skip [OF quiet_timeNow t] triple_if triple_seq [OF suspensions.replace_triple [OF t]]
          triple_seq [OF suspensions.insert_triple [OF t]] triple_ret) (auto simp: suspensionsC_def)
  qed
  from tripleD [OF this refl assms] obtain f where "stored w' = w_suspensions_update f (stored w)"
    by (cases r) (auto intro: that [of id])
  then have "w_bills (stored w') = w_bills (stored w)" "w_acctCredits (stored w') = w_acctCredits (stored w)"
    "w_promoCredit (stored w') = w_promoCredit (stored w)" "w_profiles (stored w') = w_profiles (stored w)" by simp_all
  then show "view billsC w' = view billsC w" "view acctCreditsC w' = view acctCreditsC w" "view promoCreditC w' = view promoCreditC w"
    "view profilesC w' = view profilesC w"
    by (simp_all add: view_def billsC_def acctCreditsC_def promoCreditC_def profilesC_def stored_def)
qed

lemma save_process_suspending:
  "triple (suspending L global now w0) (SaveSuspensionProcess p) (\<lambda>_. suspending L global now w0) (suspending L global now w0)"
proof (rule tripleI)
  fix w r w'
  assume h: "suspending L global now w0 w" and run: "SaveSuspensionProcess p w = (r, w')"
  have "suspending L global now w0 w'" using h unfolding suspending_def save_process_frame [OF run] .
  then show "case r of Inl e \<Rightarrow> suspending L global now w0 w' | Inr x \<Rightarrow> suspending L global now w0 w'" by (cases r) simp_all
qed

lemma update_suspending:
  assumes p: "map_of (view profilesC w0) (bp_ID p) = Some p" and s: "suspendable L global now w0 p"
  shows "triple (suspending L global now w0) (Update (p \<lparr> bp_Status := StatusSuspended \<rparr>)) (\<lambda>_. suspending L global now w0)
    (suspending L global now w0)"
proof -
  note t = tables_suspending [of L global now w0]
  have step: "suspending L global now w0 w'"
    if h: "suspending L global now w0 w" and st: "stored w' = w_profiles_update f (stored w)"
      and v: "view profilesC w' = replaceRow (bp_ID p) (\<lambda>_. p \<lparr> bp_Status := StatusSuspended, bp_UpdatedAt := Some upd \<rparr>) (view profilesC w)"
    for w w' f upd
  proof -
    have "w_bills (stored w') = w_bills (stored w)" "w_acctCredits (stored w') = w_acctCredits (stored w)"
      "w_promoCredit (stored w') = w_promoCredit (stored w)" by (simp_all add: st)
    then have m: "view billsC w' = view billsC w" "view acctCreditsC w' = view acctCreditsC w" "view promoCreditC w' = view promoCreditC w"
      by (simp_all add: view_def billsC_def acctCreditsC_def promoCreditC_def stored_def)
    have "map_of (view profilesC w') i = Some q \<or> suspendable L global now w0 q \<and>
        (\<exists>upd. map_of (view profilesC w') i = Some (q \<lparr> bp_Status := StatusSuspended, bp_UpdatedAt := Some upd \<rparr>))"
      if q: "map_of (view profilesC w0) i = Some q" for i q
    proof (cases "i = bp_ID p")
      case True
      with q p have "q = p" by simp
      moreover obtain d where "map_of (view profilesC w) (bp_ID p) = Some d" using h p unfolding suspending_def by blast
      ultimately show ?thesis using s True by (auto simp: v map_of_replaceRow)
    next
      case False
      then have "map_of (view profilesC w') i = map_of (view profilesC w) i"
        unfolding v by (auto simp: map_of_replaceRow split: option.splits)
      then show ?thesis using h q unfolding suspending_def by auto
    qed
    then show ?thesis using h m v unfolding suspending_def by simp
  qed
  show ?thesis
    unfolding Update_def Let_def
  proof (intro triple_skip [OF quiet_timeNow t] triple_seq [OF profiles.replace_triple [OF t]] triple_ret)
    fix upd w'
    assume "\<exists>w. suspending L global now w0 w \<and>
        view profilesC w' = replaceRow (bp_ID (p \<lparr> bp_Status := StatusSuspended, bp_UpdatedAt := Some upd \<rparr>))
          (\<lambda>_. c_setID profilesC (bp_ID (p \<lparr> bp_Status := StatusSuspended, bp_UpdatedAt := Some upd \<rparr>))
            (p \<lparr> bp_Status := StatusSuspended, bp_UpdatedAt := Some upd \<rparr>)) (view profilesC w) \<and>
        stored w' = c_upd profilesC (replaceRow (bp_ID (p \<lparr> bp_Status := StatusSuspended, bp_UpdatedAt := Some upd \<rparr>))
          (\<lambda>_. p \<lparr> bp_Status := StatusSuspended, bp_UpdatedAt := Some upd \<rparr>)) (stored w)"
    then show "suspending L global now w0 w'"
      using step by (auto simp: profilesC_def)
  qed auto
qed

lemma execute_suspending:
  assumes L: "decimal_lib L" and p: "map_of (view profilesC w0) (bp_ID p) = Some p" and nr: "\<not> isReseller p"
  shows "triple (suspending L global now w0) (executeBillingProfile L H global p cur now) (\<lambda>_. suspending L global now w0)
    (suspending L global now w0)"
proof -
  let ?J = "suspending L global now w0"
  note t = tables_suspending [of L global now w0]
  note find = suspensions.find_one_triple [OF t]
  have stay: "triple ?J (openProcess H cfg p cur now) (\<lambda>_. ?J) ?J"
    "triple ?J (sendReminders L H cfg p balance dueAts now proc) (\<lambda>_. ?J) ?J" for cfg balance dueAts proc
    unfolding openProcess_def sendReminders_def FindFirstSuspensionByStatus_def Let_def case_prod_beta
    by (intro triple_skip [OF quiet_reads(4) t] triple_option triple_if triple_seq [OF save_process_suspending]
        triple_skip [OF quiet_auditEvent t] triple_skip [OF quiet_notify t] triple_ret; assumption)+
  have susp: "triple ?J (suspend H proc p) (\<lambda>_. ?J) ?J" if "suspendable L global now w0 p" for proc
    unfolding suspend_def
    by (intro triple_skip [OF quiet_if [OF quiet_emit quiet_ret] t] triple_seq [OF save_process_suspending]
        triple_seq [OF update_suspending [OF p that]] triple_skip [OF quiet_notify t] triple_quiet [OF quiet_auditEvent t])
  let ?B = "\<lambda>bal. val bal = round_at 4 (spendable w0 (bp_ID p) now - due_total w0 (bp_ID p))"
  let ?D = "\<lambda>dues. dues = List.map_filter (overdueAt now) (storeFind (\<lambda>b. bill_BillingProfileID b = bp_ID p) (view billsC w0))"
  have bal: "?B x" if "?J w" "CurrentBalance L (bp_ID p) now w = (Inr x, w')" for w x w'
  proof -
    have "spendable w (bp_ID p) now = spendable w0 (bp_ID p) now" "due_total w (bp_ID p) = due_total w0 (bp_ID p)"
      using that(1) by (simp_all add: suspending_def spendable_def due_total_def)
    then show ?thesis using decimal_lib.CurrentBalance_run [OF L that(2)] by simp
  qed
  have due: "?D x" if "?J w" "DueBills (bp_ID p) now w = (Inr x, w')" for w x w'
    using that by (auto simp: DueBills_def BillsByBillingProfile_def svc_simps suspending_def dest!: bills.find_run)
  have fin: "triple ?J (case cfg_SuspendedAt cfg of None \<Rightarrow> ret False
      | Some s \<Rightarrow> if IsEligibleForSuspension L (Some cfg) s balance dueAts now then bnd (suspend H proc p) (\<lambda>_. ret True) else ret False)
      (\<lambda>_. ?J) ?J"
    if "suspensionConfigFor global p = Some cfg" "cfg_Enabled cfg" "bp_Status p = StatusActive" "?B balance" "?D dueAts"
    for cfg balance dueAts proc
  proof (rule triple_option)
    fix s
    assume s: "cfg_SuspendedAt cfg = Some s"
    have "suspendable L global now w0 p" if "IsEligibleForSuspension L (Some cfg) s balance dueAts now"
      using that s nr \<open>suspensionConfigFor global p = Some cfg\<close> \<open>cfg_Enabled cfg\<close> \<open>bp_Status p = StatusActive\<close> \<open>?B balance\<close> \<open>?D dueAts\<close>
      unfolding suspendable_def by blast
    then show "triple ?J (if IsEligibleForSuspension L (Some cfg) s balance dueAts now then bnd (suspend H proc p) (\<lambda>_. ret True) else ret False) (\<lambda>_. ?J) ?J"
      by (intro triple_if triple_seq [OF susp] triple_ret) auto
  qed (rule triple_ret)
  show ?thesis
    unfolding executeBillingProfile_def FindFirstSuspensionByStatus_def
    by (intro triple_option triple_if triple_ret triple_know [OF quiet_balance(1) t _ bal] triple_know [OF quiet_balance(3) t _ due]
        triple_skip [OF quiet_reads(4) t] triple_seq [OF stay(1)] triple_seq [OF stay(2)] fin) auto
qed



end
