(* ===== verification/Activation.thy ===== *)
theory Activation
  imports Billing_Repo Service_Logic Go_Fmt "HOL-Library.AList"
begin

text \<open>
  The life of a billing profile: the activation rules (\<open>billing/activation.go\<close>), the activation
  service driven by the administration (\<open>billing/activationservice.go\<close>) and the filling of the
  billing details by the customer (\<open>billing/update.go\<close>, \<open>billing/phone.go\<close>,
  \<open>validateBillingDetails\<close> of \<open>billing/summary.go\<close>). The profile a call mutates in place is
  returned where the source returns it; otherwise the stored document is the result. The hooks
  for the cloud, the projects, the mail and the audit trail are logged. The telephone number package is a parameter.
\<close>

section \<open>The activation rules\<close>

definition isDisabledCT :: "string \<Rightarrow> bool" where
  "isDisabledCT ct \<longleftrightarrow> ct = ConstraintDisabled"

record constraintResult =
  cres_passed :: bool
  cres_ctype :: string

definition canActivateFromConstraints :: "constraintResult list \<Rightarrow> bool" where
  "canActivateFromConstraints results =
     (if list_ex (\<lambda>r. cres_ctype r = ConstraintRequired \<and> \<not> cres_passed r) results then False
      else if list_ex (\<lambda>r. cres_ctype r = ConstraintAlternative) results
        then list_ex (\<lambda>r. cres_ctype r = ConstraintAlternative \<and> cres_passed r) results
      else True)"

definition fillingBillingDetailsConstraint :: "AutoActivationFlow option \<Rightarrow> constraintResult" where
  "fillingBillingDetailsConstraint flow = \<lparr> cres_passed = True, cres_ctype = (case flow of None \<Rightarrow> ConstraintRequired
     | Some f \<Rightarrow> if \<not> (isDisabledCT (flow_PaymentMethod f) \<and> isDisabledCT (flow_BillingProfileValidation f)) then ConstraintDisabled
         else ConstraintRequired) \<rparr>"

definition billingProfileValidationConstraint :: "BillingProfile \<Rightarrow> AutoActivationFlow option \<Rightarrow> constraintResult" where
  "billingProfileValidationConstraint bp flow = (case flow of None \<Rightarrow> \<lparr> cres_passed = False, cres_ctype = ConstraintDisabled \<rparr>
     | Some f \<Rightarrow> \<lparr> cres_passed = False, cres_ctype = flow_BillingProfileValidation f \<rparr>)"

definition allVerificationsVerified :: "BillingProfile \<Rightarrow> bool" where
  "allVerificationsVerified bp \<longleftrightarrow> length (bp_Verifications bp) = 0"

definition kycConstraint :: "BillingProfile \<Rightarrow> AutoActivationFlow option \<Rightarrow> constraintResult" where
  "kycConstraint bp flow = (case flow of None \<Rightarrow> \<lparr> cres_passed = True, cres_ctype = ConstraintDisabled \<rparr>
     | Some f \<Rightarrow> \<lparr> cres_passed = (if \<not> isDisabledCT (flow_KYC f) then allVerificationsVerified bp else True), cres_ctype = flow_KYC f \<rparr>)"

definition paymentMethodConstraint :: "AutoActivationFlow option \<Rightarrow> constraintResult" where
  "paymentMethodConstraint flow = (case flow of None \<Rightarrow> \<lparr> cres_passed = True, cres_ctype = ConstraintDisabled \<rparr>
     | Some f \<Rightarrow> \<lparr> cres_passed = isDisabledCT (flow_PaymentMethod f), cres_ctype = flow_PaymentMethod f \<rparr>)"

definition canActivate :: "BillingProfile \<Rightarrow> string \<Rightarrow> AutoActivationFlow option \<Rightarrow> bool" where
  "canActivate bp source flow = (if source = SourceAdmin \<or> source = SourceAdminAPI then True
     else canActivateFromConstraints [fillingBillingDetailsConstraint flow, billingProfileValidationConstraint bp flow,
       kycConstraint bp flow, paymentMethodConstraint flow])"

section \<open>The activation service\<close>

definition NotifyValidation :: "hooks \<Rightarrow> BillingProfile \<Rightarrow> unit svc" where
  "NotifyValidation H bp = notify H ''billing_profile_validated'' (bp_Email bp)"

definition systemEvent :: "hooks \<Rightarrow> string \<Rightarrow> BillingProfile \<Rightarrow> unit svc" where
  "systemEvent H action bp = (if \<not> h_audit H then ret () else emit (Audit action (bp_ID bp)))"

definition currentBalance :: "declib \<Rightarrow> string \<Rightarrow> decimal svc" where
  "currentBalance L bpID = bnd timeNow (\<lambda>now. bnd (attempt (CurrentBalance L bpID now)) (\<lambda>r.
     ret (case r of Inl _ \<Rightarrow> d_zero L | Inr b \<Rightarrow> b)))"

definition promoCreditFor :: "string \<Rightarrow> decimal \<Rightarrow> time \<Rightarrow> time \<Rightarrow> PromotionalCredit" where
  "promoCreditFor bpID amount expires now = \<lparr> pc_ID = '''', pc_CreatedAt = Some now, pc_UpdatedAt = Some now,
     pc_ExpirationDate = Some expires, pc_BillingProfileID = bpID, pc_Code = '''', pc_InitialAmount = Some amount,
     pc_RemainingAmount = Some amount \<rparr>"

definition createPromoCredit :: "declib \<Rightarrow> string \<Rightarrow> decimal \<Rightarrow> int \<Rightarrow> unit svc" where
  "createPromoCredit L bpID amount daysValid =
     (if daysValid \<le> 0 \<or> \<not> d_is_positive L amount then ret ()
      else bnd timeNow (\<lambda>now. let expires = addDate now 0 0 daysValid in
        bnd (InsertPromotionalCredit (promoCreditFor bpID amount expires now)) (\<lambda>_. ret ())))"

definition bonusKey :: string where
  "bonusKey = ''CFYAFF_BONUS_VALUE''"

definition signUpBonus :: "declib \<Rightarrow> BillingProfile \<Rightarrow> unit svc" where
  "signUpBonus L bp =
     (if bp_AffiliateID bp = '''' then ret ()
      else if map_of (bp_CustomInfo bp) bonusKey \<noteq> None then ret ()
      else bnd (attempt (createPromoCredit L (bp_ID bp) (d_of_int L 10) 60)) (\<lambda>r. case r of Inl _ \<Rightarrow> ret ()
        | Inr _ \<Rightarrow> bnd (attempt (Update (bp \<lparr> bp_CustomInfo := AList.update bonusKey (AnyInt 10) (bp_CustomInfo bp) \<rparr>))) (\<lambda>_. ret ())))"

definition provisionPromotionalCredits :: "declib \<Rightarrow> BillingProfile \<Rightarrow> unit svc" where
  "provisionPromotionalCredits L bp = bnd (attempt ProvisioningPromotionals) (\<lambda>r. case r of Inl _ \<Rightarrow> ret ()
     | Inr promos \<Rightarrow> forS (\<lambda>p _. bnd (attempt (createPromoCredit L (bp_ID bp) (prov_Amount p) (prov_DaysValidity p))) (\<lambda>_. ret ())) promos ())"

text \<open>The profile an activation saves, and what the service does after the save.\<close>

definition activatedProfile :: "BillingProfile \<Rightarrow> string \<Rightarrow> time \<Rightarrow> BillingProfile" where
  "activatedProfile bp source now = bp \<lparr> bp_ActivationConstraints := bp_ActivationConstraints bp @
       [\<lparr> acp_Source = source, acp_PassedAt = Some now \<rparr>], bp_Status := StatusActive, bp_ActivatedAt := Some now \<rparr>"

definition activationEffects :: "declib \<Rightarrow> hooks \<Rightarrow> BillingProfile \<Rightarrow> unit svc" where
  "activationEffects L H bp =
     bnd (systemEvent H ''ACTIVATE'' bp) (\<lambda>_.
     bnd (signUpBonus L bp) (\<lambda>_.
     bnd (provisionPromotionalCredits L bp) (\<lambda>_.
     if h_activateProjects H then emit (ActivateProjects (bp_ID bp)) else ret ())))"

definition Activate :: "declib \<Rightarrow> hooks \<Rightarrow> BillingProfile \<Rightarrow> string \<Rightarrow> unit svc" where
  "Activate L H bp source =
     (if bp_Status bp \<noteq> StatusNew then ret ()
      else bnd autoActivationFlow (\<lambda>flow. if \<not> canActivate bp source flow then ret ()
        else bnd timeNow (\<lambda>now.
          bnd (Update (activatedProfile bp source now)) (activationEffects L H))))"

definition Suspend :: "declib \<Rightarrow> hooks \<Rightarrow> BillingProfile \<Rightarrow> unit svc" where
  "Suspend L H bp =
     bnd (if h_clouds H then emit (CloudSuspend (bp_ID bp)) else ret ()) (\<lambda>_.
     bnd (currentBalance L (bp_ID bp)) (\<lambda>_.
     bnd baseCurrencyOrEmpty (\<lambda>_.
     bnd (notify H ''notify_customer_is_suspended'' (bp_Email bp)) (\<lambda>_.
     bnd (Update (bp \<lparr> bp_Status := StatusSuspended \<rparr>)) (\<lambda>bp.
     systemEvent H ''SUSPEND'' bp)))))"

definition Unsuspend :: "declib \<Rightarrow> hooks \<Rightarrow> BillingProfile \<Rightarrow> unit svc" where
  "Unsuspend L H bp =
     bnd (Update (bp \<lparr> bp_Status := StatusActive \<rparr>)) (\<lambda>bp.
     bnd (systemEvent H ''UNSUSPEND'' bp) (\<lambda>_.
     bnd (if h_clouds H then emit (CloudResume (bp_ID bp)) else ret ()) (\<lambda>_.
     bnd (currentBalance L (bp_ID bp)) (\<lambda>_.
     bnd baseCurrencyOrEmpty (\<lambda>_.
     notify H ''notify_customer_is_resumed'' (bp_Email bp))))))"

definition verifiedEntry :: "time \<Rightarrow> attrs + any \<Rightarrow> attrs + any" where
  "verifiedEntry now v = (case v of Inl m \<Rightarrow> Inl (AList.update ''verifiedAt'' (AnyOther (timeString now)) (AList.update ''verified'' (AnyBool True) m))
     | Inr x \<Rightarrow> Inr x)"

definition MarkKycVerificationsAsVerified :: "BillingProfile \<Rightarrow> unit svc" where
  "MarkKycVerificationsAsVerified bp = (if length (bp_Verifications bp) = 0 then ret ()
     else bnd timeNow (\<lambda>now. bnd (Update (bp \<lparr> bp_Verifications := map (verifiedEntry now) (bp_Verifications bp) \<rparr>)) (\<lambda>_. ret ())))"

definition SuspendProcessIfExists :: "hooks \<Rightarrow> BillingProfile \<Rightarrow> unit svc" where
  "SuspendProcessIfExists H bp = bnd (FindFirstSuspensionByStatus (bp_ID bp) SuspensionInProgress) (\<lambda>p. case p of None \<Rightarrow> ret ()
     | Some proc \<Rightarrow> bnd (SaveSuspensionProcess (proc \<lparr> sp_Status := SuspensionSuspended \<rparr>)) (\<lambda>_. systemEvent H ''SUSPEND'' bp))"

definition ResolveSuspensionIfExists :: "hooks \<Rightarrow> BillingProfile \<Rightarrow> unit svc" where
  "ResolveSuspensionIfExists H bp = bnd (FindFirstSuspensionByStatus (bp_ID bp) SuspensionSuspended) (\<lambda>p. case p of None \<Rightarrow> ret ()
     | Some proc \<Rightarrow> bnd (SaveSuspensionProcess (proc \<lparr> sp_Status := SuspensionResolved \<rparr>)) (\<lambda>_. systemEvent H ''UNSUSPEND'' bp))"

section \<open>Filling the billing details\<close>

text \<open>The number package: \<open>Parse\<close>, \<open>IsValidNumber\<close>, whether \<open>GetNumberType\<close> is a mobile one, \<open>Format\<close> as E.164.\<close>

record 'n phonelib =
  ph_Parse :: "string \<Rightarrow> string \<Rightarrow> 'n option"
  ph_IsValidNumber :: "'n \<Rightarrow> bool"
  ph_isMobileType :: "'n \<Rightarrow> bool"
  ph_FormatE164 :: "'n \<Rightarrow> string"

definition e164MobileNumber :: "'n phonelib \<Rightarrow> string \<Rightarrow> string \<Rightarrow> string res" where
  "e164MobileNumber N mobile region = (case ph_Parse N mobile region of
       None \<Rightarrow> Inl (HTTPError 400 ''Error in parsing mobile number. The mobile number must be in E164 format'')
     | Some num \<Rightarrow> if ph_IsValidNumber N num \<and> ph_isMobileType N num then Inr (ph_FormatE164 N num)
         else Inl (HTTPError 400 ''Mobile number is invalid with the provided locale''))"

definition blank :: "string \<Rightarrow> bool" where
  "blank s \<longleftrightarrow> trimSpace s = ''''"

definition validateBillingDetails :: "BillingProfile \<Rightarrow> bool" where
  "validateBillingDetails bp \<longleftrightarrow> \<not> ((blank (bp_Address bp) \<or> blank (bp_FirstName bp) \<or> blank (bp_LastName bp) \<or> blank (bp_City bp) \<or>
     blank (bp_Phone bp) \<or> blank (bp_Country bp)) \<or> (bp_Company bp \<and> blank (bp_CompanyName bp)))"

definition processBusinessBilling :: "BillingProfile \<Rightarrow> BillingProfile \<Rightarrow> BillingProfile" where
  "processBusinessBilling profile input = (if bp_Company input
     then profile \<lparr> bp_VatCode := bp_VatCode input, bp_CompanyName := bp_CompanyName input \<rparr> else profile)"

text \<open>The two existence flags of the source are the constants \<open>false\<close>.\<close>

definition processConstraints :: "BillingProfile \<Rightarrow> BillingProfile \<Rightarrow> unit res" where
  "processConstraints profile input =
     (let existsBill = False; existsAccountCredit = False;
          newCountry = (\<not> blank (bp_Country profile) \<and> bp_Country profile \<noteq> bp_Country input);
          newCompanyFlag = (bp_Company profile \<noteq> bp_Company input);
          newCompanyName = (\<not> blank (bp_CompanyName profile) \<and> bp_CompanyName profile \<noteq> bp_CompanyName input);
          newName = (\<not> bp_Company input \<and> \<not> blank (bp_LastName profile) \<and> \<not> blank (bp_FirstName profile) \<and>
            (bp_LastName profile \<noteq> bp_LastName input \<or> bp_FirstName profile \<noteq> bp_FirstName input)) in
      if (newCountry \<or> newCompanyFlag \<or> newCompanyName \<or> newName) \<and> (existsBill \<or> existsAccountCredit)
      then Inl (HTTPError 400 ''The change is not possible because there are unpaid invoices or credits in your account. '')
      else Inr ())"

definition getCurrency :: "BillingProfile \<Rightarrow> string svc" where
  "getCurrency input = (if \<not> blank (bp_Currency input) then ret (bp_Currency input) else BaseCurrency)"

definition activateIfPossible :: "BillingProfile \<Rightarrow> string \<Rightarrow> BillingProfile svc" where
  "activateIfPossible profile source = bnd autoActivationFlow (\<lambda>flow. if \<not> canActivate profile source flow then ret profile
     else bnd timeNow (\<lambda>now. ret (activatedProfile profile source now)))"

definition copyDetails :: "'n phonelib \<Rightarrow> BillingProfile \<Rightarrow> BillingProfile \<Rightarrow> BillingProfile svc" where
  "copyDetails N profile input = bnd (attempt (getCurrency input)) (\<lambda>c.
     let currency = (case c of Inl _ \<Rightarrow> '''' | Inr x \<Rightarrow> x) in
     bnd (liftR (e164MobileNumber N (bp_Phone input) (bp_Country input))) (\<lambda>phone.
     ret (profile \<lparr> bp_Currency := currency, bp_Address := bp_Address input, bp_City := bp_City input, bp_County := bp_County input,
       bp_Country := bp_Country input, bp_FirstName := bp_FirstName input, bp_LastName := bp_LastName input,
       bp_Company := bp_Company input, bp_CompanyName := bp_CompanyName input, bp_VatCode := bp_VatCode input,
       bp_Phone := phone, bp_ZipCode := bp_ZipCode input \<rparr>)))"

definition PopulateBillingData :: "'n phonelib \<Rightarrow> BillingProfile \<Rightarrow> BillingProfile \<Rightarrow> BillingProfile svc" where
  "PopulateBillingData N profile input =
     (let isFirstBillingFilling = blank (bp_Address profile); validInput = validateBillingDetails input in
      bnd (liftR (processConstraints profile input)) (\<lambda>_.
      let profile = processBusinessBilling profile input in
      bnd (if validInput then copyDetails N profile input else ret profile) (\<lambda>profile.
      if validInput \<and> validateBillingDetails profile then
        bnd (if bp_Status profile = StatusNew \<and> isFirstBillingFilling
             then activateIfPossible profile ''FILLING_BILLING_DETAILS'' else ret profile) Update
      else throw (HTTPError 400 ''You need to fill in all the fields for your billing profile. ''))))"

section \<open>What an activation changes\<close>


definition configuredFlow :: "world \<Rightarrow> AutoActivationFlow option" where
  "configuredFlow w = (case storeFindOne (\<lambda>_. True) (view configsC w) of None \<Rightarrow> None | Some (_, c) \<Rightarrow> conf_AutoActivationFlow c)"

text \<open>A credit as the service grants it: a positive amount, all of it left, not yet expired when created.\<close>

definition granted :: "declib \<Rightarrow> string \<Rightarrow> PromotionalCredit \<Rightarrow> bool" where
  "granted L bpID c \<longleftrightarrow> pc_BillingProfileID c = bpID \<and> (\<exists>amount created expires. d_is_positive L amount \<and>
     pc_InitialAmount c = Some amount \<and> pc_RemainingAmount c = Some amount \<and>
     pc_CreatedAt c = Some created \<and> pc_ExpirationDate c = Some expires \<and> created < expires)"

text \<open>The stored profile: the given one stamped, up to the time of the save and the mark of the sign-up bonus.\<close>

definition stamped :: "BillingProfile \<Rightarrow> string \<Rightarrow> time \<Rightarrow> BillingProfile \<Rightarrow> bool" where
  "stamped bp source now d \<longleftrightarrow> (\<exists>u c. d = activatedProfile bp source now \<lparr> bp_UpdatedAt := u, bp_CustomInfo := c \<rparr> \<and>
     (c = bp_CustomInfo bp \<or> c = AList.update bonusKey (AnyInt 10) (bp_CustomInfo bp)))"

text \<open>
  From \<open>w0\<close> to \<open>w\<close>: only the profile's own row and the promotional credits changed, the row is
  stamped, and the credits are the old ones followed by granted ones.
\<close>

definition activated :: "declib \<Rightarrow> BillingProfile \<Rightarrow> string \<Rightarrow> time \<Rightarrow> world \<Rightarrow> world \<Rightarrow> bool" where
  "activated L bp source now w0 w \<longleftrightarrow>
     w_profiles_update (\<lambda>_. []) (w_promoCredit_update (\<lambda>_. []) (stored w)) =
       w_profiles_update (\<lambda>_. []) (w_promoCredit_update (\<lambda>_. []) (stored w0)) \<and>
     (\<forall>i. i \<noteq> bp_ID bp \<longrightarrow> map_of (view profilesC w) i = map_of (view profilesC w0) i) \<and>
     (map_of (view profilesC w0) (bp_ID bp) \<noteq> None \<longrightarrow> (\<exists>d. map_of (view profilesC w) (bp_ID bp) = Some d \<and> stamped bp source now d)) \<and>
     (\<exists>cs. view promoCreditC w = view promoCreditC w0 @ cs \<and> (\<forall>(i, c)\<in>set cs. granted L (bp_ID bp) c))"

lemma addDate_days: "addDate t 0 0 k = t + k * day"
proof -
  have "addDate t 0 0 k = (dayNumber t + k) * day + clockOf t"
    by (simp add: addDate_def mkDate_def dateDays_add)
  moreover have "t = dayNumber t * day + clockOf t" using mkDate_date [of t] by (simp add: mkDate_def)
  ultimately show ?thesis by (simp add: algebra_simps)
qed

lemma tables_activated [intro]: "tables (activated L bp source now w0)"
  unfolding tables_def
proof (intro allI impI)
  fix w w'
  assume s: "stored w' = stored w" and a: "activated L bp source now w0 w"
  show "activated L bp source now w0 w'"
    using a unfolding activated_def s profiles.view_stored [OF s] promoCredit.view_stored [OF s] .
qed

lemma createPromoCredit_ok:
  "triple (activated L bp source now w0) (createPromoCredit L (bp_ID bp) amount days) (\<lambda>_. activated L bp source now w0) (activated L bp source now w0)"
proof -
  let ?A = "activated L bp source now w0"
  have t: "tables ?A" by (rule tables_activated)
  have step: "?A w'" if w: "?A w" and d: "0 < days" "d_is_positive L amount"
    and v: "view promoCreditC w' = view promoCreditC w @ [(i, promoCreditFor (bp_ID bp) amount (addDate u 0 0 days) u \<lparr> pc_ID := i \<rparr>)]"
    and s: "stored w' = w_promoCredit_update (\<lambda>_. x) (stored w)" for w w' i u x
  proof -
    have g: "granted L (bp_ID bp) (promoCreditFor (bp_ID bp) amount (addDate u 0 0 days) u \<lparr> pc_ID := i \<rparr>)"
      using d by (auto simp: granted_def promoCreditFor_def addDate_days)
    have p: "view profilesC w' = view profilesC w"
    proof -
      have "w_profiles (stored w') = w_profiles (stored w)" by (simp add: s)
      then show ?thesis by (simp add: view_def profilesC_def stored_def)
    qed
    show ?thesis using w unfolding activated_def p v s by (auto simp: g)
  qed
  show ?thesis
    unfolding createPromoCredit_def InsertPromotionalCredit_def Let_def
    by (intro triple_if triple_ret triple_skip [OF quiet_timeNow t] triple_seq [OF triple_seq [OF promoCredit.insert_triple [OF t]]])
      (auto simp: promoCreditC_def intro: step)
qed

lemma Update_run:
  assumes "Update bp w = (r, w')"
  shows "case r of Inl e \<Rightarrow> stored w' = stored w
    | Inr d \<Rightarrow> \<exists>now. d = bp \<lparr> bp_UpdatedAt := Some now \<rparr> \<and> view profilesC w' = replaceRow (bp_ID bp) (\<lambda>_. d) (view profilesC w) \<and>
        stored w' = w_profiles_update (replaceRow (bp_ID bp) (\<lambda>_. d)) (stored w)"
proof -
  obtain now w1 where now: "timeNow w = (Inr now, w1)" "stored w1 = stored w" using timeNow_run by (metis prod.collapse)
  let ?d = "bp \<lparr> bp_UpdatedAt := Some now \<rparr>"
  obtain r2 w2 where rep: "dbReplace profilesC (bp_ID bp) ?d w1 = (r2, w2)" by (cases "dbReplace profilesC (bp_ID bp) ?d w1")
  show ?thesis
  proof (cases r2)
    case (Inl e)
    then have "r = Inl e" "w' = w2" using assms now(1) rep by (simp_all add: Update_def Let_def bnd_def)
    then show ?thesis using failed_writes(1) [OF rep [unfolded Inl]] now(2) by simp
  next
    case (Inr b)
    then have r: "r = Inr ?d" "w' = w2" using assms now(1) rep by (simp_all add: Update_def Let_def bnd_def ret_def)
    show ?thesis
      using profiles.replace_run(1,2) [OF rep [unfolded Inr]] profiles.view_stored [OF now(2)] now(2)
      by (auto simp: r profilesC_def)
  qed
qed

lemma calm_Update [calm_intros]: "calm (Update bp)"
  unfolding Update_def Let_def by (intro calm_intros)

lemma calm_createPromoCredit [calm_intros]: "calm (createPromoCredit L b a d)"
  unfolding createPromoCredit_def InsertPromotionalCredit_def Let_def by (intro calm_intros)

text \<open>Saving a stamped profile over the row keeps or establishes the change.\<close>

lemma stamped_row:
  assumes w0: "w_profiles_update (\<lambda>_. []) (w_promoCredit_update (\<lambda>_. []) (stored w)) =
       w_profiles_update (\<lambda>_. []) (w_promoCredit_update (\<lambda>_. []) (stored w0))"
    and other: "\<And>i. i \<noteq> bp_ID bp \<Longrightarrow> map_of (view profilesC w) i = map_of (view profilesC w0) i"
    and row: "map_of (view profilesC w0) (bp_ID bp) \<noteq> None \<Longrightarrow> map_of (view profilesC w) (bp_ID bp) \<noteq> None"
    and cs: "view promoCreditC w = view promoCreditC w0 @ cs" "\<forall>(i, c)\<in>set cs. granted L (bp_ID bp) c"
    and s: "stored w' = w_profiles_update (replaceRow (bp_ID bp) (\<lambda>_. d)) (stored w)"
    and v: "view profilesC w' = replaceRow (bp_ID bp) (\<lambda>_. d) (view profilesC w)" and d: "stamped bp source now d"
  shows "activated L bp source now w0 w'"
proof -
  have "w_promoCredit (stored w') = w_promoCredit (stored w)" by (simp add: s)
  then have p: "view promoCreditC w' = view promoCreditC w" by (simp add: view_def promoCreditC_def stored_def)
  have "map_of (view profilesC w') i = map_of (view profilesC w0) i" if "i \<noteq> bp_ID bp" for i
    using that other by (simp add: v map_of_replaceRow split: option.splits)
  moreover have "map_of (view profilesC w') (bp_ID bp) = Some d" if "map_of (view profilesC w0) (bp_ID bp) \<noteq> None"
    using row [OF that] by (auto simp: v map_of_replaceRow)
  moreover have "w_profiles_update (\<lambda>_. []) (w_promoCredit_update (\<lambda>_. []) (stored w')) =
       w_profiles_update (\<lambda>_. []) (w_promoCredit_update (\<lambda>_. []) (stored w0))"
    using w0 by (simp add: s)
  ultimately show ?thesis using cs d unfolding activated_def p by blast
qed

lemma signUpBonus_ok:
  assumes "d = activatedProfile bp source now \<lparr> bp_UpdatedAt := u \<rparr>"
  shows "triple (activated L bp source now w0) (signUpBonus L d) (\<lambda>_. activated L bp source now w0) (\<lambda>_. False)"
proof -
  let ?A = "activated L bp source now w0"
  let ?d = "d \<lparr> bp_CustomInfo := AList.update bonusKey (AnyInt 10) (bp_CustomInfo d) \<rparr>"
  have id: "bp_ID d = bp_ID bp" by (simp add: assms activatedProfile_def)
  have st: "stamped bp source now (?d \<lparr> bp_UpdatedAt := t \<rparr>)" for t
    unfolding stamped_def
    by (rule exI [of _ t], rule exI [of _ "AList.update bonusKey (AnyInt 10) (bp_CustomInfo bp)"]) (simp add: assms activatedProfile_def)
  have upd: "triple ?A (Update ?d) (\<lambda>_. ?A) ?A"
  proof (rule tripleI)
    fix w r w'
    assume a: "?A w" and run: "Update ?d w = (r, w')"
    show "case r of Inl e \<Rightarrow> ?A w' | Inr x \<Rightarrow> ?A w'"
    proof (cases r)
      case (Inl e)
      then have "stored w' = stored w" using Update_run [OF run] by simp
      then show ?thesis using Inl tablesD [OF tables_activated] a by simp
    next
      case (Inr y)
      then obtain t where y: "y = ?d \<lparr> bp_UpdatedAt := Some t \<rparr>" and v: "view profilesC w' = replaceRow (bp_ID bp) (\<lambda>_. y) (view profilesC w)"
        and s: "stored w' = w_profiles_update (replaceRow (bp_ID bp) (\<lambda>_. y)) (stored w)"
        using Update_run [OF run] by (auto simp: id)
      obtain cs where cs: "view promoCreditC w = view promoCreditC w0 @ cs" "\<forall>(i, c)\<in>set cs. granted L (bp_ID bp) c"
        using a unfolding activated_def by blast
      have "?A w'" by (rule stamped_row [OF _ _ _ cs s v]) (use a st [of "Some t"] in \<open>auto simp: activated_def y\<close>)
      then show ?thesis using Inr by simp
    qed
  qed
  show ?thesis
    unfolding signUpBonus_def id
    by (intro triple_if triple_ret triple_seq [OF triple_attempt_calm [OF createPromoCredit_ok calm_createPromoCredit, where R = ?A]])
      (auto split: sum.splits intro!: triple_ret triple_seq [OF triple_attempt_calm [OF upd calm_Update, where R = ?A]])
qed

lemma provision_ok:
  assumes "bp_ID d = bp_ID bp"
  shows "triple (activated L bp source now w0) (provisionPromotionalCredits L d) (\<lambda>_. activated L bp source now w0) (\<lambda>_. False)"
proof -
  let ?A = "activated L bp source now w0"
  have calm: "calm ProvisioningPromotionals" unfolding ProvisioningPromotionals_def by (intro calm_intros)
  have step: "triple ?A (bnd (attempt (createPromoCredit L (bp_ID bp) a n)) (\<lambda>_. ret ())) (\<lambda>_. ?A) (\<lambda>_. False)" for a n
    by (rule triple_seq [OF triple_attempt_calm [OF createPromoCredit_ok calm_createPromoCredit, where R = ?A]]) (auto intro: triple_ret)
  have loop: "triple ?A (forS (\<lambda>p _. bnd (attempt (createPromoCredit L (bp_ID bp) (prov_Amount p) (prov_DaysValidity p))) (\<lambda>_. ret ())) ps ())
      (\<lambda>_. ?A) (\<lambda>_. False)" for ps
    by (induction ps) (auto intro: triple_ret triple_bnd [OF step])
  show ?thesis
    unfolding provisionPromotionalCredits_def assms
    by (rule triple_seq [OF triple_attempt_calm [OF triple_quiet calm, where R = ?A]])
      (auto split: sum.splits intro: loop triple_ret quiet_intros)
qed

lemma activationEffects_ok:
  assumes "d = activatedProfile bp source now \<lparr> bp_UpdatedAt := u \<rparr>"
  shows "triple (activated L bp source now w0) (activationEffects L H d) (\<lambda>_. activated L bp source now w0) (\<lambda>_. False)"
proof -
  let ?A = "activated L bp source now w0"
  have t: "tables ?A" by (rule tables_activated)
  have id: "bp_ID d = bp_ID bp" by (simp add: assms activatedProfile_def)
  have emits: "triple ?A (if b then emit e else ret ()) (\<lambda>_. ?A) (\<lambda>_. False)" for b e
    by (rule tripleI) (use tablesD [OF t] in \<open>auto simp: svc_simps split: if_splits sum.splits\<close>)
  have event: "triple ?A (systemEvent H ''ACTIVATE'' d) (\<lambda>_. ?A) (\<lambda>_. False)"
    unfolding systemEvent_def using emits [of "h_audit H"] by (cases "h_audit H") simp_all
  show ?thesis
    unfolding activationEffects_def
    by (intro triple_bnd [OF event] triple_bnd [OF signUpBonus_ok [OF assms]] triple_bnd [OF provision_ok [OF id]] emits)
qed

lemma autoActivationFlow_run: "autoActivationFlow w = (Inr f, w') \<Longrightarrow> f = configuredFlow w \<and> w_time w' = w_time w"
  unfolding autoActivationFlow_def configuredFlow_def
  by (auto simp: svc_simps split: option.splits dest!: configs.find_one_run)

text \<open>The save establishes the change; what follows it keeps it and cannot fail.\<close>

lemma save_activated:
  assumes run: "bnd (Update (activatedProfile bp source now)) (activationEffects L H) w1 = (r, w')" and s: "stored w1 = stored w"
  shows "if r = Inr () then activated L bp source now w w' else stored w' = stored w"
proof (cases "Update (activatedProfile bp source now) w1")
  case (Pair r2 w2)
  show ?thesis
  proof (cases r2)
    case (Inl e)
    then have "r = Inl e" "w' = w2" using run Pair by (simp_all add: bnd_def)
    then show ?thesis using Update_run [OF Pair] Inl s by simp
  next
    case (Inr d)
    have id: "bp_ID (activatedProfile bp source now) = bp_ID bp" by (simp add: activatedProfile_def)
    from Inr obtain t where d: "d = activatedProfile bp source now \<lparr> bp_UpdatedAt := Some t \<rparr>"
      and v: "view profilesC w2 = replaceRow (bp_ID bp) (\<lambda>_. d) (view profilesC w1)"
      and s2: "stored w2 = w_profiles_update (replaceRow (bp_ID bp) (\<lambda>_. d)) (stored w1)"
      using Update_run [OF Pair] by (auto simp: id)
    have "stamped bp source now d" unfolding stamped_def
      by (rule exI [of _ "Some t"], rule exI [of _ "bp_CustomInfo bp"]) (simp add: d activatedProfile_def)
    moreover have "view profilesC w1 = view profilesC w" "view promoCreditC w1 = view promoCreditC w @ []"
      using profiles.view_stored [OF s] promoCredit.view_stored [OF s] by simp_all
    ultimately have a: "activated L bp source now w w2"
      using s by (intro stamped_row [OF _ _ _ _ _ s2 v, where cs = "[]"]) auto
    have "activationEffects L H d w2 = (r, w')" using run Pair Inr by (simp add: bnd_def)
    then have "case r of Inl e \<Rightarrow> False | Inr x \<Rightarrow> activated L bp source now w w'"
      by (rule tripleD [OF activationEffects_ok [OF d] a])
    then show ?thesis by (cases r) auto
  qed
qed

text \<open>
  C37. An activation does exactly what its rules allow. A profile that is not \<open>NEW\<close>, a flow that does
  not permit the source, and an error leave every table as it was. Otherwise the call
  succeeds, whatever fails after the save: the stored profile is the given one turned \<open>ACTIVE\<close>,
  with the constraint appended and both stamped with one reading of the clock, and the only
  rows it adds are promotional credits of this profile, positive, unspent and not yet expired
  when created.
\<close>

theorem activation_effect:
  assumes run: "Activate L H bp source w = (r, w')"
  shows "if bp_Status bp = StatusNew \<and> canActivate bp source (configuredFlow w) \<and> r = Inr ()
    then \<exists>now\<ge>w_time w. activated L bp source now w w'
    else stored w' = stored w"
proof (cases "bp_Status bp = StatusNew")
  case True
  obtain r1 w1 where flow: "autoActivationFlow w = (r1, w1)" by (cases "autoActivationFlow w")
  have s1: "stored w1 = stored w" by (rule quietD [of autoActivationFlow, OF _ flow]) (intro quiet_intros)
  show ?thesis
  proof (cases r1)
    case (Inl e)
    then show ?thesis using run flow True s1 by (auto simp: Activate_def bnd_def)
  next
    case (Inr f)
    note f = autoActivationFlow_run [OF flow [unfolded Inr]]
    show ?thesis
    proof (cases "canActivate bp source f")
      case can: True
      obtain now w2 where now: "timeNow w1 = (Inr now, w2)" "w_time w1 \<le> now" "stored w2 = stored w1"
        using timeNow_run [of w1] by (cases "timeNow w1") auto
      have "bnd (Update (activatedProfile bp source now)) (activationEffects L H) w2 = (r, w')"
        using run True can by (simp add: Activate_def bnd_run [of autoActivationFlow, OF flow [unfolded Inr]] bnd_run [of timeNow, OF now(1)])
      from save_activated [OF this] now f s1 show ?thesis using True can by auto
    qed (use run flow Inr True s1 f in \<open>auto simp: Activate_def bnd_def svc_simps\<close>)
  qed
qed (use run in \<open>simp add: Activate_def svc_simps\<close>)

theorem activation_effect_witness:
  "let bp = ex_profile \<lparr> bp_Status := StatusNew \<rparr>; w = ex_shop 1000 300 \<lparr> w_profiles := [(''bp'', bp)] \<rparr> in
   case Activate ref_lib ex_hooks bp ''FILLING_BILLING_DETAILS'' w of
     (Inl _, _) \<Rightarrow> False
   | (Inr _, w') \<Rightarrow> \<exists>now d. map_of (view profilesC w') ''bp'' = Some d \<and> stamped bp ''FILLING_BILLING_DETAILS'' now d"
proof -
  let ?bp = "ex_profile \<lparr> bp_Status := StatusNew \<rparr>" and ?src = "''FILLING_BILLING_DETAILS''"
  let ?w = "ex_shop 1000 300 \<lparr> w_profiles := [(''bp'', ?bp)] \<rparr>"
  let ?run = "Activate ref_lib ex_hooks ?bp ?src ?w"
  have "canActivate ?bp ?src (configuredFlow ?w)" "bp_Status ?bp = StatusNew" "bp_ID ?bp = ''bp''"
    "map_of (view profilesC ?w) ''bp'' \<noteq> None" by code_simp+
  moreover have "case ?run of (Inl _, _) \<Rightarrow> False | (Inr _, _) \<Rightarrow> True" by code_simp
  then obtain w' where run: "?run = (Inr (), w')" by (auto split: prod.splits sum.splits)
  moreover note activation_effect [OF run]
  ultimately obtain now where "activated ref_lib ?bp ?src now ?w w'" by auto
  then show ?thesis using \<open>bp_ID ?bp = ''bp''\<close> \<open>map_of (view profilesC ?w) ''bp'' \<noteq> None\<close>
    by (simp only: Let_def run prod.case sum.case activated_def) blast
qed

end
