(* ===== verification/Bill_Payment.thy ===== *)
theory Bill_Payment
  imports Suspension_Job
begin

text \<open>
  Closing a bill: paying it from the credit balance (\<open>billing/paybill.go\<close>) and sending the bills
  of the past month (\<open>billing/sendbill.go\<close>). The credits the settlement mutates in place are the
  updated credits it returns; they are saved one by one before the bill. The flag \<open>pr\<close> says
  whether the pricing repository is wired (without it no tax rates are read); the reviewer hook
  is the dunning job, as \<open>cmd/api/main.go\<close> wires it.
\<close>

section \<open>Shared steps\<close>

definition settlementRates :: "bool \<Rightarrow> BillingProfile \<Rightarrow> time \<Rightarrow> TaxRate list svc" where
  "settlementRates pr profile now = (if \<not> pr then ret []
     else bnd (attempt AllTaxRates) (\<lambda>r. let rates = (case r of Inl _ \<Rightarrow> [] | Inr ts \<Rightarrow> ts) in
       ret (SelectTaxRates rates (bp_Country profile) (bp_Company profile) now)))"

definition saveConsumed :: "settle_result \<Rightarrow> unit svc" where
  "saveConsumed s =
     bnd (forS (\<lambda>pc _. if pc_ID pc \<in> set (map apc_PromotionalCreditID (sr_promo s)) then SavePromotionalCredit pc else ret ())
       (sr_promoCredits s) ()) (\<lambda>_.
     forS (\<lambda>as _. SaveAccountCredit (acs_AccountCredit as)) (sr_acct s) ())"

section \<open>Paying from the balance\<close>

definition ErrBillNotFound :: error where "ErrBillNotFound = Failure ''Bill not found''"
definition ErrBillAlreadyPaid :: error where "ErrBillAlreadyPaid = Failure ''Bill is already paid''"
definition ErrCannotPayOpenBill :: error where "ErrCannotPayOpenBill = Failure ''Cannot pay an open bill''"
definition ErrNotEnoughCredit :: error where "ErrNotEnoughCredit = Failure ''Not enough credit''"

definition billBelongsToProfile :: "Bill option \<Rightarrow> string \<Rightarrow> bool" where
  "billBelongsToProfile bill profileID = (case bill of None \<Rightarrow> False | Some b \<Rightarrow> bill_BillingProfileID b = profileID)"

definition creditBalance :: "declib \<Rightarrow> PromotionalCredit list \<Rightarrow> AccountCredit list \<Rightarrow> decimal" where
  "creditBalance L promo account = sumOpt L ac_Amount account (sumOpt L pc_RemainingAmount promo (d_zero L))"

text \<open>From the read of the credits to the settled bill.\<close>

definition settleWithBalance :: "declib \<Rightarrow> bool \<Rightarrow> BillingProfile \<Rightarrow> Bill \<Rightarrow> time \<Rightarrow> settle_result svc" where
  "settleWithBalance L pr profile bill now =
     bnd baseCurrencyOrEmpty (\<lambda>baseCurrency.
     bnd (PromotionalCreditCandidates L (bp_ID profile) now) (\<lambda>promoCredits.
     bnd (AccountCreditsByProfile (bp_ID profile)) (\<lambda>accountCredits.
     bnd (liftR (ExchangeToProductCurrency L None (GetUnpaidAmountBillProductCurrency L bill) (bill_InvoiceCurrency bill) baseCurrency now)) (\<lambda>unpaid.
     if d_cmp L (creditBalance L promoCredits accountCredits) unpaid < 0 then throw ErrNotEnoughCredit
     else bnd (settlementRates pr profile now) (\<lambda>rates.
       liftR (SettleBillAmount L bill unpaid promoCredits accountCredits rates baseCurrency (bp_Currency profile) None now))))))"

text \<open>The bill is saved, and saved again as paid when nothing is left to pay.\<close>

definition finishPayment :: "declib \<Rightarrow> hooks \<Rightarrow> BillingProfile \<Rightarrow> Bill \<Rightarrow> Bill svc" where
  "finishPayment L H profile bill =
     bnd (SaveBillDoc bill) (\<lambda>_.
     if d_cmp L (GetUnpaidAmountBillProductCurrency L bill) (d_zero L) \<le> 0 then
       (let bill = bill \<lparr> bill_Status := BillPaid \<rparr> in
        bnd (SaveBillDoc bill) (\<lambda>_.
        bnd (notify H ''bill_is_paid'' (bp_Email profile)) (\<lambda>_.
        bnd (if h_reviewer H then bnd (attempt (ReviewBillingProfile L H profile)) (\<lambda>_. ret ()) else ret ()) (\<lambda>_.
        ret bill))))
     else ret bill)"

definition PayBillWithCredits :: "declib \<Rightarrow> hooks \<Rightarrow> bool \<Rightarrow> BillingProfile \<Rightarrow> string \<Rightarrow> time \<Rightarrow> Bill svc" where
  "PayBillWithCredits L H pr profile billID now =
     bnd (BillByID billID) (\<lambda>found. case found of None \<Rightarrow> throw ErrBillNotFound
     | Some bill \<Rightarrow>
       if \<not> billBelongsToProfile (Some bill) (bp_ID profile) then throw ErrBillNotFound
       else case bill_Status bill of
         BillPaid \<Rightarrow> throw ErrBillAlreadyPaid
       | BillOpen \<Rightarrow> throw ErrCannotPayOpenBill
       | BillSent \<Rightarrow> bnd (settleWithBalance L pr profile bill now) (\<lambda>s.
           bnd (saveConsumed s) (\<lambda>_. finishPayment L H profile (sr_bill s))))"

section \<open>Sending the bills of the past month\<close>

definition cycleStart :: "time \<Rightarrow> Bill \<Rightarrow> time" where
  "cycleStart now b = (case bill_BillingCycle b of None \<Rightarrow> now
     | Some c \<Rightarrow> (case cycle_StartDate c of None \<Rightarrow> now | Some s \<Rightarrow> s))"

definition startedLastMonth :: "time \<Rightarrow> Bill \<Rightarrow> bool" where
  "startedLastMonth now b \<longleftrightarrow> (let lastT = addDate now 0 (- 1) 0; cs = cycleStart now b in
     bill_Status b = BillOpen \<and> yearOf cs = yearOf lastT \<and> monthOf cs = monthOf lastT)"

definition lastMonthOpenBill :: "string \<Rightarrow> time \<Rightarrow> Bill option svc" where
  "lastMonthOpenBill bpID now = bnd (BillsByBillingProfile bpID) (\<lambda>bs. ret (find (startedLastMonth now) bs))"

text \<open>\<open>due := now.Add(259200 * time.Second)\<close>\<close>

definition paymentTerm :: duration where
  "paymentTerm = 259200 * second"

definition sentOrPaid :: "declib \<Rightarrow> Bill \<Rightarrow> time \<Rightarrow> Bill" where
  "sentOrPaid L bill now = (if d_cmp L (GetUnpaidAmountBillProductCurrency L bill) (d_zero L) \<le> 0
     then bill \<lparr> bill_Status := BillPaid \<rparr>
     else bill \<lparr> bill_Status := BillSent, bill_SentAt := Some now, bill_DueAt := Some (now + paymentTerm) \<rparr>)"

definition sendBill :: "declib \<Rightarrow> hooks \<Rightarrow> bool \<Rightarrow> BillingProfile \<Rightarrow> Bill \<Rightarrow> time \<Rightarrow> unit svc" where
  "sendBill L H pr profile bill now =
     (let bill = ScaleUpItems L (bill \<lparr> bill_InvoiceCurrency := bp_Currency profile \<rparr>);
          grossTotal = GetUnpaidAmountBillProductCurrency L bill in
      if d_is_zero L grossTotal then SaveBillDoc (bill \<lparr> bill_Status := BillPaid, bill_SentAt := Some now \<rparr>)
      else bnd baseCurrencyOrEmpty (\<lambda>baseCcy.
        bnd (PromotionalCreditCandidates L (bp_ID profile) now) (\<lambda>promoCredits.
        bnd (AccountCreditsByProfile (bp_ID profile)) (\<lambda>accountCredits.
        bnd (settlementRates pr profile now) (\<lambda>rates.
        bnd (liftR (SettleBillAmount L bill grossTotal promoCredits accountCredits rates baseCcy (bp_Currency profile) None now)) (\<lambda>s.
        bnd (saveConsumed s) (\<lambda>_.
        let bill = sentOrPaid L (sr_bill s) now in
        bnd (notify H (if bill_Status bill = BillPaid then ''bill_is_paid'' else ''bill_is_generated'') (bp_Email profile)) (\<lambda>_.
        SaveBillDoc bill))))))))"

text \<open>The result is the pair of the source: whether a bill was finalised, and the error if any.\<close>

definition sendFound :: "declib \<Rightarrow> hooks \<Rightarrow> bool \<Rightarrow> BillingProfile \<Rightarrow> Bill \<Rightarrow> time \<Rightarrow> (bool \<times> error option) svc" where
  "sendFound L H pr profile bill now =
     (if d_is_zero L (CalculateTotalAmount L bill) \<and> \<not> list_ex (\<lambda>it. d_is_positive L (item_NetAmount it)) (bill_Items bill)
      then bnd (attempt (DeleteBill (bill_ID bill))) (\<lambda>r. ret (False, case r of Inl e \<Rightarrow> Some e | Inr _ \<Rightarrow> None))
      else if bp_Status profile = StatusSkip then ret (False, None)
      else bnd (attempt (sendBill L H pr profile bill now)) (\<lambda>r. ret (True, case r of Inl e \<Rightarrow> Some e | Inr _ \<Rightarrow> None)))"

definition SendBillForProfile :: "declib \<Rightarrow> hooks \<Rightarrow> bool \<Rightarrow> BillingProfile \<Rightarrow> time \<Rightarrow> (bool \<times> error option) svc" where
  "SendBillForProfile L H pr profile now =
     bnd (attempt (lastMonthOpenBill (bp_ID profile) now)) (\<lambda>found. case found of
       Inl e \<Rightarrow> ret (False, Some e)
     | Inr None \<Rightarrow> ret (False, None)
     | Inr (Some bill) \<Rightarrow> sendFound L H pr profile bill now)"

definition SendAllBills :: "declib \<Rightarrow> hooks \<Rightarrow> bool \<Rightarrow> time \<Rightarrow> int svc" where
  "SendAllBills L H pr now = bnd AllBillingProfiles (\<lambda>profiles.
     forS (\<lambda>profile done. bnd (SendBillForProfile L H pr profile now) (\<lambda>(ok, _). ret (if ok then done + 1 else done))) profiles 0)"

section \<open>The bill table\<close>

lemma apart_bills [simp]: "apart billsC promoCreditC" "apart billsC acctCreditsC" "apart billsC suspensionsC" "apart billsC profilesC"
  by (simp_all add: apart_def view_def billsC_def promoCreditC_def acctCreditsC_def suspensionsC_def profilesC_def)

lemmas leaves_reads = bills.leaves_quiet [OF quiet_timeNow] bills.leaves_quiet [OF quiet_notify] bills.leaves_quiet [OF quiet_emit]
  bills.leaves_quiet [OF quiet_auditEvent] bills.leaves_quiet [OF quiet_balance(1)] bills.leaves_quiet [OF quiet_balance(3)]
  bills.leaves_quiet [OF quiet_repo_reads(9)] bills.leaves_quiet [OF quiet_repo_reads(27)] bills.leaves_quiet [OF quiet_repo_reads(29)]

lemma leaves_saves [leaves_intros]:
  "leaves billsC (SavePromotionalCredit pc)" "leaves billsC (SaveAccountCredit ac)" "leaves billsC (SaveSuspensionProcess p)"
  "leaves billsC (Update bp)"
  unfolding SavePromotionalCredit_def SaveAccountCredit_def replaceByID_def SaveSuspensionProcess_def Update_def
  by (intro leaves_intros leaves_reads bills.leaves_writes apart_bills)+

lemma leaves_saveConsumed: "leaves billsC (saveConsumed s)"
  unfolding saveConsumed_def by (intro leaves_intros)

lemma leaves_review: "leaves billsC (ReviewBillingProfile L H profile)"
  unfolding ReviewBillingProfile_def resume_def by (intro leaves_intros leaves_reads)

lemma replaceRow_twice: "replaceRow i (\<lambda>_. b) (replaceRow i (\<lambda>_. a) t) = replaceRow i (\<lambda>_. b) t"
  by (induction t) auto

text \<open>The rows other than one.\<close>

definition elsewhere :: "string \<Rightarrow> Bill table \<Rightarrow> world \<Rightarrow> bool" where
  "elsewhere i v w \<longleftrightarrow> (\<forall>j. j \<noteq> i \<longrightarrow> map_of (view billsC w) j = map_of v j)"

lemma elsewhere_replaced: "view billsC w = replaceRow i f v \<Longrightarrow> elsewhere i v w"
  by (simp add: elsewhere_def map_of_replaceRow split: option.splits)

lemma elsewhere_same: "view billsC w = v \<Longrightarrow> elsewhere i v w"
  by (simp add: elsewhere_def)

lemma SaveBillDoc_triple:
  "triple (\<lambda>w. view billsC w = v) (SaveBillDoc b) (\<lambda>_ w. view billsC w = replaceRow (bill_ID b) (\<lambda>_. b) v) (\<lambda>w. view billsC w = v)"
proof -
  have t: "tables (\<lambda>w. view billsC w = v)" by (rule bills.tables_view)
  show ?thesis
    unfolding SaveBillDoc_def replaceByID_def
    by (intro triple_if triple_throw triple_seq [OF bills.replace_triple [OF t]] triple_ret) (auto simp: billsC_def)
qed

lemma SettleBillAmount_ID:
  "SettleBillAmount L bill amount promos accts taxRates base profile x now = Inr s \<Longrightarrow>
    bill_ID (sr_bill s) = bill_ID bill \<and> bill_Status (sr_bill s) = bill_Status bill"
  by (auto simp: SettleBillAmount_def settleAccountCreditLeg_def Let_def bindR_eq_Inr split: if_splits)

text \<open>The bill as it is left: paid when nothing is left to pay.\<close>

definition closed :: "declib \<Rightarrow> Bill \<Rightarrow> Bill" where
  "closed L b = (if d_cmp L (GetUnpaidAmountBillProductCurrency L b) (d_zero L) \<le> 0 then b \<lparr> bill_Status := BillPaid \<rparr> else b)"

lemma finishPayment_triple:
  "triple (\<lambda>w. view billsC w = v) (finishPayment L H profile b)
     (\<lambda>b' w. b' = closed L b \<and> view billsC w = replaceRow (bill_ID b) (\<lambda>_. b') v) (elsewhere (bill_ID b) v)"
proof -
  let ?c = "b \<lparr> bill_Status := BillPaid \<rparr>"
  let ?P = "\<lambda>x w. view billsC w = replaceRow (bill_ID b) (\<lambda>_. x) v"
  have again: "triple (?P b) (SaveBillDoc ?c) (\<lambda>_. ?P ?c) (?P b)"
    using SaveBillDoc_triple [of "replaceRow (bill_ID b) (\<lambda>_. b) v" ?c] by (simp add: replaceRow_twice)
  have review: "leaves billsC (if h_reviewer H then bnd (attempt (ReviewBillingProfile L H profile)) (\<lambda>_. ret ()) else ret ())"
    by (intro leaves_intros leaves_review)
  have rest: "triple (?P ?c) (bnd (notify H ''bill_is_paid'' (bp_Email profile)) (\<lambda>_.
      bnd (if h_reviewer H then bnd (attempt (ReviewBillingProfile L H profile)) (\<lambda>_. ret ()) else ret ()) (\<lambda>_. ret ?c)))
      (\<lambda>b' w. b' = ?c \<and> ?P ?c w) (?P ?c)"
    by (intro triple_seq [OF leaves_triple [OF leaves_reads(2)]] triple_seq [OF leaves_triple [OF review]] triple_ret) auto
  show ?thesis
    unfolding finishPayment_def Let_def
    by (intro triple_seq [OF SaveBillDoc_triple] triple_if triple_seq [OF again] triple_conseq [OF rest] triple_ret)
      (auto simp: closed_def intro: elsewhere_replaced elsewhere_same)
qed

text \<open>A settlement with the credits just read, which cover what is asked.\<close>

definition settledFrom :: "declib \<Rightarrow> BillingProfile \<Rightarrow> Bill \<Rightarrow> time \<Rightarrow> settle_result \<Rightarrow> bool" where
  "settledFrom L profile b now s \<longleftrightarrow> (\<exists>base unpaid promos accts rates.
     ExchangeToProductCurrency L None (GetUnpaidAmountBillProductCurrency L b) (bill_InvoiceCurrency b) base now = Inr unpaid \<and>
     \<not> d_cmp L (creditBalance L promos accts) unpaid < 0 \<and>
     SettleBillAmount L b unpaid promos accts rates base (bp_Currency profile) None now = Inr s)"

lemma settleWithBalance_run:
  assumes "settleWithBalance L pr profile b now w = (Inr s, w')" shows "settledFrom L profile b now s"
proof -
  from assms obtain base promos accts unpaid rates where
    "ExchangeToProductCurrency L None (GetUnpaidAmountBillProductCurrency L b) (bill_InvoiceCurrency b) base now = Inr unpaid"
    "\<not> d_cmp L (creditBalance L promos accts) unpaid < 0"
    "SettleBillAmount L b unpaid promos accts rates base (bp_Currency profile) None now = Inr s"
    unfolding settleWithBalance_def by (auto simp: svc_simps split: if_splits dest!: sym [of "Inr _"])
  then show ?thesis unfolding settledFrom_def by blast
qed

lemma quiet_settleWithBalance [quiet_intros]: "quiet (settleWithBalance L pr profile b now)"
  unfolding settleWithBalance_def settlementRates_def by (intro quiet_intros)

lemma settledFrom_ID: "settledFrom L profile b now s \<Longrightarrow> bill_ID (sr_bill s) = bill_ID b"
  by (auto simp: settledFrom_def dest: SettleBillAmount_ID)

text \<open>What the guards refuse, as a function of the bill table.\<close>

definition payRefusal :: "Bill table \<Rightarrow> string \<Rightarrow> string \<Rightarrow> error option" where
  "payRefusal t bpID billID = (case storeGet t billID of None \<Rightarrow> Some ErrBillNotFound
     | Some b \<Rightarrow> if bill_BillingProfileID b \<noteq> bpID then Some ErrBillNotFound
         else if bill_Status b = BillPaid then Some ErrBillAlreadyPaid
         else if bill_Status b = BillOpen then Some ErrCannotPayOpenBill else None)"

lemma pay_accepted:
  assumes "storeGet v i = Some b" and "bill_ID b = i"
  shows "triple (\<lambda>w. view billsC w = v)
    (bnd (settleWithBalance L pr profile b now) (\<lambda>s. bnd (saveConsumed s) (\<lambda>_. finishPayment L H profile (sr_bill s))))
    (\<lambda>bill w. \<exists>s. settledFrom L profile b now s \<and> bill = closed L (sr_bill s) \<and> view billsC w = replaceRow i (\<lambda>_. bill) v)
    (elsewhere i v)"
proof (rule triple_know [OF quiet_settleWithBalance bills.tables_view elsewhere_same settleWithBalance_run])
  fix s
  assume s: "settledFrom L profile b now s"
  then have id: "bill_ID (sr_bill s) = i" using settledFrom_ID assms(2) by simp
  show "triple (\<lambda>w. view billsC w = v) (bnd (saveConsumed s) (\<lambda>_. finishPayment L H profile (sr_bill s)))
    (\<lambda>bill w. \<exists>s. settledFrom L profile b now s \<and> bill = closed L (sr_bill s) \<and> view billsC w = replaceRow i (\<lambda>_. bill) v)
    (elsewhere i v)"
    by (rule triple_seq [OF leaves_triple [OF leaves_saveConsumed] elsewhere_same triple_conseq [OF finishPayment_triple]])
      (use s id in auto)
qed auto

lemma refused_pay:
  assumes run: "PayBillWithCredits L H pr profile billID now w = (r, w')"
    and no: "payRefusal (view billsC w) (bp_ID profile) billID = Some e"
  shows "stored w' = stored w \<and> (r = Inl e \<or> r = Inl (Failure ''db''))"
proof (cases "dbGet billsC billID w")
  case (Pair r1 w1)
  have s: "stored w1 = stored w" by (rule quietD [OF quiet_reads(1) Pair])
  show ?thesis
  proof (cases r1)
    case (Inl f)
    then have "f = Failure ''db''" using Pair by (auto simp: dbGet_def db_def Let_def split: list.splits if_splits)
    then show ?thesis using run Pair Inl s by (simp add: PayBillWithCredits_def BillByID_def bnd_def)
  next
    case (Inr x)
    then have x: "storeGet (view billsC w) billID = x" using bills.get_run [of billID w x w1] Pair by simp
    show ?thesis
    proof (cases x)
      case None
      then show ?thesis using run Pair Inr s no x by (simp add: PayBillWithCredits_def BillByID_def bnd_def payRefusal_def svc_simps)
    next
      case (Some b)
      then show ?thesis using run Pair Inr s no x
        by (cases "bill_Status b") (auto simp: PayBillWithCredits_def BillByID_def bnd_def [of "dbGet billsC billID"] payRefusal_def
            billBelongsToProfile_def svc_simps split: if_splits)
    qed
  qed
qed

lemma pay_allowed:
  assumes run: "PayBillWithCredits L H pr profile billID now w = (r, w')"
    and None: "payRefusal (view billsC w) (bp_ID profile) billID = None"
  shows "elsewhere billID (view billsC w) w' \<and> (\<exists>b. storeGet (view billsC w) billID = Some b \<and> bill_Status b = BillSent \<and>
    bill_BillingProfileID b = bp_ID profile \<and> (\<forall>bill. r = Inr bill \<longrightarrow> (\<exists>s. settledFrom L profile b now s \<and>
      bill = closed L (sr_bill s) \<and> storeGet (view billsC w') billID = Some bill)))"
proof -
  from None obtain b where b: "storeGet (view billsC w) billID = Some b" "bill_BillingProfileID b = bp_ID profile" "bill_Status b = BillSent"
    by (auto simp: payRefusal_def split: option.splits if_splits intro: BillStatus.exhaust)
  then have row: "map_of (view billsC w) billID = Some b" "billID \<noteq> []" by (auto simp: storeGet_def split: if_splits)
  have id: "bill_ID b = billID" using bills.view_ID [OF map_of_SomeD [OF row(1)]] by (simp add: billsC_def)
  obtain r1 w1 where get: "dbGet billsC billID w = (r1, w1)" by (cases "dbGet billsC billID w")
  have s: "view billsC w1 = view billsC w" by (rule bills.view_stored [OF quietD [OF quiet_reads(1) get]])
  show ?thesis
  proof (cases r1)
    case (Inl f)
    then have "r = Inl f" "w' = w1" using run get by (simp_all add: PayBillWithCredits_def BillByID_def bnd_def)
    then show ?thesis using b s by (auto simp: elsewhere_def)
  next
    case (Inr x)
    then have "x = Some b" using bills.get_run [of billID w x w1] get b(1) by simp
    then have "bnd (settleWithBalance L pr profile b now) (\<lambda>s. bnd (saveConsumed s) (\<lambda>_. finishPayment L H profile (sr_bill s))) w1 = (r, w')"
      using run get Inr b by (simp add: PayBillWithCredits_def BillByID_def bnd_def [of "dbGet billsC billID"] billBelongsToProfile_def)
    note out = tripleD [OF pay_accepted [OF b(1) id] s this]
    show ?thesis
    proof (cases r)
      case (Inl e)
      then show ?thesis using out b by simp
    next
      case (Inr bill)
      then obtain t where t: "settledFrom L profile b now t" "bill = closed L (sr_bill t)"
        and v: "view billsC w' = replaceRow billID (\<lambda>_. bill) (view billsC w)" using out by auto
      have "storeGet (view billsC w') billID = Some bill" using row by (simp add: v storeGet_def map_of_replaceRow)
      then show ?thesis using Inr b t elsewhere_replaced [OF v] by auto
    qed
  qed
qed



section \<open>Sending\<close>

lemma previous_month:
  assumes "dayOf t \<le> 28"
  shows "yearOf (addDate t 0 (- 1) 0) * 12 + monthOf (addDate t 0 (- 1) 0) = yearOf t * 12 + monthOf t - 1"
proof -
  have d1: "1 \<le> dayOf t" using dayOf_range [of t] by simp
  have d: "dayOf t \<le> daysIn y m" if "1 \<le> m" "m \<le> 12" for y m using daysIn_bounds [OF that, of y] assms by linarith
  show ?thesis
  proof (cases "monthOf t = 1")
    case True
    have "mkDate (yearOf t) 0 (dayOf t) (clockOf t) = mkDate (yearOf t - 1) 12 (dayOf t) (clockOf t)"
      by (simp add: mkDate_def dateDays_def)
    then show ?thesis using True d1 d [of 12 "yearOf t - 1"] by (simp add: addDate_def date_mkDate)
  next
    case False
    then have "1 \<le> monthOf t - 1" "monthOf t - 1 \<le> 12" using monthOf_range [of t] by linarith+
    then show ?thesis using d1 d [of "monthOf t - 1" "yearOf t"] by (simp add: addDate_def date_mkDate)
  qed
qed

text \<open>A finalised bill: paid with nothing left to pay, or sent with three days to pay the rest.\<close>

definition finalised :: "declib \<Rightarrow> time \<Rightarrow> Bill \<Rightarrow> bool" where
  "finalised L now b \<longleftrightarrow> (if val (GetUnpaidAmountBillProductCurrency L b) \<le> 0 then bill_Status b = BillPaid
     else bill_Status b = BillSent \<and> bill_SentAt b = Some now \<and> bill_DueAt b = Some (now + 3 * day))"

lemma unpaid_stamps [simp]:
  "GetUnpaidAmountBillProductCurrency L (b \<lparr> bill_Status := s \<rparr>) = GetUnpaidAmountBillProductCurrency L b"
  "GetUnpaidAmountBillProductCurrency L (b \<lparr> bill_SentAt := t \<rparr>) = GetUnpaidAmountBillProductCurrency L b"
  "GetUnpaidAmountBillProductCurrency L (b \<lparr> bill_DueAt := t \<rparr>) = GetUnpaidAmountBillProductCurrency L b"
  by (simp_all add: GetUnpaidAmountBillProductCurrency_def GetNetAmountBillProductCurrencyWithAdjustments_def)

lemma sentOrPaid_finalised: "decimal_lib L \<Longrightarrow> finalised L now (sentOrPaid L b now)"
  using decimal_arith.cmp_le [OF decimal_lib.axioms(1)] decimal_arith.val_zero [OF decimal_lib.axioms(1)]
  by (simp add: sentOrPaid_def finalised_def paymentTerm_def)

lemma sendBill_triple:
  assumes L: "decimal_lib L"
  shows "triple (\<lambda>w. view billsC w = v) (sendBill L H pr profile b now)
    (\<lambda>_ w. \<exists>d. finalised L now d \<and> view billsC w = replaceRow (bill_ID b) (\<lambda>_. d) v) (elsewhere (bill_ID b) v)"
proof -
  let ?P = "\<lambda>w. view billsC w = v" and ?Q = "\<lambda>_ w. \<exists>d. finalised L now d \<and> view billsC w = replaceRow (bill_ID b) (\<lambda>_. d) v"
  let ?b = "ScaleUpItems L (b \<lparr> bill_InvoiceCurrency := bp_Currency profile \<rparr>)"
  have t: "tables ?P" by (rule bills.tables_view)
  have save: "triple ?P (SaveBillDoc d) ?Q (elsewhere (bill_ID b) v)" if "finalised L now d" "bill_ID d = bill_ID b" for d
    by (rule triple_conseq [OF SaveBillDoc_triple [of v d]]) (use that in \<open>auto intro: elsewhere_same\<close>)
  have zero: "finalised L now (?b \<lparr> bill_Status := BillPaid, bill_SentAt := Some now \<rparr>)" if "d_is_zero L (GetUnpaidAmountBillProductCurrency L ?b)"
    using that decimal_arith.is_zero_val [OF decimal_lib.axioms(1) [OF L]] by (simp add: finalised_def)
  have settle: "triple ?P (bnd (liftR (SettleBillAmount L ?b g promos accts rates base cur None now)) (\<lambda>s.
        bnd (saveConsumed s) (\<lambda>_. let bill = sentOrPaid L (sr_bill s) now in
        bnd (notify H (if bill_Status bill = BillPaid then ''bill_is_paid'' else ''bill_is_generated'') (bp_Email profile)) (\<lambda>_. SaveBillDoc bill))))
      ?Q (elsewhere (bill_ID b) v)" for g promos accts rates base cur
  proof (rule triple_know [OF quiet_liftR t elsewhere_same, where R = "\<lambda>s. bill_ID (sr_bill s) = bill_ID b"])
    fix s :: settle_result
    assume "bill_ID (sr_bill s) = bill_ID b"
    then have "bill_ID (sentOrPaid L (sr_bill s) now) = bill_ID b" by (simp add: sentOrPaid_def)
    then show "triple ?P (bnd (saveConsumed s) (\<lambda>_. let bill = sentOrPaid L (sr_bill s) now in
        bnd (notify H (if bill_Status bill = BillPaid then ''bill_is_paid'' else ''bill_is_generated'') (bp_Email profile)) (\<lambda>_. SaveBillDoc bill)))
      ?Q (elsewhere (bill_ID b) v)"
      unfolding Let_def
      by (intro triple_seq [OF leaves_triple [OF leaves_saveConsumed] elsewhere_same] triple_skip [OF quiet_notify t elsewhere_same]
          save sentOrPaid_finalised [OF L]) auto
  qed (auto simp: svc_simps ScaleUpItems_def dest!: SettleBillAmount_ID [OF sym])
  have rates: "quiet (settlementRates pr profile now)" unfolding settlementRates_def by (intro quiet_intros)
  show ?thesis
    unfolding sendBill_def Let_def [of "ScaleUpItems L _"] Let_def [of "GetUnpaidAmountBillProductCurrency L ?b"]
    by (intro triple_if save zero triple_skip [OF quiet_repo_reads(8) t elsewhere_same] triple_skip [OF quiet_repo_reads(18) t elsewhere_same]
        triple_skip [OF quiet_repo_reads(17) t elsewhere_same] triple_skip [OF rates t elsewhere_same] settle)
      (auto simp: ScaleUpItems_def)
qed

definition dueForSending :: "string \<Rightarrow> time \<Rightarrow> world \<Rightarrow> Bill option" where
  "dueForSending bpID now w = find (startedLastMonth now) (storeFind (\<lambda>b. bill_BillingProfileID b = bpID) (view billsC w))"

lemma lastMonthOpenBill_run: "lastMonthOpenBill bpID now w = (Inr x, w') \<Longrightarrow> x = dueForSending bpID now w"
  by (auto simp: lastMonthOpenBill_def BillsByBillingProfile_def dueForSending_def svc_simps dest!: bills.find_run)

lemma quiet_lastMonthOpenBill [quiet_intros]: "quiet (lastMonthOpenBill bpID now)"
  unfolding lastMonthOpenBill_def by (intro quiet_intros)

lemma dueForSending_row:
  assumes "dueForSending bpID now w = Some b"
  shows "(bill_ID b, b) \<in> set (view billsC w)" and "bill_BillingProfileID b = bpID" and "startedLastMonth now b"
proof -
  have b: "b \<in> set (storeFind (\<lambda>b. bill_BillingProfileID b = bpID) (view billsC w))" "startedLastMonth now b"
    using assms unfolding dueForSending_def by (auto simp: find_Some_iff)
  then obtain i where i: "(i, b) \<in> set (view billsC w)" "bill_BillingProfileID b = bpID" by (auto simp: storeFind_def)
  then show "(bill_ID b, b) \<in> set (view billsC w)" "bill_BillingProfileID b = bpID"
    using bills.view_ID [OF i(1)] by (simp_all add: billsC_def)
  show "startedLastMonth now b" by (fact b(2))
qed

lemma deleted_bill: "triple (\<lambda>w. view billsC w = v) (attempt (DeleteBill i)) (\<lambda>_. elsewhere i v) (elsewhere i v)"
proof (rule tripleI)
  fix w r w'
  assume v: "view billsC w = v" and run: "attempt (DeleteBill i) w = (r, w')"
  have other: "map_of (filter (\<lambda>x. fst x \<noteq> i) t) j = map_of t j" if "j \<noteq> i" for j and t :: "Bill table"
    using that by (induction t) auto
  obtain r1 w1 where del: "dbDeleteByID billsC i w = (r1, w1)" by (cases "dbDeleteByID billsC i w")
  have "w' = w1" using run del by (auto simp: attempt_def DeleteBill_def bnd_def ret_def split: sum.splits error.splits)
  moreover have "elsewhere i v w1"
  proof (cases r1)
    case (Inl e)
    then show ?thesis using failed_writes(3) [OF del [unfolded Inl]] bills.view_stored v by (metis elsewhere_same)
  next
    case (Inr b)
    then show ?thesis using bills.delete_run(2) [OF del [unfolded Inr]] v other by (simp add: elsewhere_def)
  qed
  ultimately show "case r of Inl e \<Rightarrow> elsewhere i v w' | Inr x \<Rightarrow> elsewhere i v w'" by (simp split: sum.splits)
qed

lemma sendFound_outcome:
  assumes L: "decimal_lib L" and row: "map_of v (bill_ID b) = Some b" and v: "view billsC w1 = v"
    and run: "sendFound L H pr profile b now w1 = (Inr (ok, err), w')"
  shows "elsewhere (bill_ID b) v w' \<and> (ok \<and> err = None \<longrightarrow> (\<exists>d. map_of (view billsC w') (bill_ID b) = Some d \<and> finalised L now d))"
proof -
  let ?del = "d_is_zero L (CalculateTotalAmount L b) \<and> \<not> list_ex (\<lambda>it. d_is_positive L (item_NetAmount it)) (bill_Items b)"
  consider "?del" | "\<not> ?del" "bp_Status profile = StatusSkip" | "\<not> ?del" "bp_Status profile \<noteq> StatusSkip" by blast
  then show ?thesis
  proof cases
    case 1
    then obtain r where "attempt (DeleteBill (bill_ID b)) w1 = (Inr r, w')" "\<not> ok" using run by (auto simp: sendFound_def svc_simps)
    then show ?thesis using tripleD [OF deleted_bill v] by fastforce
  next
    case 2
    then have "w' = w1" "\<not> ok" using run unfolding sendFound_def if_not_P [OF 2(1)] by (auto simp: svc_simps)
    then show ?thesis using elsewhere_same [OF v] by simp
  next
    case 3
    obtain r where r: "sendBill L H pr profile b now w1 = (r, w')" "err = (case r of Inl e \<Rightarrow> Some e | Inr _ \<Rightarrow> None)"
      using run unfolding sendFound_def if_not_P [OF 3(1)] if_not_P [OF 3(2)] by (auto simp: svc_simps)
    note out = tripleD [OF sendBill_triple [OF L] v r(1)]
    show ?thesis
    proof (cases r)
      case (Inl e)
      then show ?thesis using out r(2) by simp
    next
      case (Inr u)
      then obtain d where d: "finalised L now d" "view billsC w' = replaceRow (bill_ID b) (\<lambda>_. d) v" using out by auto
      then show ?thesis using row elsewhere_replaced [OF d(2)] by (simp add: map_of_replaceRow)
    qed
  qed
qed



text \<open>The shop with the sent bill turned into the open bill of a February.\<close>

definition ex_month :: world where
  "ex_month = ex_shop 1000 300 \<lparr> w_bills := [(''b1'', ex_charged_bill 1000 \<lparr> bill_Status := BillOpen,
     bill_BillingCycle := Some \<lparr> cycle_StartDate = Some (mkDate 2025 2 1 0), cycle_EndDate = None \<rparr> \<rparr>)] \<rparr>"


end
