(* ===== verification/Savings.thy ===== *)
theory Savings
  imports Billing_Repo Service_Logic Go_Float
begin

text \<open>
  Savings contracts and their expiry reminders: the conclusion of a contract and the expiry cron
  (\<open>billing/savings.go\<close>, the savings reads of \<open>billing/repo.go\<close>), the daily scheduling and the
  hourly dispatch of reminders (\<open>billing/reminder.go\<close>, \<open>billing/reminder_repo.go\<close>). A cron that
  stops at the first error returns its count beside the error, as the source does.
\<close>

section \<open>Plans and contracts\<close>

definition SavingsStatusActive :: string where "SavingsStatusActive = ''ACTIVE''"
definition SavingsStatusExpired :: string where "SavingsStatusExpired = ''EXPIRED''"
definition ReminderStatusInProgress :: string where "ReminderStatusInProgress = ''IN_PROGRESS''"
definition ReminderStatusDone :: string where "ReminderStatusDone = ''DONE''"
definition ResourceTypeSavingsContract :: string where "ResourceTypeSavingsContract = ''SAVINGS_CONTRACT''"
definition savingsExpiryReminderTemplate :: string where "savingsExpiryReminderTemplate = ''savings_contract_expiry_reminder''"

definition AvailableSavingsPlans :: "SavingsPlan list svc" where
  "AvailableSavingsPlans = dbFind savingPlansC plan_Available"

definition ExistsActiveSavingsContract :: "string \<Rightarrow> string \<Rightarrow> bool svc" where
  "ExistsActiveSavingsContract planID bpID = dbExists savingCtrsC (\<lambda>c. con_SavingsPlanID c = planID \<and> con_BillingProfileID c = bpID \<and>
     con_Status c = SavingsStatusActive)"

definition AvailableSavingsPlanByID :: "string \<Rightarrow> SavingsPlan option svc" where
  "AvailableSavingsPlanByID i = dbFindOne savingPlansC (\<lambda>p. plan_ID p = i \<and> plan_Available p)"

record CreateSavingsContractInput =
  in_SavingsPlanID :: string
  in_DurationMonths :: int
  in_MonthlyCommittedAmount :: decimal
  in_PaidUpfront :: bool
  in_StartDate :: string

definition InsertSavingsContract :: "SavingsContract \<Rightarrow> SavingsContract svc" where
  "InsertSavingsContract c = bnd timeNow (\<lambda>now.
     let c = c \<lparr> con_CreatedAt := (case con_CreatedAt c of None \<Rightarrow> Some now | Some t \<Rightarrow> Some t), con_UpdatedAt := Some now, con_ID := '''' \<rparr> in
     bnd (dbInsertOne savingCtrsC c) (\<lambda>i. ret (c \<lparr> con_ID := i \<rparr>)))"

text \<open>The highest discount of the tiers that start at or below the committed amount.\<close>

definition bestDiscount :: "declib \<Rightarrow> decimal \<Rightarrow> SavingsPlanTier list \<Rightarrow> decimal option" where
  "bestDiscount L amount tiers = fold (\<lambda>t discount. case (stier_StartAmount t, stier_Discount t) of
       (Some s, Some d) \<Rightarrow> if d_cmp L s amount \<le> 0 \<and> (case discount of None \<Rightarrow> True | Some b \<Rightarrow> d_cmp L d b > 0) then Some d else discount
     | _ \<Rightarrow> discount) tiers None"

definition firstOfMonth :: "time \<Rightarrow> int \<Rightarrow> time" where
  "firstOfMonth now addMonths = addDate (mkDate (yearOf now) (monthOf now) 1 0) 0 addMonths 0"

definition contractFor :: "string \<Rightarrow> SavingsPlan \<Rightarrow> CreateSavingsContractInput \<Rightarrow> decimal \<Rightarrow> time \<Rightarrow> SavingsContract" where
  "contractFor bpID plan inp discount now =
     (let start = (if in_StartDate inp = ''NEXT_MONTH'' then firstOfMonth now 1 else firstOfMonth now 0) in
      \<lparr> con_ID = '''', con_BillingProfileID = bpID, con_Status = SavingsStatusActive, con_SavingsPlanID = plan_ID plan,
        con_SavingsPlanName = plan_Name plan, con_DurationMonths = in_DurationMonths inp, con_StartDate = Some start,
        con_EndDate = Some (addDate start 0 (in_DurationMonths inp) 0), con_DiscountRate = Some discount, con_Targets = plan_Targets plan,
        con_MonthlyCommittedAmount = Some (in_MonthlyCommittedAmount inp), con_PaidUpfront = in_PaidUpfront inp, con_OrderID = '''',
        con_CreatedAt = None, con_UpdatedAt = None \<rparr>)"

definition CreateSavingsContract :: "declib \<Rightarrow> string \<Rightarrow> CreateSavingsContractInput \<Rightarrow> time \<Rightarrow> SavingsContract svc" where
  "CreateSavingsContract L bpID inp now =
     bnd (AvailableSavingsPlanByID (in_SavingsPlanID inp)) (\<lambda>found. case found of
       None \<Rightarrow> throw (HTTPError 404 ''Savings plan not found'')
     | Some plan \<Rightarrow> bnd (ExistsActiveSavingsContract (plan_ID plan) bpID) (\<lambda>exists.
         if exists then throw (HTTPError 400 ''You already have a savings contract for this savings plan'')
         else case find (\<lambda>s. sch_DurationMonths s = in_DurationMonths inp) (plan_SavingSchedule plan) of
           None \<Rightarrow> throw (HTTPError 400 ''No schedule found for the given duration'')
         | Some schedule \<Rightarrow>
           (let tiers = (if in_PaidUpfront inp then sch_UpfrontTiers schedule else sch_NoUpfrontTiers schedule) in
            case bestDiscount L (in_MonthlyCommittedAmount inp) tiers of
              None \<Rightarrow> throw (HTTPError 400 ''No savings plan found for the given monthly commited amount'')
            | Some discount \<Rightarrow> InsertSavingsContract (contractFor bpID plan inp discount now))))"

section \<open>The reminder repository\<close>

definition SavingsContractReminderDays :: "int list svc" where
  "SavingsContractReminderDays = bnd (dbFindOne configsC (\<lambda>_. True)) (\<lambda>r. ret (case r of None \<Rightarrow> [] | Some c \<Rightarrow> conf_ReminderDaysBeforeExpiry c))"

definition ActiveSavingsContractsEndingBefore :: "time \<Rightarrow> SavingsContract list svc" where
  "ActiveSavingsContractsEndingBefore threshold = dbFind savingCtrsC (\<lambda>c. con_Status c = SavingsStatusActive \<and>
     (case con_EndDate c of None \<Rightarrow> False | Some e \<Rightarrow> e < threshold))"

definition ExistsInProgressReminder :: "string \<Rightarrow> string \<Rightarrow> bool svc" where
  "ExistsInProgressReminder resourceType targetID = dbExists remindersC (\<lambda>n. rn_ResourceType n = resourceType \<and>
     rn_TargetResourceID n = targetID \<and> rn_Status n = ReminderStatusInProgress)"

definition reminderFor :: "string \<Rightarrow> string \<Rightarrow> string \<Rightarrow> string \<Rightarrow> int list \<Rightarrow> time \<Rightarrow> ReminderNotification" where
  "reminderFor i resourceType targetID templateID days now = \<lparr> rn_ID = i, rn_TargetResourceID = targetID, rn_MessageTemplateID = templateID,
     rn_ResourceType = resourceType, rn_Status = ReminderStatusInProgress,
     rn_Notifications = map (\<lambda>d. \<lparr> rd_DaysBefore = d, rd_SentAt = None \<rparr>) (rev (sort days)),
     rn_CreatedAt = Some now, rn_UpdatedAt = Some now \<rparr>"

definition ScheduleReminder :: "string \<Rightarrow> string \<Rightarrow> string \<Rightarrow> int list \<Rightarrow> bool svc" where
  "ScheduleReminder resourceType targetID templateID days = bnd (ExistsInProgressReminder resourceType targetID) (\<lambda>exists.
     if exists then ret False
     else bnd timeNow (\<lambda>now. bnd NewID (\<lambda>i.
       bnd (dbInsertOne remindersC (reminderFor i resourceType targetID templateID days now)) (\<lambda>_. ret True))))"

definition FindInProgressReminders :: "ReminderNotification list svc" where
  "FindInProgressReminders = dbFind remindersC (\<lambda>n. rn_Status n = ReminderStatusInProgress)"

definition SaveReminderNotification :: "ReminderNotification \<Rightarrow> unit svc" where
  "SaveReminderNotification n = (if rn_ID n = '''' then throw (Failure ''reminder notification has no id'')
     else bnd timeNow (\<lambda>now. dbUpsert remindersC (rn_ID n) (n \<lparr> rn_UpdatedAt := Some now \<rparr>)))"

definition CancelReminders :: "string \<Rightarrow> string \<Rightarrow> unit svc" where
  "CancelReminders resourceType targetID =
     bnd (dbFindOne remindersC (\<lambda>n. rn_ResourceType n = resourceType \<and> rn_TargetResourceID n = targetID)) (\<lambda>found. case found of None \<Rightarrow> ret ()
     | Some n \<Rightarrow> if rn_Status n \<noteq> ReminderStatusInProgress then ret ()
         else SaveReminderNotification (n \<lparr> rn_Status := ReminderStatusDone \<rparr>))"

section \<open>Expiry\<close>

definition notifyExpired :: "hooks \<Rightarrow> SavingsContract \<Rightarrow> unit svc" where
  "notifyExpired H c = (if \<not> h_notifier H then ret ()
     else bnd (attempt (FindByID (con_BillingProfileID c))) (\<lambda>r. case r of Inl _ \<Rightarrow> ret () | Inr None \<Rightarrow> ret ()
       | Inr (Some profile) \<Rightarrow> notify H ''savings_contract_expired'' (bp_Email profile)))"

definition hasExpired :: "time \<Rightarrow> SavingsContract \<Rightarrow> bool" where
  "hasExpired now c \<longleftrightarrow> con_Status c = SavingsStatusActive \<and> (case con_EndDate c of None \<Rightarrow> False | Some e \<Rightarrow> e < now)"

fun expireLoop :: "hooks \<Rightarrow> time \<Rightarrow> SavingsContract list \<Rightarrow> int \<Rightarrow> (int \<times> error option) svc" where
  "expireLoop H now [] expired = ret (expired, None)"
| "expireLoop H now (c # cs) expired =
     (if \<not> hasExpired now c then expireLoop H now cs expired
      else bnd (attempt (SaveSavingsContract (c \<lparr> con_Status := SavingsStatusExpired \<rparr>))) (\<lambda>r. case r of
        Inl e \<Rightarrow> ret (expired, Some e)
      | Inr c \<Rightarrow> bnd (attempt (CancelReminders ResourceTypeSavingsContract (con_ID c))) (\<lambda>_.
          bnd (notifyExpired H c) (\<lambda>_. expireLoop H now cs (expired + 1)))))"

definition ExpireContracts :: "hooks \<Rightarrow> (int \<times> error option) svc" where
  "ExpireContracts H = bnd timeNow (\<lambda>now. bnd AllSavingsContracts (\<lambda>contracts. expireLoop H now contracts 0))"

section \<open>Reminders\<close>

definition windowOpen :: "int \<Rightarrow> ReminderNotificationDetail \<Rightarrow> bool" where
  "windowOpen du d \<longleftrightarrow> rd_SentAt d = None \<and> du \<le> rd_DaysBefore d"

fun decide :: "int \<Rightarrow> nat \<Rightarrow> ReminderNotificationDetail list \<Rightarrow> nat option \<Rightarrow> nat list \<Rightarrow> nat option \<times> nat list" where
  "decide du i [] sendIdx skipIdxs = (sendIdx, skipIdxs)"
| "decide du i (d # ds) sendIdx skipIdxs =
     (if windowOpen du d then decide du (Suc i) ds (Some i) (case sendIdx of None \<Rightarrow> skipIdxs | Some j \<Rightarrow> skipIdxs @ [j])
      else decide du (Suc i) ds sendIdx skipIdxs)"

definition reminderDecision :: "ReminderNotificationDetail list \<Rightarrow> int \<Rightarrow> nat option \<times> nat list" where
  "reminderDecision details daysUntilExpiry = decide daysUntilExpiry 0 details None []"

text \<open>\<open>Duration.Hours()\<close> and the conversion of the quotient to whole days.\<close>

definition durationHours :: "duration \<Rightarrow> 64 word" where
  "durationHours d = (let h = quot d hour; nsec = d - h * hour in
     f64_add (f64_of_int h) (f64_div (f64_of_int nsec) (f64_of_int hour)))"

definition daysUntil :: "time \<Rightarrow> time \<Rightarrow> int" where
  "daysUntil now endDate = f64_trunc (f64_div (durationHours (timeSub endDate now)) (f64_of_int 24))"

definition allDetailsSent :: "ReminderNotificationDetail list \<Rightarrow> bool" where
  "allDetailsSent details = list_all (\<lambda>d. rd_SentAt d \<noteq> None) details"

fun scheduleLoop :: "int list \<Rightarrow> SavingsContract list \<Rightarrow> int \<Rightarrow> (int \<times> error option) svc" where
  "scheduleLoop days [] scheduled = ret (scheduled, None)"
| "scheduleLoop days (c # cs) scheduled =
     bnd (attempt (ScheduleReminder ResourceTypeSavingsContract (con_ID c) savingsExpiryReminderTemplate days)) (\<lambda>r. case r of
       Inl e \<Rightarrow> ret (scheduled, Some e)
     | Inr created \<Rightarrow> scheduleLoop days cs (if created then scheduled + 1 else scheduled))"

text \<open>The product of the days and the nanoseconds of a day wraps at the width of \<open>time.Duration\<close>.\<close>

definition SendExpiryReminders :: "(int \<times> error option) svc" where
  "SendExpiryReminders = bnd SavingsContractReminderDays (\<lambda>days.
     if length days = 0 then ret (0, None)
     else bnd timeNow (\<lambda>now.
       let maxDays = fold (\<lambda>d m. if d > m then d else m) days 0;
           threshold = now + i64 ((maxDays + 1) * 24 * hour) in
       bnd (ActiveSavingsContractsEndingBefore threshold) (\<lambda>contracts. scheduleLoop days contracts 0)))"

definition stampAt :: "time \<Rightarrow> nat \<Rightarrow> ReminderNotificationDetail list \<Rightarrow> ReminderNotificationDetail list" where
  "stampAt now i ds = ds[i := (ds ! i) \<lparr> rd_SentAt := Some now \<rparr>]"

fun stampFirst :: "time \<Rightarrow> int \<Rightarrow> ReminderNotificationDetail list \<Rightarrow> ReminderNotificationDetail list" where
  "stampFirst now days [] = []"
| "stampFirst now days (d # ds) = (if rd_DaysBefore d = days then d \<lparr> rd_SentAt := Some now \<rparr> # ds else d # stampFirst now days ds)"

definition stampWindows :: "time \<Rightarrow> nat \<Rightarrow> nat list \<Rightarrow> ReminderNotificationDetail list \<Rightarrow> ReminderNotificationDetail list" where
  "stampWindows now sendIdx skipIdxs details = (let ds = fold (stampAt now) skipIdxs details in
     stampFirst now (rd_DaysBefore (ds ! sendIdx)) ds)"

definition sendReminderEmail :: "hooks \<Rightarrow> BillingProfile \<Rightarrow> unit svc" where
  "sendReminderEmail H profile = notify H savingsExpiryReminderTemplate (bp_Email profile)"

definition processReminder :: "hooks \<Rightarrow> ReminderNotification \<Rightarrow> time \<Rightarrow> bool svc" where
  "processReminder H n now = (if rn_ResourceType n \<noteq> ResourceTypeSavingsContract then ret False
     else bnd (SavingsContractByID (rn_TargetResourceID n)) (\<lambda>found. case found of None \<Rightarrow> ret False
       | Some contract \<Rightarrow> if con_Status contract \<noteq> SavingsStatusActive then ret False
         else case con_EndDate contract of None \<Rightarrow> ret False
         | Some endDate \<Rightarrow>
           (case reminderDecision (rn_Notifications n) (daysUntil now endDate) of (None, _) \<Rightarrow> ret False
            | (Some sendIdx, skipIdxs) \<Rightarrow>
              bnd (FindByID (con_BillingProfileID contract)) (\<lambda>p. case p of None \<Rightarrow> ret False
              | Some profile \<Rightarrow>
                bnd (sendReminderEmail H profile) (\<lambda>_.
                let ds = stampWindows now sendIdx skipIdxs (rn_Notifications n);
                    n = n \<lparr> rn_Notifications := ds, rn_Status := (if allDetailsSent ds then ReminderStatusDone else rn_Status n) \<rparr> in
                bnd (SaveReminderNotification n) (\<lambda>_. ret True))))))"

definition ProcessReminderNotifications :: "hooks \<Rightarrow> int svc" where
  "ProcessReminderNotifications H = bnd FindInProgressReminders (\<lambda>docs. bnd timeNow (\<lambda>now.
     forS (\<lambda>n sent. bnd (attempt (processReminder H n now)) (\<lambda>r.
       ret (case r of Inl _ \<Rightarrow> sent | Inr emailed \<Rightarrow> if emailed then sent + 1 else sent))) docs 0))"

section \<open>Every dispatch makes progress\<close>

definition stamp :: "time \<Rightarrow> ReminderNotificationDetail \<Rightarrow> ReminderNotificationDetail" where
  "stamp now d = d \<lparr> rd_SentAt := Some now \<rparr>"

definition opens :: "int \<Rightarrow> ReminderNotificationDetail list \<Rightarrow> nat list" where
  "opens du ds = filter (\<lambda>j. windowOpen du (ds ! j)) [0..<length ds]"

text \<open>The loop keeps the last open window seen and skips every earlier one.\<close>

lemma decide_opens:
  "decide du i ds s sk = (let os = (case s of None \<Rightarrow> [] | Some j \<Rightarrow> [j]) @ map (\<lambda>j. j + i) (opens du ds) in
     (if os = [] then None else Some (last os), sk @ butlast os))"
proof (induction ds arbitrary: i s sk)
  case Nil
  show ?case by (cases s) (simp_all add: opens_def)
next
  case (Cons d ds)
  have "[0..<length (d # ds)] = 0 # map Suc [0..<length ds]" by (simp add: map_Suc_upt upt_conv_Cons del: upt_Suc)
  then have "opens du (d # ds) = (if windowOpen du d then [0] else []) @ map Suc (opens du ds)"
    by (simp add: opens_def filter_map comp_def)
  then have o: "map (\<lambda>j. j + i) (opens du (d # ds)) = (if windowOpen du d then [i] else []) @ map (\<lambda>j. j + Suc i) (opens du ds)"
    by (simp add: comp_def)
  show ?case unfolding o
    by (cases s) (auto simp: Cons.IH Let_def butlast_append)
qed

lemma reminderDecision_opens:
  "reminderDecision ds du = (if opens du ds = [] then (None, []) else (Some (last (opens du ds)), butlast (opens du ds)))"
proof -
  have "map (\<lambda>j. j + 0) (opens du ds) = opens du ds" by (simp add: map_idI)
  then show ?thesis unfolding reminderDecision_def decide_opens by (simp add: Let_def)
qed

lemma stampAt_fold:
  assumes "\<forall>i\<in>set is. i < length ds"
  shows "fold (stampAt now) is ds = map (\<lambda>j. if j \<in> set is then stamp now (ds ! j) else ds ! j) [0..<length ds]"
  using assms
proof (induction "is" arbitrary: ds)
  case Nil
  show ?case by (simp add: map_nth)
next
  case (Cons i "is")
  have len: "length (stampAt now i ds) = length ds" by (simp add: stampAt_def)
  have "fold (stampAt now) is (stampAt now i ds) =
      map (\<lambda>j. if j \<in> set is then stamp now (stampAt now i ds ! j) else stampAt now i ds ! j) [0..<length ds]"
    using Cons.IH [of "stampAt now i ds"] Cons.prems by (simp add: len)
  also have "\<dots> = map (\<lambda>j. if j \<in> set (i # is) then stamp now (ds ! j) else ds ! j) [0..<length ds]"
    using Cons.prems by (auto simp: stampAt_def stamp_def nth_list_update)
  finally show ?case by simp
qed

lemma stampFirst_nth:
  "k < length ds \<Longrightarrow> distinct (map rd_DaysBefore ds) \<Longrightarrow> stampFirst now (rd_DaysBefore (ds ! k)) ds = stampAt now k ds"
  by (induction ds arbitrary: k) (auto simp: stampAt_def nth_Cons' less_Suc_eq_0_disj split: nat.splits)

lemma stampWindows_opens:
  assumes "distinct (map rd_DaysBefore ds)" and ne: "opens du ds \<noteq> []"
  shows "stampWindows now (last (opens du ds)) (butlast (opens du ds)) ds = map (\<lambda>d. if windowOpen du d then stamp now d else d) ds"
proof -
  let ?os = "opens du ds" and ?ds = "fold (stampAt now) (butlast (opens du ds)) ds"
  have bnd: "\<forall>i\<in>set ?os. i < length ds" by (auto simp: opens_def)
  have skips: "?ds = map (\<lambda>j. if j \<in> set (butlast ?os) then stamp now (ds ! j) else ds ! j) [0..<length ds]"
    by (rule stampAt_fold) (use bnd in \<open>auto dest: in_set_butlastD\<close>)
  then have days: "map rd_DaysBefore ?ds = map rd_DaysBefore ds" and len: "length ?ds = length ds"
    by (auto simp: stamp_def intro!: nth_equalityI)
  have "last ?os < length ?ds" using bnd ne len by simp
  then have "stampWindows now (last ?os) (butlast ?os) ds = stampAt now (last ?os) ?ds"
    unfolding stampWindows_def Let_def by (rule stampFirst_nth) (simp add: days assms(1))
  also have "\<dots> = fold (stampAt now) ?os ds"
  proof -
    have "fold (stampAt now) (butlast ?os @ [last ?os]) ds = stampAt now (last ?os) ?ds" by simp
    then show ?thesis using ne by simp
  qed
  also have "\<dots> = map (\<lambda>j. if windowOpen du (ds ! j) then stamp now (ds ! j) else ds ! j) [0..<length ds]"
    unfolding stampAt_fold [OF bnd] by (auto simp: opens_def)
  also have "\<dots> = map (\<lambda>d. if windowOpen du d then stamp now d else d) ds"
    by (rule nth_equalityI) auto
  finally show ?thesis .
qed

definition unsent :: "ReminderNotification \<Rightarrow> nat" where
  "unsent n = length (filter (\<lambda>d. rd_SentAt d = None) (rn_Notifications n))"

lemma allDetailsSent_unsent: "allDetailsSent (rn_Notifications n) \<longleftrightarrow> unsent n = 0"
proof -
  have "allDetailsSent ds \<longleftrightarrow> length (filter (\<lambda>d. rd_SentAt d = None) ds) = 0" for ds by (induction ds) (auto simp: allDetailsSent_def)
  then show ?thesis by (simp add: unsent_def)
qed

lemma unsent_drops:
  assumes "opens du ds \<noteq> []"
  shows "length (filter (\<lambda>d. rd_SentAt d = None) (map (\<lambda>d. if windowOpen du d then stamp now d else d) ds)) <
    length (filter (\<lambda>d. rd_SentAt d = None) ds)"
proof -
  have "length (filter (\<lambda>d. rd_SentAt d = None) (map (\<lambda>d. if windowOpen du d then stamp now d else d) ds)) +
      length (filter (windowOpen du) ds) = length (filter (\<lambda>d. rd_SentAt d = None) ds)"
    by (induction ds) (auto simp: stamp_def windowOpen_def)
  moreover have "filter (windowOpen du) ds \<noteq> []"
    using assms by (force simp: opens_def filter_empty_conv in_set_conv_nth)
  ultimately show ?thesis by (cases "filter (windowOpen du) ds") auto
qed

lemma SaveReminderNotification_no_fault:
  assumes "w_faults w = []" and "rn_ID n \<noteq> []"
  shows "\<exists>w' now. SaveReminderNotification n w = (Inr (), w') \<and> map_of (view remindersC w') (rn_ID n) = Some (n \<lparr> rn_UpdatedAt := Some now \<rparr>) \<and>
    w_log w' = w_log w"
proof -
  obtain now w1 where now: "timeNow w = (Inr now, w1)" "w_log w1 = w_log w" using timeNow_run by (metis prod.collapse)
  have f: "w_faults w1 = []" using now(1) assms(1) by (auto simp: timeNow_def Let_def split: list.splits)
  let ?d = "n \<lparr> rn_UpdatedAt := Some now \<rparr>"
  obtain w2 where up: "dbUpsert remindersC (rn_ID n) ?d w1 = (Inr (), w2)" by (simp add: dbUpsert_def db_no_fault [OF f])
  note up' = reminders.upsert_run [OF up]
  have "map_of (view remindersC w2) (rn_ID n) = Some ?d"
    using up'(1) by (auto simp: storeUpsert_def remindersC_def map_of_replaceRow map_add_Some_iff map_of_eq_None_iff
        split: option.splits if_splits)
  moreover have "SaveReminderNotification n w = (Inr (), w2)"
    using assms(2) up by (simp add: SaveReminderNotification_def bnd_run [of timeNow, OF now(1)])
  ultimately show ?thesis using up'(3) now(2) by auto
qed

text \<open>A reminder that is due: its contract is active, its profile exists, and an unsent window has opened.\<close>

definition reminderDue :: "ReminderNotification \<Rightarrow> time \<Rightarrow> world \<Rightarrow> bool" where
  "reminderDue n now w \<longleftrightarrow> rn_ID n \<noteq> [] \<and> rn_ResourceType n = ResourceTypeSavingsContract \<and>
     (case storeGet (view savingCtrsC w) (rn_TargetResourceID n) of None \<Rightarrow> False
      | Some c \<Rightarrow> con_Status c = SavingsStatusActive \<and> storeGet (view profilesC w) (con_BillingProfileID c) \<noteq> None \<and>
          (case con_EndDate c of None \<Rightarrow> False | Some e \<Rightarrow> opens (daysUntil now e) (rn_Notifications n) \<noteq> []))"


text \<open>Whole days are counted exactly: the floating-point detour does not lose a day.\<close>

lemma daysUntil_whole:
  assumes "\<bar>k\<bar> < 100000"
  shows "daysUntil now (now + k * day) = k"
proof -
  have int: "f64_val (f64_of_int n) = of_int n" "f64_finite (f64_of_int n)" if "\<bar>n\<bar> < 2 ^ 53" for n
    using that f64_of_int_val f64_of_int_finite by blast+
  have ex: "f64_exact \<bar>of_int n\<bar>" if "\<bar>n\<bar> < 2 ^ 53" for n using f64_exact_int [of "\<bar>n\<bar>"] that by simp
  let ?h = "f64_add (f64_of_int (24 * k)) (f64_div (f64_of_int 0) (f64_of_int hour))"
  have z: "f64_finite (f64_div (f64_of_int 0) (f64_of_int hour))" "f64_val (f64_div (f64_of_int 0) (f64_of_int hour)) = 0"
    using f64_div_exact [of "f64_of_int 0" "f64_of_int hour"] int ex [of 0] by simp_all
  have h: "f64_finite ?h" "f64_val ?h = of_int (24 * k)"
    using f64_add_exact [of "f64_of_int (24 * k)"] z int [of "24 * k"] ex [of "24 * k"] assms by simp_all
  have d: "f64_val (f64_div ?h (f64_of_int 24)) = of_int k"
    using f64_div_exact(2) [of ?h "f64_of_int 24"] h int [of 24] ex [of k] assms by simp
  have "timeSub (now + k * day) now = k * day" using assms by (auto simp: timeSub_def min_def max_def)
  moreover have "quot (k * day) hour = 24 * k"
    by (cases "0 \<le> k") (simp_all add: quot_def sgn_if abs_mult)
  ultimately show ?thesis by (simp add: daysUntil_def durationHours_def f64_trunc_def d)
qed

definition ex_savings :: SavingsContract where
  "ex_savings = \<lparr> con_ID = ''c'', con_BillingProfileID = ''bp'', con_Status = SavingsStatusActive, con_SavingsPlanID = ''p'',
     con_SavingsPlanName = ''Plan'', con_DurationMonths = 12, con_StartDate = Some 0, con_EndDate = Some (10 * day), con_DiscountRate = None,
     con_Targets = [], con_MonthlyCommittedAmount = None, con_PaidUpfront = False, con_OrderID = '''', con_CreatedAt = None, con_UpdatedAt = None \<rparr>"

definition ex_reminder :: ReminderNotification where
  "ex_reminder = reminderFor ''r'' ResourceTypeSavingsContract ''c'' savingsExpiryReminderTemplate [7, 30, 1] 0"


end
