(* ===== verification/Payment_Gateway.thy ===== *)
theory Payment_Gateway
  imports Bill_Payment Go_Float
begin

text \<open>
  The boundary of the payment flows: the gateway interface and its Stripe implementation
  (\<open>payment/stripe.go\<close>), the card, gateway, transaction and order repositories
  (\<open>billing/cards.go\<close>, \<open>billing/gateway.go\<close>, \<open>billing/credits.go\<close>, \<open>order/order.go\<close>) and the
  order hook of \<open>cmd/api/main.go\<close>. The Stripe client package is a parameter: what it answers is an
  arbitrary function of the request and of all the calls made so far, and every call is logged.
  The locale \<open>payment_gateway\<close> is what the flows rely on: a gateway call does not write the
  tables. The decryption of one secret text is a parameter.
\<close>

section \<open>The gateway interface\<close>

record CustomerInput =
  ci_BillingProfileID :: string
  ci_Email :: string
  ci_Name :: string
  ci_Country :: string
  ci_City :: string
  ci_Line1 :: string

record PaymentIntentInput =
  pii_CustomerID :: string
  pii_AmountCents :: int
  pii_Currency :: string
  pii_Description :: string
  pii_OffSession :: bool

record PaymentIntentResult =
  pi_ID :: string
  pi_ClientSecret :: string
  pi_Status :: string
  pi_ErrorMessage :: string
  pi_ErrorCode :: string
  pi_CancellationReason :: string

record CollectInput =
  coi_CardTokenID :: string
  coi_AmountCents :: int
  coi_Currency :: string

record RefundResult =
  rf_Status :: string
  rf_ErrorMessage :: string

record SetupIntentInput =
  sei_CustomerID :: string
  sei_Description :: string

record SetupIntentResult =
  sir_ID :: string
  sir_ClientSecret :: string
  sir_Status :: string

record CardDetails =
  cd_TokenID :: string
  cd_PanMasked :: string
  cd_ExpMonth :: int
  cd_ExpYear :: int

record gateway =
  g_GetOrCreateCustomer :: "CustomerInput \<Rightarrow> string svc"
  g_CreatePaymentIntent :: "PaymentIntentInput \<Rightarrow> PaymentIntentResult svc"
  g_RetrievePaymentIntent :: "string \<Rightarrow> PaymentIntentResult svc"
  g_CollectPaymentIntent :: "CollectInput \<Rightarrow> PaymentIntentResult svc"
  g_Refund :: "string \<Rightarrow> RefundResult svc"
  g_CreateSetupIntent :: "SetupIntentInput \<Rightarrow> SetupIntentResult svc"
  g_RetrieveSetupIntent :: "string \<Rightarrow> SetupIntentResult svc"
  g_LatestCardForCustomer :: "string \<Rightarrow> CardDetails svc"

section \<open>The Stripe gateway\<close>

text \<open>The requests and objects of the Stripe client, as far as the sources fill or read them.\<close>

record CustomerParams =
  cup_Email :: string
  cup_Name :: string
  cup_MetadataBillingProfileID :: string
  cup_Address :: "(string \<times> string \<times> string) option"

record PaymentIntentParams =
  pip_Customer :: "string option"
  pip_Amount :: int
  pip_Currency :: string
  pip_Description :: string
  pip_PaymentMethod :: "string option"
  pip_Confirm :: bool
  pip_SetupFutureUsage :: "string option"
  pip_AllowRedirects :: "string option"

record PaymentError =
  pe_Msg :: string
  pe_Code :: string
  pe_DeclineCode :: string

record PaymentIntent =
  int_ID :: string
  int_ClientSecret :: string
  int_Status :: string
  int_CancellationReason :: string
  int_LastPaymentError :: "PaymentError option"

record Card =
  cardLast4 :: string
  cardExpMonth :: int
  cardExpYear :: int

record PaymentMethod =
  pm_ID :: string
  pm_Customer :: "string option"
  pm_Card :: "Card option"

text \<open>
  The client: an answer depends on the request and on the log. A search or a listing is an
  iterator, the items it yields and the error it ends with.
\<close>

record stripe_api =
  st_SearchCustomers :: "string \<Rightarrow> event list \<Rightarrow> string list \<times> error option"
  st_NewCustomer :: "CustomerParams \<Rightarrow> event list \<Rightarrow> string res"
  st_NewPaymentIntent :: "PaymentIntentParams \<Rightarrow> event list \<Rightarrow> PaymentIntent res"
  st_GetPaymentIntent :: "string \<Rightarrow> event list \<Rightarrow> PaymentIntent res"
  st_GetPaymentMethod :: "string \<Rightarrow> event list \<Rightarrow> PaymentMethod res"
  st_ListPaymentMethods :: "string \<Rightarrow> event list \<Rightarrow> PaymentMethod list \<times> error option"
  st_NewRefund :: "string \<Rightarrow> event list \<Rightarrow> (string \<times> string) res"
  st_NewSetupIntent :: "string \<Rightarrow> string \<Rightarrow> event list \<Rightarrow> (string \<times> string \<times> string) res"
  st_GetSetupIntent :: "string \<Rightarrow> event list \<Rightarrow> (string \<times> string \<times> string) res"

definition stripeCall :: "string \<Rightarrow> string \<Rightarrow> (event list \<Rightarrow> 'a res) \<Rightarrow> 'a svc" where
  "stripeCall op arg answer w = (answer (w_log w), w \<lparr> w_log := w_log w @ [StripeCall op arg] \<rparr>)"

definition escapeChar :: "char \<Rightarrow> string" where
  "escapeChar c = (if c = CHR 0x5C then [CHR 0x5C, CHR 0x5C] else if c = CHR 0x22 then [CHR 0x5C, CHR 0x22] else [c])"

definition escapeSearchValue :: "string \<Rightarrow> string" where
  "escapeSearchValue v = concat (map escapeChar v)"

definition searchQuery :: "string \<Rightarrow> string" where
  "searchQuery i = ''metadata['' @ [CHR 0x22] @ ''billingProfileId'' @ [CHR 0x22] @ '']:'' @ [CHR 0x22] @ escapeSearchValue i @ [CHR 0x22]"

text \<open>The first item of an iterator, if it yields one; else its error.\<close>

definition firstItem :: "('a list \<times> error option) \<Rightarrow> 'a option res" where
  "firstItem it = (case it of (x # _, _) \<Rightarrow> Inr (Some x) | ([], Some e) \<Rightarrow> Inl e | ([], None) \<Rightarrow> Inr None)"

definition stripe_GetOrCreateCustomer :: "stripe_api \<Rightarrow> CustomerInput \<Rightarrow> string svc" where
  "stripe_GetOrCreateCustomer api inp =
     (if trimSpace (ci_BillingProfileID inp) = '''' then throw (Failure ''stripe: refusing to look up a customer with an empty billingProfileId'')
      else let q = searchQuery (ci_BillingProfileID inp) in
      bnd (stripeCall ''Customers.Search'' q (\<lambda>l. firstItem (st_SearchCustomers api q l))) (\<lambda>found. case found of
        Some i \<Rightarrow> ret i
      | None \<Rightarrow> stripeCall ''Customers.New'' (ci_BillingProfileID inp) (st_NewCustomer api
          \<lparr> cup_Email = ci_Email inp, cup_Name = ci_Name inp, cup_MetadataBillingProfileID = ci_BillingProfileID inp,
            cup_Address = (if ci_Country inp \<noteq> '''' \<or> ci_City inp \<noteq> '''' \<or> ci_Line1 inp \<noteq> ''''
              then Some (ci_Country inp, ci_City inp, ci_Line1 inp) else None) \<rparr>)))"

definition intentResult :: "PaymentIntent \<Rightarrow> PaymentIntentResult" where
  "intentResult p = \<lparr> pi_ID = int_ID p, pi_ClientSecret = int_ClientSecret p, pi_Status = int_Status p, pi_ErrorMessage = '''',
     pi_ErrorCode = '''', pi_CancellationReason = '''' \<rparr>"

definition stripe_CreatePaymentIntent :: "stripe_api \<Rightarrow> PaymentIntentInput \<Rightarrow> PaymentIntentResult svc" where
  "stripe_CreatePaymentIntent api inp = bnd (stripeCall ''PaymentIntents.New'' (pii_CustomerID inp) (st_NewPaymentIntent api
     \<lparr> pip_Customer = Some (pii_CustomerID inp), pip_Amount = pii_AmountCents inp, pip_Currency = pii_Currency inp,
       pip_Description = pii_Description inp, pip_PaymentMethod = None, pip_Confirm = False,
       pip_SetupFutureUsage = (if pii_OffSession inp then Some ''off_session'' else None), pip_AllowRedirects = None \<rparr>))
     (\<lambda>p. ret (intentResult p))"

definition stripe_RetrievePaymentIntent :: "stripe_api \<Rightarrow> string \<Rightarrow> PaymentIntentResult svc" where
  "stripe_RetrievePaymentIntent api i = bnd (stripeCall ''PaymentIntents.Get'' i (st_GetPaymentIntent api i)) (\<lambda>p.
     let res = intentResult p \<lparr> pi_CancellationReason := int_CancellationReason p \<rparr> in
     ret (case int_LastPaymentError p of None \<Rightarrow> res
       | Some e \<Rightarrow> res \<lparr> pi_ErrorMessage := pe_Msg e,
           pi_ErrorCode := (if pe_DeclineCode e \<noteq> '''' then pe_DeclineCode e else pe_Code e) \<rparr>))"

definition stripe_CollectPaymentIntent :: "stripe_api \<Rightarrow> CollectInput \<Rightarrow> PaymentIntentResult svc" where
  "stripe_CollectPaymentIntent api inp =
     bnd (stripeCall ''PaymentMethods.Get'' (coi_CardTokenID inp) (st_GetPaymentMethod api (coi_CardTokenID inp))) (\<lambda>pm.
     bnd (stripeCall ''PaymentIntents.New'' (coi_CardTokenID inp) (st_NewPaymentIntent api
       \<lparr> pip_Customer = pm_Customer pm, pip_Amount = coi_AmountCents inp, pip_Currency = coi_Currency inp,
         pip_Description = ''Collect funds'', pip_PaymentMethod = Some (coi_CardTokenID inp), pip_Confirm = True,
         pip_SetupFutureUsage = None, pip_AllowRedirects = Some ''never'' \<rparr>)) (\<lambda>p. ret (intentResult p)))"

definition stripe_Refund :: "stripe_api \<Rightarrow> string \<Rightarrow> RefundResult svc" where
  "stripe_Refund api paymentIntentID = bnd (stripeCall ''Refunds.New'' paymentIntentID (st_NewRefund api paymentIntentID)) (\<lambda>(status, reason).
     ret \<lparr> rf_Status = status, rf_ErrorMessage = reason \<rparr>)"

definition setupResult :: "string \<times> string \<times> string \<Rightarrow> SetupIntentResult" where
  "setupResult = (\<lambda>(i, secret, status). \<lparr> sir_ID = i, sir_ClientSecret = secret, sir_Status = status \<rparr>)"

definition stripe_CreateSetupIntent :: "stripe_api \<Rightarrow> SetupIntentInput \<Rightarrow> SetupIntentResult svc" where
  "stripe_CreateSetupIntent api inp = bnd (stripeCall ''SetupIntents.New'' (sei_CustomerID inp)
     (st_NewSetupIntent api (sei_CustomerID inp) (sei_Description inp))) (\<lambda>s. ret (setupResult s))"

definition stripe_RetrieveSetupIntent :: "stripe_api \<Rightarrow> string \<Rightarrow> SetupIntentResult svc" where
  "stripe_RetrieveSetupIntent api i = bnd (stripeCall ''SetupIntents.Get'' i (st_GetSetupIntent api i)) (\<lambda>s. ret (setupResult s))"

text \<open>The first payment method that has a card; the error of the listing, or no card at all.\<close>

definition cardOf :: "string \<Rightarrow> PaymentMethod list \<times> error option \<Rightarrow> CardDetails res" where
  "cardOf customerID it = (case List.map_filter (\<lambda>pm. map_option (\<lambda>c. \<lparr> cd_TokenID = pm_ID pm, cd_PanMasked = ''*.'' @ cardLast4 c,
       cd_ExpMonth = cardExpMonth c, cd_ExpYear = cardExpYear c \<rparr>) (pm_Card pm)) (fst it) of
     d # _ \<Rightarrow> Inr d
   | [] \<Rightarrow> Inl (case snd it of Some e \<Rightarrow> e | None \<Rightarrow> Failure (''no card payment method for customer '' @ customerID)))"

definition stripe_LatestCardForCustomer :: "stripe_api \<Rightarrow> string \<Rightarrow> CardDetails svc" where
  "stripe_LatestCardForCustomer api customerID =
     stripeCall ''PaymentMethods.List'' customerID (\<lambda>l. cardOf customerID (st_ListPaymentMethods api customerID l))"

definition StripeGateway :: "stripe_api \<Rightarrow> gateway" where
  "StripeGateway api = \<lparr> g_GetOrCreateCustomer = stripe_GetOrCreateCustomer api, g_CreatePaymentIntent = stripe_CreatePaymentIntent api,
     g_RetrievePaymentIntent = stripe_RetrievePaymentIntent api, g_CollectPaymentIntent = stripe_CollectPaymentIntent api,
     g_Refund = stripe_Refund api, g_CreateSetupIntent = stripe_CreateSetupIntent api,
     g_RetrieveSetupIntent = stripe_RetrieveSetupIntent api, g_LatestCardForCustomer = stripe_LatestCardForCustomer api \<rparr>"

text \<open>One client per secret key: \<open>api.Init(secretKey, nil)\<close>.\<close>

definition NewStripeGateway :: "(string \<Rightarrow> stripe_api) \<Rightarrow> string \<Rightarrow> gateway" where
  "NewStripeGateway init secretKey = StripeGateway (init secretKey)"

section \<open>What the flows rely on\<close>

locale payment_gateway =
  fixes g :: gateway
  assumes gateway_quiet [quiet_intros]: "quiet (g_GetOrCreateCustomer g ci)" "quiet (g_CreatePaymentIntent g pin)"
    "quiet (g_RetrievePaymentIntent g i)" "quiet (g_CollectPaymentIntent g coi)" "quiet (g_Refund g i)"
    "quiet (g_CreateSetupIntent g si)" "quiet (g_RetrieveSetupIntent g i)" "quiet (g_LatestCardForCustomer g i)"

lemma quiet_stripeCall [quiet_intros]: "quiet (stripeCall op arg answer)"
  by (simp add: quiet_def stripeCall_def stored_def)

lemma quiet_stripe [quiet_intros]:
  "quiet (stripe_GetOrCreateCustomer api ci)" "quiet (stripe_CreatePaymentIntent api pin)" "quiet (stripe_RetrievePaymentIntent api i)"
  "quiet (stripe_CollectPaymentIntent api coi)" "quiet (stripe_Refund api i)" "quiet (stripe_CreateSetupIntent api si)"
  "quiet (stripe_RetrieveSetupIntent api i)" "quiet (stripe_LatestCardForCustomer api i)"
  unfolding stripe_GetOrCreateCustomer_def stripe_CreatePaymentIntent_def stripe_RetrievePaymentIntent_def Let_def case_prod_beta
    stripe_CollectPaymentIntent_def stripe_Refund_def stripe_CreateSetupIntent_def stripe_RetrieveSetupIntent_def
    stripe_LatestCardForCustomer_def
  by (intro quiet_intros)+

interpretation stripe: payment_gateway "StripeGateway api"
  by unfold_locales (simp_all add: StripeGateway_def quiet_stripe)

text \<open>
  A reader of the search language: a literal runs to the next quote that no backslash precedes,
  and a backslash stands for the character after it.
\<close>

fun readLiteral :: "string \<Rightarrow> (string \<times> string) option" where
  "readLiteral [] = None"
| "readLiteral (c # cs) = (if c = CHR 0x22 then Some ([], cs)
     else if c = CHR 0x5C then (case cs of [] \<Rightarrow> None | d # ds \<Rightarrow> map_option (\<lambda>(v, rest). (d # v, rest)) (readLiteral ds))
     else map_option (\<lambda>(v, rest). (c # v, rest)) (readLiteral cs))"

lemma escaped_value_reads_back: "readLiteral (escapeSearchValue v @ CHR 0x22 # rest) = Some (v, rest)"
  by (induction v) (simp_all add: escapeSearchValue_def escapeChar_def)

end
