(* ===== verification/Payment_Repo.thy ===== *)
theory Payment_Repo
  imports Payment_Gateway
begin

text \<open>
  The documents of the payment flows: stored cards and card transactions (\<open>billing/cards.go\<close>),
  gateways (\<open>billing/gateway.go\<close>) with the decryption walk of \<open>pkg/textcrypt\<close>, deposit and collect
  transactions (\<open>billing/gateway.go\<close>, \<open>billing/credits.go\<close>, \<open>billing/repo.go\<close>), orders
  (\<open>order/order.go\<close>) with the order hook of \<open>cmd/api/main.go\<close>, and the helpers shared by the flows.
\<close>

section \<open>The wiring\<close>

text \<open>
  What \<open>cmd/api/main.go\<close> hands to the payment services: the hooks, whether the pricing
  repository, the order hook and the bill payer are set, the decryption of one secret text (none
  without an encryptor) and the gateway of a secret key.
\<close>

record payments =
  pay_hooks :: hooks
  pay_pricing :: bool
  pay_orderStatus :: bool
  pay_billPayer :: bool
  pay_decrypt :: "(string \<Rightarrow> string) option"
  pay_gatewayFor :: "string \<Rightarrow> gateway"

section \<open>Gateways\<close>

text \<open>\<open>Encryptor.walk\<close>: text leaves of nested objects; arrays are left alone.\<close>

fun walk :: "(string \<Rightarrow> string) \<Rightarrow> json \<Rightarrow> json" where
  "walk fn (JObject m) = JObject (map (\<lambda>(k, v). (k, case v of JObject m' \<Rightarrow> walk fn (JObject m')
     | JLeaf (AnyString s) \<Rightarrow> JLeaf (AnyString (fn s)) | _ \<Rightarrow> v)) m)"
| "walk fn v = v"

definition SecretString :: "Gateway \<Rightarrow> string \<Rightarrow> string" where
  "SecretString g key = jstr (jget (gw_Secret g) key)"

definition MinDeposit :: "Gateway \<Rightarrow> 64 word" where
  "MinDeposit g = (case jget (gw_Config g) ''minDeposit'' of JLeaf (AnyFloat64 v) \<Rightarrow> v | JLeaf (AnyInt n) \<Rightarrow> f64_of_int n | _ \<Rightarrow> 0)"

definition GetGateway :: "payments \<Rightarrow> string \<Rightarrow> Gateway option svc" where
  "GetGateway P i = bnd (dbGet gatewaysC i) (\<lambda>doc. ret (map_option (\<lambda>g. case pay_decrypt P of None \<Rightarrow> g
     | Some fn \<Rightarrow> (case walk fn (JObject (gw_Secret g)) of JObject m \<Rightarrow> g \<lparr> gw_Secret := m \<rparr> | _ \<Rightarrow> g)) doc))"

section \<open>Cards\<close>

definition orNow :: "time option \<Rightarrow> time \<Rightarrow> time option" where
  "orNow t now = (case t of None \<Rightarrow> Some now | Some _ \<Rightarrow> t)"

definition SaveCreditCardTransaction :: "CreditCardTransaction \<Rightarrow> CreditCardTransaction svc" where
  "SaveCreditCardTransaction t = bnd timeNow (\<lambda>now.
     let t = t \<lparr> cct_CreatedAt := orNow (cct_CreatedAt t) now, cct_UpdatedAt := Some now \<rparr> in
     if cct_ID t = '''' then bnd (dbInsertOne cardTxnsC t) (\<lambda>i. ret (t \<lparr> cct_ID := i \<rparr>))
     else bnd (dbReplace cardTxnsC (cct_ID t) t) (\<lambda>_. ret t))"

definition CreditCardTransactionByID :: "string \<Rightarrow> CreditCardTransaction option svc" where
  "CreditCardTransactionByID i = dbGet cardTxnsC i"

definition CreateCreditCard :: "CreditCard \<Rightarrow> CreditCard svc" where
  "CreateCreditCard c = bnd timeNow (\<lambda>now.
     let c = c \<lparr> card_CreatedAt := orNow (card_CreatedAt c) now, card_UpdatedAt := Some now \<rparr> in
     bnd (dbInsertOne cardsC c) (\<lambda>i. ret (c \<lparr> card_ID := i \<rparr>)))"

definition CreditCardByID :: "string \<Rightarrow> CreditCard option svc" where
  "CreditCardByID i = dbGet cardsC i"

definition DeleteCreditCard :: "string \<Rightarrow> string \<Rightarrow> unit svc" where
  "DeleteCreditCard bpID i = db (\<lambda>w. case find (\<lambda>r. card_ID (snd r) = i \<and> card_BillingProfileID (snd r) = bpID) (view cardsC w) of
       None \<Rightarrow> (Inr (), w)
     | Some r \<Rightarrow> (Inr (), w_cards_update (\<lambda>t. snd (storeDeleteByID (fst r) t)) w))"

definition CreditCardByIDAndBillingProfile :: "string \<Rightarrow> string \<Rightarrow> CreditCard option svc" where
  "CreditCardByIDAndBillingProfile i bpID = dbFindOne cardsC (\<lambda>c. card_ID c = i \<and> card_BillingProfileID c = bpID)"

definition CreditCardTransactionByIDAndBillingProfile :: "string \<Rightarrow> string \<Rightarrow> CreditCardTransaction option svc" where
  "CreditCardTransactionByIDAndBillingProfile i bpID = dbFindOne cardTxnsC (\<lambda>t. cct_ID t = i \<and> cct_BillingProfileID t = bpID)"

definition CurrentCreditCard :: "string \<Rightarrow> string \<Rightarrow> time \<Rightarrow> CreditCard option svc" where
  "CurrentCreditCard bpID defaultCardID now = (let firstOfMonth = mkDate (yearOf now) (monthOf now) 1 0 in
     bnd (dbFind cardsC (\<lambda>c. card_BillingProfileID c = bpID \<and>
       (case card_TokenExpirationDate c of None \<Rightarrow> False | Some e \<Rightarrow> e > firstOfMonth))) (\<lambda>cs.
     ret (case cs of [] \<Rightarrow> None
       | c # _ \<Rightarrow> (case (if defaultCardID \<noteq> '''' then find (\<lambda>c. equalFold (card_ID c) defaultCardID) cs else None) of
           Some d \<Rightarrow> Some d | None \<Rightarrow> Some c))))"

definition CreditCardsByBillingProfile :: "string \<Rightarrow> CreditCard list svc" where
  "CreditCardsByBillingProfile bpID = dbFind cardsC (\<lambda>c. card_BillingProfileID c = bpID)"

section \<open>Transactions\<close>

definition SaveAccountCreditTransaction :: "AccountCreditTransaction \<Rightarrow> AccountCreditTransaction svc" where
  "SaveAccountCreditTransaction t = bnd timeNow (\<lambda>now.
     let t = t \<lparr> act_CreatedAt := orNow (act_CreatedAt t) now, act_UpdatedAt := Some now \<rparr> in
     if act_ID t = '''' then bnd (dbInsertOne creditsC t) (\<lambda>i. ret (t \<lparr> act_ID := i \<rparr>))
     else bnd (dbReplace creditsC (act_ID t) t) (\<lambda>_. ret t))"

definition AccountCreditTransactionByID :: "string \<Rightarrow> AccountCreditTransaction option svc" where
  "AccountCreditTransactionByID i = dbGet creditsC i"

definition SaveCollectTransaction :: "CollectTransaction \<Rightarrow> CollectTransaction svc" where
  "SaveCollectTransaction t = bnd timeNow (\<lambda>now.
     let t = t \<lparr> ct_CreatedAt := orNow (ct_CreatedAt t) now, ct_UpdatedAt := Some now \<rparr> in
     if ct_ID t = '''' then bnd (dbInsertOne collectsC t) (\<lambda>i. ret (t \<lparr> ct_ID := i \<rparr>))
     else bnd (dbReplace collectsC (ct_ID t) t) (\<lambda>_. ret t))"

text \<open>\<open>"createdAt": {"$gt": from, "$lt": to}\<close>\<close>

definition createdBetween :: "time option \<Rightarrow> time \<Rightarrow> time \<Rightarrow> bool" where
  "createdBetween t from to = (case t of None \<Rightarrow> False | Some c \<Rightarrow> from < c \<and> c < to)"

definition PendingAccountCreditTransactions :: "time \<Rightarrow> time \<Rightarrow> AccountCreditTransaction list svc" where
  "PendingAccountCreditTransactions from to = dbFind creditsC (\<lambda>t. act_Status t = ''PENDING'' \<and> createdBetween (act_CreatedAt t) from to)"

definition PendingCollectTransactions :: "time \<Rightarrow> time \<Rightarrow> CollectTransaction list svc" where
  "PendingCollectTransactions from to = dbFind collectsC (\<lambda>t. ct_Status t = CTPending \<and> createdBetween (ct_CreatedAt t) from to)"

definition BankTransferByTxnID :: "string \<Rightarrow> BankTransfer option svc" where
  "BankTransferByTxnID txnID = dbFindOne bankXfersC (\<lambda>b. bt_AccountCreditTransactionID b = txnID)"

definition CreateBankTransfer :: "BankTransfer \<Rightarrow> string svc" where
  "CreateBankTransfer d = dbInsertOne bankXfersC d"

section \<open>Orders\<close>

definition OrderStatusCreated :: string where "OrderStatusCreated = ''CREATED''"
definition OrderStatusPaid :: string where "OrderStatusPaid = ''PAID''"

definition orderCreate :: "Order \<Rightarrow> Order svc" where
  "orderCreate o' = bnd timeNow (\<lambda>now.
     let o' = o' \<lparr> ord_CreatedAt := Some now, ord_UpdatedAt := Some now, ord_ID := '''' \<rparr> in
     bnd (dbInsertOne ordersC o') (\<lambda>i. ret (o' \<lparr> ord_ID := i \<rparr>)))"

definition UpdateStatus :: "string \<Rightarrow> string \<Rightarrow> unit svc" where
  "UpdateStatus i status = bnd timeNow (\<lambda>now.
     bnd (dbSetByID ordersC i (\<lambda>o'. o' \<lparr> ord_Status := status, ord_UpdatedAt := Some now \<rparr>)) (\<lambda>_. ret ()))"

definition UpdateStatusForProfile :: "string \<Rightarrow> string \<Rightarrow> string \<Rightarrow> unit svc" where
  "UpdateStatusForProfile i bpID status = bnd timeNow (\<lambda>now.
     bnd (dbSetFieldsOne ordersC (\<lambda>o'. ord_ID o' = i \<and> ord_BillingProfileID o' = bpID)
       (\<lambda>o'. o' \<lparr> ord_Status := status, ord_UpdatedAt := Some now \<rparr>)) (\<lambda>_. ret ()))"

definition orZero :: "declib \<Rightarrow> decimal option \<Rightarrow> decimal" where
  "orZero L d = (case d of None \<Rightarrow> d_zero L | Some a \<Rightarrow> a)"

definition CoversOrderTotal :: "declib \<Rightarrow> Order option \<Rightarrow> decimal \<Rightarrow> bool" where
  "CoversOrderTotal L o' gross = (case o' of None \<Rightarrow> False
     | Some q \<Rightarrow> d_cmp L gross (d_add L (orZero L (ord_NetAmount q)) (orZero L (ord_TaxAmount q))) \<ge> 0)"

definition ShouldMarkPaid :: "declib \<Rightarrow> Order option \<Rightarrow> string \<Rightarrow> decimal \<Rightarrow> bool" where
  "ShouldMarkPaid L o' payingProfileID gross = (case o' of None \<Rightarrow> False
     | Some q \<Rightarrow> ord_BillingProfileID q = payingProfileID \<and> CoversOrderTotal L o' gross)"

definition orderGet :: "string \<Rightarrow> Order option svc" where
  "orderGet i = dbGet ordersC i"

definition bindOrderPaid :: "declib \<Rightarrow> string \<Rightarrow> string \<Rightarrow> decimal \<Rightarrow> string \<Rightarrow> unit svc" where
  "bindOrderPaid L orderID bpID gross status = (if orderID = '''' then ret ()
     else bnd (orderGet orderID) (\<lambda>o'.
       if \<not> ShouldMarkPaid L o' bpID gross then ret () else UpdateStatusForProfile orderID bpID status))"

section \<open>Helpers of the flows\<close>

definition grossOrZero :: "declib \<Rightarrow> decimal option \<Rightarrow> decimal" where
  "grossOrZero L d = (case d of None \<Rightarrow> d_zero L | Some g \<Rightarrow> g)"

definition mapStatus :: "string \<Rightarrow> string" where
  "mapStatus s = (if s = ''succeeded'' then ''SUCCESS'' else if s = ''failed'' then ''FAILED''
     else if s = ''canceled'' then ''CANCELLED'' else ''PENDING'')"

definition gatewayErrorMessage :: "string \<Rightarrow> string \<Rightarrow> string" where
  "gatewayErrorMessage message code = (if code \<noteq> '''' then message @ '' ('' @ code @ '')'' else message)"

text \<open>A verification that is not an object is skipped; any other must be verified under one of two keys.\<close>

definition flag :: "attrs \<Rightarrow> string \<Rightarrow> bool" where
  "flag m k = (case map_of m k of Some (AnyBool b) \<Rightarrow> b | _ \<Rightarrow> False)"

definition allVerified :: "(attrs + any) list \<Rightarrow> bool" where
  "allVerified vs = list_all (\<lambda>v. case v of Inr _ \<Rightarrow> True | Inl m \<Rightarrow> flag m ''verified'' \<or> flag m ''isVerified'') vs"

definition newAccountCredit :: "declib \<Rightarrow> string \<Rightarrow> string \<Rightarrow> decimal \<Rightarrow> AccountCredit svc" where
  "newAccountCredit L bpID currency amount = bnd timeNow (\<lambda>now. bnd baseCurrencyOrEmpty (\<lambda>baseCcy.
     bnd (if currency \<noteq> baseCcy then
       liftR (bindR (ExchangeToProductCurrency L None amount currency baseCcy now) (\<lambda>a.
         bindR (GetExchangeRate L None baseCcy currency now) (\<lambda>r. Inr (a, r))))
       else ret (amount, d_of_int L 1)) (\<lambda>(amt, rate).
     ret \<lparr> ac_ID = '''', ac_BillingProfileID = bpID, ac_InvoiceCurrency = currency, ac_InvoiceExchangeRate = Some rate,
       ac_InitialAmount = Some amt, ac_Amount = Some amt, ac_Currency = baseCcy, ac_CreatedAt = Some now, ac_UpdatedAt = None \<rparr>)))"

text \<open>\<open>decimal.NewFromFloat(0.5)\<close>: the bit pattern of one half.\<close>

definition f64_half :: "64 word" where
  "f64_half = 0x3FE0000000000000"

definition centsHalfDown :: "declib \<Rightarrow> decimal option \<Rightarrow> int" where
  "centsHalfDown L amount = (case amount of None \<Rightarrow> 0 | Some a \<Rightarrow>
     (let cents = d_mul L a (d_of_int L 100) in
      if d_is_negative L cents then d_int_part L cents
      else d_int_part L (d_ceil L (d_sub L cents (d_of_float64 L f64_half)))))"

section \<open>Reads and writes\<close>

lemma quiet_payment_reads [quiet_intros]:
  "quiet (GetGateway P i)" "quiet (CreditCardTransactionByID i)" "quiet (CreditCardByID i)" "quiet (CreditCardByIDAndBillingProfile i b)"
  "quiet (CurrentCreditCard b d now)" "quiet (AccountCreditTransactionByID i)" "quiet (PendingAccountCreditTransactions from to)"
  "quiet (PendingCollectTransactions from to)" "quiet (BankTransferByTxnID i)" "quiet (orderGet i)" "quiet (newAccountCredit L b c a)"
  "quiet (settlementRates pr profile now)"
  unfolding GetGateway_def CreditCardTransactionByID_def CreditCardByID_def CreditCardByIDAndBillingProfile_def CurrentCreditCard_def
    AccountCreditTransactionByID_def PendingAccountCreditTransactions_def PendingCollectTransactions_def BankTransferByTxnID_def
    orderGet_def newAccountCredit_def settlementRates_def
  by (intro quiet_intros)+

lemma apart_payment_tables [simp]:
  "apart billsC collectsC" "apart billsC ordersC" "apart billsC creditsC" "apart billsC savingCtrsC"
  "apart acctCreditsC creditsC" "apart acctCreditsC ordersC" "apart acctCreditsC savingCtrsC" "apart acctCreditsC suspensionsC"
  "apart acctCreditsC profilesC" "apart acctCreditsC billsC" "apart acctCreditsC promoCreditC"
  "apart creditsC acctCreditsC" "apart creditsC ordersC" "apart creditsC savingCtrsC" "apart creditsC suspensionsC"
  "apart creditsC profilesC" "apart creditsC billsC" "apart creditsC promoCreditC"
  "apart collectsC billsC" "apart collectsC acctCreditsC" "apart collectsC ordersC" "apart collectsC suspensionsC" "apart collectsC profilesC"
  by (simp_all add: apart_def view_def billsC_def collectsC_def ordersC_def creditsC_def savingCtrsC_def acctCreditsC_def suspensionsC_def
      profilesC_def promoCreditC_def)

context collection
begin

lemma leaves_set_fields: "apart c e \<Longrightarrow> leaves c (dbSetFieldsOne e P f)"
  unfolding dbSetFieldsOne_def by (rule leaves_db) (auto simp: apart_def split: option.splits)

lemma leaves_order: "apart c ordersC \<Longrightarrow> leaves c (bindOrderPaid L i b g s)"
  unfolding bindOrderPaid_def UpdateStatusForProfile_def
  by (intro leaves_intros leaves_set_fields leaves_quiet quiet_payment_reads quiet_timeNow)

lemma leaves_collect_txn: "apart c collectsC \<Longrightarrow> leaves c (SaveCollectTransaction t)"
  unfolding SaveCollectTransaction_def by (intro leaves_intros leaves_writes leaves_quiet quiet_timeNow)

lemma leaves_deposit_txn: "apart c creditsC \<Longrightarrow> leaves c (SaveAccountCreditTransaction t)"
  unfolding SaveAccountCreditTransaction_def by (intro leaves_intros leaves_writes leaves_quiet quiet_timeNow)

lemma leaves_new_credit: "apart c acctCreditsC \<Longrightarrow> leaves c (CreateAccountCredit ac)"
  unfolding CreateAccountCredit_def by (intro leaves_intros leaves_writes)

lemma leaves_contract: "apart c savingCtrsC \<Longrightarrow> leaves c (SaveSavingsContract s)"
  unfolding SaveSavingsContract_def by (intro leaves_intros leaves_writes leaves_quiet quiet_timeNow)

lemma leaves_reviews: "apart c suspensionsC \<Longrightarrow> apart c profilesC \<Longrightarrow> leaves c (ReviewBillingProfile L H profile)"
  unfolding ReviewBillingProfile_def resume_def SaveSuspensionProcess_def Update_def
  by (intro leaves_intros leaves_writes leaves_quiet quiet_intros)

end

end
