(* ===== verification/Card_Collect.thy ===== *)
theory Card_Collect
  imports Payment_Repo
begin

text \<open>
  \<open>payment/collect.go\<close>: charging a saved card, for a deposit of the client and for the sent bills of
  the monthly job. A collect transaction is saved as pending, the card is charged, the intent is
  read back and the result is applied: on success to the bill, the order, or a new account credit.
\<close>

section \<open>Amounts\<close>

record CollectRequest =
  cr_CardID :: string
  cr_OrderID :: string
  cr_Amount :: "decimal option"

definition fxTax :: "declib \<Rightarrow> payments \<Rightarrow> BillingProfile \<Rightarrow> decimal \<Rightarrow> time \<Rightarrow> (decimal \<times> decimal \<times> decimal) svc" where
  "fxTax L P profile requested now =
     bnd baseCurrencyOrEmpty (\<lambda>baseCcy.
     bnd (liftR (GetExchangeRate L None baseCcy (bp_Currency profile) now)) (\<lambda>rate.
     let amount = d_mul L rate requested in
     bnd (settlementRates (pay_pricing P) profile now) (\<lambda>rates.
     ret (amount, CalculateGrossAmount L amount rates, rate))))"

section \<open>Applying the result\<close>

definition applyPaidCollectOnBill :: "declib \<Rightarrow> CollectTransaction \<Rightarrow> unit svc" where
  "applyPaidCollectOnBill L txn =
     bnd (BillByID (ct_BillID txn)) (\<lambda>found. case found of None \<Rightarrow> ret ()
     | Some bill \<Rightarrow> bnd baseCurrencyOrEmpty (\<lambda>baseCcy.
         bnd (liftR (ApplyPaidCollectOnBill L bill txn baseCcy)) SaveBillDoc))"

text \<open>\<open>p, _ := s.billing.FindByID(..); p != nil\<close>\<close>

definition profileOrNone :: "string \<Rightarrow> BillingProfile option svc" where
  "profileOrNone i = bnd (attempt (FindByID i)) (\<lambda>r. ret (case r of Inl _ \<Rightarrow> None | Inr p \<Rightarrow> p))"

definition thankForCollect :: "payments \<Rightarrow> CollectTransaction \<Rightarrow> unit svc" where
  "thankForCollect P txn = (if \<not> h_notifier (pay_hooks P) then ret ()
     else bnd (profileOrNone (ct_BillingProfileID txn)) (\<lambda>p. case p of None \<Rightarrow> ret ()
       | Some profile \<Rightarrow> emit (Mail ''send_thank_you_to_customer'' (bp_Email profile))))"

definition applyCollected :: "declib \<Rightarrow> payments \<Rightarrow> CollectTransaction \<Rightarrow> unit svc" where
  "applyCollected L P txn =
     (if ct_BillID txn \<noteq> '''' then applyPaidCollectOnBill L txn
      else if ct_OrderID txn \<noteq> '''' then
        (if pay_orderStatus P then bindOrderPaid L (ct_OrderID txn) (ct_BillingProfileID txn) (grossOrZero L (ct_GrossAmount txn)) ''PAID'' else ret ())
      else case ct_Amount txn of None \<Rightarrow> throw (Panic ''nil amount'')
        | Some amount \<Rightarrow> bnd (newAccountCredit L (ct_BillingProfileID txn) (ct_Currency txn) amount) (\<lambda>ac.
            bnd (CreateAccountCredit ac) (\<lambda>_. thankForCollect P txn)))"

definition reviewAfterCollect :: "declib \<Rightarrow> payments \<Rightarrow> CollectTransaction \<Rightarrow> unit svc" where
  "reviewAfterCollect L P txn = (if \<not> h_reviewer (pay_hooks P) then ret ()
     else bnd (profileOrNone (ct_BillingProfileID txn)) (\<lambda>p. case p of None \<Rightarrow> ret ()
       | Some profile \<Rightarrow> bnd (attempt (ReviewBillingProfile L (pay_hooks P) profile)) (\<lambda>_. ret ())))"

definition settleCollect :: "declib \<Rightarrow> payments \<Rightarrow> CollectTransaction \<Rightarrow> CollectTransaction svc" where
  "settleCollect L P txn = (let txn = txn \<lparr> ct_Status := CTSuccess \<rparr> in
     bnd (applyCollected L P txn) (\<lambda>_.
     bnd (SaveCollectTransaction txn) (\<lambda>saved.
     bnd (reviewAfterCollect L P txn) (\<lambda>_. ret saved))))"

definition processCollect :: "declib \<Rightarrow> payments \<Rightarrow> CollectTransaction \<Rightarrow> CollectTransaction svc" where
  "processCollect L P txn =
     bnd (GetGateway P (ct_PaymentGatewayID txn)) (\<lambda>found. case found of None \<Rightarrow> throw (HTTPError 404 ''Payment gateway not found'')
     | Some gw \<Rightarrow> let g = pay_gatewayFor P (SecretString gw ''privateKey'') in
       bnd (g_RetrievePaymentIntent g (ct_ExternalID txn)) (\<lambda>pi.
       if mapStatus (pi_Status pi) = ''SUCCESS'' then settleCollect L P txn
       else if mapStatus (pi_Status pi) = ''FAILED'' then
         SaveCollectTransaction (txn \<lparr> ct_Status := CTFailed, ct_ErrorMessage := gatewayErrorMessage (pi_ErrorMessage pi) (pi_ErrorCode pi) \<rparr>)
       else ret txn))"

definition runCollect :: "declib \<Rightarrow> payments \<Rightarrow> CollectTransaction \<Rightarrow> string \<Rightarrow> CollectTransaction svc" where
  "runCollect L P txn cardTokenID =
     bnd (GetGateway P (ct_PaymentGatewayID txn)) (\<lambda>found. case found of None \<Rightarrow> throw (HTTPError 404 ''Payment gateway not found'')
     | Some gw \<Rightarrow> if gw_ThirdParty gw \<noteq> ''Stripe'' then throw (HTTPError 400 (''Unsupported payment gateway: '' @ gw_ThirdParty gw))
       else let g = pay_gatewayFor P (SecretString gw ''privateKey'') in
       bnd (g_CollectPaymentIntent g \<lparr> coi_CardTokenID = cardTokenID, coi_AmountCents = centsHalfDown L (ct_GrossAmount txn),
         coi_Currency = ct_Currency txn \<rparr>) (\<lambda>pi.
       let txn = txn \<lparr> ct_ExternalID := pi_ID pi \<rparr>;
           txn = (if mapStatus (pi_Status pi) = ''FAILED'' then txn \<lparr> ct_Status := CTFailed,
             ct_ErrorMessage := gatewayErrorMessage (pi_ErrorMessage pi) (pi_ErrorCode pi) \<rparr> else txn) in
       bnd (SaveCollectTransaction txn) (\<lambda>txn.
       if ct_Status txn = CTPending then processCollect L P txn else ret txn)))"

section \<open>Deposit by card\<close>

definition collectTxn :: "BillingProfile \<Rightarrow> CreditCard \<Rightarrow> string \<Rightarrow> string \<Rightarrow> string \<Rightarrow> decimal \<times> decimal \<times> decimal \<Rightarrow> CollectTransaction" where
  "collectTxn profile cc billID orderID invoiceGateway = (\<lambda>(amount, gross, rate).
     \<lparr> ct_ID = '''', ct_BillID = billID, ct_OrderID = orderID, ct_Currency = bp_Currency profile, ct_ExternalID = '''',
       ct_Amount = Some amount, ct_GrossAmount = Some gross, ct_ErrorMessage = '''', ct_ExchangeRate = Some rate,
       ct_InvoiceGatewayID = invoiceGateway, ct_PaymentGatewayID = card_PaymentGatewayID cc, ct_BillingProfileID = bp_ID profile,
       ct_ExternalInvoiceID = '''', ct_CreditCardID = card_ID cc, ct_Status = CTPending, ct_Metadata = [],
       ct_CreatedAt = None, ct_UpdatedAt = None \<rparr>)"

definition CollectByCard :: "declib \<Rightarrow> payments \<Rightarrow> BillingProfile \<Rightarrow> CollectRequest \<Rightarrow> CollectTransaction svc" where
  "CollectByCard L P profile req =
     (if cr_CardID req = '''' then throw (HTTPError 400 ''Card id is required.'')
      else case cr_Amount req of None \<Rightarrow> throw (HTTPError 400 ''Amount is required.'')
      | Some requested \<Rightarrow>
        bnd (CreditCardByIDAndBillingProfile (cr_CardID req) (bp_ID profile)) (\<lambda>found. case found of
          None \<Rightarrow> throw (HTTPError 404 ''Credit cc not found'')
        | Some cc \<Rightarrow> bnd (GetGateway P (card_PaymentGatewayID cc)) (\<lambda>found. case found of
            None \<Rightarrow> throw (HTTPError 404 ''Payment gateway not found'')
          | Some gw \<Rightarrow> bnd timeNow (\<lambda>now. bnd (fxTax L P profile requested now) (\<lambda>amounts.
              bnd (SaveCollectTransaction (collectTxn profile cc '''' (cr_OrderID req) (gw_ID gw) amounts)) (\<lambda>txn.
              runCollect L P txn (card_TokenID cc)))))))"

section \<open>The monthly job\<close>

text \<open>\<open>fxTax\<close> of the unpaid amount is what \<open>collectBill\<close> writes out.\<close>

definition collectBill :: "declib \<Rightarrow> payments \<Rightarrow> BillingProfile \<Rightarrow> Bill \<Rightarrow> CreditCard \<Rightarrow> time \<Rightarrow> bool svc" where
  "collectBill L P profile bill cc now =
     bnd (fxTax L P profile (GetUnpaidAmountBillProductCurrency L bill) now) (\<lambda>amounts.
     bnd (SaveCollectTransaction (collectTxn profile cc (bill_ID bill) '''' (card_PaymentGatewayID cc) amounts)) (\<lambda>txn.
     bnd (runCollect L P txn (card_TokenID cc)) (\<lambda>txn. ret (ct_Status txn = CTSuccess))))"

definition notifyNoCard :: "declib \<Rightarrow> payments \<Rightarrow> BillingProfile \<Rightarrow> unit svc" where
  "notifyNoCard L P profile = (if \<not> h_notifier (pay_hooks P) \<or> bp_Email profile = '''' then ret ()
     else bnd timeNow (\<lambda>now. bnd (attempt (CurrentBalance L (bp_ID profile) now)) (\<lambda>r. case r of Inl _ \<Rightarrow> ret ()
       | Inr _ \<Rightarrow> bnd (attempt SuspensionConfiguration) (\<lambda>_. emit (Mail ''notify_customer_has_no_card'' (bp_Email profile))))))"

definition CollectBillingProfile :: "declib \<Rightarrow> payments \<Rightarrow> BillingProfile \<Rightarrow> int svc" where
  "CollectBillingProfile L P profile = (if bp_Status profile = StatusSuspended then ret 0
     else bnd (SentBills (bp_ID profile)) (\<lambda>bills. if bills = [] then ret 0
     else bnd timeNow (\<lambda>now. bnd (CurrentCreditCard (bp_ID profile) (bp_DefaultCardID profile) now) (\<lambda>found. case found of
       None \<Rightarrow> bnd (notifyNoCard L P profile) (\<lambda>_. ret 0)
     | Some cc \<Rightarrow> forS (\<lambda>bill paid. bnd (attempt (collectBill L P profile bill cc now)) (\<lambda>r.
         ret (case r of Inr True \<Rightarrow> paid + 1 | _ \<Rightarrow> paid))) bills 0))))"

definition CollectAll :: "declib \<Rightarrow> payments \<Rightarrow> int svc" where
  "CollectAll L P = bnd AllBillingProfiles (\<lambda>profiles.
     forS (\<lambda>profile paid. bnd (attempt (CollectBillingProfile L P profile)) (\<lambda>r.
       ret (case r of Inl _ \<Rightarrow> paid | Inr n \<Rightarrow> paid + n))) profiles 0)"

section \<open>What a collection leaves to pay\<close>

lemma rounding_leaves_nothing:
  assumes "0 \<le> round_at p x" shows "round_at p (x - round_at p x) \<le> 0"
proof -
  let ?y = "x * 10 ^ p" and ?n = "half_away (x * 10 ^ p)"
  have "half_away (?y - of_int ?n) \<le> 0"
  proof (cases "0 \<le> ?y")
    case True
    then have "?y - of_int ?n < 1 / 2" unfolding half_away_def by simp linarith
    then show ?thesis by (auto simp: half_away_def floor_le_iff)
  next
    case False
    then have "?n \<le> 0" by (simp add: half_away_def)
    moreover have "0 \<le> ?n" using assms not_le [of "10 ^ p :: rat" 0] by (auto simp: round_at_def zero_le_divide_iff)
    ultimately have "?n = 0" by (rule antisym)
    then show ?thesis by (metis diff_zero of_int_0 order_refl)
  qed
  moreover have "(x - round_at p x) * 10 ^ p = ?y - of_int ?n" by (simp add: round_at_def field_simps)
  ultimately show ?thesis by (simp add: round_at_def divide_le_0_iff)
qed

lemma has_places_val: "has_places (nat (- exponent d)) (val d)"
proof (cases "0 \<le> exponent d")
  case True
  then have "val d = of_int (coefficient d * 10 ^ nat (exponent d))" by (simp add: val_def power_int_def)
  then show ?thesis using has_places_of_int by metis
next
  case False
  then have "val d * 10 ^ nat (- exponent d) = of_int (coefficient d)" by (simp add: val_def power_int_def power_inverse power_mult_distrib [symmetric])
  then show ?thesis by (simp add: has_places_def)
qed

lemma collectAmountToProduct_unit_rate:
  assumes L: "decimal_lib L" and rate: "ct_ExchangeRate ct = Some r" "val r = 1" and amt: "ct_Amount ct = Some a"
    and run: "collectAmountToProduct L ct base = Inr q"
  shows "val q = val a"
proof (cases "base = ct_Currency ct")
  case True
  then show ?thesis using run amt by (simp add: collectAmountToProduct_def)
next
  case False
  then have "divHalfUpScale L a r = Inr q" using run amt rate by (simp add: collectAmountToProduct_def)
  from decimal_lib.divHalfUpScale_value(1) [OF L this] rate(2) show ?thesis
    by (simp add: round_at_exact [OF has_places_val])
qed

text \<open>The whole unpaid amount, collected at rate one, pays the bill.\<close>

lemma full_collect_pays:
  assumes L: "decimal_lib L" and app: "ApplyPaidCollectOnBill L bill ct base = Inr bill'"
    and rate: "ct_ExchangeRate ct = Some r" "val r = 1" and amt: "ct_Amount ct = Some a"
    and a: "val a = val (GetUnpaidAmountBillProductCurrency L bill)" and pos: "0 \<le> val a"
  shows "bill_Status bill' = BillPaid \<and> bill_ID bill' = bill_ID bill \<and> net_total bill' = net_total bill \<and>
    paid_total bill' = paid_total bill + val (GetUnpaidAmountBillProductCurrency L bill)"
proof -
  obtain q where q: "collectAmountToProduct L ct base = Inr q" using app by (auto simp: ApplyPaidCollectOnBill_def bindR_eq_Inr)
  have vq: "val q = val a" by (rule collectAmountToProduct_unit_rate [OF L rate amt q])
  have "val a = round_at 2 (net_total bill - paid_total bill)" using a decimal_lib.val_unpaid [OF L] by simp
  then have "round_at 2 (net_total bill - paid_total bill - val q) \<le> 0" using rounding_leaves_nothing [of 2 "net_total bill - paid_total bill"] pos vq
    by simp
  moreover have "bill_ID bill' = bill_ID bill" using app by (auto simp: ApplyPaidCollectOnBill_def bindR_eq_Inr Let_def split: if_splits)
  ultimately show ?thesis using collect_marks_paid [OF L app q] vq a by simp
qed

text \<open>A gross amount of whole cents is charged to the cent, given what \<open>NewFromFloat\<close> makes of one half.\<close>

lemma cents_exact:
  assumes L: "decimal_lib L" and half: "val (d_of_float64 L f64_half) = 1 / 2"
    and g: "0 \<le> val g" "100 * val g < 2 ^ 63" "has_places 2 (val g)"
  shows "of_int (centsHalfDown L (Some g)) = 100 * val g"
proof -
  note ar = decimal_lib.axioms(1) [OF L]
  let ?c = "d_mul L g (d_of_int L 100)"
  have c: "val ?c = 100 * val g" by (simp add: decimal_arith.val_mul [OF ar] decimal_arith.val_of_int [OF ar])
  obtain n where n: "100 * val g = of_int n" using g(3) by (auto simp: has_places_def Ints_def mult.commute)
  have bounds: "0 \<le> n" "n < 2 ^ 63" using g(1) g(2) [unfolded n] n by simp_all
  have "val (d_ceil L (d_sub L ?c (d_of_float64 L f64_half))) = of_int \<lceil>of_int n - 1 / 2 :: rat\<rceil>"
    by (simp add: decimal_lib.val_ceil [OF L] decimal_arith.val_sub [OF ar] c n half)
  also have "\<lceil>of_int n - 1 / 2 :: rat\<rceil> = n" by (simp add: ceiling_eq_iff)
  finally have "d_int_part L (d_ceil L (d_sub L ?c (d_of_float64 L f64_half))) = n"
    using bounds by (simp add: decimal_lib.int_part_val [OF L])
  moreover have "\<not> d_is_negative L ?c" using g(1) by (simp add: decimal_arith.is_negative_val [OF ar] c)
  ultimately show ?thesis by (simp add: centsHalfDown_def n)
qed

section \<open>The bill table under a collection\<close>

lemma SaveCollectTransaction_run:
  assumes "SaveCollectTransaction t w = (Inr t', w')"
  obtains c u i where "t' = t \<lparr> ct_CreatedAt := c, ct_UpdatedAt := u, ct_ID := i \<rparr>" and "ct_ID t \<noteq> '''' \<longrightarrow> i = ct_ID t"
proof (cases "ct_ID t = ''''")
  case True
  then show ?thesis using assms that unfolding SaveCollectTransaction_def by (auto simp: svc_simps Let_def)
next
  case False
  then obtain now where "t' = t \<lparr> ct_CreatedAt := orNow (ct_CreatedAt t) now, ct_UpdatedAt := Some now \<rparr>"
    using assms unfolding SaveCollectTransaction_def by (auto simp: svc_simps Let_def)
  then have "t' = t \<lparr> ct_CreatedAt := orNow (ct_CreatedAt t) now, ct_UpdatedAt := Some now, ct_ID := ct_ID t \<rparr>" by simp
  then show ?thesis using that by blast
qed

text \<open>The saved transaction differs in its id and time stamps only; the bills are left alone.\<close>

definition savedAs :: "CollectTransaction \<Rightarrow> CollectTransaction \<Rightarrow> bool" where
  "savedAs t t' \<longleftrightarrow> (\<exists>c u i. t' = t \<lparr> ct_CreatedAt := c, ct_UpdatedAt := u, ct_ID := i \<rparr>)"

lemma savedAs_fields:
  "savedAs t t' \<Longrightarrow> ct_Status t' = ct_Status t \<and> ct_BillID t' = ct_BillID t \<and> ct_Amount t' = ct_Amount t \<and>
    ct_ExchangeRate t' = ct_ExchangeRate t \<and> ct_ExternalID t' = ct_ExternalID t \<and> ct_GrossAmount t' = ct_GrossAmount t \<and>
    ct_Currency t' = ct_Currency t"
  by (auto simp: savedAs_def)

lemma saveCollect_triple:
  "triple (\<lambda>w. view billsC w = v) (SaveCollectTransaction t) (\<lambda>t' w. savedAs t t' \<and> view billsC w = v) (\<lambda>w. view billsC w = v)"
proof (rule tripleI)
  fix w r w'
  assume v: "view billsC w = v" and run: "SaveCollectTransaction t w = (r, w')"
  have "view billsC w' = v" using leavesD [OF bills.leaves_collect_txn run] v by simp
  moreover have "savedAs t t'" if "r = Inr t'" for t'
    using run that by (auto simp: savedAs_def elim!: SaveCollectTransaction_run)
  ultimately show "case r of Inl e \<Rightarrow> view billsC w' = v | Inr t' \<Rightarrow> savedAs t t' \<and> view billsC w' = v" by (simp split: sum.splits)
qed

text \<open>What a settled transaction does to the bill table.\<close>

definition collectedOn :: "declib \<Rightarrow> CollectTransaction \<Rightarrow> Bill table \<Rightarrow> world \<Rightarrow> bool" where
  "collectedOn L txn v w \<longleftrightarrow> (case storeGet v (ct_BillID txn) of None \<Rightarrow> view billsC w = v
     | Some b \<Rightarrow> \<exists>base b'. ApplyPaidCollectOnBill L b txn base = Inr b' \<and> view billsC w = replaceRow (ct_BillID txn) (\<lambda>_. b') v)"

lemma collectedOn_status: "collectedOn L (txn \<lparr> ct_Status := s \<rparr>) v w \<longleftrightarrow> collectedOn L txn v w"
proof -
  have "ApplyPaidCollectOnBill L b (txn \<lparr> ct_Status := s \<rparr>) base = ApplyPaidCollectOnBill L b txn base" for b base
    by (simp add: ApplyPaidCollectOnBill_def collectAmountToProduct_def cong: if_cong)
  then show ?thesis by (simp add: collectedOn_def split: option.split)
qed

lemma applyPaid_triple:
  "triple (\<lambda>w. view billsC w = v) (applyPaidCollectOnBill L txn) (\<lambda>_. collectedOn L txn v) (\<lambda>w. view billsC w = v)"
proof (unfold applyPaidCollectOnBill_def BillByID_def, rule triple_seq [OF bills.get_triple [OF bills.tables_view]])
  fix x :: "Bill option"
  let ?P = "\<lambda>w. view billsC w = v"
  show "triple (\<lambda>w. ?P w \<and> x = storeGet (view billsC w) (ct_BillID txn)) (case x of None \<Rightarrow> ret ()
      | Some bill \<Rightarrow> bnd baseCurrencyOrEmpty (\<lambda>b. bnd (liftR (ApplyPaidCollectOnBill L bill txn b)) SaveBillDoc))
      (\<lambda>_. collectedOn L txn v) ?P"
  proof (rule triple_pre [OF triple_fact [of "x = storeGet v (ct_BillID txn)" ?P]])
    assume x: "x = storeGet v (ct_BillID txn)"
    show "triple ?P (case x of None \<Rightarrow> ret ()
      | Some bill \<Rightarrow> bnd baseCurrencyOrEmpty (\<lambda>b. bnd (liftR (ApplyPaidCollectOnBill L bill txn b)) SaveBillDoc))
      (\<lambda>_. collectedOn L txn v) ?P"
    proof (rule triple_option)
      show "triple ?P (ret ()) (\<lambda>_. collectedOn L txn v) ?P" if "x = None"
        using that x by (intro triple_ret) (simp add: collectedOn_def)
      fix b
      assume b: "x = Some b"
      show "triple ?P (bnd baseCurrencyOrEmpty (\<lambda>c. bnd (liftR (ApplyPaidCollectOnBill L b txn c)) SaveBillDoc)) (\<lambda>_. collectedOn L txn v) ?P"
      proof (intro triple_skip [OF quiet_repo_reads(8) bills.tables_view] triple_know [OF quiet_liftR bills.tables_view,
            where R = "\<lambda>b'. \<exists>c. ApplyPaidCollectOnBill L b txn c = Inr b'"])
        fix b'
        assume app: "\<exists>c. ApplyPaidCollectOnBill L b txn c = Inr b'"
        show "triple ?P (SaveBillDoc b') (\<lambda>_. collectedOn L txn v) ?P"
        proof (rule tripleI)
          fix w r w'
          assume w: "view billsC w = v" and run: "SaveBillDoc b' w = (r, w')"
          have "bill_ID b = ct_BillID txn" using bills.view_get_ID [of w "ct_BillID txn" b] x b w by (simp add: billsC_def)
          then have "bill_ID b' = ct_BillID txn" using app by (auto simp: ApplyPaidCollectOnBill_def bindR_eq_Inr Let_def split: if_splits)
          with tripleD [OF SaveBillDoc_triple w run] app x [symmetric] b
          show "case r of Inl e \<Rightarrow> view billsC w' = v | Inr _ \<Rightarrow> collectedOn L txn v w'"
            by (auto simp: collectedOn_def split: sum.splits)
        qed
      qed (auto simp: svc_simps)
    qed
  qed auto
qed

section \<open>What the gateway reports\<close>

definition gateways_ok :: "payments \<Rightarrow> bool" where
  "gateways_ok P \<longleftrightarrow> (\<forall>key. payment_gateway (pay_gatewayFor P key))"

lemma gateways_quiet:
  assumes "gateways_ok P"
  shows "quiet (g_RetrievePaymentIntent (pay_gatewayFor P key) i)" "quiet (g_CollectPaymentIntent (pay_gatewayFor P key) coi)"
  using assms by (auto simp: gateways_ok_def intro: payment_gateway.gateway_quiet)

definition reportedPaid :: "payments \<Rightarrow> string \<Rightarrow> bool" where
  "reportedPaid P i \<longleftrightarrow> (\<exists>key w1 p w2. g_RetrievePaymentIntent (pay_gatewayFor P key) i w1 = (Inr p, w2) \<and> pi_Status p = ''succeeded'')"

text \<open>A card was charged as asked, and the intent that came back was then reported as paid.\<close>

definition charged :: "payments \<Rightarrow> CollectInput \<Rightarrow> bool" where
  "charged P coi \<longleftrightarrow> (\<exists>key w1 p w2. g_CollectPaymentIntent (pay_gatewayFor P key) coi w1 = (Inr p, w2) \<and> reportedPaid P (pi_ID p))"

lemma mapStatus_success: "mapStatus s = ''SUCCESS'' \<longleftrightarrow> s = ''succeeded''"
  by (simp add: mapStatus_def)

lemma leaves_reviewAfterCollect: "leaves billsC (reviewAfterCollect L P txn)"
  unfolding reviewAfterCollect_def profileOrNone_def
  by (intro leaves_intros leaves_review bills.leaves_quiet quiet_repo_reads)

lemma settleCollect_triple:
  assumes "ct_BillID txn \<noteq> ''''"
  shows "triple (\<lambda>w. view billsC w = v) (settleCollect L P txn) (\<lambda>t w. ct_Status t = CTSuccess \<and> collectedOn L txn v w)
    (\<lambda>w. view billsC w = v \<or> collectedOn L txn v w)"
proof -
  let ?t = "txn \<lparr> ct_Status := CTSuccess \<rparr>"
  have keep: "triple (collectedOn L txn v) m (\<lambda>_. collectedOn L txn v) (collectedOn L txn v)" if "leaves billsC m" for m :: "'a svc"
    by (rule tripleI) (use leavesD [OF that] in \<open>auto simp: collectedOn_def split: sum.splits option.splits\<close>)
  have save: "triple (collectedOn L txn v) (SaveCollectTransaction ?t) (\<lambda>t w. ct_Status t = CTSuccess \<and> collectedOn L txn v w) (collectedOn L txn v)"
  proof (rule tripleI)
    fix w r w'
    assume "collectedOn L txn v w" and run: "SaveCollectTransaction ?t w = (r, w')"
    then have "collectedOn L txn v w'" using tripleD [OF keep [OF bills.leaves_collect_txn] _ run] by (auto split: sum.splits)
    then show "case r of Inl e \<Rightarrow> collectedOn L txn v w' | Inr t \<Rightarrow> ct_Status t = CTSuccess \<and> collectedOn L txn v w'"
      using run by (auto split: sum.splits elim!: SaveCollectTransaction_run)
  qed
  have rest: "triple (\<lambda>w. ct_Status t = CTSuccess \<and> collectedOn L txn v w) (bnd (reviewAfterCollect L P ?t) (\<lambda>_. ret t))
      (\<lambda>t w. ct_Status t = CTSuccess \<and> collectedOn L txn v w) (collectedOn L txn v)" for t
    by (rule triple_fact, intro triple_bnd [OF keep [OF leaves_reviewAfterCollect]] triple_ret) simp
  have app: "triple (\<lambda>w. view billsC w = v) (applyCollected L P ?t) (\<lambda>_. collectedOn L txn v) (\<lambda>w. view billsC w = v)"
    using assms applyPaid_triple [of v L ?t] by (simp add: applyCollected_def collectedOn_status [abs_def])
  show ?thesis
    unfolding settleCollect_def Let_def by (intro triple_seq [OF app] triple_seq [OF save] triple_conseq [OF rest]) auto
qed

lemma processCollect_triple:
  assumes "gateways_ok P" and "ct_BillID txn \<noteq> ''''" and "ct_Status txn = CTPending"
  shows "triple (\<lambda>w. view billsC w = v) (processCollect L P txn)
    (\<lambda>t w. if ct_Status t = CTSuccess then reportedPaid P (ct_ExternalID txn) \<and> collectedOn L txn v w else view billsC w = v)
    (\<lambda>w. view billsC w = v \<or> reportedPaid P (ct_ExternalID txn) \<and> collectedOn L txn v w)"
    (is "triple ?V _ ?Q ?E")
proof -
  have failed: "triple ?V (SaveCollectTransaction (txn \<lparr> ct_Status := CTFailed, ct_ErrorMessage := m \<rparr>)) ?Q ?E" for m
    by (rule triple_conseq [OF saveCollect_triple]) (auto dest: savedAs_fields)
  have paid: "triple ?V (settleCollect L P txn) ?Q ?E" if "reportedPaid P (ct_ExternalID txn)"
    by (rule triple_conseq [OF settleCollect_triple [OF assms(2)]]) (use that in auto)
  have read: "triple ?V (bnd (g_RetrievePaymentIntent (pay_gatewayFor P key) (ct_ExternalID txn)) (\<lambda>pi.
       if mapStatus (pi_Status pi) = ''SUCCESS'' then settleCollect L P txn
       else if mapStatus (pi_Status pi) = ''FAILED'' then
         SaveCollectTransaction (txn \<lparr> ct_Status := CTFailed, ct_ErrorMessage := gatewayErrorMessage (pi_ErrorMessage pi) (pi_ErrorCode pi) \<rparr>)
       else ret txn)) ?Q ?E" for key
    by (rule triple_know [OF gateways_quiet(1) [OF assms(1)] bills.tables_view,
          where R = "\<lambda>p. mapStatus (pi_Status p) = ''SUCCESS'' \<longrightarrow> reportedPaid P (ct_ExternalID txn)"];
        (intro triple_if paid failed triple_ret)?)
      (use assms(3) in \<open>auto simp: reportedPaid_def mapStatus_success\<close>)
  show ?thesis
    unfolding processCollect_def Let_def
    by (intro triple_skip [OF quiet_payment_reads(1) bills.tables_view] triple_option triple_throw read) auto
qed

text \<open>The card was charged as asked, and the bill table shows a transaction of the same bill, amount and rate.\<close>

definition paidBy :: "declib \<Rightarrow> payments \<Rightarrow> CollectInput \<Rightarrow> CollectTransaction \<Rightarrow> Bill table \<Rightarrow> world \<Rightarrow> bool" where
  "paidBy L P coi txn v w \<longleftrightarrow> charged P coi \<and> (\<exists>t. ct_BillID t = ct_BillID txn \<and> ct_Amount t = ct_Amount txn \<and>
     ct_ExchangeRate t = ct_ExchangeRate txn \<and> collectedOn L t v w)"

definition collectInput :: "declib \<Rightarrow> CollectTransaction \<Rightarrow> string \<Rightarrow> CollectInput" where
  "collectInput L txn token = \<lparr> coi_CardTokenID = token, coi_AmountCents = centsHalfDown L (ct_GrossAmount txn), coi_Currency = ct_Currency txn \<rparr>"

lemma runCollect_triple:
  assumes ok: "gateways_ok P" and txn: "ct_BillID txn \<noteq> ''''" "ct_Status txn = CTPending"
  shows "triple (\<lambda>w. view billsC w = v) (runCollect L P txn token)
    (\<lambda>t w. if ct_Status t = CTSuccess then paidBy L P (collectInput L txn token) txn v w else view billsC w = v)
    (\<lambda>w. view billsC w = v \<or> paidBy L P (collectInput L txn token) txn v w)"
    (is "triple ?V _ ?Q ?E")
proof -
  have after: "triple ?V (bnd (SaveCollectTransaction s) (\<lambda>t. if ct_Status t = CTPending then processCollect L P t else ret t)) ?Q ?E"
    if p: "reportedPaid P (pi_ID p) \<Longrightarrow> charged P (collectInput L txn token)" and s: "ct_ExternalID s = pi_ID p" "ct_BillID s = ct_BillID txn"
      "ct_Amount s = ct_Amount txn" "ct_ExchangeRate s = ct_ExchangeRate txn" "ct_Status s = CTPending \<or> ct_Status s = CTFailed" for s p
  proof (rule triple_seq [OF saveCollect_triple])
    fix t
    show "triple (\<lambda>w. savedAs s t \<and> view billsC w = v) (if ct_Status t = CTPending then processCollect L P t else ret t) ?Q ?E"
    proof (rule triple_fact)
      assume "savedAs s t"
      note t = savedAs_fields [OF this]
      show "triple ?V (if ct_Status t = CTPending then processCollect L P t else ret t) ?Q ?E"
        by (intro triple_if triple_conseq [OF processCollect_triple [OF ok]] triple_ret)
          (use t s txn p in \<open>auto simp: paidBy_def split: if_splits\<close>)
    qed
  qed auto
  have collect: "triple ?V (bnd (g_CollectPaymentIntent (pay_gatewayFor P key) (collectInput L txn token)) (\<lambda>pi.
       let txn = txn \<lparr> ct_ExternalID := pi_ID pi \<rparr>;
           txn = (if mapStatus (pi_Status pi) = ''FAILED'' then txn \<lparr> ct_Status := CTFailed,
             ct_ErrorMessage := gatewayErrorMessage (pi_ErrorMessage pi) (pi_ErrorCode pi) \<rparr> else txn) in
       bnd (SaveCollectTransaction txn) (\<lambda>txn. if ct_Status txn = CTPending then processCollect L P txn else ret txn))) ?Q ?E" for key
    unfolding Let_def
    by (rule triple_know [OF gateways_quiet(2) [OF ok] bills.tables_view,
          where R = "\<lambda>p. reportedPaid P (pi_ID p) \<longrightarrow> charged P (collectInput L txn token)"];
        (rule after)?)
      (use txn in \<open>auto simp: charged_def\<close>)
  show ?thesis
    unfolding runCollect_def Let_def [of "pay_gatewayFor P _"] collectInput_def [symmetric]
    by (intro triple_skip [OF quiet_payment_reads(1) bills.tables_view] triple_option triple_throw triple_if collect) auto
qed

section \<open>Collecting a bill\<close>

lemma fxTax_run:
  "fxTax L P profile x now w = (Inr (amount, gross, rate), w') \<Longrightarrow>
    rate = d_of_int L 1 \<and> amount = d_mul L rate x \<and> (\<exists>rates. gross = CalculateGrossAmount L amount rates)"
  by (auto simp: fxTax_def svc_simps GetExchangeRate_def Let_def split: if_splits)

lemma quiet_fxTax [quiet_intros]: "quiet (fxTax L P profile x now)"
  unfolding fxTax_def by (intro quiet_intros)

text \<open>
  The bill is stored as paid, the collected amount being what was unpaid; and the card was charged
  the gross of that amount, in cents and in the currency of the profile.
\<close>

definition cardPaid :: "declib \<Rightarrow> payments \<Rightarrow> BillingProfile \<Rightarrow> Bill \<Rightarrow> CreditCard \<Rightarrow> world \<Rightarrow> bool" where
  "cardPaid L P profile bill cc w \<longleftrightarrow>
     (\<exists>b. storeGet (view billsC w) (bill_ID bill) = Some b \<and> bill_Status b = BillPaid \<and> net_total b = net_total bill \<and>
        paid_total b = paid_total bill + val (GetUnpaidAmountBillProductCurrency L bill)) \<and>
     (\<exists>gross rates. gross = CalculateGrossAmount L (d_mul L (d_of_int L 1) (GetUnpaidAmountBillProductCurrency L bill)) rates \<and>
        charged P \<lparr> coi_CardTokenID = card_TokenID cc, coi_AmountCents = centsHalfDown L (Some gross), coi_Currency = bp_Currency profile \<rparr>)"

lemma paidBy_cardPaid:
  assumes L: "decimal_lib L" and row: "storeGet v (bill_ID bill) = Some bill" and pos: "0 \<le> val (GetUnpaidAmountBillProductCurrency L bill)"
    and txn: "ct_BillID txn = bill_ID bill" "ct_Currency txn = bp_Currency profile" "ct_GrossAmount txn = Some (CalculateGrossAmount L a rates)"
      "ct_Amount txn = Some a" "ct_ExchangeRate txn = Some (d_of_int L 1)" "a = d_mul L (d_of_int L 1) (GetUnpaidAmountBillProductCurrency L bill)"
    and paid: "paidBy L P (collectInput L txn (card_TokenID cc)) txn v w"
  shows "cardPaid L P profile bill cc w \<and> elsewhere (bill_ID bill) v w"
proof -
  from paid row txn obtain t base b where t: "ct_Amount t = Some a" "ct_ExchangeRate t = Some (d_of_int L 1)"
    and app: "ApplyPaidCollectOnBill L bill t base = Inr b" and v: "view billsC w = replaceRow (bill_ID bill) (\<lambda>_. b) v"
    and ch: "charged P (collectInput L txn (card_TokenID cc))"
    by (auto simp: paidBy_def collectedOn_def)
  note ar = decimal_lib.axioms(1) [OF L]
  have a: "val a = val (GetUnpaidAmountBillProductCurrency L bill)" "val (d_of_int L 1) = 1"
    using txn(6) by (simp_all add: decimal_arith.val_mul [OF ar] decimal_arith.val_of_int [OF ar])
  have out: "bill_Status b = BillPaid" "net_total b = net_total bill"
      "paid_total b = paid_total bill + val (GetUnpaidAmountBillProductCurrency L bill)"
    using full_collect_pays [OF L app t(2) a(2) t(1) a(1)] pos a(1) by simp_all
  have "storeGet (view billsC w) (bill_ID bill) = Some b"
    using row by (auto simp: v storeGet_def map_of_replaceRow split: if_splits)
  then have "\<exists>b. storeGet (view billsC w) (bill_ID bill) = Some b \<and> bill_Status b = BillPaid \<and> net_total b = net_total bill \<and>
        paid_total b = paid_total bill + val (GetUnpaidAmountBillProductCurrency L bill)"
    using out by blast
  moreover have "\<exists>gross rates. gross = CalculateGrossAmount L (d_mul L (d_of_int L 1) (GetUnpaidAmountBillProductCurrency L bill)) rates \<and>
        charged P \<lparr> coi_CardTokenID = card_TokenID cc, coi_AmountCents = centsHalfDown L (Some gross), coi_Currency = bp_Currency profile \<rparr>"
    using ch txn(2,3,6) unfolding collectInput_def by auto
  ultimately show ?thesis using elsewhere_replaced [OF v] by (simp add: cardPaid_def)
qed


text \<open>The shop with a stored card, a Stripe gateway and a client that reports every charge with one status.\<close>

definition ex_api :: "string \<Rightarrow> stripe_api" where
  "ex_api status = (let pay = \<lparr> int_ID = ''pi_1'', int_ClientSecret = ''sec'', int_Status = status, int_CancellationReason = '''',
       int_LastPaymentError = None \<rparr> in
     \<lparr> st_SearchCustomers = (\<lambda>_ _. ([''cus_1''], None)), st_NewCustomer = (\<lambda>_ _. Inr ''cus_2''), st_NewPaymentIntent = (\<lambda>_ _. Inr pay),
       st_GetPaymentIntent = (\<lambda>_ _. Inr pay), st_GetPaymentMethod = (\<lambda>_ _. Inr \<lparr> pm_ID = ''pm_1'', pm_Customer = Some ''cus_1'', pm_Card = None \<rparr>),
       st_ListPaymentMethods = (\<lambda>_ _. ([], None)), st_NewRefund = (\<lambda>_ _. Inr (status, '''')),
       st_NewSetupIntent = (\<lambda>_ _ _. Inr (''seti'', ''sec'', status)), st_GetSetupIntent = (\<lambda>_ _. Inr (''seti'', ''sec'', status)) \<rparr>)"

definition ex_payments :: "string \<Rightarrow> payments" where
  "ex_payments status = \<lparr> pay_hooks = ex_hooks, pay_pricing = True, pay_orderStatus = True, pay_billPayer = True, pay_decrypt = None,
     pay_gatewayFor = NewStripeGateway (\<lambda>_. ex_api status) \<rparr>"

lemma ex_gateways_ok: "gateways_ok (ex_payments status)"
  by (simp add: gateways_ok_def ex_payments_def NewStripeGateway_def stripe.payment_gateway_axioms)

definition ex_card :: CreditCard where
  "ex_card = \<lparr> card_ID = ''c1'', card_BillingProfileID = ''bp'', card_TokenID = ''pm_1'', card_TokenExpirationDate = None, card_PanMasked = '''',
     card_PaymentGatewayID = ''gw'', card_Metadata = [], card_CreatedAt = None, card_UpdatedAt = None \<rparr>"

definition ex_card_shop :: "int \<Rightarrow> world" where
  "ex_card_shop due = ex_shop due 0 \<lparr> w_gateways := [(''gw'', \<lparr> gw_ID = ''gw'', gw_Name = '''', gw_ThirdParty = ''Stripe'', gw_Config = [],
     gw_Secret = [(''privateKey'', JLeaf (AnyString ''sk''))] \<rparr>)], w_cards := [(''c1'', ex_card)] \<rparr>"

definition ex_sent_bill :: "int \<Rightarrow> Bill" where
  "ex_sent_bill due = ex_charged_bill due \<lparr> bill_ID := ''b1'', bill_Status := BillSent, bill_DueAt := Some 0 \<rparr>"


end
