(* ===== verification/Add_Funds.thy ===== *)
theory Add_Funds
  imports Card_Collect Savings "HOL-Library.AList"
begin

text \<open>
  \<open>payment/addfunds.go\<close> and \<open>payment/registercard.go\<close>: deposits, their confirmation by the gateway
  or by a bank transfer, refunds, and the registration of cards. A deposit is a pending transaction
  until the gateway (or the administrator, for a bank transfer) settles it; settling pays an
  order, activates a savings contract or mints a spendable credit, and marks the transaction.
  The reference number of a bank transfer is drawn at random: it is an argument.
\<close>

section \<open>Asking for a deposit\<close>

record AddFundsRequest =
  afr_BillID :: string
  afr_OrderID :: string
  afr_Amount :: "decimal option"
  afr_PaymentGatewayID :: string
  afr_SavingsContractID :: string

record AddFundsResponse =
  afs_TransactionID :: string
  afs_ExternalPaymentID :: string
  afs_ThirdParty :: string
  afs_Metadata :: json
  afs_NetAmount :: string
  afs_GrossAmount :: string
  afs_InvoiceCurrency :: string

definition f64_positive :: "64 word \<Rightarrow> bool" where
  "f64_positive v \<longleftrightarrow> \<not> f64_neg v \<and> 0 < f64_bits v \<and> \<not> f64_nan v"

definition belowMinimum :: "declib \<Rightarrow> Gateway \<Rightarrow> AddFundsRequest \<Rightarrow> decimal \<Rightarrow> bool" where
  "belowMinimum L gw req amount \<longleftrightarrow> afr_BillID req = '''' \<and> f64_positive (MinDeposit gw) \<and>
     d_cmp L amount (d_of_float64 L (MinDeposit gw)) < 0"

definition withContract :: "string \<Rightarrow> AccountCreditTransaction \<Rightarrow> AccountCreditTransaction" where
  "withContract contractID txn = (if contractID = '''' then txn
     else txn \<lparr> act_Metadata := AList.update ''savingsContractId'' (AnyString contractID) (act_Metadata txn) \<rparr>)"

definition customerInput :: "BillingProfile \<Rightarrow> CustomerInput" where
  "customerInput p = \<lparr> ci_BillingProfileID = bp_ID p, ci_Email = bp_Email p, ci_Name = profileFullName p, ci_Country = bp_Country p,
     ci_City = '''', ci_Line1 = '''' \<rparr>"

definition depositTxn :: "BillingProfile \<Rightarrow> AddFundsRequest \<Rightarrow> decimal \<Rightarrow> decimal \<Rightarrow> decimal \<Rightarrow> AccountCreditTransaction" where
  "depositTxn profile req amount gross rate = \<lparr> act_ID = '''', act_Currency = bp_Currency profile, act_OrderID = afr_OrderID req,
     act_ExternalID = '''', act_BillID = afr_BillID req, act_Amount = Some amount, act_GrossAmount = Some gross,
     act_InvoiceGatewayID = afr_PaymentGatewayID req, act_PaymentGatewayID = afr_PaymentGatewayID req,
     act_BillingProfileID = bp_ID profile, act_ExternalInvoiceID = '''', act_ExchangeRate = Some rate, act_Status = ''PENDING'',
     act_GatewayMessage = '''', act_InvoiceDetails = [], act_Metadata = [], act_AccountCredit = [], act_CreatedAt = None, act_UpdatedAt = None \<rparr>"

definition depositResponse :: "declib \<Rightarrow> BillingProfile \<Rightarrow> Gateway \<Rightarrow> AccountCreditTransaction \<Rightarrow> json \<Rightarrow> decimal \<Rightarrow> decimal \<Rightarrow> AddFundsResponse" where
  "depositResponse L profile gw txn metadata amount gross = \<lparr> afs_TransactionID = act_ID txn, afs_ExternalPaymentID = act_ExternalID txn,
     afs_ThirdParty = gw_ThirdParty gw, afs_Metadata = metadata, afs_NetAmount = d_string L amount, afs_GrossAmount = d_string L gross,
     afs_InvoiceCurrency = bp_Currency profile \<rparr>"

text \<open>The manual gateway: a pending bank transfer under the transaction.\<close>

definition addByTransfer :: "declib \<Rightarrow> BillingProfile \<Rightarrow> AddFundsRequest \<Rightarrow> Gateway \<Rightarrow> AccountCreditTransaction \<Rightarrow> decimal \<Rightarrow> decimal \<Rightarrow>
    int \<Rightarrow> time \<Rightarrow> AddFundsResponse svc" where
  "addByTransfer L profile req gw txn amount gross ref now =
     bnd (CreateBankTransfer \<lparr> bt_ID = '''', bt_Status = ''PENDING'', bt_PaymentGatewayID = gw_ID gw, bt_ReferenceNumber = ref,
       bt_AccountCreditTransactionID = act_ID txn, bt_BillingProfileID = bp_ID profile, bt_FullName = profileFullName profile,
       bt_GrossAmount = gross, bt_Currency = bp_Currency profile, bt_Comments = '''', bt_CreatedAt = Some now \<rparr>) (\<lambda>btID.
     bnd (SaveAccountCreditTransaction (withContract (afr_SavingsContractID req) (txn \<lparr> act_ExternalID := btID \<rparr>))) (\<lambda>txn.
     ret (depositResponse L profile gw txn (JObject [(''referenceNumber'', JLeaf (AnyInt ref))]) amount gross)))"

definition addByStripe :: "declib \<Rightarrow> payments \<Rightarrow> BillingProfile \<Rightarrow> AddFundsRequest \<Rightarrow> Gateway \<Rightarrow> AccountCreditTransaction \<Rightarrow>
    decimal \<Rightarrow> decimal \<Rightarrow> AddFundsResponse svc" where
  "addByStripe L P profile req gw txn amount gross =
     (let g = pay_gatewayFor P (SecretString gw ''privateKey'') in
      bnd (g_GetOrCreateCustomer g (customerInput profile)) (\<lambda>custID.
      bnd (g_CreatePaymentIntent g \<lparr> pii_CustomerID = custID, pii_AmountCents = d_int_part L (d_mul L gross (d_of_int L 100)),
        pii_Currency = bp_Currency profile, pii_Description = ''Add funds to account'', pii_OffSession = True \<rparr>) (\<lambda>p.
      bnd (SaveAccountCreditTransaction (withContract (afr_SavingsContractID req) (txn \<lparr> act_ExternalID := pi_ID p,
        act_Metadata := AList.update ''saveCardForFutureUse'' (AnyBool True) (act_Metadata txn) \<rparr>))) (\<lambda>txn.
      ret (depositResponse L profile gw txn (JLeaf (AnyString (pi_ClientSecret p))) amount gross)))))"

definition AddFunds :: "declib \<Rightarrow> payments \<Rightarrow> BillingProfile \<Rightarrow> AddFundsRequest \<Rightarrow> int \<Rightarrow> AddFundsResponse svc" where
  "AddFunds L P profile req ref =
     (if \<not> allVerified (bp_Verifications profile) then throw (HTTPError 400 ''Your account is not verified.'')
      else if afr_PaymentGatewayID req = '''' then throw (HTTPError 400 ''Payment gateway id is required.'')
      else case afr_Amount req of None \<Rightarrow> throw (HTTPError 400 ''Amount is required.'')
      | Some requested \<Rightarrow> bnd (GetGateway P (afr_PaymentGatewayID req)) (\<lambda>found. case found of
          None \<Rightarrow> throw (HTTPError 404 ''Payment gateway not found'')
        | Some gw \<Rightarrow> if belowMinimum L gw req requested then throw (HTTPError 400 ''The amount is less than the minimum deposit.'')
          else bnd timeNow (\<lambda>now. bnd baseCurrencyOrEmpty (\<lambda>baseCcy.
            bnd (liftR (GetExchangeRate L None baseCcy (bp_Currency profile) now)) (\<lambda>rate.
            let amount = d_round L (d_mul L rate requested) 2 in
            bnd (settlementRates (pay_pricing P) profile now) (\<lambda>rates.
            let gross = CalculateGrossAmount L amount rates in
            bnd (SaveAccountCreditTransaction (depositTxn profile req amount gross rate)) (\<lambda>txn.
            if gw_ThirdParty gw = ''BankTransfer'' then addByTransfer L profile req gw txn amount gross ref now
            else if gw_ThirdParty gw \<noteq> ''Stripe'' then throw (HTTPError 400 (''Unsupported payment gateway: '' @ gw_ThirdParty gw))
            else addByStripe L P profile req gw txn amount gross)))))))"

section \<open>Settling a deposit\<close>

definition paymentNotify :: "payments \<Rightarrow> string \<Rightarrow> string \<Rightarrow> unit svc" where
  "paymentNotify P key to = (if \<not> h_notifier (pay_hooks P) \<or> to = '''' then ret () else emit (Mail key to))"

definition activateSavingsContract :: "payments \<Rightarrow> BillingProfile \<Rightarrow> string \<Rightarrow> unit svc" where
  "activateSavingsContract P profile contractID =
     bnd (SavingsContractByID contractID) (\<lambda>found. case found of None \<Rightarrow> throw (HTTPError 404 ''Savings contract not found'')
     | Some c \<Rightarrow> bnd (SaveSavingsContract (c \<lparr> con_Status := SavingsStatusActive \<rparr>)) (\<lambda>_.
         paymentNotify P ''savings_contract_activated'' (bp_Email profile)))"

definition createAccountCredit :: "declib \<Rightarrow> AccountCreditTransaction \<Rightarrow> AccountCreditTransaction svc" where
  "createAccountCredit L txn = (case act_Amount txn of None \<Rightarrow> throw (Panic ''nil amount'')
     | Some amount \<Rightarrow> bnd (newAccountCredit L (act_BillingProfileID txn) (act_Currency txn) amount) (\<lambda>ac.
         bnd (CreateAccountCredit ac) (\<lambda>ac.
         ret (txn \<lparr> act_AccountCredit := [(''id'', AnyString (ac_ID ac)), (''billingProfileId'', AnyString (ac_BillingProfileID ac)),
           (''amount'', AnyString (case ac_Amount ac of None \<Rightarrow> '''' | Some a \<Rightarrow> d_string L a)), (''currency'', AnyString (ac_Currency ac))] \<rparr>))))"

definition astr :: "attrs \<Rightarrow> string \<Rightarrow> string" where
  "astr m k = (case map_of m k of Some (AnyString s) \<Rightarrow> s | _ \<Rightarrow> '''')"

text \<open>What a successful deposit pays for: an order, a savings contract, or a spendable credit.\<close>

definition settleBranch :: "declib \<Rightarrow> payments \<Rightarrow> BillingProfile \<Rightarrow> AccountCreditTransaction \<Rightarrow> AccountCreditTransaction svc" where
  "settleBranch L P profile txn = (let contractID = astr (act_Metadata txn) ''savingsContractId'' in
     if act_OrderID txn \<noteq> '''' then
       bnd (if pay_orderStatus P then bindOrderPaid L (act_OrderID txn) (act_BillingProfileID txn) (grossOrZero L (act_GrossAmount txn)) ''PAID'' else ret ())
         (\<lambda>_. ret txn)
     else if contractID \<noteq> '''' then bnd (activateSavingsContract P profile contractID) (\<lambda>_. ret txn)
     else createAccountCredit L txn)"

definition afterDeposit :: "declib \<Rightarrow> payments \<Rightarrow> BillingProfile \<Rightarrow> AccountCreditTransaction \<Rightarrow> unit svc" where
  "afterDeposit L P profile txn =
     bnd (if h_reviewer (pay_hooks P) then bnd (attempt (ReviewBillingProfile L (pay_hooks P) profile)) (\<lambda>_. ret ()) else ret ()) (\<lambda>_.
     if act_BillID txn \<noteq> '''' \<and> pay_billPayer P then bnd timeNow (\<lambda>now.
       bnd (attempt (PayBillWithCredits L (pay_hooks P) (pay_pricing P) profile (act_BillID txn) now)) (\<lambda>_. ret ()))
     else ret ())"

definition settleSuccess :: "declib \<Rightarrow> payments \<Rightarrow> AccountCreditTransaction \<Rightarrow> AccountCreditTransaction svc" where
  "settleSuccess L P txn =
     (if act_Status txn = ''SUCCESS'' then ret txn
      else if act_Status txn \<noteq> ''PENDING'' then throw (HTTPError 400 (''Transaction '' @ act_ID txn @ '' already processed''))
      else bnd (FindByID (act_BillingProfileID txn)) (\<lambda>profile.
        bnd (case profile of None \<Rightarrow> ret txn
          | Some p \<Rightarrow> bnd (settleBranch L P p txn) (\<lambda>txn.
              bnd (paymentNotify P ''send_thank_you_to_customer'' (bp_Email p)) (\<lambda>_. ret txn))) (\<lambda>txn.
        bnd (SaveAccountCreditTransaction (txn \<lparr> act_Status := ''SUCCESS'' \<rparr>)) (\<lambda>saved.
        bnd (case profile of None \<Rightarrow> ret () | Some p \<Rightarrow> afterDeposit L P p txn) (\<lambda>_. ret saved)))))"

definition ProcessBankTransfer :: "declib \<Rightarrow> payments \<Rightarrow> string \<Rightarrow> string \<Rightarrow> string \<Rightarrow> AccountCreditTransaction svc" where
  "ProcessBankTransfer L P txnID bankStatus comments =
     bnd (AccountCreditTransactionByID txnID) (\<lambda>found. case found of None \<Rightarrow> throw (HTTPError 404 ''Transaction not found'')
     | Some txn \<Rightarrow> if bankStatus = ''APPROVED'' then settleSuccess L P txn
         else if bankStatus = ''REJECTED'' then
           SaveAccountCreditTransaction (txn \<lparr> act_Status := ''FAILED'', act_GatewayMessage := comments \<rparr>)
         else ret txn)"

definition processIntent :: "declib \<Rightarrow> payments \<Rightarrow> AccountCreditTransaction \<Rightarrow> PaymentIntentResult \<Rightarrow> AccountCreditTransaction svc" where
  "processIntent L P txn p = (let s = mapStatus (pi_Status p) in
     if s = ''SUCCESS'' then settleSuccess L P txn
     else if s = ''FAILED'' then SaveAccountCreditTransaction (txn \<lparr> act_Status := ''FAILED'',
       act_GatewayMessage := gatewayErrorMessage (pi_ErrorMessage p) (pi_ErrorCode p) \<rparr>)
     else if s = ''CANCELLED'' then SaveAccountCreditTransaction (txn \<lparr> act_Status := ''CANCELLED'', act_GatewayMessage := pi_CancellationReason p \<rparr>)
     else ret txn)"

definition ProcessAddFunds :: "declib \<Rightarrow> payments \<Rightarrow> string \<Rightarrow> AccountCreditTransaction svc" where
  "ProcessAddFunds L P txnID =
     bnd (AccountCreditTransactionByID txnID) (\<lambda>found. case found of None \<Rightarrow> throw (HTTPError 404 ''Transaction not found'')
     | Some txn \<Rightarrow> bnd (GetGateway P (act_PaymentGatewayID txn)) (\<lambda>found. case found of None \<Rightarrow> throw (HTTPError 404 ''Payment gateway not found'')
       | Some gw \<Rightarrow> if gw_ThirdParty gw = ''BankTransfer'' then
           bnd (BankTransferByTxnID (act_ID txn)) (\<lambda>found. case found of
             None \<Rightarrow> throw (HTTPError 404 (''Bank transfer with account credit transaction id '' @ act_ID txn @ '' not found''))
           | Some bt \<Rightarrow> ProcessBankTransfer L P txnID (bt_Status bt) (bt_Comments bt))
         else bnd (g_RetrievePaymentIntent (pay_gatewayFor P (SecretString gw ''privateKey'')) (act_ExternalID txn)) (processIntent L P txn)))"

section \<open>Refunds\<close>

definition RefundFunds :: "payments \<Rightarrow> string \<Rightarrow> AccountCreditTransaction svc" where
  "RefundFunds P txnID =
     bnd (AccountCreditTransactionByID txnID) (\<lambda>found. case found of None \<Rightarrow> throw (HTTPError 404 (''Transaction '' @ txnID @ '' not found ''))
     | Some txn \<Rightarrow> bnd (GetGateway P (act_PaymentGatewayID txn)) (\<lambda>found. case found of None \<Rightarrow> throw (HTTPError 404 ''Payment gateway not found'')
       | Some gw \<Rightarrow> if gw_ThirdParty gw \<noteq> ''Stripe'' then throw (HTTPError 400 ''Cannot refund the transaction.'')
         else bnd (g_Refund (pay_gatewayFor P (SecretString gw ''privateKey'')) (act_ExternalID txn)) (\<lambda>rf.
           if mapStatus (rf_Status rf) \<noteq> ''SUCCESS'' then ret txn
           else let i = astr (act_AccountCredit txn) ''id'' in
           bnd (if i = '''' then ret () else bnd (AccountCreditByID i) (\<lambda>ac. case ac of None \<Rightarrow> ret ()
             | Some ac \<Rightarrow> DeleteAccountCredit (ac_ID ac))) (\<lambda>_.
           bnd (SaveAccountCreditTransaction (txn \<lparr> act_Status := ''REFUNDED'' \<rparr>)) (\<lambda>saved.
           bnd (profileOrNone (act_BillingProfileID txn)) (\<lambda>p. case p of None \<Rightarrow> ret saved
           | Some profile \<Rightarrow> bnd (paymentNotify P ''send_refunded_invoice'' (bp_Email profile)) (\<lambda>_. ret saved)))))))"

section \<open>Registering a card\<close>

record RegisterCardResponse =
  rcr_TransactionID :: string
  rcr_ExternalPaymentID :: string
  rcr_ThirdParty :: string
  rcr_Metadata :: "(string \<times> string) list"

definition RegisterCard :: "declib \<Rightarrow> payments \<Rightarrow> BillingProfile \<Rightarrow> string \<Rightarrow> RegisterCardResponse svc" where
  "RegisterCard L P profile paymentGatewayID =
     (if \<not> allVerified (bp_Verifications profile) then throw (HTTPError 400 ''Your account is not verified.'')
      else if paymentGatewayID = '''' then throw (HTTPError 400 ''Payment gateway id is required.'')
      else bnd (GetGateway P paymentGatewayID) (\<lambda>found. case found of None \<Rightarrow> throw (HTTPError 404 ''Payment gateway not found'')
      | Some gw \<Rightarrow>
        bnd (SaveCreditCardTransaction \<lparr> cct_ID = '''', cct_BillingProfileID = bp_ID profile, cct_Status = ''PENDING'', cct_ExternalID = '''',
          cct_PaymentGatewayID = gw_ID gw, cct_InvoiceGatewayID = gw_ID gw, cct_Currency = bp_Currency profile, cct_Amount = Some (d_zero L),
          cct_ExchangeRate = Some (d_of_int L 1), cct_ErrorMessage = '''', cct_CreatedAt = None, cct_UpdatedAt = None \<rparr>) (\<lambda>txn.
        if gw_ThirdParty gw \<noteq> ''Stripe'' then throw (HTTPError 400 (''Unsupported payment gateway: '' @ gw_ThirdParty gw))
        else let g = pay_gatewayFor P (SecretString gw ''privateKey'') in
        bnd (g_GetOrCreateCustomer g (customerInput profile)) (\<lambda>cust.
        bnd (g_CreateSetupIntent g \<lparr> sei_CustomerID = cust, sei_Description = ''Register card'' \<rparr>) (\<lambda>si.
        bnd (SaveCreditCardTransaction (txn \<lparr> cct_ExternalID := sir_ID si \<rparr>)) (\<lambda>txn.
        ret \<lparr> rcr_TransactionID = cct_ID txn, rcr_ExternalPaymentID = sir_ID si, rcr_ThirdParty = gw_ThirdParty gw,
          rcr_Metadata = [(''client_secret'', sir_ClientSecret si)] \<rparr>))))))"

definition storeCard :: "gateway \<Rightarrow> BillingProfile \<Rightarrow> CreditCardTransaction \<Rightarrow> unit svc" where
  "storeCard g profile txn =
     bnd (g_GetOrCreateCustomer g (customerInput profile)) (\<lambda>cust.
     bnd (g_LatestCardForCustomer g cust) (\<lambda>d.
     bnd (CreateCreditCard \<lparr> card_ID = '''', card_BillingProfileID = cct_BillingProfileID txn, card_TokenID = cd_TokenID d,
       card_TokenExpirationDate = Some (mkDate (cd_ExpYear d) (cd_ExpMonth d) 1 0), card_PanMasked = cd_PanMasked d,
       card_PaymentGatewayID = cct_PaymentGatewayID txn, card_Metadata = [], card_CreatedAt = None, card_UpdatedAt = None \<rparr>) (\<lambda>_. ret ())))"

definition ProcessRegisterCard :: "payments \<Rightarrow> string \<Rightarrow> CreditCardTransaction svc" where
  "ProcessRegisterCard P txnID =
     bnd (CreditCardTransactionByID txnID) (\<lambda>found. case found of None \<Rightarrow> throw (HTTPError 404 ''Transaction not found'')
     | Some txn \<Rightarrow> bnd (GetGateway P (cct_PaymentGatewayID txn)) (\<lambda>found. case found of None \<Rightarrow> throw (HTTPError 404 ''Payment gateway not found'')
       | Some gw \<Rightarrow> let g = pay_gatewayFor P (SecretString gw ''privateKey'') in
         bnd (g_RetrieveSetupIntent g (cct_ExternalID txn)) (\<lambda>si.
         if mapStatus (sir_Status si) = ''SUCCESS'' then
           (if cct_Status txn = ''SUCCESS'' then ret txn
            else bnd (FindByID (cct_BillingProfileID txn)) (\<lambda>profile.
              bnd (case profile of None \<Rightarrow> ret () | Some p \<Rightarrow> storeCard g p txn) (\<lambda>_.
              SaveCreditCardTransaction (txn \<lparr> cct_Status := ''SUCCESS'' \<rparr>))))
         else if mapStatus (sir_Status si) = ''FAILED'' then SaveCreditCardTransaction (txn \<lparr> cct_Status := ''FAILED'' \<rparr>)
         else ret txn)))"

section \<open>What settling a deposit touches\<close>

definition keysOf :: "'d coll \<Rightarrow> world \<Rightarrow> string list" where
  "keysOf c w = map fst (view c w)"

lemma keysOf_kept: "leaves c m \<Longrightarrow> keeps (keysOf c) m"
  unfolding keysOf_def [abs_def] by (rule keeps_comp)

lemma keysOf_replaceRow: "map fst (replaceRow i f t) = map fst t"
  by (induction t) auto

lemma keeps_keys_replace: "keeps (keysOf acctCreditsC) (dbReplace acctCreditsC i d)"
  unfolding keeps_def
proof (intro allI impI)
  fix w r w'
  assume run: "dbReplace acctCreditsC i d w = (r, w')"
  show "keysOf acctCreditsC w' = keysOf acctCreditsC w"
  proof (cases r)
    case (Inl e)
    then have "stored w' = stored w" using failed_writes(1) [of acctCreditsC i d w e w'] run by simp
    from acctCredits.view_stored [OF this] show ?thesis by (simp add: keysOf_def)
  next
    case (Inr b)
    then show ?thesis using acctCredits.replace_run(1) run by (simp add: keysOf_def keysOf_replaceRow)
  qed
qed

lemma keeps_keys_consumed: "keeps (keysOf acctCreditsC) (saveConsumed s)"
  unfolding saveConsumed_def SavePromotionalCredit_def SaveAccountCredit_def replaceByID_def
  by (intro leaves_intros keeps_keys_replace keysOf_kept acctCredits.leaves_writes apart_payment_tables)

lemma keeps_bill_saves: "apart c billsC \<Longrightarrow> collection c \<Longrightarrow> leaves c (SaveBillDoc b)"
  unfolding SaveBillDoc_def replaceByID_def by (intro leaves_intros collection.leaves_writes)

text \<open>Paying a bill keeps the ids of the credits, and the deposit transactions.\<close>

lemma keeps_bill_status [leaves_intros]:
  "keeps f a \<Longrightarrow> keeps f b \<Longrightarrow> keeps f c \<Longrightarrow> keeps f (case s of BillOpen \<Rightarrow> a | BillSent \<Rightarrow> b | BillPaid \<Rightarrow> c)"
  by (cases s) auto

lemma keeps_payment:
  assumes reads: "\<And>m :: Bill option svc. quiet m \<Longrightarrow> keeps f m" "\<And>m :: settle_result svc. quiet m \<Longrightarrow> keeps f m" "\<And>m :: unit svc. quiet m \<Longrightarrow> keeps f m"
    and saves: "\<And>s. keeps f (saveConsumed s)" "\<And>b. keeps f (SaveBillDoc b)" "\<And>H p. keeps f (ReviewBillingProfile L H p)"
  shows "keeps f (PayBillWithCredits L H pr profile i now)"
  unfolding PayBillWithCredits_def finishPayment_def
  by (intro leaves_intros saves reads quiet_repo_reads quiet_settleWithBalance quiet_notify)

lemma keeps_keys_payment: "keeps (keysOf acctCreditsC) (PayBillWithCredits L H pr profile i now)"
  by (intro keeps_payment keeps_keys_consumed keysOf_kept acctCredits.leaves_quiet keeps_bill_saves acctCredits.collection_axioms
      acctCredits.leaves_reviews apart_payment_tables)

lemma keeps_deposits_payment: "leaves creditsC (PayBillWithCredits L H pr profile i now)"
proof (intro keeps_payment)
  show "leaves creditsC (saveConsumed s)" for s
    unfolding saveConsumed_def SavePromotionalCredit_def SaveAccountCredit_def replaceByID_def
    by (intro leaves_intros credits.leaves_writes apart_payment_tables)
qed (intro credits.leaves_quiet keeps_bill_saves credits.collection_axioms credits.leaves_reviews apart_payment_tables; assumption)+

section \<open>A deposit is settled once\<close>

text \<open>The one credit a deposit mints: a fresh id; with no bill to pay next, exactly the amount of the transaction.\<close>

definition minted :: "AccountCreditTransaction \<Rightarrow> AccountCredit table \<Rightarrow> AccountCredit table \<Rightarrow> bool" where
  "minted txn a b \<longleftrightarrow> (\<exists>i c. i \<notin> fst ` set a \<and> map fst b = map fst a @ [i] \<and>
     (act_BillID txn = '''' \<longrightarrow> b = a @ [(i, c)] \<and> ac_BillingProfileID c = act_BillingProfileID txn \<and> ac_Amount c = act_Amount txn))"

definition mintedAtMostOne :: "AccountCreditTransaction \<Rightarrow> AccountCredit table \<Rightarrow> AccountCredit table \<Rightarrow> bool" where
  "mintedAtMostOne txn a b \<longleftrightarrow> map fst b = map fst a \<or> minted txn a b"

lemma newAccountCredit_run:
  "newAccountCredit L b c a w = (Inr ac, w') \<Longrightarrow> ac_ID ac = '''' \<and> ac_BillingProfileID ac = b \<and> ac_Amount ac = Some a"
  by (auto simp: newAccountCredit_def svc_simps GetExchangeRate_def ExchangeToProductCurrency_def split: if_splits)

lemma createAccountCredit_triple:
  "triple (\<lambda>w. view acctCreditsC w = a \<and> view creditsC w = v) (createAccountCredit L txn)
    (\<lambda>t w. (\<exists>x. t = txn \<lparr> act_AccountCredit := x \<rparr>) \<and> minted txn a (view acctCreditsC w) \<and> view creditsC w = v)
    (\<lambda>w. view acctCreditsC w = a \<and> view creditsC w = v)" (is "triple ?P _ ?Q _")
proof -
  have t: "tables ?P" by (intro tables_conj acctCredits.tables_view credits.tables_view)
  have ins: "triple ?P (bnd (CreateAccountCredit ac) (\<lambda>ac. ret (txn \<lparr> act_AccountCredit := f ac \<rparr>))) ?Q ?P"
    if ac: "ac_BillingProfileID ac = act_BillingProfileID txn" "ac_Amount ac = act_Amount txn" for ac f
  proof -
    have keep: "leaves creditsC (dbInsertOne acctCreditsC ac)" by (intro credits.leaves_writes apart_payment_tables)
    have "triple ?P (dbInsertOne acctCreditsC ac) (\<lambda>i w. minted txn a (view acctCreditsC w) \<and> view creditsC w = v) ?P"
    proof (rule tripleI)
      fix w r w'
      assume P: "?P w" and run: "dbInsertOne acctCreditsC ac w = (r, w')"
      have c: "view creditsC w' = v" using leavesD [OF keep run] P by simp
      show "case r of Inl e \<Rightarrow> ?P w' | Inr i \<Rightarrow> minted txn a (view acctCreditsC w') \<and> view creditsC w' = v"
      proof (cases r)
        case (Inl e)
        then show ?thesis using dbInsertOne_Inl [of acctCreditsC ac w e w'] run P c acctCredits.view_stored [of w' w] by simp
      next
        case (Inr i)
        note new = acctCredits.insert_run(1,2) [OF run [unfolded Inr]]
        have "minted txn a (view acctCreditsC w')" unfolding minted_def
          by (rule exI [of _ i], rule exI [of _ "c_setID acctCreditsC i ac"]) (use new P ac in \<open>simp add: acctCreditsC_def\<close>)
        then show ?thesis using Inr c by simp
      qed
    qed
    then show ?thesis
      unfolding CreateAccountCredit_def
      by (intro triple_bnd [OF triple_bnd [of _ _ "\<lambda>i w. minted txn a (view acctCreditsC w) \<and> view creditsC w = v"]] triple_ret) auto
  qed
  show ?thesis
    unfolding createAccountCredit_def
    by (intro triple_option triple_throw triple_know [OF quiet_payment_reads(11) t,
          where R = "\<lambda>ac. ac_BillingProfileID ac = act_BillingProfileID txn \<and> ac_Amount ac = act_Amount txn"] ins)
      (auto dest: newAccountCredit_run)
qed

lemma leaves_both:
  assumes "leaves acctCreditsC m" "leaves creditsC m"
  shows "triple (\<lambda>w. view acctCreditsC w = a \<and> view creditsC w = v) m (\<lambda>_ w. view acctCreditsC w = a \<and> view creditsC w = v)
    (\<lambda>w. view acctCreditsC w = a \<and> view creditsC w = v)"
  by (rule tripleI) (use leavesD [OF assms(1)] leavesD [OF assms(2)] in \<open>auto split: sum.splits\<close>)

lemma quiet_paymentNotify [quiet_intros]: "quiet (paymentNotify P key to)"
  unfolding paymentNotify_def by (intro quiet_intros)

lemma leaves_activation:
  assumes "collection c" "apart c savingCtrsC" shows "leaves c (activateSavingsContract P profile i)"
  unfolding activateSavingsContract_def
  by (intro leaves_intros collection.leaves_contract [OF assms] collection.leaves_quiet [OF assms(1)] quiet_repo_reads quiet_paymentNotify)

lemma settleBranch_triple:
  "triple (\<lambda>w. view acctCreditsC w = a \<and> view creditsC w = v) (settleBranch L P profile txn)
    (\<lambda>t w. (\<exists>x. t = txn \<lparr> act_AccountCredit := x \<rparr>) \<and> mintedAtMostOne txn a (view acctCreditsC w) \<and> view creditsC w = v)
    (\<lambda>w. view acctCreditsC w = a \<and> view creditsC w = v)" (is "triple ?P _ ?Q _")
proof -
  have same: "\<exists>x. txn = txn \<lparr> act_AccountCredit := x \<rparr>" by (rule exI [of _ "act_AccountCredit txn"]) simp
  have other: "triple ?P (bnd m (\<lambda>_. ret txn)) ?Q ?P" if "leaves acctCreditsC m" "leaves creditsC m" for m :: "unit svc"
    by (intro triple_bnd [OF leaves_both [OF that]] triple_ret) (use same in \<open>auto simp: mintedAtMostOne_def\<close>)
  have mint: "triple ?P (createAccountCredit L txn) ?Q ?P"
    by (rule triple_conseq [OF createAccountCredit_triple]) (auto simp: mintedAtMostOne_def)
  show ?thesis
    unfolding settleBranch_def Let_def
    by (intro triple_if other mint leaves_intros acctCredits.leaves_order credits.leaves_order leaves_activation
        acctCredits.collection_axioms credits.collection_axioms apart_payment_tables)
qed

lemma saveDeposit_triple:
  assumes "act_ID t \<noteq> ''''"
  shows "triple (\<lambda>w. Q (view acctCreditsC w) \<and> view creditsC w = v) (SaveAccountCreditTransaction t)
    (\<lambda>t' w. Q (view acctCreditsC w) \<and> act_Status t' = act_Status t \<and> act_ID t' = act_ID t \<and>
      view creditsC w = replaceRow (act_ID t) (\<lambda>_. t') v)
    (\<lambda>w. Q (view acctCreditsC w))"
proof (rule tripleI)
  fix w r w'
  assume P: "Q (view acctCreditsC w) \<and> view creditsC w = v" and run: "SaveAccountCreditTransaction t w = (r, w')"
  have q: "Q (view acctCreditsC w')" using leavesD [OF acctCredits.leaves_deposit_txn run] P by simp
  show "case r of Inl e \<Rightarrow> Q (view acctCreditsC w') | Inr t' \<Rightarrow> Q (view acctCreditsC w') \<and> act_Status t' = act_Status t \<and> act_ID t' = act_ID t \<and>
      view creditsC w' = replaceRow (act_ID t) (\<lambda>_. t') v"
  proof (cases r)
    case (Inr t')
    then obtain now w1 b where now: "timeNow w = (Inr now, w1)"
      and t': "t' = t \<lparr> act_CreatedAt := orNow (act_CreatedAt t) now, act_UpdatedAt := Some now \<rparr>"
      and rep: "dbReplace creditsC (act_ID t) t' w1 = (Inr b, w')"
      using run assms by (auto simp: SaveAccountCreditTransaction_def svc_simps Let_def)
    have "view creditsC w1 = v" using credits.view_stored [OF quietD [OF quiet_timeNow now]] P by simp
    then have "view creditsC w' = replaceRow (act_ID t) (\<lambda>_. t') v" using credits.replace_run(1) [OF rep] t' by (simp add: creditsC_def)
    then show ?thesis using Inr q t' by simp
  qed (use q in simp)
qed

text \<open>After the save: a review, and the payment of the targeted bill from the new credit.\<close>

lemma afterDeposit_keeps:
  "leaves creditsC (afterDeposit L P profile txn)" "keeps (keysOf acctCreditsC) (afterDeposit L P profile txn)"
  "act_BillID txn = '''' \<Longrightarrow> leaves acctCreditsC (afterDeposit L P profile txn)"
  unfolding afterDeposit_def
  by (intro leaves_intros keeps_deposits_payment keeps_keys_payment keysOf_kept credits.leaves_reviews acctCredits.leaves_reviews
      credits.leaves_quiet acctCredits.leaves_quiet quiet_timeNow apart_payment_tables; simp add: leaves_simple)+

lemma afterDeposit_minted:
  assumes run: "afterDeposit L P profile txn w = (r, w')" and m: "mintedAtMostOne txn a (view acctCreditsC w)"
  shows "mintedAtMostOne txn a (view acctCreditsC w')"
proof (cases "act_BillID txn = ''''")
  case True
  then show ?thesis using leavesD [OF afterDeposit_keeps(3) run] m by simp
next
  case False
  then show ?thesis using leavesD [OF afterDeposit_keeps(2) run] m by (simp add: mintedAtMostOne_def minted_def keysOf_def)
qed

text \<open>
  The outcome of processing a transaction: the credits are as they were, or the transaction was
  pending and confirmed and at most one credit is new. A transaction returned as successful is the one stored.
\<close>

definition creditsAfter :: "bool \<Rightarrow> AccountCreditTransaction \<Rightarrow> AccountCredit table \<Rightarrow> AccountCredit table \<Rightarrow> bool" where
  "creditsAfter confirmed txn a b \<longleftrightarrow> b = a \<or> act_Status txn = ''PENDING'' \<and> confirmed \<and> mintedAtMostOne txn a b"

definition storedSuccess :: "AccountCreditTransaction \<Rightarrow> world \<Rightarrow> bool" where
  "storedSuccess t w \<longleftrightarrow> (act_Status t = ''SUCCESS'' \<longrightarrow> storeGet (view creditsC w) (act_ID t) = Some t)"

lemma replaced_row: "storeGet v i = Some x \<Longrightarrow> storeGet (replaceRow i (\<lambda>_. t) v) i = Some t"
  by (auto simp: storeGet_def map_of_replaceRow split: if_splits)

lemma settlePending_triple:
  assumes row: "storeGet v (act_ID txn) = Some txn" and pending: "act_Status txn = ''PENDING''"
  shows "triple (\<lambda>w. view acctCreditsC w = a \<and> view creditsC w = v) (settleSuccess L P txn)
    (\<lambda>t w. mintedAtMostOne txn a (view acctCreditsC w) \<and> view creditsC w = replaceRow (act_ID txn) (\<lambda>_. t) v \<and> act_ID t = act_ID txn)
    (\<lambda>w. mintedAtMostOne txn a (view acctCreditsC w))" (is "triple ?P _ ?Q ?E")
proof -
  let ?M = "\<lambda>w. mintedAtMostOne txn a (view acctCreditsC w)"
  let ?R = "\<lambda>t w. (\<exists>x. t = txn \<lparr> act_AccountCredit := x \<rparr>) \<and> ?M w \<and> view creditsC w = v"
  have id: "act_ID txn \<noteq> ''''" using row by (auto simp: storeGet_def)
  have t: "tables ?P" by (intro tables_conj acctCredits.tables_view credits.tables_view)
  have none: "?M w" if "?P w" for w using that by (simp add: mintedAtMostOne_def)
  have same: "\<exists>x. txn = txn \<lparr> act_AccountCredit := x \<rparr>" by (rule exI [of _ "act_AccountCredit txn"]) simp
  have tR: "tables (?R s)" for s
    unfolding tables_def using acctCredits.view_stored credits.view_stored by metis
  have branch: "triple ?P (bnd (settleBranch L P p txn) (\<lambda>txn. bnd (paymentNotify P k (bp_Email p)) (\<lambda>_. ret txn))) ?R ?E" for p k
    by (intro triple_seq [OF settleBranch_triple] triple_skip [OF quiet_paymentNotify tR] triple_ret) (use none in auto)
  have save: "triple (?R s) (SaveAccountCreditTransaction (s \<lparr> act_Status := ''SUCCESS'' \<rparr>))
      (\<lambda>t w. ?M w \<and> view creditsC w = replaceRow (act_ID txn) (\<lambda>_. t) v \<and> act_ID t = act_ID txn) ?M" for s
  proof (rule triple_fact)
    assume "\<exists>x. s = txn \<lparr> act_AccountCredit := x \<rparr>"
    then have s: "act_ID (s \<lparr> act_Status := ''SUCCESS'' \<rparr>) = act_ID txn" by auto
    show "triple (\<lambda>w. ?M w \<and> view creditsC w = v) (SaveAccountCreditTransaction (s \<lparr> act_Status := ''SUCCESS'' \<rparr>))
      (\<lambda>t w. ?M w \<and> view creditsC w = replaceRow (act_ID txn) (\<lambda>_. t) v \<and> act_ID t = act_ID txn) ?M"
      by (rule triple_conseq [OF saveDeposit_triple [of "s \<lparr> act_Status := ''SUCCESS'' \<rparr>" "mintedAtMostOne txn a" v]]) (use s id in auto)
  qed
  have after: "triple (?Q t) (bnd (case p of None \<Rightarrow> ret () | Some p \<Rightarrow> afterDeposit L P p s) (\<lambda>_. ret t)) ?Q ?E"
    if s: "\<exists>x. s = txn \<lparr> act_AccountCredit := x \<rparr>" for p s t
  proof (cases p)
    case None
    then show ?thesis by (auto simp: triple_def bnd_def ret_def)
  next
    case (Some q)
    have "mintedAtMostOne s = mintedAtMostOne txn" using s by (auto simp: mintedAtMostOne_def minted_def fun_eq_iff)
    then have "triple (?Q t) (afterDeposit L P q s) (\<lambda>_. ?Q t) ?E"
      by (intro tripleI) (use afterDeposit_minted leavesD [OF afterDeposit_keeps(1)] in \<open>fastforce split: sum.splits\<close>)
    then show ?thesis using Some by (auto intro: triple_bnd triple_ret)
  qed
  have rest: "triple (?R s) (bnd (SaveAccountCreditTransaction (s \<lparr> act_Status := ''SUCCESS'' \<rparr>)) (\<lambda>saved.
      bnd (case p of None \<Rightarrow> ret () | Some p \<Rightarrow> afterDeposit L P p s) (\<lambda>_. ret saved))) ?Q ?E" for p s
  proof (cases "\<exists>x. s = txn \<lparr> act_AccountCredit := x \<rparr>")
    case True
    then show ?thesis by (intro triple_bnd [OF save] after)
  next
    case False
    then show ?thesis by (simp add: triple_def)
  qed
  have absent: "triple ?P (ret txn) ?R ?E"
    by (rule triple_ret) (use same none in blast)
  have run: "settleSuccess L P txn = bnd (FindByID (act_BillingProfileID txn)) (\<lambda>profile.
        bnd (case profile of None \<Rightarrow> ret txn
          | Some p \<Rightarrow> bnd (settleBranch L P p txn) (\<lambda>txn.
              bnd (paymentNotify P ''send_thank_you_to_customer'' (bp_Email p)) (\<lambda>_. ret txn))) (\<lambda>txn.
        bnd (SaveAccountCreditTransaction (txn \<lparr> act_Status := ''SUCCESS'' \<rparr>)) (\<lambda>saved.
        bnd (case profile of None \<Rightarrow> ret () | Some p \<Rightarrow> afterDeposit L P p txn) (\<lambda>_. ret saved))))"
    unfolding settleSuccess_def by (simp only: pending) simp
  show ?thesis
    unfolding run
    by (intro triple_skip [OF quiet_repo_reads(1) t none] triple_bnd [of _ _ ?R] rest triple_option branch absent)
qed

definition depositOutcome :: "bool \<Rightarrow> AccountCreditTransaction \<Rightarrow> AccountCredit table \<Rightarrow> AccountCreditTransaction \<Rightarrow> world \<Rightarrow> bool" where
  "depositOutcome confirmed txn a t w \<longleftrightarrow> creditsAfter confirmed txn a (view acctCreditsC w) \<and> act_ID t = act_ID txn \<and> storedSuccess t w"

lemma settleSuccess_triple:
  assumes row: "storeGet v (act_ID txn) = Some txn" and c
  shows "triple (\<lambda>w. view acctCreditsC w = a \<and> view creditsC w = v) (settleSuccess L P txn) (depositOutcome c txn a)
    (\<lambda>w. creditsAfter c txn a (view acctCreditsC w))"
proof (cases "act_Status txn = ''PENDING''")
  case True
  show ?thesis
    by (rule triple_conseq [OF settlePending_triple [OF row True]])
      (use True row assms(2) replaced_row [OF row] in \<open>auto simp: depositOutcome_def creditsAfter_def storedSuccess_def\<close>)
next
  case False
  then show ?thesis
    unfolding settleSuccess_def
    by (simp, intro impI conjI triple_ret triple_throw) (use row in \<open>auto simp: depositOutcome_def creditsAfter_def storedSuccess_def\<close>)
qed

lemma unsettled_triple:
  assumes "act_ID t \<noteq> ''''" and "act_Status t \<noteq> ''SUCCESS''" and "act_ID t = act_ID txn"
  shows "triple (\<lambda>w. view acctCreditsC w = a \<and> view creditsC w = v) (SaveAccountCreditTransaction t) (depositOutcome c txn a)
    (\<lambda>w. creditsAfter c txn a (view acctCreditsC w))"
  by (rule triple_conseq [OF saveDeposit_triple [of t "\<lambda>b. b = a" v]])
    (use assms in \<open>auto simp: depositOutcome_def creditsAfter_def storedSuccess_def\<close>)

lemma unchanged_triple:
  assumes "storeGet v (act_ID txn) = Some txn"
  shows "triple (\<lambda>w. view acctCreditsC w = a \<and> view creditsC w = v) (ret txn) (depositOutcome c txn a) E"
  by (rule triple_ret) (use assms in \<open>auto simp: depositOutcome_def creditsAfter_def storedSuccess_def\<close>)

lemma creditsAfter_none: "b = a \<Longrightarrow> creditsAfter c txn a b"
  by (simp add: creditsAfter_def)

lemma processIntent_triple:
  assumes row: "storeGet v (act_ID txn) = Some txn" and c: "pi_Status p = ''succeeded'' \<Longrightarrow> c"
  shows "triple (\<lambda>w. view acctCreditsC w = a \<and> view creditsC w = v) (processIntent L P txn p) (depositOutcome c txn a)
    (\<lambda>w. creditsAfter c txn a (view acctCreditsC w))"
proof -
  have id: "act_ID txn \<noteq> ''''" using row by (auto simp: storeGet_def)
  show ?thesis
    unfolding processIntent_def Let_def
    by (intro triple_if settleSuccess_triple [OF row] unsettled_triple unchanged_triple [OF row])
      (use id c in \<open>simp_all add: mapStatus_success\<close>)
qed

lemma ProcessBankTransfer_triple:
  assumes row: "storeGet v i = Some txn" and id: "act_ID txn = i" "i \<noteq> ''''" and c: "st = ''APPROVED'' \<Longrightarrow> c"
  shows "triple (\<lambda>w. view acctCreditsC w = a \<and> view creditsC w = v) (ProcessBankTransfer L P i st comments) (depositOutcome c txn a)
    (\<lambda>w. creditsAfter c txn a (view acctCreditsC w))" (is "triple ?P _ ?Q ?E")
proof -
  have t: "tables ?P" by (intro tables_conj acctCredits.tables_view credits.tables_view)
  have row': "storeGet v (act_ID txn) = Some txn" using row id by simp
  have body: "triple ?P (if st = ''APPROVED'' then settleSuccess L P txn else if st = ''REJECTED'' then
      SaveAccountCreditTransaction (txn \<lparr> act_Status := ''FAILED'', act_GatewayMessage := comments \<rparr>) else ret txn) ?Q ?E"
    by (intro triple_if settleSuccess_triple [OF row'] unsettled_triple unchanged_triple [OF row']) (use id c in simp_all)
  show ?thesis
    unfolding ProcessBankTransfer_def AccountCreditTransactionByID_def
    by (rule triple_seq [OF credits.get_triple [OF t]], simp add: creditsAfter_none)
      (rule tripleI, use row tripleD [OF body] in \<open>auto split: option.splits\<close>)
qed

lemma ProcessAddFunds_triple:
  assumes ok: "gateways_ok P" and row: "storeGet v i = Some txn" and id: "act_ID txn = i" "i \<noteq> ''''"
    and c: "c \<longleftrightarrow> reportedPaid P (act_ExternalID txn) \<or>
      map_option (bt_Status \<circ> snd) (storeFindOne (\<lambda>b. bt_AccountCreditTransactionID b = i) x) = Some ''APPROVED''"
  shows "triple (\<lambda>w. (view acctCreditsC w = a \<and> view creditsC w = v) \<and> view bankXfersC w = x) (ProcessAddFunds L P i) (depositOutcome c txn a)
    (\<lambda>w. creditsAfter c txn a (view acctCreditsC w))" (is "triple ?P _ ?Q ?E")
proof -
  have t: "tables ?P" by (intro tables_conj acctCredits.tables_view credits.tables_view bankXfers.tables_view)
  have row': "storeGet v (act_ID txn) = Some txn" using row id by simp
  have e: "?E w" if "?P w" for w using that by (simp add: creditsAfter_none)
  have intent: "triple ?P (bnd (g_RetrievePaymentIntent (pay_gatewayFor P key) (act_ExternalID txn)) (processIntent L P txn)) ?Q ?E" for key
    by (rule triple_know [OF gateways_quiet(1) [OF ok] t e, where R = "\<lambda>p. pi_Status p = ''succeeded'' \<longrightarrow> c"];
        (rule triple_pre [OF processIntent_triple [OF row']])?) (use c in \<open>auto simp: reportedPaid_def\<close>)
  have transfer: "triple ?P (bnd (BankTransferByTxnID (act_ID txn)) (\<lambda>found. case found of
       None \<Rightarrow> throw (HTTPError 404 msg) | Some bt \<Rightarrow> ProcessBankTransfer L P i (bt_Status bt) (bt_Comments bt))) ?Q ?E" for msg
    unfolding BankTransferByTxnID_def
  proof (rule triple_seq [OF bankXfers.find_one_triple [OF t] e])
    fix f
    show "triple (\<lambda>w. ?P w \<and> f = map_option snd (storeFindOne (\<lambda>b. bt_AccountCreditTransactionID b = act_ID txn) (view bankXfersC w)))
       (case f of None \<Rightarrow> throw (HTTPError 404 msg) | Some bt \<Rightarrow> ProcessBankTransfer L P i (bt_Status bt) (bt_Comments bt)) ?Q ?E"
    proof (cases f)
      case (Some bt)
      have "triple ?P (ProcessBankTransfer L P i (bt_Status bt) (bt_Comments bt)) ?Q ?E"
        if "f = map_option snd (storeFindOne (\<lambda>b. bt_AccountCreditTransactionID b = i) x)"
        by (rule triple_pre [OF ProcessBankTransfer_triple [OF row id]])
          (use that Some c in \<open>auto simp: option.map_comp comp_def dest!: sym [of "Some bt"]\<close>)
      then show ?thesis using Some id by (auto simp: triple_def)
    qed (auto intro: triple_throw simp: creditsAfter_none)
  qed
  have body: "triple ?P (bnd (GetGateway P (act_PaymentGatewayID txn)) (\<lambda>found. case found of None \<Rightarrow> throw (HTTPError 404 m)
       | Some gw \<Rightarrow> if gw_ThirdParty gw = ''BankTransfer'' then
           bnd (BankTransferByTxnID (act_ID txn)) (\<lambda>found. case found of
             None \<Rightarrow> throw (HTTPError 404 msg)
           | Some bt \<Rightarrow> ProcessBankTransfer L P i (bt_Status bt) (bt_Comments bt))
         else bnd (g_RetrievePaymentIntent (pay_gatewayFor P (SecretString gw ''privateKey'')) (act_ExternalID txn)) (processIntent L P txn))) ?Q ?E" for m msg
    by (intro triple_skip [OF quiet_payment_reads(1) t e] triple_option triple_throw triple_if transfer intent e)
  show ?thesis
    unfolding ProcessAddFunds_def AccountCreditTransactionByID_def
    by (rule triple_seq [OF credits.get_triple [OF t] e], assumption)
      (rule tripleI, use row tripleD [OF body] in \<open>auto split: option.splits\<close>)
qed

definition confirmedDeposit :: "payments \<Rightarrow> world \<Rightarrow> AccountCreditTransaction \<Rightarrow> bool" where
  "confirmedDeposit P w txn \<longleftrightarrow> reportedPaid P (act_ExternalID txn) \<or>
     map_option (bt_Status \<circ> snd) (storeFindOne (\<lambda>b. bt_AccountCreditTransactionID b = act_ID txn) (view bankXfersC w)) = Some ''APPROVED''"

text \<open>
  C21. A deposit is credited once. Processing a transaction touches the credits only if the stored
  transaction is pending and the deposit is confirmed, by the gateway's report or by an approved bank transfer; then
  at most one credit is new, and unless a bill is paid next it is exactly the amount of the transaction, for its profile. A
  transaction that comes back as successful is stored as such, so processing it again, whatever then fails, adds no credit.
\<close>

theorem deposit_credited_once:
  assumes ok: "gateways_ok P" and run: "ProcessAddFunds L P i w = (r, w')"
  shows "case storeGet (view creditsC w) i of
      None \<Rightarrow> stored w' = stored w
    | Some txn \<Rightarrow> creditsAfter (confirmedDeposit P w txn) txn (view acctCreditsC w) (view acctCreditsC w') \<and>
        (\<forall>t. r = Inr t \<and> act_Status t = ''SUCCESS'' \<longrightarrow> storeGet (view creditsC w') i = Some t \<and>
          (\<forall>v s v'. view creditsC v = view creditsC w' \<and> ProcessAddFunds L P i v = (s, v') \<longrightarrow> view acctCreditsC v' = view acctCreditsC v))"
proof (cases "storeGet (view creditsC w) i")
  case None
  have "stored w' = stored w"
  proof (cases "dbGet creditsC i w")
    case (Pair r1 w1)
    have s: "stored w1 = stored w" by (rule quietD [OF quiet_reads(1) Pair])
    have "r1 = Inr x \<Longrightarrow> x = None" for x using credits.get_run [of i w x w1] Pair None by simp
    then show ?thesis using run Pair s
      by (cases r1) (auto simp: ProcessAddFunds_def AccountCreditTransactionByID_def bnd_def throw_def)
  qed
  then show ?thesis using None by simp
next
  case (Some txn)
  have id: "act_ID txn = i" "i \<noteq> ''''" using credits.view_get_ID [OF Some] Some by (auto simp: creditsC_def storeGet_def)
  have c: "confirmedDeposit P w txn \<longleftrightarrow> reportedPaid P (act_ExternalID txn) \<or>
      map_option (bt_Status \<circ> snd) (storeFindOne (\<lambda>b. bt_AccountCreditTransactionID b = i) (view bankXfersC w)) = Some ''APPROVED''"
    by (simp add: confirmedDeposit_def id)
  note out = tripleD [OF ProcessAddFunds_triple [OF ok Some id c] _ run]
  have again: "view acctCreditsC v' = view acctCreditsC v"
    if t: "storeGet (view creditsC v) i = Some t" "act_Status t = ''SUCCESS''" and run': "ProcessAddFunds L P i v = (s, v')" for t v s v'
  proof -
    have tid: "act_ID t = i" using credits.view_get_ID [OF t(1)] by (simp add: creditsC_def)
    from tripleD [OF ProcessAddFunds_triple [OF ok t(1) tid id(2) refl] _ run'] t(2) show ?thesis
      by (auto simp: depositOutcome_def creditsAfter_def split: sum.splits)
  qed
  have "creditsAfter (confirmedDeposit P w txn) txn (view acctCreditsC w) (view acctCreditsC w')"
    using out by (auto simp: depositOutcome_def split: sum.splits)
  moreover have "storeGet (view creditsC w') i = Some t" if "r = Inr t" "act_Status t = ''SUCCESS''" for t
    using out that by (auto simp: depositOutcome_def storedSuccess_def id)
  ultimately show ?thesis using Some again by auto
qed

definition ex_deposit :: AccountCreditTransaction where
  "ex_deposit = depositTxn ex_profile \<lparr> afr_BillID = '''', afr_OrderID = '''', afr_Amount = None, afr_PaymentGatewayID = ''gw'',
     afr_SavingsContractID = '''' \<rparr> (Decimal 500 (- 2)) (Decimal 595 (- 2)) (Decimal 1 0) \<lparr> act_ID := ''t1'', act_ExternalID := ''pi_1'' \<rparr>"

theorem deposit_credited_once_witness:
  "let w = ex_card_shop 1000 \<lparr> w_credits := [(''t1'', ex_deposit)] \<rparr> in
   case ProcessAddFunds ref_lib (ex_payments ''succeeded'') ''t1'' w of (Inl _, _) \<Rightarrow> False
   | (Inr t, w') \<Rightarrow> length (view acctCreditsC w') = Suc (length (view acctCreditsC w)) \<and> storeGet (view creditsC w') ''t1'' = Some t"
proof -
  let ?w = "ex_card_shop 1000 \<lparr> w_credits := [(''t1'', ex_deposit)] \<rparr>"
  let ?run = "ProcessAddFunds ref_lib (ex_payments ''succeeded'') ''t1'' ?w"
  have row: "storeGet (view creditsC ?w) ''t1'' = Some ex_deposit"
    by (simp add: storeGet_def view_def creditsC_def ex_deposit_def)
  have "case ?run of (Inl _, _) \<Rightarrow> False | (Inr t, w') \<Rightarrow> act_Status t = ''SUCCESS'' \<and> length (view acctCreditsC w') = Suc (length (view acctCreditsC ?w))"
    by code_simp
  then obtain t w' where run: "?run = (Inr t, w')" "act_Status t = ''SUCCESS''" "length (view acctCreditsC w') = Suc (length (view acctCreditsC ?w))"
    by (auto split: prod.splits sum.splits)
  from deposit_credited_once [OF ex_gateways_ok run(1)] row run(2) have "storeGet (view creditsC w') ''t1'' = Some t" by simp
  then show ?thesis using run by (simp add: Let_def)
qed

end
