(* ===== verification/Payment_Scan.thy ===== *)
theory Payment_Scan
  imports Add_Funds
begin

text \<open>
  \<open>payment/scanner.go\<close>: the job that drives stuck pending transactions again, deposits through
  \<open>ProcessAddFunds\<close> and collections through \<open>processCollect\<close>. An error marks the transaction as
  failed and the batch goes on.
\<close>

section \<open>The scanner\<close>

definition errorText :: "error \<Rightarrow> string" where
  "errorText e = (case e of HTTPError _ m \<Rightarrow> m | Failure m \<Rightarrow> m | Panic m \<Rightarrow> m)"

definition scanOneDeposit :: "declib \<Rightarrow> payments \<Rightarrow> AccountCreditTransaction \<Rightarrow> unit svc" where
  "scanOneDeposit L P t = bnd (attempt (ProcessAddFunds L P (act_ID t))) (\<lambda>r. case r of
       Inl e \<Rightarrow> bnd (attempt (SaveAccountCreditTransaction (t \<lparr> act_Status := ''FAILED'', act_GatewayMessage := errorText e \<rparr>))) (\<lambda>_. ret ())
     | Inr _ \<Rightarrow> ret ())"

definition scanAccountCredits :: "declib \<Rightarrow> payments \<Rightarrow> time \<Rightarrow> time \<Rightarrow> int svc" where
  "scanAccountCredits L P from to = bnd (PendingAccountCreditTransactions from to) (\<lambda>txns.
     forS (\<lambda>t n. if act_ExternalID t = '''' then ret n else bnd (scanOneDeposit L P t) (\<lambda>_. ret (n + 1))) txns 0)"

definition failCollect :: "CollectTransaction \<Rightarrow> string \<Rightarrow> unit svc" where
  "failCollect t msg = bnd (attempt (SaveCollectTransaction (t \<lparr> ct_Status := CTFailed, ct_ErrorMessage := msg \<rparr>))) (\<lambda>_. ret ())"

definition scanFound :: "declib \<Rightarrow> payments \<Rightarrow> CollectTransaction \<Rightarrow> Bill option \<Rightarrow> unit svc" where
  "scanFound L P t found = (case found of
       None \<Rightarrow> failCollect t (''Bill '' @ ct_BillID t @ '' not found'')
     | Some bill \<Rightarrow> if bill_Status bill = BillPaid then
           bnd (attempt (SaveCollectTransaction (t \<lparr> ct_Status := CTCancelled \<rparr>))) (\<lambda>_. ret ())
         else bnd (attempt (processCollect L P t)) (\<lambda>r. case r of Inl e \<Rightarrow> failCollect t (errorText e) | Inr _ \<Rightarrow> ret ()))"

definition scanOneCollect :: "declib \<Rightarrow> payments \<Rightarrow> CollectTransaction \<Rightarrow> unit svc" where
  "scanOneCollect L P t =
     (if ct_BillID t = '''' then failCollect t ''collect transaction has no bill''
      else bnd (attempt (BillByID (ct_BillID t))) (\<lambda>r. scanFound L P t (case r of Inl _ \<Rightarrow> None | Inr b \<Rightarrow> b)))"

definition scanCollects :: "declib \<Rightarrow> payments \<Rightarrow> time \<Rightarrow> time \<Rightarrow> int svc" where
  "scanCollects L P from to = bnd (PendingCollectTransactions from to) (\<lambda>txns.
     forS (\<lambda>t n. if ct_ExternalID t = '''' then ret n else bnd (scanOneCollect L P t) (\<lambda>_. ret (n + 1))) txns 0)"

text \<open>Both halves run; the number examined comes with the first error, if any.\<close>

definition Scan :: "declib \<Rightarrow> payments \<Rightarrow> (int \<times> error option) svc" where
  "Scan L P = bnd timeNow (\<lambda>now. let from = now - 24 * hour; to = now - 20 * minute in
     bnd (attempt (scanAccountCredits L P from to)) (\<lambda>r1.
     bnd (attempt (scanCollects L P from to)) (\<lambda>r2.
     let n = (\<lambda>r. case r of Inl _ \<Rightarrow> 0 | Inr n \<Rightarrow> n) in
     ret (n r1 + n r2, case r1 of Inl e \<Rightarrow> Some e | Inr _ \<Rightarrow> (case r2 of Inl e \<Rightarrow> Some e | Inr _ \<Rightarrow> None)))))"

section \<open>Paid bills stay as they are\<close>

definition paidKept :: "Bill table \<Rightarrow> Bill table \<Rightarrow> bool" where
  "paidKept v v' \<longleftrightarrow> (\<forall>i b. map_of v i = Some b \<and> bill_Status b = BillPaid \<longrightarrow> map_of v' i = Some b)"

definition sparesPaid :: "'a svc \<Rightarrow> bool" where
  "sparesPaid m \<longleftrightarrow> (\<forall>w r w'. m w = (r, w') \<longrightarrow> paidKept (view billsC w) (view billsC w'))"

named_theorems spares_intros

lemma sparesPaidD: "sparesPaid m \<Longrightarrow> m w = (r, w') \<Longrightarrow> paidKept (view billsC w) (view billsC w')"
  unfolding sparesPaid_def by blast

lemma paidKept_trans: "paidKept u v \<Longrightarrow> paidKept v w \<Longrightarrow> paidKept u w"
  by (simp add: paidKept_def)

lemma spares_bnd [spares_intros]: "sparesPaid m \<Longrightarrow> (\<And>x. sparesPaid (f x)) \<Longrightarrow> sparesPaid (bnd m f)"
  unfolding sparesPaid_def bnd_def by (auto split: prod.splits sum.splits) (metis paidKept_trans)+

lemma spares_attempt [spares_intros]: "sparesPaid m \<Longrightarrow> sparesPaid (attempt m)"
  unfolding sparesPaid_def attempt_def by (auto split: prod.splits sum.splits error.splits)

lemma spares_if [spares_intros]: "(b \<Longrightarrow> sparesPaid m) \<Longrightarrow> (\<not> b \<Longrightarrow> sparesPaid n) \<Longrightarrow> sparesPaid (if b then m else n)"
  by simp

lemma spares_option [spares_intros]:
  "(x = None \<Longrightarrow> sparesPaid m) \<Longrightarrow> (\<And>y. x = Some y \<Longrightarrow> sparesPaid (f y)) \<Longrightarrow> sparesPaid (case x of None \<Rightarrow> m | Some y \<Rightarrow> f y)"
  by (cases x) auto

lemma spares_sum [spares_intros]:
  "(\<And>e. x = Inl e \<Longrightarrow> sparesPaid (f e)) \<Longrightarrow> (\<And>y. x = Inr y \<Longrightarrow> sparesPaid (g y)) \<Longrightarrow> sparesPaid (case x of Inl e \<Rightarrow> f e | Inr y \<Rightarrow> g y)"
  by (cases x) auto

lemma spares_leaves: "leaves billsC m \<Longrightarrow> sparesPaid m"
  unfolding sparesPaid_def by (auto simp: paidKept_def dest: leavesD)

lemma spares_quiet: "quiet m \<Longrightarrow> sparesPaid m"
  by (intro spares_leaves bills.leaves_quiet)

lemma spares_simple [spares_intros]: "sparesPaid (ret x)" "sparesPaid (throw e)"
  by (intro spares_leaves leaves_intros)+

lemma spares_forS [spares_intros]: "(\<And>x acc. x \<in> set xs \<Longrightarrow> sparesPaid (f x acc)) \<Longrightarrow> sparesPaid (forS f xs acc)"
  by (induction xs arbitrary: acc) (auto intro: spares_intros)

lemma elsewhere_paidKept: "elsewhere i v w \<Longrightarrow> (\<And>b. map_of v i = Some b \<Longrightarrow> bill_Status b \<noteq> BillPaid) \<Longrightarrow> paidKept v (view billsC w)"
  by (metis elsewhere_def paidKept_def)

lemma spares_payment: "sparesPaid (PayBillWithCredits L H pr profile i now)"
  unfolding sparesPaid_def
proof (intro allI impI)
  fix w r w'
  assume run: "PayBillWithCredits L H pr profile i now w = (r, w')"
  show "paidKept (view billsC w) (view billsC w')"
  proof (cases "payRefusal (view billsC w) (bp_ID profile) i")
    case (Some e)
    then have "view billsC w' = view billsC w" using refused_pay [OF run] bills.view_stored by blast
    then show ?thesis by (simp add: paidKept_def)
  next
    case None
    from pay_allowed [OF run None] obtain b where "elsewhere i (view billsC w) w'" "storeGet (view billsC w) i = Some b" "bill_Status b = BillSent" by blast
    then show ?thesis by (intro elsewhere_paidKept) (auto simp: storeGet_def split: if_splits)
  qed
qed

section \<open>The two halves\<close>

lemma leaves_settleBranch: "leaves billsC (settleBranch L P profile txn)"
  unfolding settleBranch_def createAccountCredit_def
  by (intro leaves_intros bills.leaves_order leaves_activation bills.collection_axioms bills.leaves_new_credit
      bills.leaves_quiet [OF quiet_payment_reads(11)] apart_payment_tables apart_bills)

lemma spares_settleSuccess: "sparesPaid (settleSuccess L P txn)"
  unfolding settleSuccess_def afterDeposit_def
  by (intro spares_intros spares_payment spares_leaves [OF leaves_settleBranch] spares_leaves [OF leaves_review] spares_quiet
      quiet_repo_reads quiet_paymentNotify quiet_timeNow spares_leaves [OF bills.leaves_deposit_txn] apart_payment_tables)

lemma spares_save [spares_intros]: "sparesPaid (SaveAccountCreditTransaction t)" "sparesPaid (SaveCollectTransaction s)"
  by (intro spares_leaves bills.leaves_deposit_txn bills.leaves_collect_txn apart_payment_tables)+

lemma spares_ProcessAddFunds:
  assumes "gateways_ok P" shows "sparesPaid (ProcessAddFunds L P i)"
  unfolding ProcessAddFunds_def ProcessBankTransfer_def processIntent_def Let_def
  by (intro spares_intros spares_settleSuccess spares_quiet quiet_payment_reads gateways_quiet [OF assms])

lemma spares_settled_collect:
  assumes ok: "gateways_ok P" and t: "ct_BillID t \<noteq> ''''" "ct_Status t = CTPending"
    and b: "storeGet (view billsC w) (ct_BillID t) = Some b" "bill_Status b \<noteq> BillPaid" and run: "processCollect L P t w = (r, w')"
  shows "paidKept (view billsC w) (view billsC w')"
proof -
  have "view billsC w' = view billsC w \<or> collectedOn L t (view billsC w) w'"
    using tripleD [OF processCollect_triple [OF ok t] refl run] by (auto split: sum.splits if_splits)
  then show ?thesis
  proof
    assume "collectedOn L t (view billsC w) w'"
    then have "elsewhere (ct_BillID t) (view billsC w) w'" using b(1) by (auto simp: collectedOn_def intro: elsewhere_replaced)
    then show ?thesis by (rule elsewhere_paidKept) (use b in \<open>auto simp: storeGet_def split: if_splits\<close>)
  qed (simp add: paidKept_def)
qed

lemma spares_failCollect [spares_intros]: "sparesPaid (failCollect t m)"
  unfolding failCollect_def by (intro spares_intros)

text \<open>The bill just read is the stored one, so a collection is driven on only if the stored bill is not paid.\<close>

lemma scanFound_spares:
  assumes ok: "gateways_ok P" and t: "ct_BillID t \<noteq> ''''" "ct_Status t = CTPending"
    and found: "\<And>b. found = Some b \<Longrightarrow> storeGet (view billsC w) (ct_BillID t) = Some b" and run: "scanFound L P t found w = (r, w')"
  shows "paidKept (view billsC w) (view billsC w')"
proof (cases "\<exists>b. found = Some b \<and> bill_Status b \<noteq> BillPaid")
  case True
  then obtain b where b: "found = Some b" "bill_Status b \<noteq> BillPaid" by blast
  obtain r2 w2 where p: "processCollect L P t w = (r2, w2)" by (cases "processCollect L P t w")
  have kept: "paidKept (view billsC w) (view billsC w2)" by (rule spares_settled_collect [OF ok t found [OF b(1)] b(2) p])
  have "w' = w2 \<or> (\<exists>e x. failCollect t (errorText e) w2 = (x, w'))"
    using run p b by (cases r2) (auto simp: scanFound_def bnd_def attempt_def ret_def split: error.splits)
  then show ?thesis using kept sparesPaidD [OF spares_failCollect] paidKept_trans by blast
next
  case False
  have "sparesPaid (scanFound L P t found)"
  proof (cases found)
    case (Some b)
    then have "bill_Status b = BillPaid" using False by simp
    then show ?thesis using Some unfolding scanFound_def by simp (intro spares_intros)
  qed (simp add: scanFound_def spares_failCollect)
  then show ?thesis using run by (rule sparesPaidD)
qed

lemma spares_scanOneCollect:
  assumes ok: "gateways_ok P" and t: "ct_Status t = CTPending"
  shows "sparesPaid (scanOneCollect L P t)"
proof (cases "ct_BillID t = ''''")
  case True
  then show ?thesis unfolding scanOneCollect_def by simp (intro spares_intros)
next
  case False
  show ?thesis
    unfolding sparesPaid_def
  proof (intro allI impI)
    fix w r w'
    assume run: "scanOneCollect L P t w = (r, w')"
    obtain r1 w1 where get: "BillByID (ct_BillID t) w = (r1, w1)" by (cases "BillByID (ct_BillID t) w")
    have s: "view billsC w1 = view billsC w"
      by (rule bills.view_stored [OF quietD [of "BillByID (ct_BillID t)", OF _ get]]) (intro quiet_intros)
    have found: "storeGet (view billsC w1) (ct_BillID t) = Some b" if "(case r1 of Inl _ \<Rightarrow> None | Inr b \<Rightarrow> b) = Some b" for b
      using that get bills.get_run [of "ct_BillID t" w "Some b" w1] s by (auto simp: BillByID_def split: sum.splits)
    have "w' = w1 \<or> scanFound L P t (case r1 of Inl _ \<Rightarrow> None | Inr b \<Rightarrow> b) w1 = (r, w')"
      using run get False by (auto simp: scanOneCollect_def bnd_def attempt_def split: sum.splits error.splits)
    then show "paidKept (view billsC w) (view billsC w')"
    proof
      assume "scanFound L P t (case r1 of Inl _ \<Rightarrow> None | Inr b \<Rightarrow> b) w1 = (r, w')"
      from scanFound_spares [OF ok False t found this] s show ?thesis by simp
    qed (simp add: s paidKept_def)
  qed
qed

lemma spares_scans:
  assumes "gateways_ok P"
  shows "sparesPaid (scanAccountCredits L P from to)" and "sparesPaid (scanCollects L P from to)"
proof -
  show "sparesPaid (scanAccountCredits L P from to)"
    unfolding scanAccountCredits_def scanOneDeposit_def
    by (intro spares_intros spares_quiet [OF quiet_payment_reads(7)] spares_ProcessAddFunds [OF assms])
  show "sparesPaid (scanCollects L P from to)"
    unfolding sparesPaid_def
  proof (intro allI impI)
    fix w r w'
    assume run: "scanCollects L P from to w = (r, w')"
    obtain r1 w1 where list: "PendingCollectTransactions from to w = (r1, w1)" by (cases "PendingCollectTransactions from to w")
    have s: "view billsC w1 = view billsC w" by (rule bills.view_stored [OF quietD [OF quiet_payment_reads(8) list]])
    show "paidKept (view billsC w) (view billsC w')"
    proof (cases r1)
      case (Inl e)
      then show ?thesis using run list s by (simp add: scanCollects_def bnd_def paidKept_def)
    next
      case (Inr ts)
      have "ct_Status t = CTPending" if "t \<in> set ts" for t
        using that collects.find_run [OF list [unfolded Inr PendingCollectTransactions_def]] by (auto simp: storeFind_def)
      then have "sparesPaid (forS (\<lambda>t n. if ct_ExternalID t = '''' then ret n else bnd (scanOneCollect L P t) (\<lambda>_. ret (n + 1))) ts 0)"
        by (intro spares_intros spares_scanOneCollect assms)
      then show ?thesis using run list Inr s sparesPaidD by (fastforce simp: scanCollects_def bnd_def)
    qed
  qed
qed

text \<open>
  C31. The scanner never settles twice: whatever stuck deposits and collections it drives again, whatever the gateway
  answers and whichever database calls fail, every bill that was paid when the scan began is stored unchanged
  when it ends, so no late collection and no deposit aimed at a bill is booked on a paid bill.
\<close>

theorem scan_spares_paid_bills:
  assumes "gateways_ok P" and "Scan L P w = (r, w')"
    and "map_of (view billsC w) i = Some b" and "bill_Status b = BillPaid"
  shows "map_of (view billsC w') i = Some b"
proof -
  have "sparesPaid (Scan L P)"
    unfolding Scan_def Let_def by (intro spares_intros spares_quiet [OF quiet_timeNow] spares_scans assms(1))
  from sparesPaidD [OF this assms(2)] assms(3,4) show ?thesis by (simp add: paidKept_def)
qed

definition ex_stuck :: world where
  "ex_stuck = ex_card_shop 1000 \<lparr> w_bills := [(''b1'', ex_sent_bill 1000 \<lparr> bill_Status := BillPaid \<rparr>)],
     w_collects := [(''ct'', ex_transaction \<lparr> ct_Status := CTPending, ct_ExternalID := ''pi_1'', ct_PaymentGatewayID := ''gw'',
       ct_CreatedAt := Some (w_time ex_world - hour) \<rparr>)] \<rparr>"

theorem scan_spares_paid_bills_witness:
  "case Scan ref_lib (ex_payments ''succeeded'') ex_stuck of (r, w') \<Rightarrow>
     map_of (view billsC w') ''b1'' = Some (ex_sent_bill 1000 \<lparr> bill_Status := BillPaid \<rparr>) \<and>
     map_option ct_Status (map_of (view collectsC w') ''ct'') = Some CTCancelled"
proof -
  let ?run = "Scan ref_lib (ex_payments ''succeeded'') ex_stuck"
  obtain r w' where run: "?run = (r, w')" by (cases ?run)
  have row: "map_of (view billsC ex_stuck) ''b1'' = Some (ex_sent_bill 1000 \<lparr> bill_Status := BillPaid \<rparr>)"
    by (simp add: ex_stuck_def view_def billsC_def ex_sent_bill_def)
  have "map_of (view billsC w') ''b1'' = Some (ex_sent_bill 1000 \<lparr> bill_Status := BillPaid \<rparr>)"
    by (rule scan_spares_paid_bills [OF ex_gateways_ok run row]) simp
  moreover have "map_option ct_Status (map_of (view collectsC (snd ?run)) ''ct'') = Some CTCancelled" by code_simp
  ultimately show ?thesis using run by simp
qed

end
