(* ===== verification/Tenancy.thy ===== *)
theory Tenancy
  imports Org_Repo
begin

text \<open>
  Who holds which permission, read off the tables: the tenancy of a world, the seats in it and
  the permission check as a predicate on it. The policy of \<open>org/policy.go\<close> is shown to compute that
  check when the database works and to fail closed when it does not.
\<close>

section \<open>Who holds what\<close>

text \<open>
  The tenancy of a world is what its members and roles tables say. A seat is a membership with
  its effective role; \<open>may\<close> is the permission check on a given tenancy.
\<close>

record tenancy =
  t_members :: "Member table"
  t_roles :: "Role table"

definition tenancy :: "world \<Rightarrow> tenancy" where
  "tenancy w = \<lparr> t_members = view membersC w, t_roles = view rolesC w \<rparr>"

definition seat :: "Member \<Rightarrow> string \<times> string \<times> string" where
  "seat m = (mbr_OrganizationID m, mbr_Sub m, memberRole m)"

definition seats :: "tenancy \<Rightarrow> (string \<times> string \<times> string) set" where
  "seats T = (\<lambda>r. seat (snd r)) ` set (t_members T)"

definition roleIn :: "tenancy \<Rightarrow> string \<Rightarrow> string \<Rightarrow> string option" where
  "roleIn T orgID sub = map_option (\<lambda>r. memberRole (snd r)) (storeFindOne (\<lambda>m. memberKey m = (orgID, sub)) (t_members T))"

definition patternsIn :: "tenancy \<Rightarrow> string \<Rightarrow> string \<Rightarrow> string list" where
  "patternsIn T orgID role = (if IsStaticRole role then RolePermissions role
     else case storeFindOne (\<lambda>r. roleKey r = (orgID, role)) (t_roles T) of None \<Rightarrow> [] | Some r \<Rightarrow> role_Permissions (snd r))"

definition may :: "tenancy \<Rightarrow> string \<Rightarrow> string \<Rightarrow> string \<Rightarrow> bool" where
  "may T sub orgID permKey \<longleftrightarrow> (case roleIn T orgID sub of None \<Rightarrow> False | Some role \<Rightarrow> Matches (patternsIn T orgID role) permKey)"

text \<open>The rules: calls that keep the tenancy.\<close>

lemma keeps_tenancyI: "leaves membersC m \<Longrightarrow> leaves rolesC m \<Longrightarrow> keeps tenancy m"
  unfolding keeps_def tenancy_def by metis

lemma keeps_tenancy_quiet: "quiet m \<Longrightarrow> keeps tenancy m"
  by (intro keeps_tenancyI members.leaves_quiet roles.leaves_quiet)

lemma apart_tenancy [simp]:
  "apart membersC usersC" "apart rolesC usersC" "apart membersC orgsC" "apart rolesC orgsC"
  "apart membersC profilesC" "apart rolesC profilesC" "apart membersC projectsC" "apart rolesC projectsC"
  "apart membersC rolesC" "apart rolesC membersC" "apart membersC invitesC" "apart rolesC invitesC"
  by (simp_all add: apart_def view_def membersC_def rolesC_def usersC_def orgsC_def profilesC_def projectsC_def invitesC_def)

lemma keeps_principal: "keeps tenancy (principal rc)"
  by (intro keeps_tenancyI members.leaves_principal roles.leaves_principal) simp_all

text \<open>What the policy decides: a permission that is granted is one the tenancy grants.\<close>

lemma quiet_policy [quiet_intros]:
  "quiet (FindMember g s)" "quiet (policyRole g s)" "quiet (policyPatterns g r)" "quiet (HasPermission s g k)"
  "quiet (RequirePermission s g k)" "quiet (UserPermissionKeys s g)" "quiet (UserRole g s)" "quiet (FindBySub s)" "quiet (FindByEmail e)"
  unfolding FindMember_def policyRole_def policyPatterns_def HasPermission_def RequirePermission_def UserPermissionKeys_def UserRole_def
    FindBySub_def FindByEmail_def customRolePermissions_def FindRoleByOrgAndName_def
  by (intro quiet_intros)+

lemma policyRole_sound:
  assumes "policyRole g s w = (Inr (Some role), w')"
  shows "roleIn (tenancy w) g s = Some role"
proof -
  from assms obtain r w1 where r: "attempt (FindMember g s) w = (Inr r, w1)"
    and "(case r of Inr (Some m) \<Rightarrow> Some (memberRole m) | _ \<Rightarrow> None) = Some role"
    unfolding policyRole_def bnd_Inr by (auto simp: svc_simps)
  then obtain m where "r = Inr (Some m)" and role: "role = memberRole m" by (auto split: sum.splits option.splits)
  then have "FindMember g s w = (Inr (Some m), w1)" using r by (simp add: attempt_Inr)
  then have "Some m = map_option snd (storeFindOne (\<lambda>m. memberKey m = (g, s)) (view membersC w))"
    using members.find_one_run unfolding FindMember_def by blast
  then show ?thesis by (cases "storeFindOne (\<lambda>m. memberKey m = (g, s)) (view membersC w)") (auto simp: roleIn_def tenancy_def role)
qed

lemma policyPatterns_sound:
  assumes "policyPatterns g role w = (Inr ps, w')"
  shows "ps = [] \<or> ps = patternsIn (tenancy w) g role"
proof (cases "IsStaticRole role")
  case True
  then show ?thesis using assms by (simp add: policyPatterns_def patternsIn_def ret_def)
next
  case False
  with assms obtain r w1 where r: "attempt (customRolePermissions g role) w = (Inr r, w1)"
    and ps: "ps = (case r of Inr ps \<Rightarrow> ps | Inl _ \<Rightarrow> [])"
    by (auto simp: policyPatterns_def bnd_Inr svc_simps)
  show ?thesis
  proof (cases r)
    case (Inr qs)
    then have "customRolePermissions g role w = (Inr qs, w1)" using r by (simp add: attempt_Inr)
    then obtain x w2 where x: "dbFindOne rolesC (\<lambda>r. roleKey r = (g, role)) w = (Inr x, w2)"
      and qs: "qs = (case x of None \<Rightarrow> [] | Some r \<Rightarrow> role_Permissions r)"
      by (auto simp: customRolePermissions_def FindRoleByOrgAndName_def bnd_Inr svc_simps)
    have "x = map_option snd (storeFindOne (\<lambda>r. roleKey r = (g, role)) (view rolesC w))"
      using roles.find_one_run [OF x] by blast
    then show ?thesis using ps Inr qs False
      by (cases "storeFindOne (\<lambda>r. roleKey r = (g, role)) (view rolesC w)") (auto simp: patternsIn_def tenancy_def)
  qed (simp add: ps)
qed

text \<open>The policy fails closed: whatever database call fails, a permission that is granted is one the tables grant.\<close>

lemma HasPermission_sound:
  assumes "HasPermission s g k w = (Inr True, w')"
  shows "may (tenancy w) s g k"
proof -
  from assms obtain role w1 where pr: "policyRole g s w = (Inr role, w1)"
    and rest: "(case role of None \<Rightarrow> ret False | Some role \<Rightarrow> if IsStaticRole role then ret (RoleHasPermission role k)
      else bnd (policyPatterns g role) (\<lambda>perms. ret (Matches perms k))) w1 = (Inr True, w')"
    unfolding HasPermission_def bnd_Inr by blast
  then obtain rl where rl: "role = Some rl" by (cases role) (auto simp: ret_def)
  have T: "tenancy w1 = tenancy w" using keeps_tenancy_quiet [OF quiet_policy(2)] pr by (rule leavesD)
  have in_org: "roleIn (tenancy w) g s = Some rl" using policyRole_sound pr rl by simp
  show ?thesis
  proof (cases "IsStaticRole rl")
    case True
    then show ?thesis using rest rl in_org by (simp add: may_def patternsIn_def RoleHasPermission_def ret_def)
  next
    case False
    then obtain ps w2 where ps: "policyPatterns g rl w1 = (Inr ps, w2)" and "Matches ps k"
      using rest rl by (auto simp: bnd_Inr svc_simps)
    then have "ps = patternsIn (tenancy w) g rl" using policyPatterns_sound [OF ps] T rb.granted_empty by auto
    then show ?thesis using in_org \<open>Matches ps k\<close> by (simp add: may_def)
  qed
qed

lemma RequirePermission_sound: "RequirePermission s g k w = (Inr (), w') \<Longrightarrow> may (tenancy w) s g k"
  by (auto simp: RequirePermission_def bnd_Inr throw_def split: if_splits intro: HasPermission_sound)

text \<open>With a working database the policy is exact.\<close>

lemma HasPermission_exact:
  assumes "w_faults w = []"
  shows "HasPermission s g k w = (Inr (may (tenancy w) s g k), w)"
proof -
  have fm: "FindMember g s w = (Inr (map_option snd (storeFindOne (\<lambda>m. memberKey m = (g, s)) (view membersC w))), w)"
    using assms by (simp add: FindMember_def dbFindOne_def db_no_fault)
  have fr: "FindRoleByOrgAndName g r w = (Inr (map_option snd (storeFindOne (\<lambda>x. roleKey x = (g, r)) (view rolesC w))), w)" for r
    using assms by (simp add: FindRoleByOrgAndName_def dbFindOne_def db_no_fault)
  have pr: "policyRole g s w = (Inr (roleIn (tenancy w) g s), w)"
    by (cases "storeFindOne (\<lambda>m. memberKey m = (g, s)) (view membersC w)")
      (simp_all add: policyRole_def bnd_def attempt_def fm ret_def roleIn_def tenancy_def)
  have pp: "policyPatterns g r w = (Inr (patternsIn (tenancy w) g r), w)" for r
    by (cases "storeFindOne (\<lambda>x. roleKey x = (g, r)) (view rolesC w)")
      (simp_all add: policyPatterns_def customRolePermissions_def bnd_def attempt_def fr ret_def patternsIn_def tenancy_def)
  show ?thesis
    by (cases "roleIn (tenancy w) g s")
      (auto simp: HasPermission_def bnd_def pr pp ret_def may_def patternsIn_def RoleHasPermission_def)
qed

text \<open>Members of no organisation may nothing; the built-in roles decide without the roles table.\<close>

lemma may_needs_seat: "may T s g k \<Longrightarrow> \<exists>role. (g, s, role) \<in> seats T"
proof -
  assume "may T s g k"
  then obtain r where "storeFindOne (\<lambda>m. memberKey m = (g, s)) (t_members T) = Some r"
    by (auto simp: may_def roleIn_def split: option.splits)
  then have "r \<in> set (t_members T)" "memberKey (snd r) = (g, s)" by (cases r; auto dest: storeFindOne_Some)+
  then show ?thesis by (force simp: seats_def seat_def memberKey_def)
qed

end
