(* ===== verification/Organizations.thy ===== *)
theory Organizations
  imports Org_Repo
begin

text \<open>
  \<open>internal/platform/org/service.go\<close>, \<open>role_service.go\<close>, \<open>handler.go\<close> and \<open>role_handler.go\<close>: the life
  of an organisation, its members and its custom roles, from the request to the tables. A handler
  is a call on the world: an error of the services is the response, a plain one as the 500 of
  \<open>h.fail\<close>. The project service that new members are propagated to is an argument, because the
  sources inject it too (\<open>SetProjectMemberAdder\<close>).
\<close>

section \<open>The service\<close>

definition FindDefault :: "PlatformConfiguration option svc" where
  "FindDefault = dbFindOne platformConfigsC (\<lambda>_. True)"

text \<open>\<open>wired\<close> says whether the service was built with a platform configuration repository.\<close>

definition isOrganizationsQuotaExceeded :: "bool \<Rightarrow> string \<Rightarrow> bool svc" where
  "isOrganizationsQuotaExceeded wired sub = (if \<not> wired then ret False
     else bnd FindDefault (\<lambda>cfg. case Option.bind cfg plat_OrganizationProvisioningQuota of
         None \<Rightarrow> ret False
       | Some q \<Rightarrow> if \<not> quota_Enabled q then ret False
           else bnd (MembersForSub sub) (\<lambda>ms.
             let owned = length (filter (\<lambda>m. memberRole m = RoleOwner) ms) in ret (quota_Limit q \<le> int owned))))"

definition CreateOrganization :: "bool \<Rightarrow> User \<Rightarrow> string \<Rightarrow> string \<Rightarrow> Organization svc" where
  "CreateOrganization wired creator name description =
     (if name = '''' then throw (HTTPError 400 ''Organization name must not be null'')
      else bnd (isOrganizationsQuotaExceeded wired (user_Sub creator)) (\<lambda>exceeded.
        if exceeded then throw (HTTPError 400 ''Your organizations limit has been reached'')
        else bnd (orgInsert \<lparr> org_ID = '''', org_Name = name, org_Description = description, org_BillingProfileID = '''',
               org_CustomInfo = [], org_CreatedAt = None, org_UpdatedAt = None \<rparr>) (\<lambda>o'.
          bnd (orgAddMember (org_ID o') (user_Sub creator) RoleOwner) (\<lambda>_.
          bnd (CreateForOrganization (org_ID o') \<lparr> owner_Sub = user_Sub creator, owner_Email = user_Email creator,
                 owner_FirstName = user_FirstName creator, owner_LastName = user_LastName creator,
                 owner_FullName = FullName creator \<rparr>) (\<lambda>bpID.
          orgSave (o' \<lparr> org_BillingProfileID := bpID \<rparr>))))))"

definition CanCreateOrganization :: "bool \<Rightarrow> string \<Rightarrow> bool svc" where
  "CanCreateOrganization wired sub = bnd (isOrganizationsQuotaExceeded wired sub) (\<lambda>exceeded. ret (\<not> exceeded))"

definition GetOrganization :: "string \<Rightarrow> Organization svc" where
  "GetOrganization i = bnd (orgFindByID i) (\<lambda>o'. case o' of None \<Rightarrow> throw (HTTPError 404 ''Organization not found'') | Some o' \<Rightarrow> ret o')"

definition GetOrganizationForUser :: "string \<Rightarrow> string \<Rightarrow> Organization svc" where
  "GetOrganizationForUser i userSub = bnd (GetOrganization i) (\<lambda>o'. bnd (FindMember i userSub) (\<lambda>m.
     case m of None \<Rightarrow> throw (HTTPError 400 ''User is not a member of this organization'') | Some _ \<Rightarrow> ret o'))"

text \<open>The loop over the organisations of a profile stops at the first the user is a member of.\<close>

fun firstWithMember :: "string \<Rightarrow> Organization list \<Rightarrow> Organization svc" where
  "firstWithMember userSub [] = throw (HTTPError 404 ''Billing Profile not found'')"
| "firstWithMember userSub (o' # os) = bnd (FindMember (org_ID o') userSub) (\<lambda>m. case m of
     Some _ \<Rightarrow> ret o' | None \<Rightarrow> firstWithMember userSub os)"

definition GetOrganizationForBillingProfile :: "string \<Rightarrow> string \<Rightarrow> Organization svc" where
  "GetOrganizationForBillingProfile bpID userSub = bnd (FindAllByBillingProfileID bpID) (firstWithMember userSub)"

definition GetOrganizationsForUser :: "string \<Rightarrow> Organization list svc" where
  "GetOrganizationsForUser userSub = bnd (OrgIDsForSub userSub) (\<lambda>ids. if ids = [] then ret [] else orgFindByIDs ids)"

definition UpdateOrganization :: "string \<Rightarrow> string \<Rightarrow> string \<Rightarrow> string \<Rightarrow> Organization svc" where
  "UpdateOrganization i userSub name description = bnd (GetOrganizationForUser i userSub) (\<lambda>o'.
     bnd (attempt (FindMember i userSub)) (\<lambda>m. case m of
         Inr (Some m) \<Rightarrow> if \<not> (memberRole m = RoleAdmin \<or> memberRole m = RoleOwner)
           then throw (HTTPError 400 ''User must be an owner or admin to update organization'')
           else orgSave (o' \<lparr> org_Name := (if name \<noteq> '''' then name else org_Name o'),
             org_Description := (if description \<noteq> '''' then description else org_Description o') \<rparr>)
       | _ \<Rightarrow> throw (HTTPError 400 ''User must be an owner or admin to update organization'')))"

definition DeleteOrganization :: "string \<Rightarrow> string \<Rightarrow> unit svc" where
  "DeleteOrganization i userSub = bnd (GetOrganizationForUser i userSub) (\<lambda>_.
     bnd (attempt (FindMember i userSub)) (\<lambda>m. case m of
         Inr (Some m) \<Rightarrow> if memberRole m \<noteq> RoleOwner
           then throw (HTTPError 400 ''Only organization owner can delete the organization'')
           else bnd (CountProjects i) (\<lambda>n.
             if 0 < n then throw (HTTPError 400 ''Cannot delete organization with associated projects. Please delete or move all projects first.'')
             else bnd (DeleteAllMembers i) (\<lambda>_. orgDelete i))
       | _ \<Rightarrow> throw (HTTPError 400 ''Only organization owner can delete the organization'')))"

section \<open>Custom roles\<close>

definition upper_char :: "char \<Rightarrow> char" where
  "upper_char c = (let n = of_char c :: nat in if 97 \<le> n \<and> n \<le> 122 then char_of (n - 32) else c)"

definition toUpper :: "string \<Rightarrow> string" where
  "toUpper s = map upper_char s"

text \<open>The regular expression \<open>^[A-Z][A-Z0-9_]*$\<close>; \<open>$\<close> without flags is the end of the text.\<close>

definition isUpper :: "char \<Rightarrow> bool" where
  "isUpper c \<longleftrightarrow> (let n = of_char c :: nat in 65 \<le> n \<and> n \<le> 90)"

definition isNameChar :: "char \<Rightarrow> bool" where
  "isNameChar c \<longleftrightarrow> isUpper c \<or> (let n = of_char c :: nat in 48 \<le> n \<and> n \<le> 57) \<or> c = CHR ''_''"

definition roleNamePattern :: "string \<Rightarrow> bool" where
  "roleNamePattern s \<longleftrightarrow> (case s of [] \<Rightarrow> False | c # cs \<Rightarrow> isUpper c \<and> list_all isNameChar cs)"

definition validateRoleName :: "string \<Rightarrow> unit res" where
  "validateRoleName name =
    (if IsStaticRole name then Inl (HTTPError 400 (''Cannot use reserved role name '' @ [char_of (39::nat)] @ name @ [char_of (39::nat)]))
     else if \<not> roleNamePattern name
       then Inl (HTTPError 400 ''Role name must start with a letter and contain only uppercase letters, digits, and underscores'')
     else Inr ())"

definition validateRolePermissions :: "string list \<Rightarrow> unit res" where
  "validateRolePermissions permissions =
    (if permissions = [] then Inl (HTTPError 400 ''Permissions must not be empty'')
     else case find (\<lambda>p. \<not> IsValidPermission p) permissions of
         Some p \<Rightarrow> Inl (HTTPError 400 (''Invalid permission: '' @ [char_of (39::nat)] @ p @ [char_of (39::nat)]))
       | None \<Rightarrow> Inr ())"

definition roleCreate :: "string \<Rightarrow> string \<Rightarrow> string \<Rightarrow> string list \<Rightarrow> Role svc" where
  "roleCreate orgID name description permissions = (let normalized = toUpper name in
     bnd (liftR (validateRoleName normalized)) (\<lambda>_.
     bnd (liftR (validateRolePermissions permissions)) (\<lambda>_.
     bnd (ExistsRoleByOrgAndName orgID normalized) (\<lambda>exists.
       if exists then throw (HTTPError 400 (''A role with name '' @ [char_of (39::nat)] @ normalized @ [char_of (39::nat)] @
         '' already exists in this organization''))
       else InsertRole \<lparr> role_ID = '''', role_OrganizationID = orgID, role_Name = normalized, role_Description = description,
         role_Permissions = permissions, role_CreatedAt = None, role_UpdatedAt = None \<rparr>))))"

definition roleInOrg :: "Role option \<Rightarrow> string \<Rightarrow> Role res" where
  "roleInOrg role orgID = (case role of
     Some r \<Rightarrow> if role_OrganizationID r \<noteq> orgID then Inl (HTTPError 404 ''Organization role not found'') else Inr r
   | None \<Rightarrow> Inl (HTTPError 404 ''Organization role not found''))"

text \<open>A nil description or permission list leaves the field alone.\<close>

definition roleUpdate :: "string \<Rightarrow> string \<Rightarrow> string option \<Rightarrow> string list option \<Rightarrow> Role svc" where
  "roleUpdate roleID orgID description permissions = bnd (FindRoleByID roleID) (\<lambda>role.
     bnd (liftR (roleInOrg role orgID)) (\<lambda>role.
     bnd (case permissions of None \<Rightarrow> ret role
        | Some ps \<Rightarrow> bnd (liftR (validateRolePermissions ps)) (\<lambda>_. ret (role \<lparr> role_Permissions := ps \<rparr>))) (\<lambda>role.
     SaveRole (case description of None \<Rightarrow> role | Some d \<Rightarrow> role \<lparr> role_Description := d \<rparr>))))"

definition roleDelete :: "string \<Rightarrow> string \<Rightarrow> unit svc" where
  "roleDelete roleID orgID = bnd (FindRoleByID roleID) (\<lambda>role.
     bnd (liftR (roleInOrg role orgID)) (\<lambda>_. DeleteRole roleID))"

definition roleGetByID :: "string \<Rightarrow> string \<Rightarrow> Role svc" where
  "roleGetByID orgID roleID = bnd (RolesByOrg orgID) (\<lambda>roles. case find (\<lambda>r. role_ID r = roleID) roles of
     Some r \<Rightarrow> ret r | None \<Rightarrow> throw (HTTPError 404 ''Role not found''))"

section \<open>Views\<close>

record OrganizationDto =
  odto_Org :: Organization
  odto_CurrentUserRole :: string
  odto_ProjectCount :: int
  odto_MemberCount :: int
  odto_CurrentUserPermissions :: "string list"

definition orElse :: "'a \<Rightarrow> 'a res \<Rightarrow> 'a" where
  "orElse d r = (case r of Inl _ \<Rightarrow> d | Inr x \<Rightarrow> x)"

definition toDto :: "Organization \<Rightarrow> string \<Rightarrow> OrganizationDto svc" where
  "toDto o' userSub = bnd (UserPermissionKeys userSub (org_ID o')) (\<lambda>perms.
     bnd (attempt (orgMembers (org_ID o'))) (\<lambda>members.
     bnd (attempt (CountProjects (org_ID o'))) (\<lambda>n.
     bnd (UserRole (org_ID o') userSub) (\<lambda>role.
     ret \<lparr> odto_Org = o', odto_CurrentUserRole = role, odto_ProjectCount = orElse 0 n,
       odto_MemberCount = int (length (orElse [] members)), odto_CurrentUserPermissions = sort perms \<rparr>))))"

record MemberDto =
  mdto_Sub :: string
  mdto_FirstName :: string
  mdto_LastName :: string
  mdto_Email :: string
  mdto_Role :: string

record RoleDto =
  rdto_ID :: string
  rdto_Name :: string
  rdto_Description :: string
  rdto_Permissions :: "string list"
  rdto_ExpandedPermissions :: "string list"
  rdto_CreatedAt :: "time option"
  rdto_UpdatedAt :: "time option"
  rdto_BuiltIn :: bool

definition roleDtoFromRole :: "Role \<Rightarrow> RoleDto" where
  "roleDtoFromRole r = \<lparr> rdto_ID = role_ID r, rdto_Name = role_Name r, rdto_Description = role_Description r,
     rdto_Permissions = sort (role_Permissions r), rdto_ExpandedPermissions = ExpandPatterns (role_Permissions r),
     rdto_CreatedAt = role_CreatedAt r, rdto_UpdatedAt = role_UpdatedAt r, rdto_BuiltIn = False \<rparr>"

definition roleDtoFromStatic :: "string \<Rightarrow> RoleDto" where
  "roleDtoFromStatic name = (let patterns = sort (RolePermissions name) in
     \<lparr> rdto_ID = name, rdto_Name = name, rdto_Description = '''', rdto_Permissions = patterns,
       rdto_ExpandedPermissions = ExpandPatterns patterns, rdto_CreatedAt = None, rdto_UpdatedAt = None, rdto_BuiltIn = True \<rparr>)"

end
