(* ===== verification/Org_Handlers.thy ===== *)
theory Org_Handlers
  imports Organizations Tenancy
begin

text \<open>
  \<open>internal/platform/org/handler.go\<close> and \<open>role_handler.go\<close>: the endpoints under
  \<open>/organizations\<close>. Every endpoint resolves the principal, requires it to be a member of the
  organisation and checks a permission before it acts. The theorems are about all of them at
  once: whoever gains or loses a seat in an organisation, the caller was entitled to it, and a
  privileged seat is only ever given by someone who may manage roles.
\<close>

section \<open>Handlers\<close>

text \<open>\<open>h.fail\<close>: an \<open>HTTPError\<close> is written as it is, any other error as a 500.\<close>

definition handler :: "'a svc \<Rightarrow> 'a svc" where
  "handler m w = (case m w of (Inl (Failure _), w') \<Rightarrow> (Inl (HTTPError 500 ''internal.error''), w') | r \<Rightarrow> r)"

definition memberAudit :: "string \<Rightarrow> string \<Rightarrow> unit svc" where
  "memberAudit action orgID = emit (Audit action orgID)"

definition isPrivilegedRole :: "string \<Rightarrow> bool" where
  "isPrivilegedRole role \<longleftrightarrow> role = RoleOwner \<or> role = RoleAdmin"

text \<open>The gate of the role endpoints and of the member endpoints: principal, membership, permission.\<close>

definition orgGate :: "Claims option \<Rightarrow> string \<Rightarrow> string \<Rightarrow> User svc" where
  "orgGate rc i permKey = bnd (principal rc) (\<lambda>u. bnd (GetOrganizationForUser i (user_Sub u)) (\<lambda>_.
     bnd (RequirePermission (user_Sub u) i permKey) (\<lambda>_. ret u)))"

definition selfService :: "bool \<Rightarrow> Claims option \<Rightarrow> bool svc" where
  "selfService wired rc = handler (bnd (principal rc) (\<lambda>u. CanCreateOrganization wired (user_Sub u)))"

definition orgList :: "Claims option \<Rightarrow> OrganizationDto list svc" where
  "orgList rc = handler (bnd (principal rc) (\<lambda>u. bnd (GetOrganizationsForUser (user_Sub u)) (\<lambda>orgs.
     forS (\<lambda>o' acc. bnd (toDto o' (user_Sub u)) (\<lambda>d. ret (acc @ [d]))) orgs [])))"

definition orgCreate :: "bool \<Rightarrow> Claims option \<Rightarrow> string \<Rightarrow> string \<Rightarrow> OrganizationDto svc" where
  "orgCreate wired rc name description = handler (bnd (principal rc) (\<lambda>u.
     bnd (CreateOrganization wired u name description) (\<lambda>o'.
     bnd (memberAudit ''CREATE'' (org_ID o')) (\<lambda>_. toDto o' (user_Sub u)))))"

definition orgGet :: "Claims option \<Rightarrow> string \<Rightarrow> OrganizationDto svc" where
  "orgGet rc i = handler (bnd (principal rc) (\<lambda>u.
     bnd (GetOrganizationForUser i (user_Sub u)) (\<lambda>o'. toDto o' (user_Sub u))))"

definition orgUpdate :: "Claims option \<Rightarrow> string \<Rightarrow> string \<Rightarrow> string \<Rightarrow> OrganizationDto svc" where
  "orgUpdate rc i name description = handler (bnd (orgGate rc i ''organization:update'') (\<lambda>u.
     bnd (UpdateOrganization i (user_Sub u) name description) (\<lambda>o'.
     bnd (memberAudit ''UPDATE'' (org_ID o')) (\<lambda>_. toDto o' (user_Sub u)))))"

definition orgDeleteH :: "Claims option \<Rightarrow> string \<Rightarrow> unit svc" where
  "orgDeleteH rc i = handler (bnd (orgGate rc i ''organization:delete'') (\<lambda>u.
     bnd (DeleteOrganization i (user_Sub u)) (\<lambda>_. memberAudit ''DELETE'' i)))"

text \<open>
  After a member change the organisation and (for a removal or a new role) the member are read
  again with their errors dropped; the view of a missing organisation dereferences nil.
\<close>

definition memberResponse :: "string \<Rightarrow> User \<Rightarrow> string \<Rightarrow> string option \<Rightarrow> OrganizationDto svc" where
  "memberResponse i u action sub = bnd (attempt (GetOrganization i)) (\<lambda>o'.
     bnd (case sub of None \<Rightarrow> ret () | Some s \<Rightarrow> bnd (attempt (FindBySub s)) (\<lambda>_. ret ())) (\<lambda>_.
     bnd (memberAudit action i) (\<lambda>_. case o' of Inr o' \<Rightarrow> toDto o' (user_Sub u) | Inl _ \<Rightarrow> throw (Panic ''nil pointer''))))"

definition orgAddMemberH :: "(string \<Rightarrow> string \<Rightarrow> string list option \<Rightarrow> unit svc) option \<Rightarrow> Claims option \<Rightarrow>
    string \<Rightarrow> string \<Rightarrow> string \<Rightarrow> string list option \<Rightarrow> OrganizationDto svc" where
  "orgAddMemberH adder rc i email role projectIDs = handler (bnd (orgGate rc i ''organization:manage_members'') (\<lambda>u.
     bnd (if isPrivilegedRole role then RequirePermission (user_Sub u) i ''organization:manage_roles'' else ret ()) (\<lambda>_.
     bnd (FindByEmail email) (\<lambda>member. case member of
         None \<Rightarrow> throw (HTTPError 400 (''User with email '' @ email @ '' not found''))
       | Some member \<Rightarrow> bnd (orgAddMember i (user_Sub member) role) (\<lambda>_.
           bnd (case adder of None \<Rightarrow> ret () | Some add \<Rightarrow> add i (user_Sub member) projectIDs) (\<lambda>_.
           memberResponse i u ''ADD_MEMBER'' None))))))"

definition orgRemoveMemberH :: "Claims option \<Rightarrow> string \<Rightarrow> string \<Rightarrow> OrganizationDto svc" where
  "orgRemoveMemberH rc i sub = handler (bnd (orgGate rc i ''organization:manage_members'') (\<lambda>u.
     bnd (orgRemoveMember i sub) (\<lambda>_. memberResponse i u ''REMOVE_MEMBER'' (Some sub))))"

definition orgUpdateMemberRoleH :: "Claims option \<Rightarrow> string \<Rightarrow> string \<Rightarrow> string \<Rightarrow> OrganizationDto svc" where
  "orgUpdateMemberRoleH rc i sub role = handler (bnd (orgGate rc i ''organization:manage_roles'') (\<lambda>u.
     bnd (orgUpdateMemberRole i sub role) (\<lambda>_. memberResponse i u ''CHANGE_ROLE'' (Some sub))))"

definition memberDto :: "Member \<Rightarrow> MemberDto svc" where
  "memberDto m = bnd (attempt (FindBySub (mbr_Sub m))) (\<lambda>mu. let d = \<lparr> mdto_Sub = mbr_Sub m, mdto_FirstName = '''',
       mdto_LastName = '''', mdto_Email = '''', mdto_Role = memberRole m \<rparr> in
     ret (case mu of Inr (Some v) \<Rightarrow> d \<lparr> mdto_FirstName := user_FirstName v, mdto_LastName := user_LastName v,
       mdto_Email := user_Email v \<rparr> | _ \<Rightarrow> d))"

definition orgGetMembers :: "Claims option \<Rightarrow> string \<Rightarrow> MemberDto list svc" where
  "orgGetMembers rc i = handler (bnd (orgGate rc i ''organization:read'') (\<lambda>_. bnd (orgMembers i) (\<lambda>ms.
     forS (\<lambda>m acc. bnd (memberDto m) (\<lambda>d. ret (acc @ [d]))) ms [])))"

section \<open>Role endpoints\<close>

definition listRoles :: "Claims option \<Rightarrow> string \<Rightarrow> RoleDto list svc" where
  "listRoles rc i = handler (bnd (orgGate rc i ''organization:read'') (\<lambda>_. bnd (RolesByOrg i) (\<lambda>custom.
     ret (map roleDtoFromStatic [RoleOwner, RoleAdmin, RoleMember] @ map roleDtoFromRole custom))))"

definition listPermissions :: "Claims option \<Rightarrow> string \<Rightarrow> PermissionMeta list svc" where
  "listPermissions rc i = handler (bnd (orgGate rc i ''organization:read'') (\<lambda>_. ret AllPermissionMeta))"

definition getRole :: "Claims option \<Rightarrow> string \<Rightarrow> string \<Rightarrow> RoleDto svc" where
  "getRole rc i roleID = handler (bnd (orgGate rc i ''organization:read'') (\<lambda>_.
     bnd (roleGetByID i roleID) (\<lambda>r. ret (roleDtoFromRole r))))"

definition createRole :: "Claims option \<Rightarrow> string \<Rightarrow> string \<Rightarrow> string \<Rightarrow> string list \<Rightarrow> RoleDto svc" where
  "createRole rc i name description permissions = handler (bnd (orgGate rc i ''organization:manage_roles'') (\<lambda>_.
     bnd (roleCreate i name description permissions) (\<lambda>r.
     bnd (memberAudit ''CREATE'' (role_ID r)) (\<lambda>_. ret (roleDtoFromRole r)))))"

definition updateRole :: "Claims option \<Rightarrow> string \<Rightarrow> string \<Rightarrow> string option \<Rightarrow> string list option \<Rightarrow> RoleDto svc" where
  "updateRole rc i roleID description permissions = handler (bnd (orgGate rc i ''organization:manage_roles'') (\<lambda>_.
     bnd (roleUpdate roleID i description permissions) (\<lambda>r.
     bnd (memberAudit ''UPDATE'' (role_ID r)) (\<lambda>_. ret (roleDtoFromRole r)))))"

definition deleteRole :: "Claims option \<Rightarrow> string \<Rightarrow> string \<Rightarrow> unit svc" where
  "deleteRole rc i roleID = handler (bnd (orgGate rc i ''organization:manage_roles'') (\<lambda>_.
     bnd (attempt (roleGetByID i roleID)) (\<lambda>_. bnd (roleDelete roleID i) (\<lambda>_. memberAudit ''DELETE'' roleID))))"

section \<open>The router\<close>

datatype org_request =
    SelfService
  | ListOrganizations
  | PostOrganization string string
  | GetOrganizationReq string
  | PutOrganization string string string
  | DeleteOrganizationReq string
  | PostMember string string string "string list option"
  | DeleteMember string string
  | PutMemberRole string string string
  | GetMembers string
  | GetRoles string
  | GetPermissions string
  | GetRole string string
  | PostRole string string string "string list"
  | PutRole string string "string option" "string list option"
  | DeleteRoleReq string string

type_synonym member_adder = "string \<Rightarrow> string \<Rightarrow> string list option \<Rightarrow> unit svc"

definition silent :: "'a svc \<Rightarrow> unit svc" where
  "silent m = bnd m (\<lambda>_. ret ())"

fun serveOrg :: "bool \<Rightarrow> member_adder option \<Rightarrow> Claims option \<Rightarrow> org_request \<Rightarrow> unit svc" where
  "serveOrg wired adder rc SelfService = silent (selfService wired rc)"
| "serveOrg wired adder rc ListOrganizations = silent (orgList rc)"
| "serveOrg wired adder rc (PostOrganization name description) = silent (orgCreate wired rc name description)"
| "serveOrg wired adder rc (GetOrganizationReq i) = silent (orgGet rc i)"
| "serveOrg wired adder rc (PutOrganization i name description) = silent (orgUpdate rc i name description)"
| "serveOrg wired adder rc (DeleteOrganizationReq i) = orgDeleteH rc i"
| "serveOrg wired adder rc (PostMember i email role projectIDs) = silent (orgAddMemberH adder rc i email role projectIDs)"
| "serveOrg wired adder rc (DeleteMember i sub) = silent (orgRemoveMemberH rc i sub)"
| "serveOrg wired adder rc (PutMemberRole i sub role) = silent (orgUpdateMemberRoleH rc i sub role)"
| "serveOrg wired adder rc (GetMembers i) = silent (orgGetMembers rc i)"
| "serveOrg wired adder rc (GetRoles i) = silent (listRoles rc i)"
| "serveOrg wired adder rc (GetPermissions i) = silent (listPermissions rc i)"
| "serveOrg wired adder rc (GetRole i roleID) = silent (getRole rc i roleID)"
| "serveOrg wired adder rc (PostRole i name description permissions) = silent (createRole rc i name description permissions)"
| "serveOrg wired adder rc (PutRole i roleID description permissions) = silent (updateRole rc i roleID description permissions)"
| "serveOrg wired adder rc (DeleteRoleReq i roleID) = deleteRole rc i roleID"

section \<open>What a request may do to the tenancy\<close>

text \<open>A custom role as the validation leaves it.\<close>

definition role_ok :: "Role \<Rightarrow> bool" where
  "role_ok r \<longleftrightarrow> validateRoleName (role_Name r) = Inr () \<and> validateRolePermissions (role_Permissions r) = Inr ()"

text \<open>
  The specification: the steps that a caller with subject \<open>sub\<close> may make in a tenancy \<open>T\<close>, when \<open>G\<close>
  are the ids of the existing organisations. Each step carries the permission it needs.
\<close>

inductive tenancy_step :: "string \<Rightarrow> string set \<Rightarrow> tenancy \<Rightarrow> tenancy \<Rightarrow> bool" for sub G T where
  same: "tenancy_step sub G T T"
| found: "g \<notin> G \<Longrightarrow> seat m = (g, sub, RoleOwner) \<Longrightarrow> k \<notin> fst ` set (t_members T) \<Longrightarrow>
    memberKey m \<notin> (\<lambda>r. memberKey (snd r)) ` set (t_members T) \<Longrightarrow>
    tenancy_step sub G T (T \<lparr> t_members := t_members T @ [(k, m)] \<rparr>)"
| join: "may T sub g ''organization:manage_members'' \<Longrightarrow> (isPrivilegedRole role \<Longrightarrow> may T sub g ''organization:manage_roles'') \<Longrightarrow>
    seat m = (g, s, role) \<Longrightarrow> k \<notin> fst ` set (t_members T) \<Longrightarrow>
    memberKey m \<notin> (\<lambda>r. memberKey (snd r)) ` set (t_members T) \<Longrightarrow>
    tenancy_step sub G T (T \<lparr> t_members := t_members T @ [(k, m)] \<rparr>)"
| leave: "may T sub g ''organization:manage_members'' \<Longrightarrow> (k, m) \<in> set (t_members T) \<Longrightarrow> mbr_OrganizationID m = g \<Longrightarrow>
    tenancy_step sub G T (T \<lparr> t_members := filter (\<lambda>r. fst r \<noteq> k) (t_members T) \<rparr>)"
| rerole: "may T sub g ''organization:manage_roles'' \<Longrightarrow> (k, m) \<in> set (t_members T) \<Longrightarrow> mbr_OrganizationID m = g \<Longrightarrow>
    tenancy_step sub G T (T \<lparr> t_members := replaceRow k (\<lambda>m. m \<lparr> mbr_Roles := [role], mbr_UpdatedAt := Some now \<rparr>) (t_members T) \<rparr>)"
| dissolve: "may T sub g ''organization:delete'' \<Longrightarrow>
    tenancy_step sub G T (T \<lparr> t_members := filter (\<lambda>r. mbr_OrganizationID (snd r) \<noteq> g) (t_members T) \<rparr>)"
| enact: "may T sub g ''organization:manage_roles'' \<Longrightarrow> role_ok r \<Longrightarrow> role_OrganizationID r = g \<Longrightarrow> k \<notin> fst ` set (t_roles T) \<Longrightarrow>
    roleKey r \<notin> (\<lambda>x. roleKey (snd x)) ` set (t_roles T) \<Longrightarrow>
    tenancy_step sub G T (T \<lparr> t_roles := t_roles T @ [(k, r)] \<rparr>)"
| amend: "may T sub g ''organization:manage_roles'' \<Longrightarrow> map_of (t_roles T) k = Some r \<Longrightarrow> role_OrganizationID r = g \<Longrightarrow>
    (validateRolePermissions ps = Inr () \<or> ps = role_Permissions r) \<Longrightarrow>
    tenancy_step sub G T (T \<lparr> t_roles := replaceRow k (\<lambda>d. d \<lparr> role_Description := desc, role_Permissions := ps, role_UpdatedAt := Some now \<rparr>) (t_roles T) \<rparr>)"
| repeal: "may T sub g ''organization:manage_roles'' \<Longrightarrow> map_of (t_roles T) k = Some r \<Longrightarrow> role_OrganizationID r = g \<Longrightarrow>
    tenancy_step sub G T (T \<lparr> t_roles := filter (\<lambda>x. fst x \<noteq> k) (t_roles T) \<rparr>)"

section \<open>The handlers follow the specification\<close>

lemma keeps_handler [leaves_intros]: "keeps f m \<Longrightarrow> keeps f (handler m)"
  unfolding keeps_def handler_def by (fastforce split: prod.splits sum.splits error.splits)

lemma triple_handler: "triple P m Q E \<Longrightarrow> triple P (handler m) Q E"
  unfolding triple_def handler_def by (fastforce split: prod.splits sum.splits error.splits)

lemma triple_silent: "triple P m (\<lambda>_. Q) E \<Longrightarrow> triple P (silent m) (\<lambda>_. Q) E"
  unfolding silent_def by (erule triple_bnd) (simp add: triple_ret)

lemma quiet_orgs [quiet_intros]:
  "quiet (GetOrganization i)" "quiet (GetOrganizationForUser i s)" "quiet (CountProjects i)" "quiet (orgMembers i)"
  "quiet (toDto o' s)" "quiet (memberAudit a i)" "quiet (memberDto m)" "quiet (memberResponse i u a x)"
  unfolding GetOrganization_def GetOrganizationForUser_def CountProjects_def orgMembers_def toDto_def memberAudit_def memberDto_def
    memberResponse_def orgFindByID_def
  by (intro quiet_intros)+

lemma keeps_gate: "keeps tenancy (orgGate rc i k)"
  unfolding orgGate_def by (intro leaves_intros keeps_principal keeps_tenancy_quiet quiet_intros)

lemma gate_triple:
  "triple (\<lambda>w. tenancy w = T) (orgGate (Some c) i k)
     (\<lambda>u w. (user_Sub u = claim_Sub c \<and> may T (claim_Sub c) i k) \<and> tenancy w = T) (\<lambda>w. tenancy w = T)"
proof (rule tripleI)
  fix w r w'
  assume T: "tenancy w = T" and run: "orgGate (Some c) i k w = (r, w')"
  have T': "tenancy w' = T" using leavesD [OF keeps_gate run] T by simp
  show "case r of Inl e \<Rightarrow> tenancy w' = T | Inr u \<Rightarrow> (user_Sub u = claim_Sub c \<and> may T (claim_Sub c) i k) \<and> tenancy w' = T"
  proof (cases r)
    case (Inr u)
    with run obtain v w1 o' w2 w3 where p: "principal (Some c) w = (Inr v, w1)"
      and g: "GetOrganizationForUser i (user_Sub v) w1 = (Inr o', w2)"
      and rp: "RequirePermission (user_Sub v) i k w2 = (Inr (), w3)" and u: "u = v"
      by (auto simp: orgGate_def bnd_Inr ret_def)
    have "tenancy w2 = T"
      using leavesD [OF keeps_principal p] leavesD [OF keeps_tenancy_quiet [OF quiet_orgs(2)] g] T by simp
    moreover have "user_Sub v = claim_Sub c" using principal_found [OF p] by blast
    ultimately show ?thesis using RequirePermission_sound [OF rp] Inr u T' by simp
  qed (simp add: T')
qed

text \<open>A gated handler: what remains runs with the permission in hand.\<close>

lemma triple_gate:
  assumes "\<And>u. user_Sub u = claim_Sub c \<Longrightarrow> may T (claim_Sub c) i k \<Longrightarrow> triple (\<lambda>w. tenancy w = T) (f u) Q E"
    and "\<And>w. tenancy w = T \<Longrightarrow> E w"
  shows "triple (\<lambda>w. tenancy w = T) (handler (bnd (orgGate (Some c) i k) f)) Q E"
  by (rule triple_handler, rule triple_seq [OF gate_triple]) (use assms in \<open>auto intro!: triple_fact\<close>)

text \<open>A suffix that keeps the tenancy keeps what is known about it.\<close>

lemma triple_then:
  assumes "triple P m (\<lambda>_ w. Q (tenancy w)) (\<lambda>w. Q (tenancy w))" and "\<And>x. keeps tenancy (f x)"
  shows "triple P (bnd m f) (\<lambda>_ w. Q (tenancy w)) (\<lambda>w. Q (tenancy w))"
  by (rule triple_bnd [OF assms(1)]) (rule keeps_triple [OF assms(2)])


lemma view_memberKey: "(\<lambda>r. memberKey (snd r)) ` set (view membersC w) = (\<lambda>r. memberKey (snd r)) ` set (c_table membersC w)"
  by (simp add: view_def image_image case_prod_beta membersC_def memberKey_def)

lemma view_roleKey: "(\<lambda>r. roleKey (snd r)) ` set (view rolesC w) = (\<lambda>r. roleKey (snd r)) ` set (c_table rolesC w)"
  by (simp add: view_def image_image case_prod_beta rolesC_def roleKey_def)

text \<open>The writes of the repository, as changes of the tenancy.\<close>

lemma tenancy_stored:
  assumes "stored w' = stored w"
  shows "tenancy w' = tenancy w"
  unfolding tenancy_def members.view_stored [OF assms] roles.view_stored [OF assms] ..

lemma add_member_triple:
  "triple (\<lambda>w. tenancy w = T) (orgAddMember g s role)
     (\<lambda>_ w. \<exists>k m. seat m = (g, s, role) \<and> k \<notin> fst ` set (t_members T) \<and> memberKey m \<notin> (\<lambda>r. memberKey (snd r)) ` set (t_members T) \<and>
        tenancy w = T \<lparr> t_members := t_members T @ [(k, m)] \<rparr>)
     (\<lambda>w. tenancy w = T)"
proof (rule tripleI)
  fix w r w'
  assume T: "tenancy w = T" and run: "orgAddMember g s role w = (r, w')"
  obtain now w1 where now: "timeNow w = (Inr now, w1)" using timeNow_run by (cases "timeNow w") auto
  let ?m = "\<lparr> mbr_ID = '''', mbr_OrganizationID = g, mbr_Sub = s, mbr_Roles = [role], mbr_CreatedAt = Some now, mbr_UpdatedAt = Some now \<rparr>"
  have "stored w1 = stored w" using timeNow_run [OF now] by simp
  from tenancy_stored [OF this] have T1: "tenancy w1 = T" using T by simp
  have body: "bnd (dbInsertUnique membersC memberKey ?m) (\<lambda>i. ret (?m \<lparr> mbr_ID := i \<rparr>)) w1 = (r, w')"
    using run now by (simp add: orgAddMember_def bnd_def Let_def)
  show "case r of Inl e \<Rightarrow> tenancy w' = T | Inr x \<Rightarrow> \<exists>k m. seat m = (g, s, role) \<and> k \<notin> fst ` set (t_members T) \<and>
      memberKey m \<notin> (\<lambda>r. memberKey (snd r)) ` set (t_members T) \<and> tenancy w' = T \<lparr> t_members := t_members T @ [(k, m)] \<rparr>"
  proof (cases r)
    case (Inl e)
    then have "dbInsertUnique membersC memberKey ?m w1 = (Inl e, w')" using body by (auto simp: bnd_Inl ret_def)
    then have "stored w' = stored w1" by (rule dbInsertUnique_Inl)
    from tenancy_stored [OF this] show ?thesis using Inl T1 by simp
  next
    case (Inr x)
    then obtain i where ins: "dbInsertUnique membersC memberKey ?m w1 = (Inr i, w')" using body by (auto simp: bnd_Inr ret_def)
    have row: "view membersC w' = view membersC w1 @ [(i, ?m \<lparr> mbr_ID := i \<rparr>)]" "i \<notin> fst ` set (view membersC w1)"
      using members.insert_run [OF members.insert_unique_run(1) [OF ins]] by (simp_all add: membersC_def)
    let ?m' = "?m \<lparr> mbr_ID := i \<rparr>"
    have "memberKey ?m \<notin> (\<lambda>r. memberKey (snd r)) ` set (view membersC w1)"
      using members.insert_unique_run(2) [OF ins] unfolding view_memberKey by auto
    moreover have "memberKey ?m' = memberKey ?m" by (simp add: memberKey_def)
    moreover have "view rolesC w' = view rolesC w1" using leavesD [OF roles.leaves_more_writes(5) ins] by simp
    then have "tenancy w' = T \<lparr> t_members := t_members T @ [(i, ?m')] \<rparr>" "t_members T = view membersC w1"
      using row(1) T1 by (auto simp: tenancy_def)
    moreover have "seat ?m' = (g, s, role)" by (simp add: seat_def memberRole_def)
    ultimately show ?thesis unfolding Inr sum.case using row(2) by metis
  qed
qed

lemma find_view: "find (\<lambda>r. P (snd r)) t = Some r \<Longrightarrow> r \<in> set t \<and> P (snd r)"
  by (induction t) (auto split: if_splits)

lemma remove_member_triple:
  assumes "may T sub g ''organization:manage_members''"
  shows "triple (\<lambda>w. tenancy w = T) (orgRemoveMember g s)
    (\<lambda>_ w. tenancy_step sub G T (tenancy w)) (\<lambda>w. tenancy_step sub G T (tenancy w))"
proof (rule tripleI)
  fix w r w'
  assume T: "tenancy w = T" and run: "orgRemoveMember g s w = (r, w')"
  let ?P = "\<lambda>m. memberKey m = (g, s)"
  have "tenancy_step sub G T (tenancy w')"
  proof (cases r)
    case (Inl e)
    then have "dbDeleteOne membersC ?P w = (Inl e, w')" using run by (auto simp: orgRemoveMember_def bnd_Inl ret_def)
    then have "stored w' = stored w" by (rule failed_deletes)
    from tenancy_stored [OF this] show ?thesis using T by (simp add: same)
  next
    case (Inr x)
    then obtain b where del: "dbDeleteOne membersC ?P w = (Inr b, w')" using run by (auto simp: orgRemoveMember_def bnd_Inr ret_def)
    have roles: "view rolesC w' = view rolesC w" using leavesD [OF roles.leaves_more_writes(4) del] by simp
    show ?thesis
    proof (cases "find (\<lambda>r. ?P (snd r)) (view membersC w)")
      case None
      then have "stored w' = stored w" using members.delete_one_run [OF del] by simp
      from tenancy_stored [OF this] show ?thesis using T by (simp add: same)
    next
      case (Some row)
      then have "tenancy w' = T \<lparr> t_members := filter (\<lambda>s. fst s \<noteq> fst row) (t_members T) \<rparr>"
        using members.delete_one_run [OF del] T roles by (auto simp: tenancy_def)
      moreover have "(fst row, snd row) \<in> set (t_members T)" "mbr_OrganizationID (snd row) = g"
        using find_view [of ?P, OF Some] T by (auto simp: tenancy_def memberKey_def)
      ultimately show ?thesis using leave [OF assms, of "fst row" "snd row"] by simp
    qed
  qed
  then show "case r of Inl e \<Rightarrow> tenancy_step sub G T (tenancy w') | Inr x \<Rightarrow> tenancy_step sub G T (tenancy w')" by (cases r) auto
qed

lemma member_role_triple:
  assumes "may T sub g ''organization:manage_roles''"
  shows "triple (\<lambda>w. tenancy w = T) (orgUpdateMemberRole g s role)
    (\<lambda>_ w. tenancy_step sub G T (tenancy w)) (\<lambda>w. tenancy_step sub G T (tenancy w))"
proof (rule tripleI)
  fix w r w'
  assume T: "tenancy w = T" and run: "orgUpdateMemberRole g s role w = (r, w')"
  obtain now w1 where now: "timeNow w = (Inr now, w1)" using timeNow_run by (cases "timeNow w") auto
  let ?P = "\<lambda>m. memberKey m = (g, s)" and ?f = "\<lambda>m. m \<lparr> mbr_Roles := [role], mbr_UpdatedAt := Some now \<rparr>"
  have "stored w1 = stored w" using timeNow_run [OF now] by simp
  from tenancy_stored [OF this] have T1: "tenancy w1 = T" using T by simp
  have body: "bnd (dbSetFieldsOne membersC ?P ?f) (\<lambda>_. ret ()) w1 = (r, w')" using run now by (simp add: orgUpdateMemberRole_def bnd_def)
  have "tenancy_step sub G T (tenancy w')"
  proof (cases r)
    case (Inl e)
    then have "dbSetFieldsOne membersC ?P ?f w1 = (Inl e, w')" using body by (auto simp: bnd_Inl ret_def)
    then have "stored w' = stored w1" by (rule failed_deletes)
    from tenancy_stored [OF this] show ?thesis using T1 by (simp add: same)
  next
    case (Inr x)
    then obtain b where upd: "dbSetFieldsOne membersC ?P ?f w1 = (Inr b, w')" using body by (auto simp: bnd_Inr ret_def)
    have roles: "view rolesC w' = view rolesC w1" using leavesD [OF roles.leaves_more_writes(2) upd] by simp
    have comm: "c_setID membersC j (?f d) = ?f (c_setID membersC j d)" for j d by (simp add: membersC_def)
    show ?thesis
    proof (cases "find (\<lambda>r. ?P (snd r)) (view membersC w1)")
      case None
      then have "stored w' = stored w1" using members.set_fields_one_run [OF upd comm] by simp
      from tenancy_stored [OF this] show ?thesis using T1 by (simp add: same)
    next
      case (Some row)
      then have "tenancy w' = T \<lparr> t_members := replaceRow (fst row) ?f (t_members T) \<rparr>"
        using members.set_fields_one_run [OF upd comm] T1 roles by (auto simp: tenancy_def)
      moreover have "(fst row, snd row) \<in> set (t_members T)" "mbr_OrganizationID (snd row) = g"
        using find_view [of ?P, OF Some] T1 by (auto simp: tenancy_def memberKey_def)
      ultimately show ?thesis using rerole [OF assms, of "fst row" "snd row"] by simp
    qed
  qed
  then show "case r of Inl e \<Rightarrow> tenancy_step sub G T (tenancy w') | Inr x \<Rightarrow> tenancy_step sub G T (tenancy w')" by (cases r) auto
qed


lemma triple_lift:
  "(\<And>x. r = Inr x \<Longrightarrow> triple P (f x) Q E) \<Longrightarrow> (\<And>w. P w \<Longrightarrow> E w) \<Longrightarrow> triple P (bnd (liftR r) f) Q E"
  by (cases r) (auto simp: triple_def bnd_def liftR_def)

lemma InsertRole_triple:
  assumes "may T sub g ''organization:manage_roles''" and "role_ok r" and "role_OrganizationID r = g" and "role_ID r = []"
  shows "triple (\<lambda>w. tenancy w = T) (InsertRole r)
    (\<lambda>_ w. tenancy_step sub G T (tenancy w)) (\<lambda>w. tenancy_step sub G T (tenancy w))"
proof (rule tripleI)
  fix w rr w'
  assume T: "tenancy w = T" and run: "InsertRole r w = (rr, w')"
  obtain now w1 where now: "timeNow w = (Inr now, w1)" using timeNow_run by (cases "timeNow w") auto
  let ?r = "r \<lparr> role_CreatedAt := Some now, role_UpdatedAt := Some now \<rparr>"
  have "stored w1 = stored w" using timeNow_run [OF now] by simp
  from tenancy_stored [OF this] have T1: "tenancy w1 = T" using T by simp
  have body: "bnd (dbInsertUnique rolesC roleKey ?r) (\<lambda>i. ret (?r \<lparr> role_ID := i \<rparr>)) w1 = (rr, w')"
    using run now by (simp add: InsertRole_def bnd_def Let_def)
  have "tenancy_step sub G T (tenancy w')"
  proof (cases rr)
    case (Inl e)
    then have "dbInsertUnique rolesC roleKey ?r w1 = (Inl e, w')" using body by (auto simp: bnd_Inl ret_def)
    then have "stored w' = stored w1" by (rule dbInsertUnique_Inl)
    from tenancy_stored [OF this] show ?thesis using T1 by (simp add: same)
  next
    case (Inr x)
    then obtain i where ins: "dbInsertUnique rolesC roleKey ?r w1 = (Inr i, w')" using body by (auto simp: bnd_Inr ret_def)
    let ?r' = "?r \<lparr> role_ID := i \<rparr>"
    have row: "view rolesC w' = view rolesC w1 @ [(i, ?r')]" "i \<notin> fst ` set (view rolesC w1)"
      using roles.insert_run [OF roles.insert_unique_run(1) [OF ins]] by (simp_all add: rolesC_def)
    have "roleKey ?r \<notin> (\<lambda>x. roleKey (snd x)) ` set (view rolesC w1)"
      using roles.insert_unique_run(2) [OF ins] unfolding view_roleKey by auto
    then have key: "roleKey ?r' \<notin> (\<lambda>x. roleKey (snd x)) ` set (view rolesC w1)" by (simp add: roleKey_def)
    have "view membersC w' = view membersC w1" using leavesD [OF members.leaves_more_writes(5) ins] by simp
    then have "tenancy w' = T \<lparr> t_roles := t_roles T @ [(i, ?r')] \<rparr>" and t: "t_roles T = view rolesC w1"
      using row(1) T1 by (auto simp: tenancy_def)
    moreover have "role_ok ?r'" "role_OrganizationID ?r' = g" using assms by (simp_all add: role_ok_def)
    ultimately show ?thesis using enact [OF assms(1), of ?r' i] row(2) key by simp
  qed
  then show "case rr of Inl e \<Rightarrow> tenancy_step sub G T (tenancy w') | Inr x \<Rightarrow> tenancy_step sub G T (tenancy w')" by (cases rr) auto
qed

lemma roleCreate_triple:
  assumes "may T sub g ''organization:manage_roles''"
  shows "triple (\<lambda>w. tenancy w = T) (roleCreate g name description permissions)
    (\<lambda>_ w. tenancy_step sub G T (tenancy w)) (\<lambda>w. tenancy_step sub G T (tenancy w))"
proof -
  let ?Q = "\<lambda>w. tenancy_step sub G T (tenancy w)"
  have refuse: "triple (\<lambda>w. tenancy w = T) (throw e) (\<lambda>_. ?Q) ?Q" for e :: error by (rule triple_throw) (simp add: same)
  have q: "quiet (ExistsRoleByOrgAndName g n)" for n unfolding ExistsRoleByOrgAndName_def by (intro quiet_intros)
  have "triple (\<lambda>w. tenancy w = T) (bnd (ExistsRoleByOrgAndName g n) (\<lambda>ex. if ex then throw e else InsertRole r)) (\<lambda>_. ?Q) ?Q"
    if "role_ok r" "role_OrganizationID r = g" "role_ID r = []" for n e r
    by (rule triple_seq [OF leaves_triple [OF keeps_tenancy_quiet [OF q]]])
      (auto simp: same intro!: triple_if refuse InsertRole_triple [OF assms] that)
  then show ?thesis
    unfolding roleCreate_def Let_def by (intro triple_lift) (auto simp: same role_ok_def)
qed

lemma roleInOrg_Inr: "roleInOrg x g = Inr r \<longleftrightarrow> x = Some r \<and> role_OrganizationID r = g"
  by (auto simp: roleInOrg_def split: option.splits if_splits)

lemma storeGet_map_of_Some: "storeGet t k = Some r \<Longrightarrow> map_of t k = Some r"
  by (simp add: storeGet_def split: if_splits)

text \<open>What a lookup by id, checked against the organisation, has found.\<close>

lemma FindRole_triple:
  "triple (\<lambda>w. tenancy w = T) (FindRoleByID k) (\<lambda>x w. (case x of None \<Rightarrow> True | Some r \<Rightarrow> map_of (t_roles T) k = Some r \<and> role_ID r = k) \<and> tenancy w = T)
     (\<lambda>w. tenancy w = T)"
proof (rule tripleI)
  fix w x w'
  assume T: "tenancy w = T" and run: "FindRoleByID k w = (x, w')"
  have q: "quiet (FindRoleByID k)" unfolding FindRoleByID_def by (intro quiet_intros)
  have T': "tenancy w' = T" using leavesD [OF keeps_tenancy_quiet [OF q] run] T by simp
  show "case x of Inl e \<Rightarrow> tenancy w' = T
    | Inr x \<Rightarrow> (case x of None \<Rightarrow> True | Some r \<Rightarrow> map_of (t_roles T) k = Some r \<and> role_ID r = k) \<and> tenancy w' = T"
  proof (cases x)
    case (Inr y)
    then have "y = storeGet (view rolesC w) k" using roles.get_run run unfolding FindRoleByID_def by blast
    moreover have "role_ID r = k" if "storeGet (view rolesC w) k = Some r" for r
      using roles.view_get_ID [OF that] by (simp add: rolesC_def)
    ultimately show ?thesis using Inr T T' by (auto simp: tenancy_def dest: storeGet_map_of_Some split: option.split)
  qed (simp add: T')
qed

lemma SaveRole_triple:
  assumes "may T sub g ''organization:manage_roles''" and "map_of (t_roles T) k = Some r0" and "role_OrganizationID r0 = g"
    and "role_ID r = k" and "validateRolePermissions (role_Permissions r) = Inr () \<or> role_Permissions r = role_Permissions r0"
  shows "triple (\<lambda>w. tenancy w = T) (SaveRole r)
    (\<lambda>_ w. tenancy_step sub G T (tenancy w)) (\<lambda>w. tenancy_step sub G T (tenancy w))"
proof (rule tripleI)
  fix w rr w'
  assume T: "tenancy w = T" and run: "SaveRole r w = (rr, w')"
  obtain now w1 where now: "timeNow w = (Inr now, w1)" using timeNow_run by (cases "timeNow w") auto
  let ?f = "\<lambda>d. d \<lparr> role_Description := role_Description r, role_Permissions := role_Permissions r, role_UpdatedAt := Some now \<rparr>"
  have "stored w1 = stored w" using timeNow_run [OF now] by simp
  from tenancy_stored [OF this] have T1: "tenancy w1 = T" using T by simp
  have body: "bnd (dbSetByID rolesC k ?f) (\<lambda>_. ret (r \<lparr> role_UpdatedAt := Some now \<rparr>)) w1 = (rr, w')"
    using run now assms(4) by (simp add: SaveRole_def bnd_def Let_def)
  have "tenancy_step sub G T (tenancy w')"
  proof (cases rr)
    case (Inl e)
    then have "dbSetByID rolesC k ?f w1 = (Inl e, w')" using body by (auto simp: bnd_Inl ret_def)
    then have "stored w' = stored w1" by (rule failed_writes)
    from tenancy_stored [OF this] show ?thesis using T1 by (simp add: same)
  next
    case (Inr x)
    then obtain b where upd: "dbSetByID rolesC k ?f w1 = (Inr b, w')" using body by (auto simp: bnd_Inr ret_def)
    have comm: "c_setID rolesC j (?f d) = ?f (c_setID rolesC j d)" for j d by (simp add: rolesC_def)
    have "view rolesC w' = replaceRow k ?f (view rolesC w1)" by (rule roles.set_by_id_run(3) [OF upd comm])
    moreover have "view membersC w' = view membersC w1" using leavesD [OF members.leaves_more_writes(1) upd] by simp
    ultimately have "tenancy w' = T \<lparr> t_roles := replaceRow k ?f (t_roles T) \<rparr>" using T1 by (auto simp: tenancy_def)
    then show ?thesis using amend [OF assms(1-3,5)] by simp
  qed
  then show "case rr of Inl e \<Rightarrow> tenancy_step sub G T (tenancy w') | Inr x \<Rightarrow> tenancy_step sub G T (tenancy w')" by (cases rr) auto
qed

lemma roleUpdate_triple:
  assumes "may T sub g ''organization:manage_roles''"
  shows "triple (\<lambda>w. tenancy w = T) (roleUpdate k g description permissions)
    (\<lambda>_ w. tenancy_step sub G T (tenancy w)) (\<lambda>w. tenancy_step sub G T (tenancy w))"
  unfolding roleUpdate_def
proof (rule triple_seq [OF FindRole_triple], simp add: same, rule triple_fact, rule triple_lift)
  let ?Q = "\<lambda>w. tenancy_step sub G T (tenancy w)"
  fix x r
  assume "case x of None \<Rightarrow> True | Some r \<Rightarrow> map_of (t_roles T) k = Some r \<and> role_ID r = k" and "roleInOrg x g = Inr r"
  then have r: "map_of (t_roles T) k = Some r" "role_OrganizationID r = g" "role_ID r = k" by (simp_all add: roleInOrg_Inr)
  let ?save = "\<lambda>role. SaveRole (case description of None \<Rightarrow> role | Some d \<Rightarrow> role \<lparr> role_Description := d \<rparr>)"
  have save: "triple (\<lambda>w. tenancy w = T) (?save role) (\<lambda>_. ?Q) ?Q"
    if "role_ID role = k" "validateRolePermissions (role_Permissions role) = Inr () \<or> role_Permissions role = role_Permissions r" for role
    by (rule SaveRole_triple [OF assms r(1,2)]) (use that in \<open>auto split: option.splits\<close>)
  show "triple (\<lambda>w. tenancy w = T) (bnd (case permissions of None \<Rightarrow> ret r
      | Some ps \<Rightarrow> bnd (liftR (validateRolePermissions ps)) (\<lambda>_. ret (r \<lparr> role_Permissions := ps \<rparr>))) ?save) (\<lambda>_. ?Q) ?Q"
  proof (cases permissions)
    case None
    have "bnd (ret r) ?save = ?save r" by (simp add: bnd_def ret_def fun_eq_iff)
    then show ?thesis using None save [of r] r by simp
  next
    case (Some ps)
    have "bnd (bnd (liftR (validateRolePermissions ps)) (\<lambda>_. ret (r \<lparr> role_Permissions := ps \<rparr>))) ?save =
        bnd (liftR (validateRolePermissions ps)) (\<lambda>_. ?save (r \<lparr> role_Permissions := ps \<rparr>))"
      by (simp add: bnd_def ret_def liftR_def fun_eq_iff split: sum.split)
    moreover have "triple (\<lambda>w. tenancy w = T) (bnd (liftR (validateRolePermissions ps)) (\<lambda>_. ?save (r \<lparr> role_Permissions := ps \<rparr>))) (\<lambda>_. ?Q) ?Q"
      by (rule triple_lift) (use save [of "r \<lparr> role_Permissions := ps \<rparr>"] r in \<open>auto simp: same\<close>)
    ultimately show ?thesis using Some by simp
  qed
qed (simp add: same)

lemma roleDelete_triple:
  assumes "may T sub g ''organization:manage_roles''"
  shows "triple (\<lambda>w. tenancy w = T) (roleDelete k g)
    (\<lambda>_ w. tenancy_step sub G T (tenancy w)) (\<lambda>w. tenancy_step sub G T (tenancy w))"
  unfolding roleDelete_def
proof (rule triple_seq [OF FindRole_triple], simp add: same, rule triple_fact, rule triple_lift)
  fix x r
  assume "case x of None \<Rightarrow> True | Some r \<Rightarrow> map_of (t_roles T) k = Some r \<and> role_ID r = k" and "roleInOrg x g = Inr r"
  then have r: "map_of (t_roles T) k = Some r" "role_OrganizationID r = g" by (simp_all add: roleInOrg_Inr)
  show "triple (\<lambda>w. tenancy w = T) (DeleteRole k) (\<lambda>_ w. tenancy_step sub G T (tenancy w)) (\<lambda>w. tenancy_step sub G T (tenancy w))"
  proof (rule tripleI)
    fix w rr w'
    assume T: "tenancy w = T" and run: "DeleteRole k w = (rr, w')"
    have "tenancy_step sub G T (tenancy w')"
    proof (cases rr)
      case (Inl e)
      then have "dbDeleteByID rolesC k w = (Inl e, w')" using run by (auto simp: DeleteRole_def bnd_Inl ret_def)
      then have "stored w' = stored w" by (rule failed_writes)
      from tenancy_stored [OF this] show ?thesis using T by (simp add: same)
    next
      case (Inr y)
      then obtain b where del: "dbDeleteByID rolesC k w = (Inr b, w')" using run by (auto simp: DeleteRole_def bnd_Inr ret_def)
      have "view membersC w' = view membersC w" using leavesD [OF members.leaves_writes(3) del] by simp
      then have "tenancy w' = T \<lparr> t_roles := filter (\<lambda>x. fst x \<noteq> k) (t_roles T) \<rparr>"
        using roles.delete_run(2) [OF del] T by (auto simp: tenancy_def)
      then show ?thesis using repeal [OF assms r] by simp
    qed
    then show "case rr of Inl e \<Rightarrow> tenancy_step sub G T (tenancy w') | Inr x \<Rightarrow> tenancy_step sub G T (tenancy w')" by (cases rr) auto
  qed
qed (simp add: same)

lemma DeleteOrganization_triple:
  assumes "may T sub g ''organization:delete''"
  shows "triple (\<lambda>w. tenancy w = T) (DeleteOrganization g s)
    (\<lambda>_ w. tenancy_step sub G T (tenancy w)) (\<lambda>w. tenancy_step sub G T (tenancy w))"
proof -
  let ?Q = "\<lambda>w. tenancy_step sub G T (tenancy w)"
  have refuse: "triple (\<lambda>w. tenancy w = T) (throw e) (\<lambda>_. ?Q) ?Q" for e :: error by (rule triple_throw) (simp add: same)
  have members: "triple (\<lambda>w. tenancy w = T) (DeleteAllMembers g) (\<lambda>_. ?Q) ?Q"
  proof (rule tripleI)
    fix w rr w'
    assume T: "tenancy w = T" and run: "DeleteAllMembers g w = (rr, w')"
    let ?P = "\<lambda>m. mbr_OrganizationID m = g"
    have "?Q w'"
    proof (cases rr)
      case (Inl e)
      then have "dbDeleteMany membersC ?P w = (Inl e, w')" using run by (auto simp: DeleteAllMembers_def bnd_Inl ret_def)
      then have "stored w' = stored w" by (rule failed_deletes)
      from tenancy_stored [OF this] show ?thesis using T by (simp add: same)
    next
      case (Inr y)
      then obtain n where del: "dbDeleteMany membersC ?P w = (Inr n, w')" using run by (auto simp: DeleteAllMembers_def bnd_Inr ret_def)
      have "view rolesC w' = view rolesC w" using leavesD [OF roles.leaves_more_writes(3) del] by simp
      then have "tenancy w' = T \<lparr> t_members := filter (\<lambda>r. mbr_OrganizationID (snd r) \<noteq> g) (t_members T) \<rparr>"
        using members.delete_many_run(1) [OF del] T by (auto simp: tenancy_def)
      then show ?thesis using dissolve [OF assms] by simp
    qed
    then show "case rr of Inl e \<Rightarrow> ?Q w' | Inr x \<Rightarrow> ?Q w'" by (cases rr) auto
  qed
  have "keeps tenancy (orgDelete g)"
    unfolding orgDelete_def by (intro leaves_intros keeps_tenancyI members.leaves_writes roles.leaves_writes) simp_all
  then have delete: "triple (\<lambda>w. tenancy w = T) (bnd (DeleteAllMembers g) (\<lambda>_. orgDelete g)) (\<lambda>_. ?Q) ?Q"
    by (intro triple_then members)
  have step: "triple (\<lambda>w. tenancy w = T) (bnd m f) (\<lambda>_. ?Q) ?Q"
    if "quiet m" "\<And>x. triple (\<lambda>w. tenancy w = T) (f x) (\<lambda>_. ?Q) ?Q" for m :: "'x svc" and f
    by (rule triple_seq [OF leaves_triple [OF keeps_tenancy_quiet [OF that(1)]]]) (simp_all add: same that(2))
  show ?thesis
    unfolding DeleteOrganization_def
    by (intro step quiet_intros) (auto intro!: refuse delete step quiet_intros split: sum.split option.split)
qed


text \<open>A founded organisation has a fresh id, and its first seat is the caller's.\<close>

definition knownOrgs :: "world \<Rightarrow> string set" where
  "knownOrgs w = fst ` set (view orgsC w)"

lemma orgInsert_triple:
  assumes "org_ID o' = []"
  shows "triple (\<lambda>w. tenancy w = T \<and> knownOrgs w = G) (orgInsert o') (\<lambda>x w. org_ID x \<notin> G \<and> tenancy w = T) (\<lambda>w. tenancy w = T)"
proof (rule tripleI)
  fix w rr w'
  assume pre: "tenancy w = T \<and> knownOrgs w = G" and run: "orgInsert o' w = (rr, w')"
  have "keeps tenancy (dbInsertOne orgsC d)" for d
    by (intro keeps_tenancyI members.leaves_writes roles.leaves_writes) simp_all
  then have "keeps tenancy (orgInsert o')"
    unfolding orgInsert_def Let_def by (intro leaves_intros keeps_tenancy_quiet [OF quiet_timeNow])
  then have T': "tenancy w' = T" using leavesD run pre by metis
  show "case rr of Inl e \<Rightarrow> tenancy w' = T | Inr x \<Rightarrow> org_ID x \<notin> G \<and> tenancy w' = T"
  proof (cases rr)
    case (Inr x)
    obtain now w1 where now: "timeNow w = (Inr now, w1)" using timeNow_run by (cases "timeNow w") auto
    have "stored w1 = stored w" using timeNow_run [OF now] by simp
    then have G: "fst ` set (view orgsC w1) = G" using pre orgs.view_stored [of w1 w] by (simp add: knownOrgs_def)
    from run now Inr obtain i where ins: "dbInsertOne orgsC (o' \<lparr> org_CreatedAt := Some now, org_UpdatedAt := Some now \<rparr>) w1 = (Inr i, w')"
      and "org_ID x = i"
      by (auto simp: orgInsert_def bnd_run bnd_Inr Let_def ret_def)
    then show ?thesis using orgs.insert_run(2) [OF ins] unfolding G by (simp add: Inr T')
  qed (simp add: T')
qed

lemma orgCreate_triple:
  "triple (\<lambda>w. tenancy w = T \<and> knownOrgs w = G) (orgCreate wired (Some c) name description)
    (\<lambda>_ w. tenancy_step (claim_Sub c) G T (tenancy w)) (\<lambda>w. tenancy_step (claim_Sub c) G T (tenancy w))"
proof -
  let ?sub = "claim_Sub c"
  let ?Q = "\<lambda>w. tenancy_step ?sub G T (tenancy w)"
  let ?P = "\<lambda>w. tenancy w = T \<and> knownOrgs w = G"
  have refuse: "triple ?P (throw e) (\<lambda>_. ?Q) ?Q" for e :: error by (rule triple_throw) (auto simp: same)
  have apart: "apart orgsC usersC" by (simp add: apart_def view_def orgsC_def usersC_def)
  have tables: "tables ?P"
    unfolding tables_def
  proof (intro allI impI)
    fix w w' :: world
    assume s: "stored w' = stored w" and "?P w"
    then show "?P w'" using tenancy_stored [OF s] orgs.view_stored [OF s] by (simp add: knownOrgs_def)
  qed
  have keep_bp: "keeps tenancy (CreateForOrganization i ow)" for i ow
    unfolding CreateForOrganization_def baseCurrencyOrEmpty_def BaseCurrency_def Configuration_def
    by (intro leaves_intros keeps_tenancy_quiet quiet_intros keeps_tenancyI members.leaves_writes roles.leaves_writes) simp_all
  have keep_save: "keeps tenancy (orgSave x)" for x
    unfolding orgSave_def Let_def
    by (intro leaves_intros keeps_tenancy_quiet quiet_intros keeps_tenancyI members.leaves_more_writes roles.leaves_more_writes) simp_all
  have seated: "triple (\<lambda>w. tenancy w = T) (orgAddMember g ?sub RoleOwner) (\<lambda>_. ?Q) ?Q" if "g \<notin> G" for g
    by (rule triple_conseq [OF add_member_triple]) (auto simp: same intro: found [OF that])
  have created: "triple ?P (CreateOrganization wired u name description) (\<lambda>_. ?Q) ?Q" if u: "user_Sub u = ?sub" for u
  proof -
    have quota: "quiet (isOrganizationsQuotaExceeded wired ?sub)"
      unfolding isOrganizationsQuotaExceeded_def FindDefault_def MembersForSub_def Let_def by (intro quiet_intros)
    have rest: "triple ?P (bnd (orgInsert o') (\<lambda>x. bnd (orgAddMember (org_ID x) ?sub RoleOwner) (\<lambda>_.
        bnd (CreateForOrganization (org_ID x) ow) (\<lambda>bp. orgSave (x \<lparr> org_BillingProfileID := bp \<rparr>))))) (\<lambda>_. ?Q) ?Q"
      if "org_ID o' = []" for o' ow
      by (rule triple_seq [OF orgInsert_triple [OF that]], simp add: same,
          rule triple_fact, rule triple_then [OF seated], assumption) (intro leaves_intros keep_bp keep_save)
    show ?thesis
      unfolding CreateOrganization_def u
      by (rule triple_if [OF refuse], rule triple_skip [OF quota tables])
        (auto simp: same intro!: refuse rest triple_if)
  qed
  have who: "triple ?P (principal (Some c)) (\<lambda>u w. user_Sub u = ?sub \<and> ?P w) ?P"
  proof (rule tripleI)
    fix w rr w'
    assume P: "?P w" and run: "principal (Some c) w = (rr, w')"
    have "?P w'"
      using P leavesD [OF keeps_principal run] leavesD [OF orgs.leaves_principal [OF apart] run] by (simp add: knownOrgs_def)
    then show "case rr of Inl e \<Rightarrow> ?P w' | Inr u \<Rightarrow> user_Sub u = ?sub \<and> ?P w'"
      using run principal_found [of "Some c" w _ w'] by (cases rr) auto
  qed
  show ?thesis
    unfolding orgCreate_def
    by (rule triple_handler, rule triple_seq [OF who], use same in blast, rule triple_fact, rule triple_then [OF created], assumption)
      (intro leaves_intros keeps_tenancy_quiet quiet_intros)
qed

section \<open>Every request is a step of the specification\<close>

lemma reading_triple:
  assumes "keeps tenancy m"
  shows "triple (\<lambda>w. tenancy w = T) m (\<lambda>_ w. tenancy_step sub G T (tenancy w)) (\<lambda>w. tenancy_step sub G T (tenancy w))"
  by (rule triple_conseq [OF leaves_triple [OF assms, of T]]) (auto intro: same)

lemma keeps_reading:
  "keeps tenancy (selfService wired rc)" "keeps tenancy (orgList rc)" "keeps tenancy (orgGet rc i)"
  "keeps tenancy (orgUpdate rc i n d)" "keeps tenancy (orgGetMembers rc i)" "keeps tenancy (listRoles rc i)"
  "keeps tenancy (listPermissions rc i)" "keeps tenancy (getRole rc i r)"
proof -
  have save: "keeps tenancy (orgSave x)" for x
    unfolding orgSave_def Let_def
    by (intro leaves_intros keeps_tenancy_quiet quiet_intros keeps_tenancyI members.leaves_more_writes roles.leaves_more_writes) simp_all
  have quiet: "quiet (isOrganizationsQuotaExceeded wired s)" "quiet (GetOrganizationsForUser s)" "quiet (RolesByOrg i)" "quiet (roleGetByID i r)" for s
    unfolding isOrganizationsQuotaExceeded_def FindDefault_def MembersForSub_def Let_def GetOrganizationsForUser_def OrgIDsForSub_def
      orgFindByIDs_def RolesByOrg_def roleGetByID_def
    by (intro quiet_intros)+
  have update: "keeps tenancy (UpdateOrganization i s n d)" for s
    unfolding UpdateOrganization_def by (intro leaves_intros save keeps_tenancy_quiet quiet_intros)
  show "keeps tenancy (selfService wired rc)" "keeps tenancy (orgList rc)" "keeps tenancy (orgGet rc i)"
    "keeps tenancy (orgUpdate rc i n d)" "keeps tenancy (orgGetMembers rc i)" "keeps tenancy (listRoles rc i)"
    "keeps tenancy (listPermissions rc i)" "keeps tenancy (getRole rc i r)"
    unfolding selfService_def CanCreateOrganization_def orgList_def orgGet_def orgUpdate_def orgGetMembers_def listRoles_def
      listPermissions_def getRole_def
    by (intro leaves_intros keeps_principal keeps_gate update keeps_tenancy_quiet quiet quiet_intros)+
qed

lemma orgAddMemberH_triple:
  assumes add: "\<And>a g s ps. adder = Some a \<Longrightarrow> keeps tenancy (a g s ps)"
  shows "triple (\<lambda>w. tenancy w = T) (orgAddMemberH adder (Some c) g email role ps)
    (\<lambda>_ w. tenancy_step (claim_Sub c) G T (tenancy w)) (\<lambda>w. tenancy_step (claim_Sub c) G T (tenancy w))"
  unfolding orgAddMemberH_def
proof (rule triple_gate)
  let ?sub = "claim_Sub c"
  let ?Q = "\<lambda>w. tenancy_step ?sub G T (tenancy w)"
  fix u :: User
  assume u: "user_Sub u = ?sub" and mm: "may T ?sub g ''organization:manage_members''"
  have priv: "triple (\<lambda>w. tenancy w = T) (if isPrivilegedRole role then RequirePermission (user_Sub u) g ''organization:manage_roles'' else ret ())
      (\<lambda>_ w. (isPrivilegedRole role \<longrightarrow> may T ?sub g ''organization:manage_roles'') \<and> tenancy w = T) (\<lambda>w. tenancy w = T)"
  proof (rule tripleI)
    fix w rr w'
    assume T: "tenancy w = T" and run: "(if isPrivilegedRole role then RequirePermission (user_Sub u) g ''organization:manage_roles'' else ret ()) w = (rr, w')"
    have q: "quiet (if isPrivilegedRole role then RequirePermission (user_Sub u) g ''organization:manage_roles'' else ret ())"
      by (intro quiet_intros)
    have "tenancy w' = T" using leavesD [OF keeps_tenancy_quiet [OF q] run] T by simp
    then show "case rr of Inl e \<Rightarrow> tenancy w' = T
        | Inr x \<Rightarrow> (isPrivilegedRole role \<longrightarrow> may T ?sub g ''organization:manage_roles'') \<and> tenancy w' = T"
      using run T RequirePermission_sound [of "user_Sub u" g _ w w'] by (cases rr) (auto simp: u)
  qed
  have seated: "triple (\<lambda>w. tenancy w = T) (orgAddMember g s role) (\<lambda>_. ?Q) ?Q"
    if "isPrivilegedRole role \<longrightarrow> may T ?sub g ''organization:manage_roles''" for s
    by (rule triple_conseq [OF add_member_triple]) (use that in \<open>auto simp: same intro: join [OF mm]\<close>)
  have "keeps tenancy (case adder of None \<Rightarrow> ret () | Some a \<Rightarrow> a g s ps)" for s
    using add by (auto intro: leaves_intros split: option.split)
  then have rest: "keeps tenancy (bnd (case adder of None \<Rightarrow> ret () | Some a \<Rightarrow> a g s ps) (\<lambda>_. memberResponse g u ''ADD_MEMBER'' None))" for s
    by (intro leaves_bnd keeps_tenancy_quiet [OF quiet_orgs(8)])
  show "triple (\<lambda>w. tenancy w = T) (bnd (if isPrivilegedRole role then RequirePermission (user_Sub u) g ''organization:manage_roles'' else ret ()) (\<lambda>_.
     bnd (FindByEmail email) (\<lambda>member. case member of
         None \<Rightarrow> throw (HTTPError 400 (''User with email '' @ email @ '' not found''))
       | Some member \<Rightarrow> bnd (orgAddMember g (user_Sub member) role) (\<lambda>_.
           bnd (case adder of None \<Rightarrow> ret () | Some add \<Rightarrow> add g (user_Sub member) ps) (\<lambda>_. memberResponse g u ''ADD_MEMBER'' None))))) (\<lambda>_. ?Q) ?Q"
    by (rule triple_seq [OF priv], simp add: same, rule triple_fact,
        rule triple_seq [OF leaves_triple [OF keeps_tenancy_quiet [OF quiet_policy(9)]]], simp add: same,
        rule triple_option, rule triple_throw, simp add: same, rule triple_then [OF seated rest])
qed (simp add: same)

text \<open>
  The refinement: whatever the request, and whatever database call of it fails, it leaves the
  tenancy as one step of the specification does.
\<close>

lemma serveOrg_refines:
  assumes add: "\<And>a g s ps. adder = Some a \<Longrightarrow> keeps tenancy (a g s ps)"
    and run: "serveOrg wired adder (Some c) req w = (r, w')"
  shows "tenancy_step (claim_Sub c) (knownOrgs w) (tenancy w) (tenancy w')"
proof -
  let ?Q = "\<lambda>w'. tenancy_step (claim_Sub c) (knownOrgs w) (tenancy w) (tenancy w')"
  let ?P = "\<lambda>v. tenancy v = tenancy w"
  note audit = keeps_tenancy_quiet [OF quiet_orgs(6)] and resp = keeps_tenancy_quiet [OF quiet_orgs(8)]
  have "triple (\<lambda>v. ?P v \<and> knownOrgs v = knownOrgs w) (serveOrg wired adder (Some c) req) (\<lambda>_. ?Q) ?Q"
  proof (cases req)
    case PostOrganization
    then show ?thesis by (simp add: triple_silent orgCreate_triple)
  next
    case (DeleteOrganizationReq i)
    have "triple ?P (orgDeleteH (Some c) i) (\<lambda>_. ?Q) ?Q"
      unfolding orgDeleteH_def by (rule triple_gate, rule triple_then [OF DeleteOrganization_triple audit]) (simp_all add: same)
    then show ?thesis using DeleteOrganizationReq by (auto elim: triple_pre)
  next
    case (PostMember i email role ps)
    have "triple ?P (silent (orgAddMemberH adder (Some c) i email role ps)) (\<lambda>_. ?Q) ?Q"
      by (rule triple_silent, rule orgAddMemberH_triple) (rule add)
    then show ?thesis using PostMember by (auto elim: triple_pre)
  next
    case (DeleteMember i sub)
    have "triple ?P (silent (orgRemoveMemberH (Some c) i sub)) (\<lambda>_. ?Q) ?Q"
      unfolding orgRemoveMemberH_def
      by (rule triple_silent, rule triple_gate, rule triple_then [OF remove_member_triple resp]) (simp_all add: same)
    then show ?thesis using DeleteMember by (auto elim: triple_pre)
  next
    case (PutMemberRole i sub role)
    have "triple ?P (silent (orgUpdateMemberRoleH (Some c) i sub role)) (\<lambda>_. ?Q) ?Q"
      unfolding orgUpdateMemberRoleH_def
      by (rule triple_silent, rule triple_gate, rule triple_then [OF member_role_triple resp]) (simp_all add: same)
    then show ?thesis using PutMemberRole by (auto elim: triple_pre)
  next
    case (PostRole i n d ps)
    have "triple ?P (silent (createRole (Some c) i n d ps)) (\<lambda>_. ?Q) ?Q"
      unfolding createRole_def
      by (rule triple_silent, rule triple_gate, rule triple_then [OF roleCreate_triple])
        (auto simp: same intro: leaves_intros audit)
    then show ?thesis using PostRole by (auto elim: triple_pre)
  next
    case (PutRole i k d ps)
    have "triple ?P (silent (updateRole (Some c) i k d ps)) (\<lambda>_. ?Q) ?Q"
      unfolding updateRole_def
      by (rule triple_silent, rule triple_gate, rule triple_then [OF roleUpdate_triple])
        (auto simp: same intro: leaves_intros audit)
    then show ?thesis using PutRole by (auto elim: triple_pre)
  next
    case (DeleteRoleReq i k)
    have q: "quiet (attempt (roleGetByID i k))" unfolding roleGetByID_def RolesByOrg_def by (intro quiet_intros)
    have "triple ?P (deleteRole (Some c) i k) (\<lambda>_. ?Q) ?Q"
      unfolding deleteRole_def
      by (rule triple_gate, rule triple_seq [OF leaves_triple [OF keeps_tenancy_quiet [OF q]]], simp add: same,
          rule triple_then [OF roleDelete_triple audit]) (simp_all add: same)
    then show ?thesis using DeleteRoleReq by (auto elim: triple_pre)
  qed (auto simp: silent_def intro!: triple_pre [OF reading_triple] leaves_intros keeps_reading)
  then show ?thesis using run tripleD by (fastforce split: sum.splits)
qed


section \<open>What the specification guarantees\<close>

lemma replaceRow_set:
  "distinct (map fst t) \<Longrightarrow> (k, d) \<in> set t \<Longrightarrow> set (replaceRow k f t) = insert (k, f d) (set t - {(k, d)})"
  by (induction k f t rule: replaceRow.induct) (force simp: image_iff)+

text \<open>A new seat: given by who may manage roles, or unprivileged by who may manage members, or the founder's own.\<close>

lemma step_new_seat:
  assumes "tenancy_step sub G T T'" and "distinct (map fst (t_members T))" and "(g, s, role) \<in> seats T'" and "(g, s, role) \<notin> seats T"
  shows "may T sub g ''organization:manage_roles'' \<or>
    (may T sub g ''organization:manage_members'' \<and> \<not> isPrivilegedRole role) \<or> (g \<notin> G \<and> s = sub \<and> role = RoleOwner)"
  using assms
proof (cases rule: tenancy_step.cases)
  case (rerole i k m now role')
  let ?f = "\<lambda>m. m \<lparr> mbr_Roles := [role'], mbr_UpdatedAt := Some now \<rparr>"
  have "set (t_members T') = insert (k, ?f m) (set (t_members T) - {(k, m)})"
    using rerole(1,3) replaceRow_set [OF assms(2)] by simp
  then have "(g, s, role) = seat (?f m)" using assms(3,4) by (auto simp: seats_def)
  then have "g = i" using rerole(4) by (simp add: seat_def)
  then show ?thesis using rerole(2) by simp
qed (auto simp: seats_def)

text \<open>A lost seat: taken by who may manage members or roles of that organisation, or may delete it.\<close>

lemma step_lost_seat:
  assumes "tenancy_step sub G T T'" and "distinct (map fst (t_members T))" and "(g, s, role) \<in> seats T" and "(g, s, role) \<notin> seats T'"
  shows "may T sub g ''organization:manage_roles'' \<or> may T sub g ''organization:manage_members'' \<or> may T sub g ''organization:delete''"
  using assms
proof (cases rule: tenancy_step.cases)
  case (leave i k m)
  have "\<forall>r\<in>set (t_members T). fst r = k \<longrightarrow> r = (k, m)"
    using leave(3) assms(2) by (auto simp: eq_key_imp_eq_value)
  then have "(g, s, role) = seat m" using assms(3,4) leave(1) by (force simp: seats_def)
  then show ?thesis using leave(2,4) by (simp add: seat_def)
next
  case (rerole i k m now role')
  let ?f = "\<lambda>m. m \<lparr> mbr_Roles := [role'], mbr_UpdatedAt := Some now \<rparr>"
  have "set (t_members T') = insert (k, ?f m) (set (t_members T) - {(k, m)})"
    using rerole(1,3) replaceRow_set [OF assms(2)] by simp
  then have "(g, s, role) = seat m" using assms(3,4) by (auto simp: seats_def)
  then show ?thesis using rerole(2,4) by (simp add: seat_def)
next
  case (dissolve i)
  then have "g = i" using assms(3,4) by (auto simp: seats_def seat_def)
  then show ?thesis using dissolve(2) by simp
qed (auto simp: seats_def)

text \<open>A custom role is only added, changed or removed by who may manage the roles of its organisation.\<close>

lemma step_roles:
  assumes "tenancy_step sub G T T'" and "distinct (map fst (t_roles T))" and "x \<in> set (t_roles T') - set (t_roles T) \<or> x \<in> set (t_roles T) - set (t_roles T')"
  shows "may T sub (role_OrganizationID (snd x)) ''organization:manage_roles''"
  using assms
proof (cases rule: tenancy_step.cases)
  case (amend g k r ps now desc)
  let ?f = "\<lambda>d. d \<lparr> role_Description := desc, role_Permissions := ps, role_UpdatedAt := Some now \<rparr>"
  have "set (t_roles T') = insert (k, ?f r) (set (t_roles T) - {(k, r)})"
    using amend(1) replaceRow_set [OF assms(2) map_of_SomeD [OF amend(3)]] by simp
  then have "x = (k, ?f r) \<or> x = (k, r)" using assms(3) by auto
  then show ?thesis using amend(2,4) by auto
next
  case (repeal g k r)
  then have "fst x = k" "x \<in> set (t_roles T)" using assms(3) by auto
  then have "x = (k, r)" using map_of_is_SomeI [OF assms(2), of k "snd x"] repeal(3) by (cases x) simp
  then show ?thesis using repeal(2,4) by simp
qed auto

text \<open>
  The well-formedness of the tables: one row per id, one seat per organisation and subject, one
  role per organisation and name, and every custom role as the validation wants it.
\<close>

definition tenancy_ok :: "tenancy \<Rightarrow> bool" where
  "tenancy_ok T \<longleftrightarrow> distinct (map fst (t_members T)) \<and> distinct (map (\<lambda>r. memberKey (snd r)) (t_members T)) \<and>
     distinct (map fst (t_roles T)) \<and> distinct (map (\<lambda>r. roleKey (snd r)) (t_roles T)) \<and> list_all (\<lambda>r. role_ok (snd r)) (t_roles T)"

lemma replaceRow_map_snd: "(\<And>d. h (f d) = h d) \<Longrightarrow> map (\<lambda>r. h (snd r)) (replaceRow k f t) = map (\<lambda>r. h (snd r)) t"
  by (induction k f t rule: replaceRow.induct) auto

lemma tenancy_ok_step:
  assumes "tenancy_step sub G T T'" and ok: "tenancy_ok T"
  shows "tenancy_ok T'"
  using assms(1)
proof (cases rule: tenancy_step.cases)
  case (amend g k r ps now desc)
  let ?f = "\<lambda>d. d \<lparr> role_Description := desc, role_Permissions := ps, role_UpdatedAt := Some now \<rparr>"
  have row: "(k, r) \<in> set (t_roles T)" using amend(3) by (rule map_of_SomeD)
  have "set (t_roles T') = insert (k, ?f r) (set (t_roles T) - {(k, r)})"
    using amend(1) replaceRow_set [OF _ row] ok by (simp add: tenancy_ok_def)
  moreover have "role_ok (?f r)" using row ok amend(5) by (auto simp: tenancy_ok_def list_all_iff role_ok_def)
  ultimately have "list_all (\<lambda>r. role_ok (snd r)) (t_roles T')" using ok by (auto simp: tenancy_ok_def list_all_iff)
  moreover have "map (\<lambda>r. roleKey (snd r)) (replaceRow k ?f (t_roles T)) = map (\<lambda>r. roleKey (snd r)) (t_roles T)"
    by (rule replaceRow_map_snd) (simp add: roleKey_def)
  ultimately show ?thesis using ok amend(1) by (simp add: tenancy_ok_def)
next
  case (rerole g k m now role)
  let ?f = "\<lambda>m. m \<lparr> mbr_Roles := [role], mbr_UpdatedAt := Some now \<rparr>"
  have "map (\<lambda>r. memberKey (snd r)) (replaceRow k ?f (t_members T)) = map (\<lambda>r. memberKey (snd r)) (t_members T)"
    by (rule replaceRow_map_snd) (simp add: memberKey_def)
  then show ?thesis using ok rerole(1) by (simp add: tenancy_ok_def)
qed (use ok in \<open>auto simp: tenancy_ok_def list_all_iff distinct_map_filter\<close>)

end
