(* ===== verification/Projects.thy ===== *)
theory Projects
  imports Org_Handlers
begin

text \<open>
  \<open>internal/platform/project\<close>: \<open>repo.go\<close>, \<open>service.go\<close>, \<open>policy.go\<close>, \<open>deletion.go\<close> and the project
  endpoints of \<open>handler.go\<close>. A project embeds its memberships; a project owner counts as an
  organisation admin for that project, everyone else by the role in the organisation.
\<close>

section \<open>Documents\<close>

definition StatusScheduledForDeletion :: string where "StatusScheduledForDeletion = ''SCHEDULED_FOR_DELETION''"
definition StatusDeleteInProgress :: string where "StatusDeleteInProgress = ''DELETE_IN_PROGRESS''"

definition projOwner :: string where "projOwner = ''OWNER''"
definition projMember :: string where "projMember = ''MEMBER''"

text \<open>\<open>Project.MarshalJSON\<close> writes no \<open>gpuCapacityVisible\<close>: an inserted or returned project reads it as false.\<close>

definition marshalProject :: "Project \<Rightarrow> Project" where
  "marshalProject p = p \<lparr> prj_GpuCapacityVisible := False \<rparr>"

definition IsUserOwner :: "Project \<Rightarrow> string \<Rightarrow> bool" where
  "IsUserOwner p sub \<longleftrightarrow> list_ex (\<lambda>m. mem_Sub m = sub \<and> mem_Role m = projOwner) (prj_Memberships p)"

definition projIsMember :: "Project \<Rightarrow> string \<Rightarrow> bool" where
  "projIsMember p sub \<longleftrightarrow> list_ex (\<lambda>m. mem_Sub m = sub) (prj_Memberships p)"

definition IsDisabled :: "Project \<Rightarrow> bool" where
  "IsDisabled p \<longleftrightarrow> prj_Status p = ProjectDisabled"

definition svcField :: "json \<Rightarrow> string \<Rightarrow> string" where
  "svcField s key = (case s of JObject t \<Rightarrow> jstr (jget t key) | _ \<Rightarrow> '''')"

definition ExternalProjectID :: "Project \<Rightarrow> string \<Rightarrow> string" where
  "ExternalProjectID p serviceID = (case find (\<lambda>s. svcField s ''serviceId'' = serviceID) (prj_Services p) of
     None \<Rightarrow> ''''
   | Some s \<Rightarrow> if svcField s ''externalProjectId'' \<noteq> '''' then svcField s ''externalProjectId''
       else (case s of JObject t \<Rightarrow> (case jget t ''config'' of JObject cfg \<Rightarrow> jstr (jget cfg ''openstackProjectId'') | _ \<Rightarrow> '''') | _ \<Rightarrow> ''''))"

definition ServiceRegion :: "Project \<Rightarrow> string \<Rightarrow> string" where
  "ServiceRegion p serviceID = (case find (\<lambda>s. svcField s ''serviceId'' = serviceID) (prj_Services p) of
     None \<Rightarrow> '''' | Some s \<Rightarrow> svcField s ''region'')"

section \<open>Repository\<close>

definition projInsert :: "Project \<Rightarrow> Project svc" where
  "projInsert p = bnd timeNow (\<lambda>now. let p = p \<lparr> prj_CreatedAt := Some now, prj_UpdatedAt := Some now \<rparr> in
     bnd (dbInsertOne projectsC (marshalProject p)) (\<lambda>i. ret (p \<lparr> prj_ID := i \<rparr>)))"

text \<open>The fields that \<open>Save\<close> overwrites.\<close>

definition savedFields :: "Project \<Rightarrow> time \<Rightarrow> Project \<Rightarrow> Project" where
  "savedFields p now d = d \<lparr> prj_Name := prj_Name p, prj_Status := prj_Status p, prj_Data := prj_Data p, prj_Owner := prj_Owner p,
     prj_Memberships := prj_Memberships p, prj_OrganizationID := prj_OrganizationID p, prj_BillingProfileID := prj_BillingProfileID p,
     prj_CustomInfo := prj_CustomInfo p, prj_Services := prj_Services p,
     prj_ScheduledForDeletionAt := prj_ScheduledForDeletionAt p, prj_UpdatedAt := Some now \<rparr>"

definition projSave :: "Project \<Rightarrow> Project svc" where
  "projSave p = bnd timeNow (\<lambda>now. bnd (dbSetByID projectsC (prj_ID p) (savedFields p now)) (\<lambda>_. ret (p \<lparr> prj_UpdatedAt := Some now \<rparr>)))"

definition projFindByID :: "string \<Rightarrow> Project option svc" where
  "projFindByID i = dbGet projectsC i"

text \<open>\<open>services @> [{"externalProjectId": x}]\<close>: some element is an object with that field.\<close>

definition FindByExternalProjectID :: "string \<Rightarrow> Project option svc" where
  "FindByExternalProjectID x = (if x = '''' then ret None
     else dbFindOne projectsC (\<lambda>p. list_ex (\<lambda>s. case s of JObject t \<Rightarrow> map_of t ''externalProjectId'' = Some (JLeaf (AnyString x)) | _ \<Rightarrow> False)
       (prj_Services p)))"

definition FindForMember :: "string \<Rightarrow> string \<Rightarrow> Project option svc" where
  "FindForMember i sub = dbFindOne projectsC (\<lambda>p. prj_ID p = i \<and> projIsMember p sub)"

definition ListForMember :: "string \<Rightarrow> string list \<Rightarrow> Project list svc" where
  "ListForMember sub orgIDs = dbFind projectsC (\<lambda>p. projIsMember p sub \<or> (orgIDs \<noteq> [] \<and> prj_OrganizationID p \<in> set orgIDs))"

definition ListByOrganizationID :: "string \<Rightarrow> Project list svc" where
  "ListByOrganizationID orgID = dbFind projectsC (\<lambda>p. prj_OrganizationID p = orgID)"

definition AllEnabled :: "Project list svc" where
  "AllEnabled = dbFind projectsC (\<lambda>p. prj_Status p = ProjectEnabled)"

definition deletionDue :: "time \<Rightarrow> Project \<Rightarrow> bool" where
  "deletionDue now p \<longleftrightarrow> prj_Status p \<in> {StatusScheduledForDeletion, StatusDeleteInProgress} \<and>
     (case prj_ScheduledForDeletionAt p of None \<Rightarrow> False | Some t \<Rightarrow> t < now - 5 * minute)"

definition ScheduledForDeletion :: "time \<Rightarrow> Project list svc" where
  "ScheduledForDeletion now = dbFind projectsC (deletionDue now)"

definition projDelete :: "string \<Rightarrow> unit svc" where
  "projDelete i = bnd (dbDeleteByID projectsC i) (\<lambda>_. ret ())"

section \<open>Policy\<close>

definition hasProjectPermission :: "string \<Rightarrow> Project \<Rightarrow> string \<Rightarrow> bool svc" where
  "hasProjectPermission sub p permKey = (if sub = '''' \<or> permKey = '''' then ret False
     else if IsUserOwner p sub then ret (RoleHasPermission RoleAdmin permKey)
     else HasPermission sub (prj_OrganizationID p) permKey)"

definition RequireProjectPermission :: "string \<Rightarrow> Project \<Rightarrow> string \<Rightarrow> unit svc" where
  "RequireProjectPermission sub p permKey = bnd (hasProjectPermission sub p permKey) (\<lambda>ok. if ok then ret ()
     else throw (HTTPError 403 (''You do not have permission to perform this action on this project: '' @ Description permKey)))"

section \<open>Service\<close>

definition isProjectsQuotaExceeded :: "bool \<Rightarrow> string \<Rightarrow> string \<Rightarrow> bool svc" where
  "isProjectsQuotaExceeded wired bpID orgID =
     bnd (if wired then bnd FindDefault (\<lambda>cfg. ret (Option.bind cfg plat_ProjectProvisioningQuota)) else ret None) (\<lambda>platform.
     bnd (FindByID bpID) (\<lambda>bp.
       let platformOn = (case platform of None \<Rightarrow> False | Some q \<Rightarrow> quota_Enabled q);
           bpQuota = Option.bind bp bp_ProjectProvisioningQuota;
           bpOn = (case bpQuota of None \<Rightarrow> False | Some q \<Rightarrow> quota_Enabled q);
           limit = (if bpOn \<and> platformOn then map_option quota_Limit bpQuota else if platformOn then map_option quota_Limit platform else None) in
       case limit of None \<Rightarrow> ret False
       | Some n \<Rightarrow> bnd (ListByOrganizationID orgID) (\<lambda>existing. ret (n \<le> int (length existing)))))"

definition mapRole :: "string \<Rightarrow> string" where
  "mapRole orgRole = (if orgRole = ''OWNER'' \<or> orgRole = ''ADMIN'' then projOwner else projMember)"

definition toMemberships :: "Member list \<Rightarrow> string \<Rightarrow> string list \<Rightarrow> Membership list" where
  "toMemberships members requesterSub memberSubs =
     map (\<lambda>m. \<lparr> mem_Sub = mbr_Sub m, mem_Role = mapRole (memberRole m) \<rparr>)
       (filter (\<lambda>m. memberSubs = [] \<or> mbr_Sub m = requesterSub \<or> mbr_Sub m \<in> set memberSubs) members)"

definition newProject :: "string \<Rightarrow> string \<Rightarrow> string \<Rightarrow> Membership list \<Rightarrow> Project" where
  "newProject name creatorSub orgID ms = \<lparr> prj_ID = '''', prj_Name = name, prj_Status = ProjectDisabled, prj_Data = JLeaf AnyNil,
     prj_Owner = creatorSub, prj_Memberships = ms, prj_OrganizationID = orgID, prj_BillingProfileID = '''', prj_CustomInfo = [],
     prj_Services = [], prj_PublicNetworkIds = None, prj_PublicNetworksVisible = False, prj_GpuCapacityVisible = False,
     prj_Quota = [], prj_ScheduledForDeletionAt = None, prj_CreatedAt = None, prj_UpdatedAt = None \<rparr>"

definition CreateProject :: "bool \<Rightarrow> string \<Rightarrow> string \<Rightarrow> string \<Rightarrow> string list \<Rightarrow> Project svc" where
  "CreateProject wired creatorSub name orgID memberSubs =
     (if name = '''' then throw (HTTPError 400 ''The project name must not be null '')
      else bnd (orgFindByID orgID) (\<lambda>o'. case o' of None \<Rightarrow> throw (HTTPError 404 ''Organization not found'')
        | Some o' \<Rightarrow> bnd (orgMembers orgID) (\<lambda>members.
            let p = newProject name creatorSub orgID (toMemberships members creatorSub memberSubs) in
            bnd Configuration (\<lambda>(_, _, configured).
              if configured then bnd (isProjectsQuotaExceeded wired (org_BillingProfileID o') orgID) (\<lambda>exceeded.
                if exceeded then throw (HTTPError 400 ''Your projects limit has been reached'')
                else bnd (IsActive (org_BillingProfileID o')) (\<lambda>active.
                  projInsert (if active then p \<lparr> prj_Status := ProjectEnabled \<rparr> else p)))
              else projInsert (p \<lparr> prj_Status := ProjectEnabled \<rparr>)))))"

definition orgAdminOrOwner :: "string \<Rightarrow> string \<Rightarrow> bool svc" where
  "orgAdminOrOwner sub orgID = (if orgID = '''' then ret False
     else bnd (attempt (FindMember orgID sub)) (\<lambda>m. ret (case m of Inr (Some m) \<Rightarrow> memberRole m = ''OWNER'' \<or> memberRole m = ''ADMIN'' | _ \<Rightarrow> False)))"

definition projectNotFound :: "string \<Rightarrow> error" where
  "projectNotFound i = HTTPError 404 (''The project with id '' @ i @ '' was not found. '')"

definition GetProject :: "string \<Rightarrow> string \<Rightarrow> Project svc" where
  "GetProject sub i = bnd (projFindByID i) (\<lambda>p. case p of None \<Rightarrow> throw (projectNotFound i)
     | Some p \<Rightarrow> if projIsMember p sub then ret p
         else bnd (orgAdminOrOwner sub (prj_OrganizationID p)) (\<lambda>ok. if ok then ret p else throw (projectNotFound i)))"

definition GetProjectByID :: "string \<Rightarrow> Project svc" where
  "GetProjectByID i = bnd (projFindByID i) (\<lambda>p. case p of None \<Rightarrow> throw (projectNotFound i) | Some p \<Rightarrow> ret p)"

definition visibleOrgIDs :: "string \<Rightarrow> string list svc" where
  "visibleOrgIDs sub = bnd (MembersForSub sub) (\<lambda>ms.
     ret (map mbr_OrganizationID (filter (\<lambda>m. memberRole m = ''OWNER'' \<or> memberRole m = ''ADMIN'') ms)))"

definition ListForSub :: "string \<Rightarrow> Project list svc" where
  "ListForSub sub = bnd (visibleOrgIDs sub) (ListForMember sub)"

definition Rename :: "string \<Rightarrow> string \<Rightarrow> string \<Rightarrow> Project svc" where
  "Rename sub i name = bnd (GetProject sub i) (\<lambda>p. projSave (p \<lparr> prj_Name := name \<rparr>))"

definition projUpdateOrganization :: "string \<Rightarrow> string \<Rightarrow> string \<Rightarrow> Project svc" where
  "projUpdateOrganization sub i targetOrgID = bnd (GetProject sub i) (\<lambda>p. projSave (p \<lparr> prj_OrganizationID := targetOrgID \<rparr>))"

definition ScheduleDeletion :: "Project \<Rightarrow> Project svc" where
  "ScheduleDeletion p = (if prj_Status p = StatusScheduledForDeletion \<or> prj_Status p = StatusDeleteInProgress
     then throw (HTTPError 400 ''Project is already scheduled for deletion'')
     else bnd timeNow (\<lambda>now. projSave (p \<lparr> prj_Status := StatusScheduledForDeletion, prj_ScheduledForDeletionAt := Some now \<rparr>)))"

definition DeleteNow :: "string \<Rightarrow> Project svc" where
  "DeleteNow i = bnd (GetProjectByID i) (\<lambda>p. projSave (p \<lparr> prj_Status := StatusDeleteInProgress \<rparr>))"

definition CancelDeletion :: "string \<Rightarrow> Project svc" where
  "CancelDeletion i = bnd (GetProjectByID i) (\<lambda>p. if prj_Status p = StatusDeleteInProgress
     then throw (HTTPError 400 ''Project is deleting. Cannot cancel deletion'')
     else projSave (p \<lparr> prj_Status := ProjectEnabled, prj_ScheduledForDeletionAt := None \<rparr>))"

definition AddMember :: "string \<Rightarrow> string \<Rightarrow> string \<Rightarrow> Project svc" where
  "AddMember projID userSub role = bnd (GetProjectByID projID) (\<lambda>p. bnd (FindBySub userSub) (\<lambda>u. case u of
     None \<Rightarrow> throw (HTTPError 404 (''User not found with sub: '' @ userSub))
   | Some u \<Rightarrow> bnd (FindMember (prj_OrganizationID p) (user_Sub u)) (\<lambda>om.
       if om = None then throw (HTTPError 400 ''User must be a member of the organization before being added to a project'')
       else if IsDisabled p then throw (HTTPError 400 ''Project is suspended. Cannot add user to project'')
       else if projIsMember p (user_Sub u) then throw (HTTPError 400 ''User is already added to project'')
       else projSave (p \<lparr> prj_Memberships := prj_Memberships p @ [\<lparr> mem_Sub = user_Sub u, mem_Role = role \<rparr>] \<rparr>))))"

fun joinWith :: "string \<Rightarrow> string list \<Rightarrow> string" where
  "joinWith sep [] = ''''"
| "joinWith sep [s] = s"
| "joinWith sep (s # t # ss) = s @ sep @ joinWith sep (t # ss)"

text \<open>\<open>projectIDs\<close> is nil for all projects of the organisation; a failure of one project is logged only.\<close>

definition AddMemberToOrgProjects :: "string \<Rightarrow> string \<Rightarrow> string list option \<Rightarrow> unit svc" where
  "AddMemberToOrgProjects orgID userSub projectIDs = bnd (ListByOrganizationID orgID) (\<lambda>projects.
     bnd (case projectIDs of None \<Rightarrow> ret projects
        | Some ids \<Rightarrow> (let invalid = filter (\<lambda>i. i \<notin> prj_ID ` set projects) ids in
            if invalid \<noteq> [] then throw (HTTPError 400 (''Project IDs do not belong to this organization: '' @ joinWith '', '' invalid))
            else ret (filter (\<lambda>p. prj_ID p \<in> set ids) projects))) (\<lambda>projects.
     forS (\<lambda>p _. if projIsMember p userSub then ret () else bnd (attempt (AddMember (prj_ID p) userSub projMember)) (\<lambda>_. ret ())) projects ()))"

text \<open>\<open>append(ms[:idx], ms[idx+1:]...)\<close> at the first index whose membership is the user's.\<close>

fun removeFirst :: "('a \<Rightarrow> bool) \<Rightarrow> 'a list \<Rightarrow> 'a list" where
  "removeFirst P [] = []"
| "removeFirst P (x # xs) = (if P x then xs else x # removeFirst P xs)"

definition RemoveMember :: "string \<Rightarrow> string \<Rightarrow> Project svc" where
  "RemoveMember projID sub = bnd (GetProjectByID projID) (\<lambda>p. bnd (FindBySub sub) (\<lambda>u. case u of
     None \<Rightarrow> throw (HTTPError 404 (''User not found with sub: '' @ sub))
   | Some u \<Rightarrow> (case find (\<lambda>m. mem_Sub m = user_Sub u) (prj_Memberships p) of
       None \<Rightarrow> throw (HTTPError 400 ''User is already removed from project'')
     | Some m \<Rightarrow> if mem_Role m = projOwner then throw (HTTPError 400 ''Project owner cannot be removed from project'')
         else projSave (p \<lparr> prj_Memberships := removeFirst (\<lambda>m. mem_Sub m = user_Sub u) (prj_Memberships p) \<rparr>))))"

text \<open>The loop leaves the index of the last membership of the user and counts the owners.\<close>

definition UpdateMemberRole :: "string \<Rightarrow> string \<Rightarrow> string \<Rightarrow> Project svc" where
  "UpdateMemberRole projID sub role = (if role \<noteq> projOwner \<and> role \<noteq> projMember then throw (HTTPError 400 ''Role must be OWNER or MEMBER'')
     else bnd (GetProjectByID projID) (\<lambda>p. let ms = prj_Memberships p; owners = length (filter (\<lambda>m. mem_Role m = projOwner) ms) in
       case find (\<lambda>m. mem_Sub m = sub) (rev ms) of
         None \<Rightarrow> throw (HTTPError 404 ''User is not a member of this project'')
       | Some m \<Rightarrow> if mem_Role m = role then ret p
           else if mem_Role m = projOwner \<and> owners \<le> 1 then throw (HTTPError 400 ''Project must keep at least one owner'')
           else projSave (p \<lparr> prj_Memberships := rev (updateFirst (\<lambda>m. mem_Sub m = sub) (\<lambda>m. m \<lparr> mem_Role := role \<rparr>) (rev ms)) \<rparr>)))"

end
