(* ===== verification/Project_Handlers.thy ===== *)
theory Project_Handlers
  imports Projects
begin

text \<open>
  The project endpoints of \<open>project/handler.go\<close>. As for the organisations, a specification lists the changes a caller may make to a project and the
  permission each needs, every endpoint is shown to follow it, and the guarantees are proved of the
  specification: a project keeps an owner, and a project changes only at the hands of someone
  whose role in it or in its organisation allows the change.
\<close>

section \<open>Handlers\<close>

definition projGate :: "Claims option \<Rightarrow> string \<Rightarrow> string \<Rightarrow> (User \<times> Project) svc" where
  "projGate rc i permKey = bnd (principal rc) (\<lambda>u. bnd (GetProject (user_Sub u) i) (\<lambda>p.
     bnd (RequireProjectPermission (user_Sub u) p permKey) (\<lambda>_. ret (u, p))))"

definition forgetLast :: "User \<Rightarrow> unit svc" where
  "forgetLast u = bnd (attempt (DeleteCustomInfo (user_Sub u) ''lastProject'')) (\<lambda>_. ret ())"

definition projList :: "Claims option \<Rightarrow> Project list svc" where
  "projList rc = handler (bnd (principal rc) (\<lambda>u. ListForSub (user_Sub u)))"

definition projCreate :: "bool \<Rightarrow> Claims option \<Rightarrow> string \<Rightarrow> string \<Rightarrow> string list \<Rightarrow> Project svc" where
  "projCreate wired rc name orgID memberSubs = handler (bnd (principal rc) (\<lambda>u.
     bnd (GetOrganizationForUser orgID (user_Sub u)) (\<lambda>o'.
     bnd (RequirePermission (user_Sub u) (org_ID o') ''project:create'') (\<lambda>_.
     bnd (CreateProject wired (user_Sub u) name (org_ID o') memberSubs) (\<lambda>p.
     bnd (emit (Audit ''CREATE'' (prj_ID p))) (\<lambda>_. ret (marshalProject p)))))))"

definition projGet :: "Claims option \<Rightarrow> string \<Rightarrow> Project svc" where
  "projGet rc i = handler (bnd (principal rc) (\<lambda>u. bnd (GetProject (user_Sub u) i) (\<lambda>p. ret (marshalProject p))))"

definition scheduleDeletion :: "Claims option \<Rightarrow> string \<Rightarrow> Project svc" where
  "scheduleDeletion rc i = handler (bnd (projGate rc i ''project:delete'') (\<lambda>(u, p).
     bnd (ScheduleDeletion p) (\<lambda>p. bnd (emit (Audit ''DELETE'' (prj_ID p))) (\<lambda>_. bnd (forgetLast u) (\<lambda>_. ret (marshalProject p))))))"

definition deleteNow :: "Claims option \<Rightarrow> string \<Rightarrow> Project svc" where
  "deleteNow rc i = handler (bnd (projGate rc i ''project:delete'') (\<lambda>(u, p).
     bnd (DeleteNow (prj_ID p)) (\<lambda>p. bnd (forgetLast u) (\<lambda>_. ret (marshalProject p)))))"

definition cancelDeletion :: "Claims option \<Rightarrow> string \<Rightarrow> Project svc" where
  "cancelDeletion rc i = handler (bnd (projGate rc i ''project:update'') (\<lambda>(u, p).
     bnd (CancelDeletion (prj_ID p)) (\<lambda>p. bnd (forgetLast u) (\<lambda>_. ret (marshalProject p)))))"

definition projRename :: "Claims option \<Rightarrow> string \<Rightarrow> string \<Rightarrow> Project svc" where
  "projRename rc i name = handler (bnd (projGate rc i ''project:update'') (\<lambda>(u, p).
     bnd (Rename (user_Sub u) (prj_ID p) name) (\<lambda>p. bnd (emit (Audit ''UPDATE'' (prj_ID p))) (\<lambda>_. ret (marshalProject p)))))"

definition projMove :: "Claims option \<Rightarrow> string \<Rightarrow> string \<Rightarrow> Project svc" where
  "projMove rc i orgID = handler (bnd (projGate rc i ''project:update'') (\<lambda>(u, p).
     bnd (GetOrganizationForUser orgID (user_Sub u)) (\<lambda>target.
     bnd (projUpdateOrganization (user_Sub u) (prj_ID p) (org_ID target)) (\<lambda>p. ret (marshalProject p)))))"

record ProjectUser =
  pu_UserID :: string
  pu_Sub :: string
  pu_FirstName :: string
  pu_LastName :: string
  pu_Email :: string
  pu_Role :: string

definition projMembers :: "Project \<Rightarrow> ProjectUser list svc" where
  "projMembers p = forS (\<lambda>m out. bnd (FindBySub (mem_Sub m)) (\<lambda>u. ret (case u of None \<Rightarrow> out
     | Some u \<Rightarrow> out @ [\<lparr> pu_UserID = user_ID u, pu_Sub = user_Sub u, pu_FirstName = user_FirstName u,
         pu_LastName = user_LastName u, pu_Email = user_Email u, pu_Role = mem_Role m \<rparr>]))) (prj_Memberships p) []"

definition projGetMembers :: "Claims option \<Rightarrow> string \<Rightarrow> ProjectUser list svc" where
  "projGetMembers rc i = handler (bnd (principal rc) (\<lambda>u. bnd (GetProject (user_Sub u) i) projMembers))"

definition addUserToProject :: "Claims option \<Rightarrow> string \<Rightarrow> string \<Rightarrow> string \<Rightarrow> Project svc" where
  "addUserToProject rc i userSub role = handler (bnd (projGate rc i ''project:manage_members'') (\<lambda>(u, p).
     bnd (AddMember (prj_ID p) userSub role) (\<lambda>p. ret (marshalProject p))))"

definition removeUserFromProject :: "Claims option \<Rightarrow> string \<Rightarrow> string \<Rightarrow> Project svc" where
  "removeUserFromProject rc i sub = handler (bnd (projGate rc i ''project:manage_members'') (\<lambda>(u, p).
     bnd (RemoveMember (prj_ID p) sub) (\<lambda>p. ret (marshalProject p))))"

definition updateProjectMemberRole :: "Claims option \<Rightarrow> string \<Rightarrow> string \<Rightarrow> string \<Rightarrow> Project svc" where
  "updateProjectMemberRole rc i sub role = handler (bnd (projGate rc i ''project:manage_members'') (\<lambda>(u, p).
     bnd (UpdateMemberRole (prj_ID p) sub role) (\<lambda>p. ret (marshalProject p))))"

section \<open>Changing the billing profile\<close>

definition sameOrgBillingProfile :: "BillingProfile \<Rightarrow> Project \<Rightarrow> bool" where
  "sameOrgBillingProfile target p \<longleftrightarrow> bp_OrganizationID target = prj_OrganizationID p"

definition profileValidForChanging :: "declib \<Rightarrow> BillingProfile \<Rightarrow> time \<Rightarrow> unit svc" where
  "profileValidForChanging L bp now = bnd (CurrentBalance L (bp_ID bp) now) (\<lambda>b.
     if d_is_negative L b \<or> bp_Status bp = StatusSuspended then throw (HTTPError 400 ''The billing profile is not valid for changing. '')
     else ret ())"

definition profileOr404 :: "string \<Rightarrow> BillingProfile svc" where
  "profileOr404 i = bnd (FindByID i) (\<lambda>bp. case bp of
     None \<Rightarrow> throw (HTTPError 404 (''Billing profile with id '' @ i @ '' not found. '')) | Some bp \<Rightarrow> ret bp)"

definition syncedStatus :: "string \<Rightarrow> string \<Rightarrow> string" where
  "syncedStatus profileStatus old = (if profileStatus = StatusNew \<or> profileStatus = StatusSuspended then ProjectDisabled
     else if profileStatus = StatusActive then ProjectEnabled else old)"

definition changeBillingProfile :: "declib \<Rightarrow> Claims option \<Rightarrow> string \<Rightarrow> string \<Rightarrow> Project svc" where
  "changeBillingProfile L rc i bpID = handler (bnd (projGate rc i ''project:update'') (\<lambda>(u, p).
     bnd timeNow (\<lambda>now.
     bnd (if prj_BillingProfileID p \<noteq> '''' then ret (prj_BillingProfileID p)
          else bnd (attempt (orgFindByID (prj_OrganizationID p))) (\<lambda>o'.
            ret (case o' of Inr (Some o') \<Rightarrow> org_BillingProfileID o' | _ \<Rightarrow> ''''))) (\<lambda>curID.
     bnd (profileOr404 curID) (\<lambda>cur. bnd (profileValidForChanging L cur now) (\<lambda>_.
     bnd (profileOr404 bpID) (\<lambda>target.
       if \<not> sameOrgBillingProfile target p then throw (HTTPError 403 (''The billing profile does not belong to this project'' @ [char_of (39::nat)] @ ''s organization''))
       else bnd (orgFindByID (bp_OrganizationID target)) (\<lambda>o'. case o' of
           None \<Rightarrow> throw (HTTPError 404 ''Billing Profile has no organization associated'')
         | Some o' \<Rightarrow> bnd (RequirePermission (user_Sub u) (org_ID o') ''billing_profile:update'') (\<lambda>_.
             bnd (profileValidForChanging L target now) (\<lambda>_.
             bnd (projSave (p \<lparr> prj_Status := syncedStatus (bp_Status target) (prj_Status p), prj_BillingProfileID := bp_ID target \<rparr>)) (\<lambda>p.
             ret (marshalProject p))))))))))))"

section \<open>The router\<close>

datatype project_request =
    GetProjects
  | PostProject string string "string list"
  | GetProjectReq string
  | DeleteProjectReq string
  | DeleteProjectNow string
  | DeleteProjectCancel string
  | PostRename string string
  | PutProjectOrganization string string
  | GetProjectMembers string
  | PostProjectMember string string string
  | PutProjectMemberRole string string string
  | DeleteProjectMember string string
  | PostProjectBilling string string

fun serveProject :: "declib \<Rightarrow> bool \<Rightarrow> Claims option \<Rightarrow> project_request \<Rightarrow> unit svc" where
  "serveProject L wired rc GetProjects = silent (projList rc)"
| "serveProject L wired rc (PostProject name orgID memberSubs) = silent (projCreate wired rc name orgID memberSubs)"
| "serveProject L wired rc (GetProjectReq i) = silent (projGet rc i)"
| "serveProject L wired rc (DeleteProjectReq i) = silent (scheduleDeletion rc i)"
| "serveProject L wired rc (DeleteProjectNow i) = silent (deleteNow rc i)"
| "serveProject L wired rc (DeleteProjectCancel i) = silent (cancelDeletion rc i)"
| "serveProject L wired rc (PostRename i name) = silent (projRename rc i name)"
| "serveProject L wired rc (PutProjectOrganization i orgID) = silent (projMove rc i orgID)"
| "serveProject L wired rc (GetProjectMembers i) = silent (projGetMembers rc i)"
| "serveProject L wired rc (PostProjectMember i userSub role) = silent (addUserToProject rc i userSub role)"
| "serveProject L wired rc (PutProjectMemberRole i sub role) = silent (updateProjectMemberRole rc i sub role)"
| "serveProject L wired rc (DeleteProjectMember i sub) = silent (removeUserFromProject rc i sub)"
| "serveProject L wired rc (PostProjectBilling i bpID) = silent (changeBillingProfile L rc i bpID)"

section \<open>What a caller may do to a project\<close>

definition mayProject :: "tenancy \<Rightarrow> string \<Rightarrow> Project \<Rightarrow> string \<Rightarrow> bool" where
  "mayProject T sub p permKey \<longleftrightarrow> (if IsUserOwner p sub then RoleHasPermission RoleAdmin permKey else may T sub (prj_OrganizationID p) permKey)"

definition has_owner :: "Project \<Rightarrow> bool" where
  "has_owner p \<longleftrightarrow> list_ex (\<lambda>m. mem_Role m = projOwner) (prj_Memberships p)"

text \<open>\<open>project_change T sub p q\<close>: with the tenancy \<open>T\<close>, the caller \<open>sub\<close> may turn the project \<open>p\<close> into \<open>q\<close>.\<close>

inductive project_change :: "tenancy \<Rightarrow> string \<Rightarrow> Project \<Rightarrow> Project \<Rightarrow> bool" for T sub p where
  renamed: "mayProject T sub p ''project:update'' \<Longrightarrow> project_change T sub p (p \<lparr> prj_Name := name \<rparr>)"
| moved: "mayProject T sub p ''project:update'' \<Longrightarrow> roleIn T g sub \<noteq> None \<Longrightarrow> project_change T sub p (p \<lparr> prj_OrganizationID := g \<rparr>)"
| scheduled: "mayProject T sub p ''project:delete'' \<Longrightarrow> prj_Status p \<notin> {StatusScheduledForDeletion, StatusDeleteInProgress} \<Longrightarrow>
    project_change T sub p (p \<lparr> prj_Status := StatusScheduledForDeletion, prj_ScheduledForDeletionAt := Some t \<rparr>)"
| flagged: "mayProject T sub p ''project:delete'' \<Longrightarrow> project_change T sub p (p \<lparr> prj_Status := StatusDeleteInProgress \<rparr>)"
| cancelled: "mayProject T sub p ''project:update'' \<Longrightarrow> prj_Status p \<noteq> StatusDeleteInProgress \<Longrightarrow>
    project_change T sub p (p \<lparr> prj_Status := ProjectEnabled, prj_ScheduledForDeletionAt := None \<rparr>)"
| added: "mayProject T sub p ''project:manage_members'' \<Longrightarrow> roleIn T (prj_OrganizationID p) s \<noteq> None \<Longrightarrow> \<not> IsDisabled p \<Longrightarrow> \<not> projIsMember p s \<Longrightarrow>
    project_change T sub p (p \<lparr> prj_Memberships := prj_Memberships p @ [\<lparr> mem_Sub = s, mem_Role = role \<rparr>] \<rparr>)"
| removed: "mayProject T sub p ''project:manage_members'' \<Longrightarrow> find (\<lambda>m. mem_Sub m = s) (prj_Memberships p) = Some m \<Longrightarrow> mem_Role m \<noteq> projOwner \<Longrightarrow>
    project_change T sub p (p \<lparr> prj_Memberships := removeFirst (\<lambda>m. mem_Sub m = s) (prj_Memberships p) \<rparr>)"
| reroled: "mayProject T sub p ''project:manage_members'' \<Longrightarrow> find (\<lambda>m. mem_Sub m = s) (rev (prj_Memberships p)) = Some m \<Longrightarrow>
    \<not> (mem_Role m = projOwner \<and> length (filter (\<lambda>m. mem_Role m = projOwner) (prj_Memberships p)) \<le> 1) \<Longrightarrow>
    project_change T sub p (p \<lparr> prj_Memberships := rev (updateFirst (\<lambda>m. mem_Sub m = s) (\<lambda>m. m \<lparr> mem_Role := role \<rparr>) (rev (prj_Memberships p))) \<rparr>)"
| billed: "mayProject T sub p ''project:update'' \<Longrightarrow> may T sub (prj_OrganizationID p) ''billing_profile:update'' \<Longrightarrow>
    project_change T sub p (p \<lparr> prj_Status := syncedStatus st (prj_Status p), prj_BillingProfileID := b \<rparr>)"

text \<open>A request leaves the table alone, adds a project, or changes one.\<close>

inductive projects_step :: "tenancy \<Rightarrow> string \<Rightarrow> Project table \<Rightarrow> Project table \<Rightarrow> bool" for T sub V where
  unchanged: "projects_step T sub V V"
| created: "may T sub (prj_OrganizationID p) ''project:create'' \<Longrightarrow> k \<notin> fst ` set V \<Longrightarrow> projects_step T sub V (V @ [(k, p)])"
| changed: "map_of V k = Some p \<Longrightarrow> project_change T sub p q \<Longrightarrow>
    projects_step T sub V (replaceRow k (\<lambda>_. q \<lparr> prj_UpdatedAt := Some t \<rparr>) V)"

text \<open>A project that has an owner keeps one.\<close>

lemma length_filter_updateFirst:
  "length (filter P xs) \<le> Suc (length (filter P (updateFirst Q f xs)))"
  by (induction xs) auto

lemma removeFirst_keeps: "find P xs = Some y \<Longrightarrow> \<not> Q y \<Longrightarrow> x \<in> set xs \<Longrightarrow> Q x \<Longrightarrow> x \<in> set (removeFirst P xs)"
  by (induction xs) (auto split: if_splits)

lemma updateFirst_keeps: "find P xs = Some y \<Longrightarrow> \<not> Q y \<Longrightarrow> x \<in> set xs \<Longrightarrow> Q x \<Longrightarrow> x \<in> set (updateFirst P f xs)"
  by (induction xs) (auto split: if_splits)

lemma change_keeps_owner:
  assumes "project_change T sub p q" and "has_owner p"
  shows "has_owner q"
  using assms(1)
proof (cases rule: project_change.cases)
  case (removed s m)
  obtain x where "x \<in> set (prj_Memberships p)" "mem_Role x = projOwner"
    using assms(2) by (auto simp: has_owner_def list_ex_iff)
  then have "x \<in> set (removeFirst (\<lambda>m. mem_Sub m = s) (prj_Memberships p))"
    using removeFirst_keeps [of _ _ m "\<lambda>m. mem_Role m = projOwner" x, OF removed(3)] removed(4) by simp
  then show ?thesis using removed(1) \<open>mem_Role x = projOwner\<close> by (auto simp: has_owner_def list_ex_iff)
next
  case (reroled s m role)
  let ?own = "\<lambda>m. mem_Role m = projOwner" and ?ms = "prj_Memberships p"
  let ?ms' = "updateFirst (\<lambda>m. mem_Sub m = s) (\<lambda>m. m \<lparr> mem_Role := role \<rparr>) (rev ?ms)"
  have "\<exists>x\<in>set ?ms'. ?own x"
  proof (cases "?own m")
    case True
    have "2 \<le> length (filter ?own (rev ?ms))"
      using reroled(4) True by (simp add: rev_filter [symmetric])
    then have "1 \<le> length (filter ?own ?ms')"
      using length_filter_updateFirst [of ?own "rev ?ms" "\<lambda>m. mem_Sub m = s" "\<lambda>m. m \<lparr> mem_Role := role \<rparr>"] by simp
    then show ?thesis by (auto simp: Suc_le_eq length_greater_0_conv filter_empty_conv)
  next
    case False
    obtain x where "x \<in> set (rev ?ms)" "?own x" using assms(2) by (auto simp: has_owner_def list_ex_iff)
    then show ?thesis using updateFirst_keeps [of _ _ m ?own x, OF reroled(3) False] by blast
  qed
  then show ?thesis using reroled(1) by (auto simp: has_owner_def list_ex_iff)
qed (use assms(2) in \<open>auto simp: has_owner_def\<close>)


section \<open>The handlers follow the specification\<close>

definition realm :: "world \<Rightarrow> tenancy \<times> Project table" where
  "realm w = (tenancy w, view projectsC w)"

lemma realm_stored:
  assumes "stored w' = stored w"
  shows "realm w' = realm w"
  unfolding realm_def tenancy_stored [OF assms] projects.view_stored [OF assms] ..

lemma tables_realm: "tables (\<lambda>w. realm w = R)"
  unfolding tables_def using realm_stored by metis

lemma keeps_realm: "keeps tenancy m \<Longrightarrow> leaves projectsC m \<Longrightarrow> keeps realm m"
  unfolding keeps_def realm_def by metis

lemma keeps_realm_quiet: "quiet m \<Longrightarrow> keeps realm m"
  by (intro keeps_realm keeps_tenancy_quiet projects.leaves_quiet)

lemma apart_projects [simp]: "apart projectsC usersC"
  by (simp add: apart_def view_def projectsC_def usersC_def)

lemma keeps_realm_principal: "keeps realm (principal rc)"
  by (intro keeps_realm keeps_principal projects.leaves_principal) simp

lemma triple_realm:
  assumes "quiet m" and "\<And>w. realm w = R \<Longrightarrow> E w" and "\<And>x. triple (\<lambda>w. realm w = R) (f x) Q E"
  shows "triple (\<lambda>w. realm w = R) (bnd m f) Q E"
  by (rule triple_skip [OF assms(1) tables_realm assms(2,3)])

lemma triple_realm_know:
  assumes "quiet m" and "\<And>w. realm w = R \<Longrightarrow> E w" and "\<And>w x w'. realm w = R \<Longrightarrow> m w = (Inr x, w') \<Longrightarrow> K x"
    and "\<And>x. K x \<Longrightarrow> triple (\<lambda>w. realm w = R) (f x) Q E"
  shows "triple (\<lambda>w. realm w = R) (bnd m f) Q E"
  by (rule triple_know [OF assms(1) tables_realm assms(2,3,4)])

lemma quiet_projects [quiet_intros]:
  "quiet (projFindByID i)" "quiet (orgAdminOrOwner s g)" "quiet (GetProject s i)" "quiet (GetProjectByID i)"
  "quiet (hasProjectPermission s p k)" "quiet (RequireProjectPermission s p k)" "quiet (ListByOrganizationID g)"
  "quiet (ListForSub s)" "quiet (projMembers p)" "quiet (FindDefault)" "quiet (orgFindByID i)" "quiet (FindByID i)"
  unfolding projFindByID_def orgAdminOrOwner_def GetProject_def GetProjectByID_def hasProjectPermission_def RequireProjectPermission_def
    ListByOrganizationID_def ListForSub_def visibleOrgIDs_def MembersForSub_def ListForMember_def projMembers_def FindDefault_def orgFindByID_def
    FindByID_def
  by (intro quiet_intros)+

lemma RequireProjectPermission_sound:
  "RequireProjectPermission sub p k w = (Inr (), w') \<Longrightarrow> mayProject (tenancy w) sub p k"
  by (auto simp: RequireProjectPermission_def hasProjectPermission_def mayProject_def bnd_Inr throw_def ret_def
    split: if_splits intro: HasPermission_sound)

text \<open>What a lookup of a project returns is its row.\<close>

lemma projFindByID_run:
  assumes "projFindByID i w = (Inr (Some p), w')"
  shows "map_of (view projectsC w) i = Some p" and "prj_ID p = i"
proof -
  have "storeGet (view projectsC w) i = Some p" using projects.get_run [OF assms [unfolded projFindByID_def]] by simp
  then show "map_of (view projectsC w) i = Some p" "prj_ID p = i"
    using projects.view_get_ID [of w i p] by (auto simp: projectsC_def dest: storeGet_map_of_Some)
qed

lemma GetProject_run:
  assumes "GetProject s i w = (Inr p, w')"
  shows "map_of (view projectsC w) i = Some p \<and> prj_ID p = i"
proof -
  from assms obtain x w1 where x: "projFindByID i w = (Inr x, w1)"
    and rest: "(case x of None \<Rightarrow> throw (projectNotFound i) | Some p \<Rightarrow> if projIsMember p s then ret p
         else bnd (orgAdminOrOwner s (prj_OrganizationID p)) (\<lambda>ok. if ok then ret p else throw (projectNotFound i))) w1 = (Inr p, w')"
    unfolding GetProject_def bnd_Inr by blast
  from rest have "x = Some p"
    by (auto simp: throw_def ret_def bnd_Inr split: option.splits if_splits)
  then show ?thesis using projFindByID_run x by simp
qed

lemma GetProjectByID_run: "GetProjectByID i w = (Inr p, w') \<Longrightarrow> map_of (view projectsC w) i = Some p \<and> prj_ID p = i"
  by (auto simp: GetProjectByID_def bnd_Inr throw_def ret_def split: option.splits dest: projFindByID_run)

lemma FindMember_run:
  assumes "FindMember g s w = (Inr om, w')" and "om \<noteq> None"
  shows "roleIn (tenancy w) g s \<noteq> None"
  using members.find_one_run [OF assms(1) [unfolded FindMember_def]] assms(2) by (auto simp: roleIn_def tenancy_def)

text \<open>The gate of the project endpoints.\<close>

definition gated :: "tenancy \<Rightarrow> Project table \<Rightarrow> string \<Rightarrow> string \<Rightarrow> string \<Rightarrow> User \<Rightarrow> Project \<Rightarrow> bool" where
  "gated T V sub i k u p \<longleftrightarrow> user_Sub u = sub \<and> map_of V i = Some p \<and> prj_ID p = i \<and> mayProject T sub p k"

lemma projGate_triple:
  "triple (\<lambda>w. realm w = (T, V)) (projGate (Some c) i k) (\<lambda>(u, p) w. gated T V (claim_Sub c) i k u p \<and> realm w = (T, V)) (\<lambda>w. realm w = (T, V))"
proof (rule tripleI)
  fix w r w'
  assume R: "realm w = (T, V)" and run: "projGate (Some c) i k w = (r, w')"
  have "keeps realm (projGate (Some c) i k)"
    unfolding projGate_def by (intro leaves_intros keeps_realm_principal keeps_realm_quiet quiet_intros)
  then have R': "realm w' = (T, V)" using leavesD run R by metis
  show "case r of Inl e \<Rightarrow> realm w' = (T, V) | Inr x \<Rightarrow> (case x of (u, p) \<Rightarrow> \<lambda>w. gated T V (claim_Sub c) i k u p \<and> realm w = (T, V)) w'"
  proof (cases r)
    case (Inr x)
    with run obtain u w1 p w2 w3 where pr: "principal (Some c) w = (Inr u, w1)" and g: "GetProject (user_Sub u) i w1 = (Inr p, w2)"
      and rp: "RequireProjectPermission (user_Sub u) p k w2 = (Inr (), w3)" and x: "x = (u, p)"
      by (auto simp: projGate_def bnd_Inr ret_def)
    have "realm w1 = (T, V)" using leavesD [OF keeps_realm_principal pr] R by simp
    moreover have "realm w2 = realm w1" using leavesD [OF keeps_realm_quiet [OF quiet_projects(3)] g] .
    moreover have "user_Sub u = claim_Sub c" using principal_found [OF pr] by blast
    ultimately show ?thesis using RequireProjectPermission_sound [OF rp] GetProject_run [OF g] Inr x R'
      by (auto simp: gated_def realm_def)
  qed (simp add: R')
qed

lemma triple_projGate:
  assumes "\<And>u p. gated T V (claim_Sub c) i k u p \<Longrightarrow> triple (\<lambda>w. realm w = (T, V)) (f u p) Q E"
    and "\<And>w. realm w = (T, V) \<Longrightarrow> E w"
  shows "triple (\<lambda>w. realm w = (T, V)) (handler (bnd (projGate (Some c) i k) (\<lambda>(u, p). f u p))) Q E"
  by (rule triple_handler, rule triple_seq [OF projGate_triple]) (use assms in \<open>auto intro!: triple_fact\<close>)

text \<open>Saving a changed project is a step.\<close>

lemma replaceRow_at: "map_of V k = Some p \<Longrightarrow> replaceRow k f V = replaceRow k (\<lambda>_. f p) V"
  by (induction k f V rule: replaceRow.induct) (auto split: if_splits)

lemma change_saved: "project_change T sub p q \<Longrightarrow> savedFields q now p = q \<lparr> prj_UpdatedAt := Some now \<rparr> \<and> prj_ID q = prj_ID p"
  by (cases p) (auto elim!: project_change.cases simp: savedFields_def)

lemma projSave_run:
  assumes run: "projSave q w = (r, w')"
  shows "view projectsC w' = view projectsC w \<or> (\<exists>now. view projectsC w' = replaceRow (prj_ID q) (savedFields q now) (view projectsC w))"
proof -
  obtain now w1 where now: "timeNow w = (Inr now, w1)" using timeNow_run by (cases "timeNow w") auto
  have "stored w1 = stored w" using timeNow_run [OF now] by simp
  from projects.view_stored [OF this] have V: "view projectsC w1 = view projectsC w" .
  have body: "bnd (dbSetByID projectsC (prj_ID q) (savedFields q now)) (\<lambda>_. ret (q \<lparr> prj_UpdatedAt := Some now \<rparr>)) w1 = (r, w')"
    using run now by (simp add: projSave_def bnd_def)
  show ?thesis
  proof (cases r)
    case (Inl e)
    then have "dbSetByID projectsC (prj_ID q) (savedFields q now) w1 = (Inl e, w')" using body by (auto simp: bnd_Inl ret_def)
    then have "stored w' = stored w1" by (rule failed_writes)
    from projects.view_stored [OF this] show ?thesis using V by simp
  next
    case (Inr x)
    then obtain b where upd: "dbSetByID projectsC (prj_ID q) (savedFields q now) w1 = (Inr b, w')" using body by (auto simp: bnd_Inr ret_def)
    have comm: "c_setID projectsC j (savedFields q now d) = savedFields q now (c_setID projectsC j d)" for j d
      by (simp add: projectsC_def savedFields_def)
    show ?thesis using projects.set_by_id_run(3) [OF upd comm] V by auto
  qed
qed

lemma projSave_triple:
  assumes row: "map_of V k = Some p" and id: "prj_ID p = k" and chg: "project_change T sub p q"
  shows "triple (\<lambda>w. realm w = (T, V)) (projSave q)
    (\<lambda>_ w. projects_step T sub V (view projectsC w)) (\<lambda>w. projects_step T sub V (view projectsC w))"
proof (rule tripleI)
  fix w r w'
  assume R: "realm w = (T, V)" and run: "projSave q w = (r, w')"
  have "replaceRow (prj_ID q) (savedFields q now) V = replaceRow k (\<lambda>_. q \<lparr> prj_UpdatedAt := Some now \<rparr>) V" for now
    using replaceRow_at [OF row, of "savedFields q now"] change_saved [OF chg] id by simp
  then have "projects_step T sub V (view projectsC w')"
    using projSave_run [OF run] changed [OF row chg] R by (auto simp: realm_def unchanged)
  then show "case r of Inl e \<Rightarrow> projects_step T sub V (view projectsC w') | Inr x \<Rightarrow> projects_step T sub V (view projectsC w')" by (cases r) auto
qed

lemma triple_view:
  assumes "triple P m (\<lambda>_ w. Q (view projectsC w)) (\<lambda>w. Q (view projectsC w))" and "\<And>x. leaves projectsC (f x)"
  shows "triple P (bnd m f) (\<lambda>_ w. Q (view projectsC w)) (\<lambda>w. Q (view projectsC w))"
  by (rule triple_bnd [OF assms(1)]) (rule keeps_triple [OF assms(2)])

lemma leaves_responses: "leaves projectsC (ret x)" "leaves projectsC (emit e)" "leaves projectsC (forgetLast u)"
proof -
  show "leaves projectsC (ret x)" "leaves projectsC (emit e)" by (intro projects.leaves_quiet quiet_intros)+
  show "leaves projectsC (forgetLast u)"
    unfolding forgetLast_def DeleteCustomInfo_def replaceCustomInfo_def Let_def
    by (intro leaves_intros projects.leaves_quiet quiet_intros projects.leaves_more_writes) simp
qed

lemma realm_unchanged: "realm w = (T, V) \<Longrightarrow> projects_step T sub V (view projectsC w)"
  by (auto simp: realm_def unchanged)

lemma refuse_step: "triple (\<lambda>w. realm w = (T, V)) (throw e) (\<lambda>_ w. projects_step T sub V (view projectsC w)) (\<lambda>w. projects_step T sub V (view projectsC w))"
  by (rule triple_throw) (rule realm_unchanged)

text \<open>Reading a project again in the same request finds the same row.\<close>

lemma again_step:
  assumes "quiet m" and "\<And>w x w'. m w = (Inr x, w') \<Longrightarrow> map_of (view projectsC w) i = Some x \<and> prj_ID x = i" and "map_of V i = Some p"
    and "triple (\<lambda>w. realm w = (T, V)) (f p) (\<lambda>_ w. projects_step T sub V (view projectsC w)) (\<lambda>w. projects_step T sub V (view projectsC w))"
  shows "triple (\<lambda>w. realm w = (T, V)) (bnd m f) (\<lambda>_ w. projects_step T sub V (view projectsC w)) (\<lambda>w. projects_step T sub V (view projectsC w))"
proof (rule triple_realm_know [OF assms(1), where K = "\<lambda>x. x = p"])
  fix w x w'
  assume "realm w = (T, V)" and run: "m w = (Inr x, w')"
  then show "x = p" using assms(2) [OF run] assms(3) by (simp add: realm_def)
qed (use assms(4) realm_unchanged in auto)

lemma AddMember_step:
  assumes g: "map_of V i = Some p" "prj_ID p = i" and may: "mayProject T sub p ''project:manage_members''"
  shows "triple (\<lambda>w. realm w = (T, V)) (AddMember i s role) (\<lambda>_ w. projects_step T sub V (view projectsC w)) (\<lambda>w. projects_step T sub V (view projectsC w))"
  unfolding AddMember_def
proof (rule again_step [OF quiet_projects(4) GetProjectByID_run g(1)], assumption,
    rule triple_realm [OF quiet_policy(8) realm_unchanged], assumption, rule triple_option, rule refuse_step)
  fix x u
  show "triple (\<lambda>w. realm w = (T, V)) (bnd (FindMember (prj_OrganizationID p) (user_Sub u)) (\<lambda>om.
       if om = None then throw (HTTPError 400 ''User must be a member of the organization before being added to a project'')
       else if IsDisabled p then throw (HTTPError 400 ''Project is suspended. Cannot add user to project'')
       else if projIsMember p (user_Sub u) then throw (HTTPError 400 ''User is already added to project'')
       else projSave (p \<lparr> prj_Memberships := prj_Memberships p @ [\<lparr> mem_Sub = user_Sub u, mem_Role = role \<rparr>] \<rparr>)))
     (\<lambda>_ w. projects_step T sub V (view projectsC w)) (\<lambda>w. projects_step T sub V (view projectsC w))"
  proof (rule triple_realm_know [OF quiet_policy(1) realm_unchanged, where K = "\<lambda>om. om \<noteq> None \<longrightarrow> roleIn T (prj_OrganizationID p) (user_Sub u) \<noteq> None"], assumption)
    fix w om w'
    assume "realm w = (T, V)" "FindMember (prj_OrganizationID p) (user_Sub u) w = (Inr om, w')"
    then show "om \<noteq> None \<longrightarrow> roleIn T (prj_OrganizationID p) (user_Sub u) \<noteq> None" using FindMember_run by (auto simp: realm_def)
  next
    fix om :: "Member option"
    assume "om \<noteq> None \<longrightarrow> roleIn T (prj_OrganizationID p) (user_Sub u) \<noteq> None"
    then show "triple (\<lambda>w. realm w = (T, V)) (if om = None then throw (HTTPError 400 ''User must be a member of the organization before being added to a project'')
       else if IsDisabled p then throw (HTTPError 400 ''Project is suspended. Cannot add user to project'')
       else if projIsMember p (user_Sub u) then throw (HTTPError 400 ''User is already added to project'')
       else projSave (p \<lparr> prj_Memberships := prj_Memberships p @ [\<lparr> mem_Sub = user_Sub u, mem_Role = role \<rparr>] \<rparr>))
     (\<lambda>_ w. projects_step T sub V (view projectsC w)) (\<lambda>w. projects_step T sub V (view projectsC w))"
      by (auto intro!: triple_if refuse_step projSave_triple [OF g] added [OF may])
  qed
qed

lemma RemoveMember_step:
  assumes g: "map_of V i = Some p" "prj_ID p = i" and may: "mayProject T sub p ''project:manage_members''"
  shows "triple (\<lambda>w. realm w = (T, V)) (RemoveMember i s) (\<lambda>_ w. projects_step T sub V (view projectsC w)) (\<lambda>w. projects_step T sub V (view projectsC w))"
  unfolding RemoveMember_def
  by (rule again_step [OF quiet_projects(4) GetProjectByID_run g(1)], assumption,
      rule triple_realm [OF quiet_policy(8) realm_unchanged], assumption)
    (auto intro!: refuse_step projSave_triple [OF g] removed [OF may] split: option.split)

lemma UpdateMemberRole_step:
  assumes g: "map_of V i = Some p" "prj_ID p = i" and may: "mayProject T sub p ''project:manage_members''"
  shows "triple (\<lambda>w. realm w = (T, V)) (UpdateMemberRole i s role) (\<lambda>_ w. projects_step T sub V (view projectsC w)) (\<lambda>w. projects_step T sub V (view projectsC w))"
  unfolding UpdateMemberRole_def Let_def
  by (rule triple_if [OF refuse_step], rule again_step [OF quiet_projects(4) GetProjectByID_run g(1)], assumption)
    (auto intro!: refuse_step triple_ret realm_unchanged projSave_triple [OF g] reroled [OF may] split: option.split)

lemma projInsert_step:
  assumes "may T sub (prj_OrganizationID p) ''project:create''" and "prj_ID p = []"
  shows "triple (\<lambda>w. realm w = (T, V)) (projInsert p) (\<lambda>_ w. projects_step T sub V (view projectsC w)) (\<lambda>w. projects_step T sub V (view projectsC w))"
proof (rule tripleI)
  fix w r w'
  assume R: "realm w = (T, V)" and run: "projInsert p w = (r, w')"
  obtain now w1 where now: "timeNow w = (Inr now, w1)" using timeNow_run by (cases "timeNow w") auto
  have "stored w1 = stored w" using timeNow_run [OF now] by simp
  from realm_stored [OF this] have V: "view projectsC w1 = V" using R by (simp add: realm_def)
  let ?p = "marshalProject (p \<lparr> prj_CreatedAt := Some now, prj_UpdatedAt := Some now \<rparr>)"
  have "projects_step T sub V (view projectsC w')"
  proof (cases r)
    case (Inl e)
    then have "dbInsertOne projectsC ?p w1 = (Inl e, w')" using run now by (auto simp: projInsert_def bnd_run bnd_Inl Let_def ret_def)
    then have "stored w' = stored w1" by (rule dbInsertOne_Inl)
    from projects.view_stored [OF this] show ?thesis using V by (simp add: unchanged)
  next
    case (Inr x)
    then obtain k where ins: "dbInsertOne projectsC ?p w1 = (Inr k, w')" using run now by (auto simp: projInsert_def bnd_run bnd_Inr Let_def ret_def)
    have "view projectsC w' = V @ [(k, c_setID projectsC k ?p)]" "k \<notin> fst ` set V"
      using projects.insert_run(1,2) [OF ins] V by simp_all
    moreover have "prj_OrganizationID (c_setID projectsC k ?p) = prj_OrganizationID p" by (simp add: projectsC_def marshalProject_def)
    ultimately show ?thesis using created [of T sub "c_setID projectsC k ?p" k V] assms(1) by simp
  qed
  then show "case r of Inl e \<Rightarrow> projects_step T sub V (view projectsC w') | Inr x \<Rightarrow> projects_step T sub V (view projectsC w')" by (cases r) auto
qed

lemma CreateProject_step:
  assumes "may T sub g ''project:create''"
  shows "triple (\<lambda>w. realm w = (T, V)) (CreateProject wired s name g subs) (\<lambda>_ w. projects_step T sub V (view projectsC w)) (\<lambda>w. projects_step T sub V (view projectsC w))"
proof -
  have q: "quiet Configuration" "quiet (isProjectsQuotaExceeded wired b g)" "quiet (IsActive b)" for b
    unfolding Configuration_def isProjectsQuotaExceeded_def IsActive_def Let_def by (intro quiet_intros)+
  have ins: "triple (\<lambda>w. realm w = (T, V)) (projInsert p) (\<lambda>_ w. projects_step T sub V (view projectsC w)) (\<lambda>w. projects_step T sub V (view projectsC w))"
    if "prj_OrganizationID p = g" "prj_ID p = []" for p
    using projInsert_step [of T sub p] assms that by simp
  show ?thesis
    unfolding CreateProject_def Let_def case_prod_beta
    by (intro triple_if triple_option refuse_step triple_realm [OF _ realm_unchanged] q quiet_intros ins) (simp_all add: newProject_def)
qed


lemma require_realm: "realm w = (T, V) \<Longrightarrow> RequirePermission s g k w = (Inr x, w') \<Longrightarrow> may T s g k"
  by (auto simp: realm_def dest: RequirePermission_sound)

lemma orgFindByID_run: "orgFindByID g w = (Inr (Some o'), w') \<Longrightarrow> org_ID o' = g"
  using orgs.get_run [of g w "Some o'" w'] orgs.view_get_ID [of w g o'] by (simp add: orgFindByID_def orgsC_def)

lemma GetOrganizationForUser_run:
  assumes "GetOrganizationForUser g s w = (Inr o', w')"
  shows "org_ID o' = g \<and> roleIn (tenancy w) g s \<noteq> None"
proof -
  from assms obtain x w1 m w2 where x: "orgFindByID g w = (Inr (Some x), w1)" and m: "FindMember g s w1 = (Inr (Some m), w2)" and "o' = x"
    by (auto simp: GetOrganizationForUser_def GetOrganization_def bnd_Inr throw_def ret_def split: option.splits)
  moreover have "tenancy w1 = tenancy w" using leavesD [OF keeps_tenancy_quiet [OF quiet_projects(11)] x] .
  ultimately show ?thesis using orgFindByID_run [OF x] FindMember_run [OF m] by simp
qed

lemma changeBilling_step:
  "triple (\<lambda>w. realm w = (T, V)) (changeBillingProfile L (Some c) i bpID)
    (\<lambda>_ w. projects_step T (claim_Sub c) V (view projectsC w)) (\<lambda>w. projects_step T (claim_Sub c) V (view projectsC w))"
  unfolding changeBillingProfile_def
proof (rule triple_projGate)
  let ?Q = "\<lambda>w. projects_step T (claim_Sub c) V (view projectsC w)"
  fix u p
  assume "gated T V (claim_Sub c) i ''project:update'' u p"
  then have u: "user_Sub u = claim_Sub c" and g: "map_of V i = Some p" "prj_ID p = i" and may: "mayProject T (claim_Sub c) p ''project:update''"
    by (simp_all add: gated_def)
  have q: "quiet (CurrentBalance L b t)" "quiet (profileOr404 b)" "quiet (profileValidForChanging L bp t)" for b t bp
    unfolding CurrentBalance_def AccountCreditTotal_def AvailablePromotionalTotal_def BillsByBillingProfile_def profileOr404_def
      profileValidForChanging_def AccountCreditsByProfile_def PromotionalCreditCandidates_def Let_def
    by (intro quiet_intros)+
  have save: "triple (\<lambda>w. realm w = (T, V)) (bnd (projSave (p \<lparr> prj_Status := syncedStatus st (prj_Status p), prj_BillingProfileID := b \<rparr>)) (\<lambda>p. ret (marshalProject p))) (\<lambda>_. ?Q) ?Q"
    if "may T (claim_Sub c) (prj_OrganizationID p) ''billing_profile:update''" for st b
    by (rule triple_view [OF projSave_triple [OF g billed [OF may that]]]) (rule leaves_responses)
  have org: "triple (\<lambda>w. realm w = (T, V)) (bnd (RequirePermission (user_Sub u) (org_ID o') ''billing_profile:update'') (\<lambda>_.
      bnd (profileValidForChanging L target now) (\<lambda>_. bnd (projSave (p \<lparr> prj_Status := syncedStatus st (prj_Status p), prj_BillingProfileID := b \<rparr>)) (\<lambda>p. ret (marshalProject p))))) (\<lambda>_. ?Q) ?Q"
    if "org_ID o' = prj_OrganizationID p" for o' :: Organization and target now st b
  proof (rule triple_realm_know [OF quiet_policy(5) realm_unchanged, where K = "\<lambda>_. may T (claim_Sub c) (prj_OrganizationID p) ''billing_profile:update''"], assumption)
    fix w x w'
    assume "realm w = (T, V)" "RequirePermission (user_Sub u) (org_ID o') ''billing_profile:update'' w = (Inr x, w')"
    then show "may T (claim_Sub c) (prj_OrganizationID p) ''billing_profile:update''"
      using require_realm that u by metis
  qed (rule triple_realm [OF q(3) realm_unchanged], assumption, rule save)
  have target: "triple (\<lambda>w. realm w = (T, V)) (if \<not> sameOrgBillingProfile target p then throw e
       else bnd (orgFindByID (bp_OrganizationID target)) (\<lambda>o'. case o' of
           None \<Rightarrow> throw (HTTPError 404 ''Billing Profile has no organization associated'')
         | Some o' \<Rightarrow> bnd (RequirePermission (user_Sub u) (org_ID o') ''billing_profile:update'') (\<lambda>_.
             bnd (profileValidForChanging L target now) (\<lambda>_.
             bnd (projSave (p \<lparr> prj_Status := syncedStatus (bp_Status target) (prj_Status p), prj_BillingProfileID := bp_ID target \<rparr>)) (\<lambda>p.
             ret (marshalProject p)))))) (\<lambda>_. ?Q) ?Q" for target now e
  proof (rule triple_if [OF refuse_step])
    assume "\<not> \<not> sameOrgBillingProfile target p"
    then have same: "bp_OrganizationID target = prj_OrganizationID p" by (simp add: sameOrgBillingProfile_def)
    show "triple (\<lambda>w. realm w = (T, V)) (bnd (orgFindByID (bp_OrganizationID target)) (\<lambda>o'. case o' of
           None \<Rightarrow> throw (HTTPError 404 ''Billing Profile has no organization associated'')
         | Some o' \<Rightarrow> bnd (RequirePermission (user_Sub u) (org_ID o') ''billing_profile:update'') (\<lambda>_.
             bnd (profileValidForChanging L target now) (\<lambda>_.
             bnd (projSave (p \<lparr> prj_Status := syncedStatus (bp_Status target) (prj_Status p), prj_BillingProfileID := bp_ID target \<rparr>)) (\<lambda>p.
             ret (marshalProject p)))))) (\<lambda>_. ?Q) ?Q"
      by (rule triple_realm_know [OF quiet_projects(11) realm_unchanged, where K = "\<lambda>o'. \<forall>x. o' = Some x \<longrightarrow> org_ID x = prj_OrganizationID p"])
        (auto simp: same dest: orgFindByID_run intro!: triple_option refuse_step org)
  qed
  show "triple (\<lambda>w. realm w = (T, V)) (bnd timeNow (\<lambda>now.
     bnd (if prj_BillingProfileID p \<noteq> '''' then ret (prj_BillingProfileID p)
          else bnd (attempt (orgFindByID (prj_OrganizationID p))) (\<lambda>o'.
            ret (case o' of Inr (Some o') \<Rightarrow> org_BillingProfileID o' | _ \<Rightarrow> ''''))) (\<lambda>curID.
     bnd (profileOr404 curID) (\<lambda>cur. bnd (profileValidForChanging L cur now) (\<lambda>_.
     bnd (profileOr404 bpID) (\<lambda>target.
       if \<not> sameOrgBillingProfile target p then throw (HTTPError 403 (''The billing profile does not belong to this project'' @ [char_of (39::nat)] @ ''s organization''))
       else bnd (orgFindByID (bp_OrganizationID target)) (\<lambda>o'. case o' of
           None \<Rightarrow> throw (HTTPError 404 ''Billing Profile has no organization associated'')
         | Some o' \<Rightarrow> bnd (RequirePermission (user_Sub u) (org_ID o') ''billing_profile:update'') (\<lambda>_.
             bnd (profileValidForChanging L target now) (\<lambda>_.
             bnd (projSave (p \<lparr> prj_Status := syncedStatus (bp_Status target) (prj_Status p), prj_BillingProfileID := bp_ID target \<rparr>)) (\<lambda>p.
             ret (marshalProject p)))))))))))  (\<lambda>_. ?Q) ?Q"
    by (intro triple_realm [OF _ realm_unchanged] q target quiet_intros)
qed (rule realm_unchanged)

text \<open>The refinement: every request to the project API is a step of the specification, whatever call of it fails.\<close>

lemma serveProject_refines:
  assumes run: "serveProject L wired (Some c) req w = (r, w')"
  shows "projects_step (tenancy w) (claim_Sub c) (view projectsC w) (view projectsC w')"
proof -
  let ?T = "tenancy w" and ?V = "view projectsC w"
  let ?Q = "\<lambda>w'. projects_step ?T (claim_Sub c) ?V (view projectsC w')"
  let ?P = "\<lambda>v. realm v = (?T, ?V)"
  note resp = leaves_bnd [OF leaves_responses(2)] leaves_bnd [OF leaves_responses(3)] leaves_responses
  note reads = projects.leaves_quiet [OF quiet_projects(3)] projects.leaves_quiet [OF quiet_projects(8)]
    projects.leaves_quiet [OF quiet_projects(9)] leaves_responses(1)
  have reading: "triple ?P m (\<lambda>_. ?Q) ?Q" if "leaves projectsC m" for m :: "'x svc"
    by (rule triple_conseq [OF keeps_triple [OF that, of "\<lambda>V. V = ?V"]]) (auto simp: realm_def unchanged)
  have who: "triple ?P (principal (Some c)) (\<lambda>u v. user_Sub u = claim_Sub c \<and> ?P v) ?P"
    by (rule tripleI) (use principal_found [of "Some c"] in \<open>force dest: leavesD [OF keeps_realm_principal] split: sum.split\<close>)
  have gate: "map_of ?V i = Some p \<and> prj_ID p = i \<and> user_Sub u = claim_Sub c \<and> mayProject ?T (claim_Sub c) p k"
    if "gated ?T ?V (claim_Sub c) i k u p" for i k u p using that by (simp add: gated_def)
  have "triple ?P (serveProject L wired (Some c) req) (\<lambda>_. ?Q) ?Q"
  proof (cases req)
    case (PostProject name g subs)
    have "triple ?P (projCreate wired (Some c) name g subs) (\<lambda>_. ?Q) ?Q"
      unfolding projCreate_def
    proof (rule triple_handler, rule triple_seq [OF who realm_unchanged], assumption, rule triple_fact,
        rule triple_realm [OF quiet_orgs(2) realm_unchanged], assumption)
      fix u o'
      assume u: "user_Sub u = claim_Sub c"
      show "triple ?P (bnd (RequirePermission (user_Sub u) (org_ID o') ''project:create'') (\<lambda>_.
         bnd (CreateProject wired (user_Sub u) name (org_ID o') subs) (\<lambda>p.
         bnd (emit (Audit ''CREATE'' (prj_ID p))) (\<lambda>_. ret (marshalProject p))))) (\<lambda>_. ?Q) ?Q"
      proof (rule triple_realm_know [OF quiet_policy(5) realm_unchanged, where K = "\<lambda>_. may ?T (claim_Sub c) (org_ID o') ''project:create''"], assumption)
        fix v x v'
        assume "realm v = (?T, ?V)" "RequirePermission (user_Sub u) (org_ID o') ''project:create'' v = (Inr x, v')"
        then show "may ?T (claim_Sub c) (org_ID o') ''project:create''"
          using require_realm u by metis
      qed (rule triple_view [OF CreateProject_step], assumption, intro resp)
    qed
    then show ?thesis using PostProject by (simp add: triple_silent)
  next
    case (DeleteProjectReq i)
    have "triple ?P (scheduleDeletion (Some c) i) (\<lambda>_. ?Q) ?Q"
      unfolding scheduleDeletion_def ScheduleDeletion_def
      by (rule triple_projGate, rule triple_view, rule triple_if [OF refuse_step], rule triple_realm [OF quiet_timeNow realm_unchanged], assumption,
          rule projSave_triple [OF _ _ scheduled]) (auto dest: gate intro!: resp intro: realm_unchanged)
    then show ?thesis using DeleteProjectReq by (simp add: triple_silent)
  next
    case (DeleteProjectNow i)
    have "triple ?P (deleteNow (Some c) i) (\<lambda>_. ?Q) ?Q"
      unfolding deleteNow_def DeleteNow_def
      by (rule triple_projGate, rule triple_view, rule again_step [OF quiet_projects(4) GetProjectByID_run], assumption)
        (auto dest!: gate intro!: resp projSave_triple flagged intro: realm_unchanged)
    then show ?thesis using DeleteProjectNow by (simp add: triple_silent)
  next
    case (DeleteProjectCancel i)
    have "triple ?P (cancelDeletion (Some c) i) (\<lambda>_. ?Q) ?Q"
      unfolding cancelDeletion_def CancelDeletion_def
      by (rule triple_projGate, rule triple_view, rule again_step [OF quiet_projects(4) GetProjectByID_run], assumption)
        (auto dest!: gate intro!: resp refuse_step projSave_triple cancelled intro: realm_unchanged)
    then show ?thesis using DeleteProjectCancel by (simp add: triple_silent)
  next
    case (PostRename i name)
    have "triple ?P (projRename (Some c) i name) (\<lambda>_. ?Q) ?Q"
      unfolding projRename_def Rename_def
      by (rule triple_projGate, rule triple_view, rule again_step [OF quiet_projects(3) GetProject_run], assumption)
        (auto dest!: gate intro!: resp projSave_triple renamed intro: realm_unchanged)
    then show ?thesis using PostRename by (simp add: triple_silent)
  next
    case (PutProjectOrganization i g)
    have "triple ?P (projMove (Some c) i g) (\<lambda>_. ?Q) ?Q"
      unfolding projMove_def
    proof (rule triple_projGate)
      fix u p
      assume "gated ?T ?V (claim_Sub c) i ''project:update'' u p"
      then have g: "map_of ?V i = Some p" "prj_ID p = i" "user_Sub u = claim_Sub c" "mayProject ?T (claim_Sub c) p ''project:update''"
        by (simp_all add: gated_def)
      show "triple ?P (bnd (GetOrganizationForUser g (user_Sub u)) (\<lambda>target.
          bnd (projUpdateOrganization (user_Sub u) (prj_ID p) (org_ID target)) (\<lambda>p. ret (marshalProject p)))) (\<lambda>_. ?Q) ?Q"
      proof (rule triple_realm_know [OF quiet_orgs(2) realm_unchanged, where K = "\<lambda>o'. roleIn ?T (org_ID o') (claim_Sub c) \<noteq> None"], assumption)
        fix v o' v'
        assume "realm v = (?T, ?V)" "GetOrganizationForUser g (user_Sub u) v = (Inr o', v')"
        then show "roleIn ?T (org_ID o') (claim_Sub c) \<noteq> None" using GetOrganizationForUser_run g(3) by (fastforce simp: realm_def)
      next
        fix o' :: Organization
        assume "roleIn ?T (org_ID o') (claim_Sub c) \<noteq> None"
        then have "triple ?P (projUpdateOrganization (user_Sub u) (prj_ID p) (org_ID o')) (\<lambda>_. ?Q) ?Q"
          unfolding projUpdateOrganization_def g(2)
          by (intro again_step [OF quiet_projects(3) GetProject_run g(1)] projSave_triple [OF g(1,2)] moved [OF g(4)])
        then show "triple ?P (bnd (projUpdateOrganization (user_Sub u) (prj_ID p) (org_ID o')) (\<lambda>p. ret (marshalProject p))) (\<lambda>_. ?Q) ?Q"
          by (rule triple_view) (rule leaves_responses)
      qed
    qed (rule realm_unchanged)
    then show ?thesis using PutProjectOrganization by (simp add: triple_silent)
  next
    case (PostProjectMember i s role)
    have "triple ?P (addUserToProject (Some c) i s role) (\<lambda>_. ?Q) ?Q"
      unfolding addUserToProject_def
      by (rule triple_projGate, rule triple_view) (auto dest!: gate intro!: resp AddMember_step intro: realm_unchanged)
    then show ?thesis using PostProjectMember by (simp add: triple_silent)
  next
    case (PutProjectMemberRole i s role)
    have "triple ?P (updateProjectMemberRole (Some c) i s role) (\<lambda>_. ?Q) ?Q"
      unfolding updateProjectMemberRole_def
      by (rule triple_projGate, rule triple_view) (auto dest!: gate intro!: resp UpdateMemberRole_step intro: realm_unchanged)
    then show ?thesis using PutProjectMemberRole by (simp add: triple_silent)
  next
    case (DeleteProjectMember i s)
    have "triple ?P (removeUserFromProject (Some c) i s) (\<lambda>_. ?Q) ?Q"
      unfolding removeUserFromProject_def
      by (rule triple_projGate, rule triple_view) (auto dest!: gate intro!: resp RemoveMember_step intro: realm_unchanged)
    then show ?thesis using DeleteProjectMember by (simp add: triple_silent)
  next
    case (PostProjectBilling i b)
    then show ?thesis by (simp add: triple_silent changeBilling_step)
  qed (auto simp: silent_def projList_def projGet_def projGetMembers_def
    intro!: reading leaves_intros projects.leaves_principal reads)
  then show ?thesis using run tripleD by (fastforce simp: realm_def split: sum.splits)
qed

end
