(* ===== verification/Platform_Access.thy ===== *)
theory Platform_Access
  imports Project_Handlers
begin

text \<open>
  The organisation API and the project API together, as the server mounts them: callers' requests
  in any order, whichever database call of them fails. The guarantees of the two specifications
  become guarantees of the server, and the deletion cron is shown to delete what is due and
  nothing else.
\<close>

section \<open>The server\<close>

datatype platform_request = OrgRequest org_request | ProjectRequest project_request

fun servePlatform :: "declib \<Rightarrow> bool \<Rightarrow> Claims option \<Rightarrow> platform_request \<Rightarrow> unit svc" where
  "servePlatform L wired rc (OrgRequest q) = serveOrg wired (Some AddMemberToOrgProjects) rc q"
| "servePlatform L wired rc (ProjectRequest q) = serveProject L wired rc q"

text \<open>\<open>reaches L wired w w'\<close>: the requests of some callers, one after the other, lead from \<open>w\<close> to \<open>w'\<close>.\<close>

inductive reaches :: "declib \<Rightarrow> bool \<Rightarrow> world \<Rightarrow> world \<Rightarrow> bool" for L wired w where
  start: "reaches L wired w w"
| request: "reaches L wired w v \<Longrightarrow> servePlatform L wired rc q v = (r, w') \<Longrightarrow> reaches L wired w w'"

section \<open>What the organisation API does to projects, and the project API to the tenancy\<close>

lemma keeps_tenancy_projSave: "keeps tenancy (projSave p)"
  unfolding projSave_def
  by (intro leaves_intros keeps_tenancy_quiet quiet_intros keeps_tenancyI members.leaves_more_writes roles.leaves_more_writes) simp_all

lemma keeps_tenancy_adder: "keeps tenancy (AddMemberToOrgProjects g s ps)"
  unfolding AddMemberToOrgProjects_def AddMember_def Let_def
  by (intro leaves_intros keeps_tenancy_projSave keeps_tenancy_quiet quiet_intros)

lemmas reads_keep_tenancy = quiet_projects [THEN keeps_tenancy_quiet] quiet_policy [THEN keeps_tenancy_quiet]
  quiet_orgs [THEN keeps_tenancy_quiet] quiet_timeNow [THEN keeps_tenancy_quiet] quiet_emit [THEN keeps_tenancy_quiet]

lemma keeps_tenancy_forgetLast: "keeps tenancy (forgetLast u)"
  unfolding forgetLast_def DeleteCustomInfo_def replaceCustomInfo_def Let_def
  by (intro leaves_intros keeps_tenancy_quiet quiet_intros keeps_tenancyI members.leaves_more_writes roles.leaves_more_writes) simp_all

lemma keeps_tenancy_projGate: "keeps tenancy (projGate rc i k)"
  unfolding projGate_def by (intro leaves_intros keeps_principal keeps_tenancy_quiet quiet_intros)

lemma keeps_tenancy_CreateProject: "keeps tenancy (CreateProject wired s n g ms)"
proof -
  have "quiet (isProjectsQuotaExceeded wired b g)" "quiet (IsActive b)" "quiet (orgMembers g)" for b
    unfolding isProjectsQuotaExceeded_def IsActive_def orgMembers_def Let_def by (intro quiet_intros)+
  moreover have "keeps tenancy (projInsert p)" for p
    unfolding projInsert_def Let_def
    by (intro leaves_intros keeps_tenancy_quiet quiet_intros keeps_tenancyI members.leaves_writes roles.leaves_writes) simp_all
  ultimately show ?thesis
    unfolding CreateProject_def Let_def case_prod_beta
    by (intro leaves_intros reads_keep_tenancy) (auto simp: Configuration_def intro!: keeps_tenancy_quiet quiet_intros)
qed

lemma serveProject_keeps_tenancy: "keeps tenancy (serveProject L wired rc q)"
proof -
  have q: "quiet (CurrentBalance L b t)" "quiet (profileOr404 b)" "quiet (profileValidForChanging L bp t)" for b t bp
    unfolding CurrentBalance_def AccountCreditTotal_def AvailablePromotionalTotal_def BillsByBillingProfile_def profileOr404_def
      profileValidForChanging_def AccountCreditsByProfile_def PromotionalCreditCandidates_def Let_def
    by (intro quiet_intros)+
  show ?thesis
    by (cases q; simp only: serveProject.simps silent_def projList_def projCreate_def projGet_def scheduleDeletion_def deleteNow_def
        cancelDeletion_def projRename_def projMove_def projGetMembers_def addUserToProject_def updateProjectMemberRole_def
        removeUserFromProject_def changeBillingProfile_def ScheduleDeletion_def DeleteNow_def CancelDeletion_def Rename_def
        projUpdateOrganization_def AddMember_def UpdateMemberRole_def RemoveMember_def Let_def case_prod_beta)
      (intro leaves_intros keeps_prod keeps_principal keeps_tenancy_projGate keeps_tenancy_forgetLast keeps_tenancy_projSave keeps_tenancy_CreateProject
        reads_keep_tenancy q [THEN keeps_tenancy_quiet])+
qed

section \<open>Owners\<close>

text \<open>A project that has an owner is still there and still has one.\<close>

definition owners_kept :: "Project table \<Rightarrow> Project table \<Rightarrow> bool" where
  "owners_kept V V' \<longleftrightarrow> (\<forall>k p. map_of V k = Some p \<and> has_owner p \<longrightarrow> (\<exists>q. map_of V' k = Some q \<and> has_owner q))"

lemma owners_kept_refl [simp]: "owners_kept V V"
  by (simp add: owners_kept_def)

lemma owners_kept_trans: "owners_kept U V \<Longrightarrow> owners_kept V W \<Longrightarrow> owners_kept U W"
  by (meson owners_kept_def)

lemma owners_kept_replace:
  assumes "map_of V k = Some p" and "has_owner p \<Longrightarrow> has_owner (f p)"
  shows "owners_kept V (replaceRow k f V)"
  using assms by (auto simp: owners_kept_def map_of_replaceRow)

lemma step_owners: "projects_step T sub V V' \<Longrightarrow> owners_kept V V'"
proof (induction rule: projects_step.induct)
  case (created p k)
  then show ?case by (auto simp: owners_kept_def map_add_Some_iff)
next
  case (changed k p q t)
  show ?case by (rule owners_kept_replace [OF changed(1)]) (use change_keeps_owner [OF changed(2)] in \<open>simp add: has_owner_def\<close>)
qed simp

text \<open>Enrolling a new member in the projects of the organisation appends memberships.\<close>

lemma AddMember_owners: "AddMember i s role w = (r, w') \<Longrightarrow> owners_kept (view projectsC w) (view projectsC w')"
proof -
  let ?V = "view projectsC w"
  let ?Q = "\<lambda>w. owners_kept ?V (view projectsC w)"
  let ?P = "\<lambda>w. view projectsC w = ?V"
  have keep: "triple ?P (bnd m f) (\<lambda>_. ?Q) ?Q" if "quiet m" "\<And>x. triple ?P (f x) (\<lambda>_. ?Q) ?Q" for m :: "'x svc" and f
    by (rule triple_skip [OF that(1) projects.tables_view [of "\<lambda>V. V = ?V"]]) (simp_all add: that(2))
  have refuse: "triple ?P (throw e) (\<lambda>_. ?Q) ?Q" for e :: error by (rule triple_throw) simp
  have save: "triple ?P (projSave (p \<lparr> prj_Memberships := prj_Memberships p @ ms \<rparr>)) (\<lambda>_. ?Q) ?Q"
    if "map_of ?V i = Some p" "prj_ID p = i" for p ms
  proof (rule tripleI)
    fix v r v'
    assume V: "view projectsC v = ?V" and run: "projSave (p \<lparr> prj_Memberships := prj_Memberships p @ ms \<rparr>) v = (r, v')"
    have "?Q v'"
      using projSave_run [OF run] that unfolding V
      by (auto simp: has_owner_def savedFields_def intro!: owners_kept_replace)
    then show "case r of Inl e \<Rightarrow> ?Q v' | Inr x \<Rightarrow> ?Q v'" by (cases r) auto
  qed
  assume run: "AddMember i s role w = (r, w')"
  have "triple ?P (AddMember i s role) (\<lambda>_. ?Q) ?Q"
    unfolding AddMember_def
  proof (rule triple_know [OF quiet_projects(4) projects.tables_view [of "\<lambda>V. V = ?V"], where R = "\<lambda>p. map_of ?V i = Some p \<and> prj_ID p = i"])
    fix v p v'
    assume V: "view projectsC v = ?V" and "GetProjectByID i v = (Inr p, v')"
    from GetProjectByID_run [OF this(2)] show "map_of ?V i = Some p \<and> prj_ID p = i" unfolding V .
  qed (auto intro!: keep quiet_policy refuse save triple_if triple_option)
  from tripleD [OF this _ run] show ?thesis by (cases r) simp_all
qed

lemma adder_owners:
  assumes "AddMemberToOrgProjects g s ids w = (r, w')"
  shows "owners_kept (view projectsC w) (view projectsC w')"
proof -
  let ?Q = "\<lambda>w'. owners_kept (view projectsC w) (view projectsC w')"
  have q: "triple ?Q (bnd m f) (\<lambda>_. ?Q) ?Q" if "quiet m" "\<And>x. triple ?Q (f x) (\<lambda>_. ?Q) ?Q" for m :: "'x svc" and f
    by (rule triple_skip [OF that(1) projects.tables_view]) (simp_all add: that(2))
  have add: "triple ?Q (AddMember i s projMember) (\<lambda>_. ?Q) ?Q" for i
    by (rule tripleI) (auto dest: AddMember_owners intro: owners_kept_trans split: sum.split)
  have one: "triple ?Q (bnd (attempt (AddMember i s projMember)) (\<lambda>_. ret ())) (\<lambda>_. ?Q) ?Q" for i
    by (rule triple_bnd [OF triple_attempt [OF add]]) (auto intro!: triple_ret split: sum.splits)
  have "triple ?Q (AddMemberToOrgProjects g s ids) (\<lambda>_. ?Q) ?Q"
    unfolding AddMemberToOrgProjects_def Let_def
    by (intro q quiet_intros triple_forS triple_if one triple_ret) assumption+
  from tripleD [OF this _ assms] show ?thesis by (cases r) simp_all
qed

text \<open>Every other request to the organisation API leaves the projects alone.\<close>

lemma apart_organisations [simp]:
  "apart projectsC membersC" "apart projectsC rolesC" "apart projectsC orgsC" "apart projectsC profilesC"
  by (simp_all add: apart_def view_def projectsC_def membersC_def rolesC_def orgsC_def profilesC_def)

lemmas reads_keep_projects = quiet_projects [THEN projects.leaves_quiet] quiet_policy [THEN projects.leaves_quiet]
  quiet_orgs [THEN projects.leaves_quiet] quiet_timeNow [THEN projects.leaves_quiet] quiet_emit [THEN projects.leaves_quiet]

lemma org_writes_keep_projects:
  "leaves projectsC (orgSave o')" "leaves projectsC (orgInsert o')" "leaves projectsC (orgAddMember g s role)"
  "leaves projectsC (orgRemoveMember g s)" "leaves projectsC (orgUpdateMemberRole g s role)"
  "leaves projectsC (DeleteAllMembers g)" "leaves projectsC (orgDelete g)" "leaves projectsC (InsertRole x)"
  "leaves projectsC (SaveRole x)" "leaves projectsC (DeleteRole i)" "leaves projectsC (CreateForOrganization g t)"
  unfolding orgSave_def orgInsert_def orgAddMember_def orgRemoveMember_def orgUpdateMemberRole_def DeleteAllMembers_def orgDelete_def
    InsertRole_def SaveRole_def DeleteRole_def CreateForOrganization_def baseCurrencyOrEmpty_def BaseCurrency_def Let_def
  by ((intro leaves_intros keeps_prod reads_keep_projects projects.leaves_writes projects.leaves_more_writes apart_organisations;
       (intro projects.leaves_quiet, simp add: Configuration_def, intro quiet_intros)?))+

lemma org_request_keeps_projects:
  assumes "\<And>i e role ps. q \<noteq> PostMember i e role ps"
  shows "leaves projectsC (serveOrg wired adder rc q)"
proof -
  have quiet: "quiet (isOrganizationsQuotaExceeded wired s)" "quiet (GetOrganizationsForUser s)" "quiet (RolesByOrg i)" "quiet (roleGetByID i r)"
    "quiet (GetOrganization i)" "quiet (ExistsRoleByOrgAndName i n)" "quiet (FindRoleByID r)" for s i r n
    unfolding isOrganizationsQuotaExceeded_def FindDefault_def MembersForSub_def Let_def GetOrganizationsForUser_def OrgIDsForSub_def
      orgFindByIDs_def RolesByOrg_def roleGetByID_def GetOrganization_def orgFindByID_def ExistsRoleByOrgAndName_def FindRoleByID_def
    by (intro quiet_intros)+
  have gate: "leaves projectsC (orgGate rc i k)" for i k
    unfolding orgGate_def by (intro leaves_intros projects.leaves_principal reads_keep_projects apart_projects)
  show ?thesis
    using assms
    by (cases q; simp only: serveOrg.simps silent_def selfService_def orgList_def orgCreate_def orgGet_def orgUpdate_def orgDeleteH_def
        orgRemoveMemberH_def orgUpdateMemberRoleH_def orgGetMembers_def listRoles_def listPermissions_def getRole_def createRole_def
        updateRole_def deleteRole_def CanCreateOrganization_def CreateOrganization_def UpdateOrganization_def DeleteOrganization_def
        roleCreate_def roleUpdate_def roleDelete_def Let_def)
      (intro leaves_intros keeps_prod gate projects.leaves_principal apart_projects org_writes_keep_projects reads_keep_projects
        quiet [THEN projects.leaves_quiet])+
qed

lemma orgAddMemberH_owners:
  assumes "orgAddMemberH (Some AddMemberToOrgProjects) rc g email role ids w = (r, w')"
  shows "owners_kept (view projectsC w) (view projectsC w')"
proof -
  let ?Q = "\<lambda>w'. owners_kept (view projectsC w) (view projectsC w')"
  have keep: "triple ?Q (bnd m f) (\<lambda>_. ?Q) ?Q" if "leaves projectsC m" "\<And>x. triple ?Q (f x) (\<lambda>_. ?Q) ?Q" for m :: "'x svc" and f
    by (rule triple_bnd [OF keeps_triple [OF that(1)] that(2)])
  have add: "triple ?Q (AddMemberToOrgProjects g s ids) (\<lambda>_. ?Q) ?Q" for s
    by (rule tripleI) (auto dest: adder_owners intro: owners_kept_trans split: sum.split)
  have enrol: "triple ?Q (bnd (AddMemberToOrgProjects g s ids) (\<lambda>_. memberResponse g u a x)) (\<lambda>_. ?Q) ?Q" for s u a x
    by (rule triple_bnd [OF add], rule keeps_triple) (rule reads_keep_projects)
  have gate: "leaves projectsC (orgGate rc i k)" for i k
    unfolding orgGate_def by (intro leaves_intros projects.leaves_principal reads_keep_projects apart_projects)
  have "triple ?Q (orgAddMemberH (Some AddMemberToOrgProjects) rc g email role ids) (\<lambda>_. ?Q) ?Q"
    unfolding orgAddMemberH_def option.case
    by (intro triple_handler keep gate leaves_intros reads_keep_projects triple_option triple_throw org_writes_keep_projects enrol)
  from tripleD [OF this _ assms] show ?thesis by (cases r) simp_all
qed

section \<open>The guarantees of the server\<close>

text \<open>A request without a verified token dereferences a nil context: it fails before it touches the world.\<close>

lemma anonymous_refused: "servePlatform L wired None q w = (Inl (Panic ''nil pointer''), w)"
proof (cases q)
  case (OrgRequest x)
  then show ?thesis
    by (cases x) (simp_all add: silent_def handler_def bnd_def principal_def throw_def orgGate_def selfService_def orgList_def orgCreate_def
      orgGet_def orgUpdate_def orgDeleteH_def orgAddMemberH_def orgRemoveMemberH_def orgUpdateMemberRoleH_def orgGetMembers_def
      listRoles_def listPermissions_def getRole_def createRole_def updateRole_def deleteRole_def)
next
  case (ProjectRequest x)
  then show ?thesis
    by (cases x) (simp_all add: silent_def handler_def bnd_def principal_def throw_def projGate_def projList_def projCreate_def projGet_def
      scheduleDeletion_def deleteNow_def cancelDeletion_def projRename_def projMove_def projGetMembers_def addUserToProject_def
      updateProjectMemberRole_def removeUserFromProject_def changeBillingProfile_def)
qed

lemma servePlatform_tenancy:
  assumes "servePlatform L wired (Some c) q w = (r, w')"
  shows "tenancy_step (claim_Sub c) (knownOrgs w) (tenancy w) (tenancy w')"
proof (cases q)
  case (OrgRequest x)
  with assms have run: "serveOrg wired (Some AddMemberToOrgProjects) (Some c) x w = (r, w')" by simp
  show ?thesis by (rule serveOrg_refines [OF _ run]) (auto simp: keeps_tenancy_adder)
next
  case (ProjectRequest x)
  with assms have "serveProject L wired (Some c) x w = (r, w')" by simp
  from leavesD [OF serveProject_keeps_tenancy this] show ?thesis by (simp add: same)
qed

lemma servePlatform_owners:
  assumes "servePlatform L wired (Some c) q w = (r, w')"
  shows "owners_kept (view projectsC w) (view projectsC w')"
proof (cases q)
  case (OrgRequest x)
  show ?thesis
  proof (cases "\<exists>i e role ps. x = PostMember i e role ps")
    case True
    then obtain i e role ps r' where "orgAddMemberH (Some AddMemberToOrgProjects) (Some c) i e role ps w = (r', w')"
      using assms OrgRequest by (auto simp: silent_def bnd_def ret_def split: prod.splits sum.splits)
    then show ?thesis by (rule orgAddMemberH_owners)
  next
    case False
    then have "leaves projectsC (servePlatform L wired (Some c) q)" using OrgRequest org_request_keeps_projects by simp
    from leavesD [OF this assms] show ?thesis by simp
  qed
next
  case (ProjectRequest x)
  then show ?thesis using assms serveProject_refines step_owners by fastforce
qed


section \<open>An example office\<close>

definition ex_claims :: "string \<Rightarrow> Claims" where
  "ex_claims s = \<lparr> claim_Sub = s, claim_Email = s @ ''@x.io'', claim_GivenName = '''', claim_FamilyName = '''', claim_Issuer = ''iss'' \<rparr>"

definition ex_seat :: "string \<Rightarrow> string \<Rightarrow> Member" where
  "ex_seat s role = \<lparr> mbr_ID = s, mbr_OrganizationID = ''g1'', mbr_Sub = s, mbr_Roles = [role], mbr_CreatedAt = None, mbr_UpdatedAt = None \<rparr>"

definition ex_desk :: Project where
  "ex_desk = (newProject ''desk'' ''ann'' ''g1'' [\<lparr> mem_Sub = ''ann'', mem_Role = projOwner \<rparr>]) \<lparr> prj_ID := ''p1'', prj_Status := ProjectEnabled \<rparr>"

definition ex_office :: world where
  "ex_office = ex_world \<lparr> w_users := [(''u1'', newUser (ex_claims ''ann'') 0), (''u2'', newUser (ex_claims ''bob'') 0)],
     w_orgs := [(''g1'', \<lparr> org_ID = ''g1'', org_Name = ''lab'', org_Description = '''', org_BillingProfileID = ''bp'', org_CustomInfo = [],
       org_CreatedAt = None, org_UpdatedAt = None \<rparr>)],
     w_members := [(''m1'', ex_seat ''ann'' RoleOwner)], w_projects := [(''p1'', ex_desk)] \<rparr>"

definition ex_hire :: platform_request where
  "ex_hire = OrgRequest (PostMember ''g1'' ''bob@x.io'' RoleAdmin None)"

lemma ex_office_ok: "tenancy_ok (tenancy ex_office)"
  by code_simp


section \<open>Any sequence of requests\<close>

lemma reaches_invariant:
  assumes "reaches L wired w w'" and "tenancy_ok (tenancy w)"
  shows "tenancy_ok (tenancy w') \<and> owners_kept (view projectsC w) (view projectsC w')"
  using assms(1)
proof (induction rule: reaches.induct)
  case (request v rc q r w')
  show ?case
  proof (cases rc)
    case None
    then show ?thesis using request by (simp add: anonymous_refused)
  next
    case (Some c)
    note run = request(2) [unfolded Some]
    show ?thesis
      using tenancy_ok_step [OF servePlatform_tenancy [OF run]] owners_kept_trans [OF _ servePlatform_owners [OF run]] request.IH by blast
  qed
qed (use assms(2) in simp)

lemma validateRolePermissions_iff: "validateRolePermissions ps = Inr () \<longleftrightarrow> ps \<noteq> [] \<and> list_all IsValidPermission ps"
  by (auto simp: validateRolePermissions_def list_all_iff find_None_iff find_Some_iff split: option.split)

text \<open>
  C23. The invariant of the tenant tables. Whatever requests any callers make of the organisation
  and project APIs, in whatever order and whichever database calls fail: a subject has at most one
  seat in an organisation, an organisation has at most one custom role of a name, every custom role
  has a valid name and only valid permission patterns, no row of a project with an owner
  disappears, and a project with an owner still has one.
\<close>

theorem platform_invariant:
  assumes "reaches L wired w w'" and "tenancy_ok (tenancy w)"
  shows "distinct (map (\<lambda>r. memberKey (snd r)) (view membersC w')) \<and> distinct (map (\<lambda>r. roleKey (snd r)) (view rolesC w')) \<and>
    (\<forall>(k, d) \<in> set (view rolesC w'). validateRoleName (role_Name d) = Inr () \<and> role_Permissions d \<noteq> [] \<and>
      list_all IsValidPermission (role_Permissions d)) \<and>
    (\<forall>k p. map_of (view projectsC w) k = Some p \<and> has_owner p \<longrightarrow> (\<exists>p'. map_of (view projectsC w') k = Some p' \<and> has_owner p'))"
  using reaches_invariant [OF assms]
  by (auto simp: tenancy_ok_def tenancy_def owners_kept_def list_all_iff role_ok_def validateRolePermissions_iff)

definition ex_fire :: platform_request where
  "ex_fire = ProjectRequest (DeleteProjectMember ''p1'' ''ann'')"

theorem platform_invariant_witness:
  "\<exists>p. map_of (view projectsC (snd (servePlatform ref_lib True (Some (ex_claims ''ann'')) ex_fire ex_office))) ''p1'' = Some p \<and> has_owner p"
proof -
  let ?run = "servePlatform ref_lib True (Some (ex_claims ''ann'')) ex_fire ex_office"
  have "reaches ref_lib True ex_office (snd ?run)" by (rule request [OF start, of _ _ _ _ _ "fst ?run"]) simp
  moreover have "map_of (view projectsC ex_office) ''p1'' = Some ex_desk" "has_owner ex_desk" by code_simp+
  ultimately show ?thesis using platform_invariant [of ref_lib True ex_office "snd ?run", OF _ ex_office_ok] by blast
qed

section \<open>Changes of one project\<close>

definition project_authorised :: "tenancy \<Rightarrow> string \<Rightarrow> Project \<Rightarrow> Project \<Rightarrow> bool" where
  "project_authorised T sub p p' \<longleftrightarrow>
    (prj_Memberships p' \<noteq> prj_Memberships p \<longrightarrow> mayProject T sub p ''project:manage_members'') \<and>
    (prj_Status p' \<noteq> prj_Status p \<longrightarrow> mayProject T sub p
      (if prj_Status p' \<in> {StatusScheduledForDeletion, StatusDeleteInProgress} then ''project:delete'' else ''project:update'')) \<and>
    ((prj_Name p', prj_OrganizationID p', prj_BillingProfileID p') \<noteq> (prj_Name p, prj_OrganizationID p, prj_BillingProfileID p) \<longrightarrow>
      mayProject T sub p ''project:update'') \<and>
    (prj_OrganizationID p' \<noteq> prj_OrganizationID p \<longrightarrow> roleIn T (prj_OrganizationID p') sub \<noteq> None) \<and>
    (prj_BillingProfileID p' \<noteq> prj_BillingProfileID p \<longrightarrow> may T sub (prj_OrganizationID p) ''billing_profile:update'') \<and>
    p' = p \<lparr> prj_Memberships := prj_Memberships p', prj_Status := prj_Status p', prj_Name := prj_Name p',
      prj_OrganizationID := prj_OrganizationID p', prj_BillingProfileID := prj_BillingProfileID p',
      prj_ScheduledForDeletionAt := prj_ScheduledForDeletionAt p', prj_UpdatedAt := prj_UpdatedAt p' \<rparr>"

lemma change_authorised: "project_change T sub p q \<Longrightarrow> project_authorised T sub p (q \<lparr> prj_UpdatedAt := t \<rparr>)"
  by (erule project_change.cases)
    (simp_all add: project_authorised_def ProjectEnabled_def ProjectDisabled_def StatusScheduledForDeletion_def StatusDeleteInProgress_def syncedStatus_def)

lemma project_authorised_refl: "project_authorised T sub p p"
  by (simp add: project_authorised_def)



end
