(* ===== verification/Cloud_Repo.thy ===== *)
theory Cloud_Repo
  imports Service_Logic Billing_Resource
begin

text \<open>
  \<open>internal/cloud/repo.go\<close>: the cache of cloud resources that the sync, the write dispatch and the
  teardown share, and the history of deleted resources. One cached row stands for one object of
  one service, by service id and external id; there is no unique index behind it, so that it is the
  row-locked upsert that keeps it so, and it is proved here that it does.
\<close>

section \<open>The repository\<close>

definition ensureCloud :: "unit svc" where
  "ensureCloud w = (case w_ensureCloud w of
       Some r \<Rightarrow> (r, w)
     | None \<Rightarrow> (case bnd dbStatement (\<lambda>_. dbStatement) w of (r, w') \<Rightarrow> (r, w' \<lparr> w_ensureCloud := Some r \<rparr>)))"

text \<open>The patch that both writers store: neither the creation date nor the price plan is in it.\<close>

definition toDbRecord :: "CloudResource \<Rightarrow> CloudResource \<Rightarrow> CloudResource" where
  "toDbRecord r d = d \<lparr> cr_ServiceID := cr_ServiceID r, cr_ExternalID := cr_ExternalID r, cr_Type := cr_Type r, cr_Region := cr_Region r,
     cr_ProjectID := cr_ProjectID r, cr_UserID := cr_UserID r, cr_UpdatedAt := cr_UpdatedAt r, cr_Info := cr_Info r, cr_Data := cr_Data r \<rparr>"

definition emptyResource :: CloudResource where
  "emptyResource = \<lparr> cr_ID = '''', cr_ProjectID = '''', cr_UserID = '''', cr_ExternalID = '''', cr_ServiceID = '''', cr_Type = '''',
     cr_PricePlan = JLeaf AnyNil, cr_Region = '''', cr_AvailabilityZone = '''', cr_Data = [], cr_EphemeralData = [],
     cr_CreatedAt = None, cr_UpdatedAt = None, cr_Info = None \<rparr>"

definition cloudKey :: "CloudResource \<Rightarrow> string \<times> string" where
  "cloudKey r = (cr_ServiceID r, cr_ExternalID r)"

definition StampCreatedAtIfNull :: "string \<Rightarrow> string \<Rightarrow> time \<Rightarrow> unit svc" where
  "StampCreatedAtIfNull serviceID externalID t =
     bnd (dbSetFieldsOne cloudResourcesC (\<lambda>r. cloudKey r = (serviceID, externalID) \<and> cr_CreatedAt r = None) (\<lambda>d. d \<lparr> cr_CreatedAt := Some t \<rparr>)) (\<lambda>_. ret ())"

definition matchByServiceExternal :: "CloudResource \<Rightarrow> CloudResource \<Rightarrow> bool" where
  "matchByServiceExternal res r \<longleftrightarrow> cr_ExternalID r = cr_ExternalID res \<and> cr_ServiceID r \<in> set [cr_ServiceID res]"

text \<open>The post-image is read back by id; a row that is gone would leave the zero value.\<close>

definition postImage :: "string \<Rightarrow> CloudResource svc" where
  "postImage i = bnd (dbGet cloudResourcesC i) (\<lambda>r. ret (case r of None \<Rightarrow> emptyResource | Some r \<Rightarrow> r))"

definition cloudInsert :: "CloudResource \<Rightarrow> CloudResource svc" where
  "cloudInsert res = bnd ensureCloud (\<lambda>_. withTx (
     bnd (dbFindOneForUpdate cloudResourcesC (matchByServiceExternal res)) (\<lambda>r. case r of
         Some (i, cur) \<Rightarrow> bnd (dbSetByID cloudResourcesC i (toDbRecord res)) (\<lambda>_. postImage i)
       | None \<Rightarrow> bnd (dbInsertOne cloudResourcesC (toDbRecord res emptyResource \<lparr> cr_CreatedAt := cr_CreatedAt res \<rparr>)) postImage)))"

definition cloudUpdate :: "CloudResource \<Rightarrow> CloudResource option svc" where
  "cloudUpdate res = bnd ensureCloud (\<lambda>_. withTx (
     bnd (dbFindOneForUpdate cloudResourcesC (matchByServiceExternal res)) (\<lambda>r. case r of
         None \<Rightarrow> ret None
       | Some (i, cur) \<Rightarrow> (case (cr_UpdatedAt cur, cr_UpdatedAt res) of
             (Some stored', Some incoming) \<Rightarrow> if incoming < stored' then ret None
               else bnd (dbSetByID cloudResourcesC i (toDbRecord res)) (\<lambda>_. bnd (postImage i) (\<lambda>p. ret (Some p)))
           | _ \<Rightarrow> ret None))))"

definition FindByServiceIDAndExternalID :: "string \<Rightarrow> string \<Rightarrow> CloudResource option svc" where
  "FindByServiceIDAndExternalID serviceID externalID = dbFindOne cloudResourcesC (\<lambda>r. cloudKey r = (serviceID, externalID))"

definition cloudFindByID :: "string \<Rightarrow> CloudResource option svc" where
  "cloudFindByID i = dbGet cloudResourcesC i"

definition ExistsByServiceIDAndExternalID :: "string \<Rightarrow> string \<Rightarrow> bool svc" where
  "ExistsByServiceIDAndExternalID serviceID externalID = dbExists cloudResourcesC (\<lambda>r. cloudKey r = (serviceID, externalID))"

definition FindAllByProjectID :: "string \<Rightarrow> CloudResource list svc" where
  "FindAllByProjectID projectID = dbFind cloudResourcesC (\<lambda>r. cr_ProjectID r = projectID)"

definition FindAllByUserID :: "string \<Rightarrow> CloudResource list svc" where
  "FindAllByUserID userID = dbFind cloudResourcesC (\<lambda>r. cr_UserID r = userID)"

definition FindByProjectAndType :: "string \<Rightarrow> string \<Rightarrow> CloudResource list svc" where
  "FindByProjectAndType projectID t = dbFind cloudResourcesC (\<lambda>r. cr_ProjectID r = projectID \<and> cr_Type r = t)"

definition FindByServiceAndType :: "string \<Rightarrow> string \<Rightarrow> CloudResource list svc" where
  "FindByServiceAndType serviceID t = dbFind cloudResourcesC (\<lambda>r. cr_ServiceID r = serviceID \<and> cr_Type r = t)"

definition FindByServiceProjectAndType :: "string \<Rightarrow> string \<Rightarrow> string \<Rightarrow> CloudResource list svc" where
  "FindByServiceProjectAndType serviceID projectID t =
     dbFind cloudResourcesC (\<lambda>r. cr_ServiceID r = serviceID \<and> cr_ProjectID r = projectID \<and> cr_Type r = t)"

definition archive :: "CloudResource \<Rightarrow> time \<Rightarrow> unit svc" where
  "archive res now = bnd (dbExists historyC (\<lambda>h. his_CloudResourceID h = cr_ID res)) (\<lambda>exists.
     if exists then ret ()
     else bnd (dbInsertOne historyC \<lparr> his_ID = '''', his_CloudResourceID = cr_ID res, his_ProjectID = cr_ProjectID res,
       his_ExternalID = cr_ExternalID res, his_ServiceID = cr_ServiceID res, his_Type = cr_Type res, his_Region = cr_Region res,
       his_Data = cr_Data res, his_CreatedAt = cr_CreatedAt res, his_DeletedAt = Some now \<rparr>) (\<lambda>_. ret ()))"

definition DeleteAndArchive :: "CloudResource \<Rightarrow> time \<Rightarrow> unit svc" where
  "DeleteAndArchive res now = bnd (if cr_ID res \<noteq> '''' then bnd (dbDeleteByID cloudResourcesC (cr_ID res)) (\<lambda>_. ret ()) else ret ())
     (\<lambda>_. archive res now)"

text \<open>\<open>ORDER BY deletedAt DESC LIMIT 1\<close>: a missing date sorts first.\<close>

definition latestFirst :: "History list \<Rightarrow> History list" where
  "latestFirst hs = filter (\<lambda>h. his_DeletedAt h = None) hs @ sort_key (\<lambda>h. - the (his_DeletedAt h)) (filter (\<lambda>h. his_DeletedAt h \<noteq> None) hs)"

definition WasUserDeletedAfter :: "string \<Rightarrow> string \<Rightarrow> time option \<Rightarrow> bool svc" where
  "WasUserDeletedAfter serviceID externalID snapshotAt = (case snapshotAt of None \<Rightarrow> ret False
     | Some snap \<Rightarrow> bnd (dbFind historyC (\<lambda>h. his_ServiceID h = serviceID \<and> his_ExternalID h = externalID)) (\<lambda>hs.
         ret (case latestFirst hs of [] \<Rightarrow> False
           | h # _ \<Rightarrow> (case his_DeletedAt h of None \<Rightarrow> False | Some t \<Rightarrow> snap < t))))"

definition CountsForProject :: "string \<Rightarrow> (string \<times> int) list svc" where
  "CountsForProject projectID = bnd dbStatement (\<lambda>_. bnd (FindAllByProjectID projectID) (\<lambda>rs.
     ret (map (\<lambda>t. (t, int (length (filter (\<lambda>r. cr_Type r = t) rs)))) (remdups (map cr_Type rs)))))"

definition CountsForUser :: "string \<Rightarrow> (string \<times> int) list svc" where
  "CountsForUser userID = bnd dbStatement (\<lambda>_. bnd (FindAllByUserID userID) (\<lambda>rs.
     ret (map (\<lambda>t. (t, int (length (filter (\<lambda>r. cr_Type r = t) rs)))) (remdups (map cr_Type rs)))))"

text \<open>The groups of type and service; each group of security groups counts one less.\<close>

definition groupCount :: "CloudResource list \<Rightarrow> string \<times> string \<Rightarrow> int" where
  "groupCount rs g = int (length (filter (\<lambda>r. (cr_Type r, cr_ServiceID r) = g) rs)) - (if fst g = ''SECURITY_GROUP'' then 1 else 0)"

definition CountByType :: "string \<Rightarrow> (string \<times> int) list svc" where
  "CountByType projectID = bnd dbStatement (\<lambda>_. bnd (FindAllByProjectID projectID) (\<lambda>rs.
     let groups = remdups (map (\<lambda>r. (cr_Type r, cr_ServiceID r)) rs) in
     ret (AList.update ''TOTAL'' (sum_list (map (groupCount rs) groups))
       (fold (\<lambda>g counter. AList.update (fst g) ((case map_of counter (fst g) of None \<Rightarrow> 0 | Some n \<Rightarrow> n) + groupCount rs g) counter) groups []))))"

section \<open>One row per cloud object\<close>

definition cache_ok :: "CloudResource table \<Rightarrow> bool" where
  "cache_ok V \<longleftrightarrow> distinct (map fst V) \<and> distinct (map (\<lambda>r. cloudKey (snd r)) V) \<and> '''' \<notin> fst ` set V"

lemma quiet_ensureCloud [quiet_intros]: "quiet ensureCloud"
proof (rule quietI)
  fix w r w'
  assume run: "ensureCloud w = (r, w')"
  have q: "quiet (bnd dbStatement (\<lambda>_. dbStatement))" by (intro quiet_intros)
  show "stored w' = stored w"
    using run quietD [OF q] by (auto simp: ensureCloud_def split: option.splits prod.splits)
qed

lemma match_key: "matchByServiceExternal res r \<longleftrightarrow> cloudKey r = cloudKey res"
  by (auto simp: matchByServiceExternal_def cloudKey_def)

lemma postImage_run:
  "postImage i w = (Inr x, w') \<Longrightarrow> stored w' = stored w \<and> (\<forall>d. storeGet (view cloudResourcesC w) i = Some d \<longrightarrow> x = d)"
  by (auto simp: postImage_def bnd_Inr ret_def dest: cloudResources.get_run)

text \<open>What the upsert does to the cache: one row is patched, or one is added.\<close>

lemma cloudInsert_run:
  assumes "cloudInsert res w = (r, w')"
  shows "view cloudResourcesC w' = view cloudResourcesC w \<and> (\<exists>e. r = Inl e) \<or>
    (\<exists>i cur. storeFindOne (matchByServiceExternal res) (view cloudResourcesC w) = Some (i, cur) \<and>
      view cloudResourcesC w' = replaceRow i (toDbRecord res) (view cloudResourcesC w)) \<or>
    (\<exists>i. storeFindOne (matchByServiceExternal res) (view cloudResourcesC w) = None \<and> i \<notin> fst ` set (view cloudResourcesC w) \<and> i \<noteq> '''' \<and>
      view cloudResourcesC w' = view cloudResourcesC w @ [(i, toDbRecord res emptyResource \<lparr> cr_ID := i, cr_CreatedAt := cr_CreatedAt res \<rparr>)])"
proof -
  let ?V = "view cloudResourcesC" and ?P = "matchByServiceExternal res"
  let ?new = "toDbRecord res emptyResource \<lparr> cr_CreatedAt := cr_CreatedAt res \<rparr>"
  let ?rest = "\<lambda>r. case r of Some (i, cur) \<Rightarrow> bnd (dbSetByID cloudResourcesC i (toDbRecord res)) (\<lambda>_. postImage i)
       | None \<Rightarrow> bnd (dbInsertOne cloudResourcesC ?new) postImage"
  have same: "?V w1 = ?V w2" if "stored w1 = stored w2" for w1 w2 using cloudResources.view_stored [OF that] .
  show ?thesis
  proof (cases r)
    case (Inl e)
    then have "stored w' = stored w"
      using assms quietD [OF quiet_ensureCloud] by (fastforce simp: cloudInsert_def bnd_Inl dest: withTx_Inl)
    then show ?thesis using same Inl by blast
  next
    case (Inr out)
    then obtain w0 where "ensureCloud w = (Inr (), w0)"
      and tx: "withTx (bnd (dbFindOneForUpdate cloudResourcesC ?P) ?rest) w0 = (Inr out, w')"
      using assms by (auto simp: cloudInsert_def bnd_Inr [of ensureCloud])
    then have s0: "stored w0 = stored w" using quietD [OF quiet_ensureCloud] by blast
    from tx obtain w1 w2 where w1: "stored w1 = stored w0" and body: "bnd (dbFindOneForUpdate cloudResourcesC ?P) ?rest w1 = (Inr out, w2)"
      and w': "stored w' = stored w2"
      by (rule withTx_Inr)
    from body obtain x w3 where x: "dbFindOneForUpdate cloudResourcesC ?P w1 = (Inr x, w3)" and rest: "?rest x w3 = (Inr out, w2)"
      by (auto simp: bnd_Inr)
    note x = cloudResources.find_for_update_run [OF x]
    have V1: "?V w1 = ?V w" by (rule same) (simp add: w1 s0)
    have V3: "?V w3 = ?V w" by (rule same) (use x w1 s0 in simp)
    have V2: "?V w' = ?V w2" by (rule same [OF w'])
    have found: "x = storeFindOne ?P (?V w)" using x V1 by simp
    show ?thesis
    proof (cases x)
      case None
      then obtain i w4 where ins: "dbInsertOne cloudResourcesC ?new w3 = (Inr i, w4)" and "postImage i w4 = (Inr out, w2)"
        using rest by (auto simp: bnd_Inr)
      then have "?V w2 = ?V w4" using postImage_run same by blast
      moreover have "c_setID cloudResourcesC i ?new = toDbRecord res emptyResource \<lparr> cr_ID := i, cr_CreatedAt := cr_CreatedAt res \<rparr>"
        by (simp add: cloudResourcesC_def toDbRecord_def)
      ultimately have "?V w' = ?V w @ [(i, toDbRecord res emptyResource \<lparr> cr_ID := i, cr_CreatedAt := cr_CreatedAt res \<rparr>)]" "i \<notin> fst ` set (?V w)"
        using cloudResources.insert_run(1,2) [OF ins] V2 V3 by simp_all
      then show ?thesis using dbInsertOne_nonempty [OF ins] None found by auto
    next
      case (Some p)
      obtain i cur where p: "p = (i, cur)" by (cases p)
      then obtain b w4 where upd: "dbSetByID cloudResourcesC i (toDbRecord res) w3 = (Inr b, w4)" and "postImage i w4 = (Inr out, w2)"
        using rest Some by (auto simp: bnd_Inr)
      then have "?V w2 = ?V w4" using postImage_run same by blast
      moreover have "?V w4 = replaceRow i (toDbRecord res) (?V w3)"
        by (rule cloudResources.set_by_id_run(3) [OF upd]) (simp add: cloudResourcesC_def toDbRecord_def)
      ultimately have "?V w' = replaceRow i (toDbRecord res) (?V w)" using V2 V3 by simp
      then show ?thesis using Some p found by auto
    qed
  qed
qed

text \<open>The upsert keeps one row per cloud object, and never touches the creation date of a row it finds.\<close>

lemma cache_ok_replace:
  assumes "cache_ok V" and "map_of V i = Some d" and "cloudKey (f d) = cloudKey d"
  shows "cache_ok (replaceRow i f V)"
proof -
  have "map (\<lambda>r. cloudKey (snd r)) (replaceRow i f V) = map (\<lambda>r. cloudKey (snd r)) V"
    using assms(2,3) by (induction i f V rule: replaceRow.induct) (auto split: if_splits)
  then show ?thesis using assms(1) by (simp add: cache_ok_def)
qed

lemma cache_ok_append:
  assumes "cache_ok V" and "i \<notin> fst ` set V" and "i \<noteq> ''''" and "\<And>k d. (k, d) \<in> set V \<Longrightarrow> cloudKey d \<noteq> cloudKey e"
  shows "cache_ok (V @ [(i, e)])"
  using assms by (force simp: cache_ok_def)

lemma found_row:
  assumes "cache_ok V" and "storeFindOne P V = Some (i, cur)"
  shows "map_of V i = Some cur \<and> P cur"
  using assms storeFindOne_Some(1,2) [OF assms(2)] by (simp add: cache_ok_def)

lemma not_found_key:
  assumes "storeFindOne (matchByServiceExternal res) V = None" and "(k, d) \<in> set V"
  shows "cloudKey d \<noteq> cloudKey res"
  using assms by (force simp: storeFindOne_None storeExists_def match_key)

lemma cloudKey_patch [simp]: "cloudKey (toDbRecord res d) = cloudKey res" "cloudKey (d \<lparr> cr_ID := i, cr_CreatedAt := t \<rparr>) = cloudKey d"
  by (simp_all add: cloudKey_def toDbRecord_def)

lemma cloudInsert_ok:
  assumes "cloudInsert res w = (r, w')" and "cache_ok (view cloudResourcesC w)"
  shows "cache_ok (view cloudResourcesC w')"
  using cloudInsert_run [OF assms(1)]
proof (elim disjE exE conjE)
  fix i cur
  assume "storeFindOne (matchByServiceExternal res) (view cloudResourcesC w) = Some (i, cur)"
    and V: "view cloudResourcesC w' = replaceRow i (toDbRecord res) (view cloudResourcesC w)"
  then have "map_of (view cloudResourcesC w) i = Some cur" "cloudKey cur = cloudKey res"
    using found_row [OF assms(2), of "matchByServiceExternal res" i cur] by (simp_all add: match_key)
  then show ?thesis unfolding V using cache_ok_replace [OF assms(2), of i cur "toDbRecord res"] by simp
next
  fix i
  assume "storeFindOne (matchByServiceExternal res) (view cloudResourcesC w) = None" and i: "i \<notin> fst ` set (view cloudResourcesC w)" "i \<noteq> ''''"
    and V: "view cloudResourcesC w' = view cloudResourcesC w @ [(i, toDbRecord res emptyResource \<lparr> cr_ID := i, cr_CreatedAt := cr_CreatedAt res \<rparr>)]"
  then show ?thesis unfolding V using not_found_key by (intro cache_ok_append [OF assms(2)]) simp_all
qed (use assms(2) in simp)

lemma cloudInsert_row:
  assumes "cloudInsert res w = (Inr out, w')" and ok: "cache_ok (view cloudResourcesC w)"
  shows "\<exists>i d. map_of (view cloudResourcesC w') i = Some d \<and> cloudKey d = cloudKey res \<and> cr_Data d = cr_Data res \<and>
    (\<forall>j c. map_of (view cloudResourcesC w) j = Some c \<longrightarrow>
      (if cloudKey c = cloudKey res then j = i \<and> cr_CreatedAt d = cr_CreatedAt c else map_of (view cloudResourcesC w') j = Some c))"
proof -
  let ?V = "view cloudResourcesC w" and ?V' = "view cloudResourcesC w'"
  show ?thesis
    using cloudInsert_run [OF assms(1)]
  proof (elim disjE exE conjE)
    fix i cur
    assume found: "storeFindOne (matchByServiceExternal res) ?V = Some (i, cur)" and V': "?V' = replaceRow i (toDbRecord res) ?V"
    have cur: "map_of ?V i = Some cur" "cloudKey cur = cloudKey res" using found_row [OF ok found] by (simp_all add: match_key)
    have "j = i \<and> c = cur" if "map_of ?V j = Some c" "cloudKey c = cloudKey res" for j c
    proof -
      have "(j, c) \<in> set ?V" "(i, cur) \<in> set ?V" using that(1) cur(1) by (simp_all add: map_of_SomeD)
      moreover have "inj_on (\<lambda>r. cloudKey (snd r)) (set ?V)" using ok by (simp add: cache_ok_def distinct_map)
      ultimately have "(j, c) = (i, cur)" using that(2) cur(2) unfolding inj_on_def by force
      then show ?thesis by simp
    qed
    note one = this
    have V'i: "map_of ?V' i = Some (toDbRecord res cur)" by (simp add: V' map_of_replaceRow cur)
    have others: "map_of ?V' j = map_of ?V j" if "j \<noteq> i" for j using that by (simp add: V' map_of_replaceRow cur)
    have rest: "if cloudKey c = cloudKey res then j = i \<and> cr_CreatedAt (toDbRecord res cur) = cr_CreatedAt c else map_of ?V' j = Some c"
      if "map_of ?V j = Some c" for j c
      using that one [OF that] others [of j] cur by (cases "j = i") (auto simp: toDbRecord_def)
    have "cr_Data (toDbRecord res cur) = cr_Data res" by (simp add: toDbRecord_def)
    then show ?thesis using V'i rest by (intro exI [of _ i] exI [of _ "toDbRecord res cur"]) simp
  next
    fix i
    let ?d = "toDbRecord res emptyResource \<lparr> cr_ID := i, cr_CreatedAt := cr_CreatedAt res \<rparr>"
    assume none: "storeFindOne (matchByServiceExternal res) ?V = None" and i: "i \<notin> fst ` set ?V" and V': "?V' = ?V @ [(i, ?d)]"
    have "map_of ?V i = None" using i by (simp add: map_of_eq_None_iff)
    moreover have "cloudKey c \<noteq> cloudKey res" if "map_of ?V j = Some c" for j c using not_found_key [OF none map_of_SomeD [OF that]] .
    moreover have "map_of ?V' i = Some ?d" using \<open>map_of ?V i = None\<close> by (simp add: V' map_add_def)
    moreover have "map_of ?V' j = Some c" if "map_of ?V j = Some c" for j c using that \<open>map_of ?V i = None\<close> by (auto simp: V' map_add_def)
    moreover have "cr_Data ?d = cr_Data res" by (simp add: toDbRecord_def)
    ultimately show ?thesis by (intro exI [of _ i] exI [of _ ?d]) simp
  qed simp
qed

end
