(* ===== verification/Cloud_Teardown.thy ===== *)
theory Cloud_Teardown
  imports Cloud_Repo Rbac
begin

text \<open>
  Deleting cloud resources: the delete dispatch of \<open>internal/cloud/providers/write.go\<close>, the order of
  \<open>project/teardown.go\<close> and the cascade \<open>projectCloudDeleter\<close> of \<open>cmd/api/main.go\<close> that the deletion
  cron runs. The cloud client is the interface \<open>Writer\<close>: a parameter that answers each call; so
  are the services that delete managed clusters and databases. The request context is not
  cancelled, and the waits between sweeps only let time pass.
\<close>

section \<open>The order\<close>

definition deletionOrder :: "string \<Rightarrow> int" where
  "deletionOrder t = (if t \<in> {''KUBERNETES_CLUSTER'', ''DATABASE_CLUSTER'', ''STACK'', ''LOAD_BALANCER''} then 0
     else if t \<in> {''TRILIO_RESTORE'', ''TRILIO_SNAPSHOT'', ''TRILIO_WORKLOAD'', ''TRILIO_BACKUP_TARGET''} then 1
     else if t = ''IPSEC_SITE_CONNECTION'' then 2
     else if t \<in> {''VPN_SERVICE'', ''VPN_ENDPOINT_GROUP'', ''IKE_POLICY'', ''IPSEC_POLICY''} then 3
     else if t \<in> {''SERVER'', ''BAREMETAL_SERVER''} then 4
     else if t = ''FLOATING_IP'' then 5
     else if t = ''PORT'' then 6
     else if t \<in> {''VOLUME_SNAPSHOT'', ''SHARE_SNAPSHOT'', ''SHARE_SNAPSHOT_GROUP''} then 7
     else if t \<in> {''VOLUME'', ''VOLUME_BACKUP''} then 8
     else if t \<in> {''SHARE'', ''SHARE_GROUP''} then 9
     else if t \<in> {''SHARE_NETWORK'', ''SHARE_SECURITY_SERVICE''} then 10
     else if t = ''SUBNET'' then 11
     else if t = ''NETWORK'' then 12
     else if t = ''ROUTER'' then 13
     else 100)"

definition SortCloudResourcesForDeletion :: "CloudResource list \<Rightarrow> CloudResource list" where
  "SortCloudResourcesForDeletion rs = sort_key (\<lambda>r. deletionOrder (cr_Type r)) rs"

section \<open>Attachments of a cached volume\<close>

type_synonym jmap = "(string \<times> json) list"

definition asMap :: "json \<Rightarrow> jmap option" where
  "asMap v = (case v of JObject m \<Rightarrow> Some m | _ \<Rightarrow> None)"

definition asAnySlice :: "json \<Rightarrow> json list" where
  "asAnySlice v = (case v of JArray l \<Rightarrow> l | _ \<Rightarrow> [])"

definition volumeAttachments :: "jmap \<Rightarrow> json list" where
  "volumeAttachments data = (let attachments = asAnySlice (jget data ''attachments'') in
     if attachments \<noteq> [] then attachments
     else case asMap (jget data ''volume'') of Some volume \<Rightarrow> asAnySlice (jget volume ''attachments'') | None \<Rightarrow> [])"

definition volumeIsBootable :: "jmap \<Rightarrow> bool" where
  "volumeIsBootable data =
    (let value = (case asMap (jget data ''volume'') of
         Some volume \<Rightarrow> (case map_of volume ''bootable'' of Some nested \<Rightarrow> nested | None \<Rightarrow> jget data ''bootable'')
       | None \<Rightarrow> jget data ''bootable'') in
     case value of JLeaf (AnyBool b) \<Rightarrow> b | JLeaf (AnyString s) \<Rightarrow> equalFold (trimSpace s) ''true'' | _ \<Rightarrow> False)"

definition attDevice :: "json \<Rightarrow> string" where
  "attDevice a = (case asMap a of Some m \<Rightarrow> jstr (jget m ''device'') | None \<Rightarrow> '''')"

definition attServerID :: "json \<Rightarrow> string" where
  "attServerID a = (case asMap a of None \<Rightarrow> ''''
     | Some m \<Rightarrow> (let s = jstr (jget m ''serverId'') in if s \<noteq> '''' then s else jstr (jget m ''server_id'')))"

definition volumeIsRootOf :: "jmap \<Rightarrow> string \<Rightarrow> bool" where
  "volumeIsRootOf data serverID = (if serverID = '''' \<or> \<not> volumeIsBootable data then False
     else case find (\<lambda>a. attServerID a = serverID) (volumeAttachments data) of None \<Rightarrow> False
       | Some a \<Rightarrow> (let device = attDevice a in device = '''' \<or> hasSuffix device ''da''))"

definition withoutAttachment :: "jmap \<Rightarrow> string \<Rightarrow> jmap" where
  "withoutAttachment data serverID =
    (let without = (\<lambda>l. JArray (filter (\<lambda>a. attServerID a \<noteq> serverID) (asAnySlice l)));
         data1 = AList.update ''attachments'' (without (jget data ''attachments'')) data in
     case asMap (jget data1 ''volume'') of None \<Rightarrow> data1
     | Some volume \<Rightarrow> AList.update ''volume'' (JObject (AList.update ''attachments'' (without (jget volume ''attachments'')) volume)) data1)"

section \<open>The cloud client\<close>

text \<open>The delete calls of \<open>Writer\<close>; a call answers that it is done, that the object was not found, or with another error.\<close>

datatype cloud_call =
    DeleteNetwork string | DeleteSubnet string | DeleteRouter string | DeleteServer string | DeleteVolume string
  | DeletePort string | DeleteFloatingIP string | DeleteSecurityGroup string | DeleteVolumeSnapshot string
  | DeleteKeypair string | DeleteServerGroup string | DeleteZone string | DeleteSecret string | DeleteBucket string
  | DeleteLoadBalancer string | DeleteStack string string | DeleteShare string | DeleteImage string
  | DeleteShareNetwork string | DeleteShareSecurityService string | DeleteVPNService string
  | DeleteVPNEndpointGroup string | DeleteIKEPolicy string | DeleteIPSecPolicy string
  | DeleteIPSecSiteConnection string | DeleteCluster string | DeleteContainer string | DeleteUser string
  | DeleteWorkload string | DeleteSnapshot string | DeleteBackupTarget string | DeleteRestore string
  | DetachVolume string string

datatype cloud_answer = Done | NotFound | CloudFault string

text \<open>\<open>GetVolume\<close> answers with a volume, which may be nil.\<close>

datatype volume_answer = VolumeNotFound | VolumeFault | Volume "jmap option"

record cloud_writer =
  wr_call :: "cloud_call \<Rightarrow> cloud_answer svc"
  wr_getVolume :: "(string \<Rightarrow> volume_answer svc) option"

definition stackName :: "CloudResource \<Rightarrow> string" where
  "stackName cr = (case mapAt (cr_Data cr) ''stack'' of None \<Rightarrow> ''''
     | Some st \<Rightarrow> (let n = jstr (jget st ''stack_name'') in if n \<noteq> '''' then n else jstr (jget st ''name'')))"

definition trimSuffix :: "string \<Rightarrow> string \<Rightarrow> string" where
  "trimSuffix s suffix = (if hasSuffix s suffix then take (length s - length suffix) s else s)"

definition keypairName :: "CloudResource \<Rightarrow> string \<Rightarrow> string" where
  "keypairName cr externalID =
    (let n = (case asMap (jget (cr_Data cr) ''keypair'') of Some kp \<Rightarrow> jstr (jget kp ''name'') | None \<Rightarrow> '''') in
     if n \<noteq> '''' then n else if cr_UserID cr \<noteq> '''' then trimSuffix externalID (''_'' @ cr_UserID cr) else externalID)"

text \<open>The loop with \<open>break\<close>: the first attachment that belongs to the server.\<close>

definition detachServerVolumes :: "cloud_writer \<Rightarrow> CloudResource \<Rightarrow> unit svc" where
  "detachServerVolumes W server = bnd (attempt (FindByProjectAndType (cr_ProjectID server) ''VOLUME'')) (\<lambda>vols. case vols of
       Inl _ \<Rightarrow> ret ()
     | Inr vols \<Rightarrow> forS (\<lambda>v _.
         if ServerIsVolumeBacked (cr_Data server) \<and> (volumeIsRootOf (cr_Data v) (cr_ID server) \<or> volumeIsRootOf (cr_Data v) (cr_ExternalID server)) then ret ()
         else case find (\<lambda>a. let sid = attServerID a in sid \<noteq> '''' \<and> (sid = cr_ID server \<or> sid = cr_ExternalID server)) (volumeAttachments (cr_Data v)) of
             None \<Rightarrow> ret ()
           | Some a \<Rightarrow> bnd (wr_call W (DetachVolume (cr_ExternalID server) (cr_ExternalID v))) (\<lambda>_.
               bnd (attempt (cloudInsert (v \<lparr> cr_Data := withoutAttachment (cr_Data v) (attServerID a) \<rparr>))) (\<lambda>_. ret ()))) vols ())"

text \<open>Up to seven readings of the volume, half a second apart.\<close>

fun awaitRoot :: "(string \<Rightarrow> volume_answer svc) \<Rightarrow> string \<Rightarrow> nat \<Rightarrow> bool svc" where
  "awaitRoot getVolume externalID 0 = ret False"
| "awaitRoot getVolume externalID (Suc n) = bnd (getVolume externalID) (\<lambda>a. case a of
       VolumeNotFound \<Rightarrow> ret True
     | VolumeFault \<Rightarrow> ret False
     | Volume None \<Rightarrow> ret False
     | Volume (Some live) \<Rightarrow> (let status = toLower (trimSpace (jstr (jget live ''status''))) in
         if status = ''deleted'' then ret True
         else if status \<in> {''in-use'', ''detaching'', ''deleting''} then awaitRoot getVolume externalID n
         else ret False))"

text \<open>Every attachment must be on a first disk of a server that the cache no longer has.\<close>

fun serversGone :: "CloudResource \<Rightarrow> json list \<Rightarrow> bool svc" where
  "serversGone volume [] = ret True"
| "serversGone volume (a # as) = (let serverID = attServerID a; device = attDevice a in
     if serverID = '''' then ret False
     else if device \<noteq> '''' \<and> \<not> hasSuffix device ''da'' then ret False
     else bnd (attempt (FindByServiceIDAndExternalID (cr_ServiceID volume) serverID)) (\<lambda>server. case server of
         Inr None \<Rightarrow> serversGone volume as | _ \<Rightarrow> ret False))"

definition novaRootVolumeDeletionInProgress :: "cloud_writer \<Rightarrow> CloudResource \<Rightarrow> bool svc" where
  "novaRootVolumeDeletionInProgress W volume =
    (let attachments = volumeAttachments (cr_Data volume) in
     if \<not> volumeIsBootable (cr_Data volume) \<or> attachments = [] then ret False
     else bnd (serversGone volume attachments) (\<lambda>gone. if \<not> gone then ret False
       else case wr_getVolume W of None \<Rightarrow> ret False | Some getVolume \<Rightarrow> awaitRoot getVolume (cr_ExternalID volume) 7))"

definition answered :: "cloud_answer svc \<Rightarrow> unit svc" where
  "answered m = bnd m (\<lambda>a. case a of Done \<Rightarrow> ret () | NotFound \<Rightarrow> throw (Failure ''not found'') | CloudFault s \<Rightarrow> throw (Failure s))"

text \<open>The types whose delete is one call keyed by the external id.\<close>

definition plainDelete :: "string \<Rightarrow> (string \<Rightarrow> cloud_call) option" where
  "plainDelete t = map_of [(''NETWORK'', DeleteNetwork), (''SUBNET'', DeleteSubnet), (''ROUTER'', DeleteRouter), (''PORT'', DeletePort),
     (''FLOATING_IP'', DeleteFloatingIP), (''SECURITY_GROUP'', DeleteSecurityGroup), (''VOLUME_SNAPSHOT'', DeleteVolumeSnapshot),
     (''SERVER_GROUP'', DeleteServerGroup), (''DNS_ZONE'', DeleteZone), (''BARBICAN_SECRET'', DeleteSecret), (''BUCKET'', DeleteBucket),
     (''LOAD_BALANCER'', DeleteLoadBalancer), (''SHARE'', DeleteShare), (''IMAGE'', DeleteImage), (''SHARE_NETWORK'', DeleteShareNetwork),
     (''SHARE_SECURITY_SERVICE'', DeleteShareSecurityService), (''VPN_SERVICE'', DeleteVPNService),
     (''VPN_ENDPOINT_GROUP'', DeleteVPNEndpointGroup), (''IKE_POLICY'', DeleteIKEPolicy), (''IPSEC_POLICY'', DeleteIPSecPolicy),
     (''IPSEC_SITE_CONNECTION'', DeleteIPSecSiteConnection), (''KUBERNETES_CLUSTER'', DeleteCluster),
     (''BARBICAN_CONTAINER'', DeleteContainer), (''USER'', DeleteUser), (''TRILIO_WORKLOAD'', DeleteWorkload),
     (''TRILIO_SNAPSHOT'', DeleteSnapshot), (''TRILIO_BACKUP_TARGET'', DeleteBackupTarget), (''TRILIO_RESTORE'', DeleteRestore)] t"

definition deleteCloudObject :: "cloud_writer \<Rightarrow> CloudResource \<Rightarrow> unit svc" where
  "deleteCloudObject W cr =
    (if cr_Type cr = ''SERVER'' \<or> cr_Type cr = ''BAREMETAL_SERVER'' then
       bnd (detachServerVolumes W cr) (\<lambda>_. answered (wr_call W (DeleteServer (cr_ExternalID cr))))
     else if cr_Type cr = ''VOLUME'' then bnd (novaRootVolumeDeletionInProgress W cr) (\<lambda>going.
       if going then ret ()
       else bnd (wr_call W (DeleteVolume (cr_ExternalID cr))) (\<lambda>a. case a of CloudFault s \<Rightarrow> throw (Failure s) | _ \<Rightarrow> ret ()))
     else if cr_Type cr = ''KEYPAIR'' then answered (wr_call W (DeleteKeypair (keypairName cr (cr_ExternalID cr))))
     else if cr_Type cr = ''STACK'' then answered (wr_call W (DeleteStack (stackName cr) (cr_ExternalID cr)))
     else case plainDelete (cr_Type cr) of
         Some call \<Rightarrow> answered (wr_call W (call (cr_ExternalID cr)))
       | None \<Rightarrow> throw (Failure ''unsupported delete type''))"

definition cloudDelete :: "cloud_writer \<Rightarrow> string \<Rightarrow> string \<Rightarrow> unit svc" where
  "cloudDelete W serviceID externalID = bnd (FindByServiceIDAndExternalID serviceID externalID) (\<lambda>cr. case cr of
       None \<Rightarrow> ret ()
     | Some cr \<Rightarrow> bnd (deleteCloudObject W cr) (\<lambda>_. bnd timeNow (DeleteAndArchive cr)))"

section \<open>The cascade of the deletion cron\<close>

text \<open>\<open>externalservice.Service.Get\<close>: the id must match an allow-list; the secret is decrypted on the way out.\<close>

definition serviceIDOk :: "string \<Rightarrow> bool" where
  "serviceIDOk i \<longleftrightarrow> 1 \<le> length i \<and> length i \<le> 64 \<and>
     list_all (\<lambda>c. let n = (of_char c :: int) in (65 \<le> n \<and> n \<le> 90) \<or> (97 \<le> n \<and> n \<le> 122) \<or> (48 \<le> n \<and> n \<le> 57) \<or> c \<in> set ''._-'') i"

definition GetService :: "(json \<Rightarrow> json) \<Rightarrow> string \<Rightarrow> ExternalService svc" where
  "GetService decrypt i = (if \<not> serviceIDOk i then throw (Failure ''externalservice: invalid service id'')
     else bnd (dbGet extServicesC i) (\<lambda>es. case es of None \<Rightarrow> throw (Failure ''externalservice: service not found'')
       | Some es \<Rightarrow> ret (es \<lparr> es_Secret := decrypt (es_Secret es) \<rparr>)))"

definition esProvider :: "ExternalService \<Rightarrow> string" where
  "esProvider es = jstr (jget (es_Config es) ''provider'')"

definition IsKamaji :: "ExternalService \<Rightarrow> bool" where "IsKamaji es \<longleftrightarrow> esProvider es = ''kamaji''"
definition IsDbaas :: "ExternalService \<Rightarrow> bool" where "IsDbaas es \<longleftrightarrow> esProvider es = ''dbaas''"

text \<open>
  The fields of \<open>projectCloudDeleter\<close>. The services of the managed clusters and databases are built
  from the configuration of the external service, which may fail; their delete call takes the
  project and the external id.
\<close>

type_synonym managed = "ExternalService \<Rightarrow> (string \<Rightarrow> string \<Rightarrow> unit svc) res"

record cascade =
  cas_client :: "cloud_writer option"
  cas_esGet :: "(string \<Rightarrow> ExternalService svc) option"
  cas_kamajiFor :: "managed option"
  cas_dbaasFor :: "managed option"

text \<open>One managed row: build the service, ask it to delete, archive the row. The result is whether it failed.\<close>

definition managedDelete :: "managed \<Rightarrow> ExternalService \<Rightarrow> string \<Rightarrow> CloudResource \<Rightarrow> time \<Rightarrow> bool svc" where
  "managedDelete build es projectID res now = (case build es of Inl _ \<Rightarrow> ret True
     | Inr del \<Rightarrow> bnd (attempt (del projectID (cr_ExternalID res))) (\<lambda>r. case r of Inl _ \<Rightarrow> ret True
         | Inr _ \<Rightarrow> bnd (attempt (DeleteAndArchive res now)) (\<lambda>r. ret (case r of Inl _ \<Rightarrow> True | Inr _ \<Rightarrow> False))))"

definition splitManaged :: "cascade \<Rightarrow> string \<Rightarrow> CloudResource list \<Rightarrow> (CloudResource list \<times> bool) svc" where
  "splitManaged C projectID resources = (case (cas_esGet C, cas_kamajiFor C) of
       (Some esGet, Some kamajiFor) \<Rightarrow> bnd timeNow (\<lambda>now. forS (\<lambda>res (kept, failed).
         bnd (attempt (esGet (cr_ServiceID res))) (\<lambda>es. case es of
             Inl _ \<Rightarrow> ret (kept @ [res], failed)
           | Inr es \<Rightarrow>
               if IsDbaas es then (case cas_dbaasFor C of None \<Rightarrow> ret (kept @ [res], failed)
                 | Some dbaasFor \<Rightarrow> bnd (managedDelete dbaasFor es projectID res now) (\<lambda>f. ret (kept, failed \<or> f)))
               else if IsKamaji es then bnd (managedDelete kamajiFor es projectID res now) (\<lambda>f. ret (kept, failed \<or> f))
               else ret (kept @ [res], failed))) resources ([], False))
     | _ \<Rightarrow> ret (resources, False))"

definition sweepOnce :: "cloud_writer \<Rightarrow> CloudResource list \<Rightarrow> CloudResource list svc" where
  "sweepOnce W remaining = forS (\<lambda>r stillLeft. bnd (attempt (cloudDelete W (cr_ServiceID r) (cr_ExternalID r))) (\<lambda>a.
     ret (case a of Inl _ \<Rightarrow> stillLeft @ [r] | Inr _ \<Rightarrow> stillLeft))) remaining []"

fun sweeps :: "cloud_writer \<Rightarrow> nat \<Rightarrow> CloudResource list \<Rightarrow> CloudResource list svc" where
  "sweeps W 0 remaining = ret remaining"
| "sweeps W (Suc n) remaining = (if remaining = [] then ret [] else bnd (sweepOnce W remaining) (sweeps W n))"

definition DeleteProjectResources :: "cascade \<Rightarrow> string \<Rightarrow> unit svc" where
  "DeleteProjectResources C projectID = (case cas_client C of None \<Rightarrow> throw (Failure ''cloud client not ready'')
     | Some W \<Rightarrow> bnd (FindAllByProjectID projectID) (\<lambda>resources.
         bnd (splitManaged C projectID (SortCloudResourcesForDeletion resources)) (\<lambda>(kept, failed).
         bnd (sweeps W 3 kept) (\<lambda>remaining.
           if remaining \<noteq> [] then throw (Failure ''scheduled project deletion left resources'')
           else if failed then throw (Failure ''scheduled project deletion'')
           else ret ()))))"

section \<open>What the cache lists\<close>

text \<open>A cached row by its id, service, external id and project.\<close>

type_synonym row_info = "string \<times> string \<times> string \<times> string"

definition infoOf :: "string \<times> CloudResource \<Rightarrow> row_info" where
  "infoOf r = (fst r, cr_ServiceID (snd r), cr_ExternalID (snd r), cr_ProjectID (snd r))"

definition infos :: "world \<Rightarrow> row_info set" where
  "infos w = infoOf ` set (view cloudResourcesC w)"

definition confined :: "row_info set \<Rightarrow> world \<Rightarrow> bool" where
  "confined I w \<longleftrightarrow> cache_ok (view cloudResourcesC w) \<and> infos w \<subseteq> I"

definition listed :: "row_info set \<Rightarrow> world \<Rightarrow> bool" where
  "listed I w \<longleftrightarrow> cache_ok (view cloudResourcesC w) \<and> infos w = I"

lemma tables_confined: "tables (confined I)"
  unfolding confined_def infos_def by (rule cloudResources.tables_view [of "\<lambda>V. cache_ok V \<and> infoOf ` set V \<subseteq> I"])

lemma tables_listed: "tables (listed I)"
  unfolding listed_def infos_def by (rule cloudResources.tables_view [of "\<lambda>V. cache_ok V \<and> infoOf ` set V = I"])

lemma confined_mono: "confined I w \<Longrightarrow> I \<subseteq> J \<Longrightarrow> confined J w"
  by (auto simp: confined_def)

lemma listed_confined: "listed I w \<Longrightarrow> confined I w"
  by (simp add: listed_def confined_def)

text \<open>What keeps every listing keeps every bound of it.\<close>

lemma confined_listed:
  assumes "\<And>J. triple (listed J) m (\<lambda>_. listed J) (listed J)"
  shows "triple (confined I) m (\<lambda>_. confined I) (confined I)"
proof (rule tripleI)
  fix w r w'
  assume P: "confined I w" and run: "m w = (r, w')"
  have "listed (infos w) w" using P by (simp add: confined_def listed_def)
  from tripleD [OF assms this run] have "listed (infos w) w'" by (cases r) simp_all
  then have "confined I w'" using P by (auto simp: confined_def listed_def)
  then show "case r of Inl e \<Rightarrow> confined I w' | Inr x \<Rightarrow> confined I w'" by (cases r) simp_all
qed

lemma same_row:
  assumes "cache_ok V" and "(k, d) \<in> set V" and "(k', d') \<in> set V" and "cloudKey d = cloudKey d'"
  shows "k = k' \<and> d = d'"
proof -
  have "inj_on (\<lambda>r. cloudKey (snd r)) (set V)" using assms(1) by (simp add: cache_ok_def distinct_map)
  then have "(k, d) = (k', d')" using assms(2-4) unfolding inj_on_def by force
  then show ?thesis by simp
qed

lemma infoOf_replaceRow:
  "distinct (map fst V) \<Longrightarrow> (\<And>d. (i, d) \<in> set V \<Longrightarrow> infoOf (i, f d) = infoOf (i, d)) \<Longrightarrow> infoOf ` set (replaceRow i f V) = infoOf ` set V"
  by (induction i f V rule: replaceRow.induct) auto

lemma cloudInsert_listed:
  assumes "(cr_ID v, cr_ServiceID v, cr_ExternalID v, cr_ProjectID v) \<in> I"
  shows "triple (listed I) (cloudInsert v) (\<lambda>_. listed I) (listed I)"
proof (rule tripleI)
  fix w r w'
  assume P: "listed I w" and run: "cloudInsert v w = (r, w')"
  let ?V = "view cloudResourcesC w" and ?V' = "view cloudResourcesC w'"
  have ok: "cache_ok ?V" and I: "infoOf ` set ?V = I" using P by (simp_all add: listed_def infos_def)
  obtain d where d: "(cr_ID v, d) \<in> set ?V" "cloudKey d = cloudKey v" "cr_ProjectID d = cr_ProjectID v"
    using assms unfolding I [symmetric] by (auto simp: infoOf_def cloudKey_def)
  have "infoOf ` set ?V' = I"
    using cloudInsert_run [OF run]
  proof (elim disjE exE conjE)
    fix i cur
    assume found: "storeFindOne (matchByServiceExternal v) ?V = Some (i, cur)" and V': "?V' = replaceRow i (toDbRecord v) ?V"
    have "infoOf (i, toDbRecord v c) = infoOf (i, c)" if "(i, c) \<in> set ?V" for c
    proof -
      have "(i, cur) \<in> set ?V" "cloudKey cur = cloudKey v" using storeFindOne_Some(1,2) [OF found] by (simp_all add: match_key)
      then have "i = cr_ID v \<and> cur = d" using same_row [OF ok _ d(1)] d(2) by simp
      moreover have "c = cur" using that \<open>(i, cur) \<in> set ?V\<close> ok by (auto simp: cache_ok_def eq_key_imp_eq_value)
      ultimately show ?thesis using d(2,3) by (simp add: infoOf_def toDbRecord_def cloudKey_def)
    qed
    then show ?thesis unfolding V' I [symmetric] using ok by (intro infoOf_replaceRow) (simp_all add: cache_ok_def)
  next
    assume "storeFindOne (matchByServiceExternal v) ?V = None"
    from not_found_key [OF this d(1)] d(2) show ?thesis by simp
  qed (simp add: I)
  then have "listed I w'" using cloudInsert_ok [OF run ok] by (simp add: listed_def infos_def)
  then show "case r of Inl e \<Rightarrow> listed I w' | Inr x \<Rightarrow> listed I w'" by (cases r) simp_all
qed

section \<open>The delete dispatch\<close>

text \<open>What the code relies on: calls to the cloud change no document.\<close>

definition cloud_only :: "cloud_writer \<Rightarrow> bool" where
  "cloud_only W \<longleftrightarrow> (\<forall>c. quiet (wr_call W c)) \<and> (\<forall>g i. wr_getVolume W = Some g \<longrightarrow> quiet (g i))"

lemma quiet_awaitRoot: "(\<And>i. quiet (g i)) \<Longrightarrow> quiet (awaitRoot g e n)"
  by (induction n) (auto simp: Let_def intro!: quiet_intros split: volume_answer.split option.split)

lemma quiet_serversGone: "quiet (serversGone v as)"
  by (induction as) (auto simp: Let_def FindByServiceIDAndExternalID_def intro!: quiet_intros split: sum.split option.split)

lemma quiet_nova:
  assumes "cloud_only W"
  shows "quiet (novaRootVolumeDeletionInProgress W v)"
  unfolding novaRootVolumeDeletionInProgress_def Let_def
  by (intro quiet_intros quiet_serversGone quiet_awaitRoot) (use assms in \<open>simp add: cloud_only_def\<close>)

lemma detachServerVolumes_listed:
  assumes W: "cloud_only W"
  shows "triple (listed I) (detachServerVolumes W server) (\<lambda>_. listed I) (listed I)"
proof -
  let ?P = "\<lambda>r. cr_ProjectID r = cr_ProjectID server \<and> cr_Type r = ''VOLUME''"
  let ?K = "\<lambda>vols :: CloudResource list res. case vols of Inl _ \<Rightarrow> True | Inr vs \<Rightarrow> \<forall>v\<in>set vs. (cr_ID v, cr_ServiceID v, cr_ExternalID v, cr_ProjectID v) \<in> I"
  have known: "?K x" if P: "listed I w" and run: "attempt (FindByProjectAndType (cr_ProjectID server) ''VOLUME'') w = (Inr x, w')" for w x w'
  proof (cases x)
    case (Inr vs)
    then have "dbFind cloudResourcesC ?P w = (Inr vs, w')" using run by (simp add: attempt_Inr FindByProjectAndType_def)
    from cloudResources.find_run [OF this] have vs: "vs = storeFind ?P (view cloudResourcesC w)" by simp
    have "(cr_ID v, cr_ServiceID v, cr_ExternalID v, cr_ProjectID v) \<in> infos w" if v: "v \<in> set vs" for v
    proof -
      obtain k where k: "(k, v) \<in> set (view cloudResourcesC w)" using v unfolding vs by (auto simp: storeFind_def)
      then have "cr_ID v = k" using cloudResources.view_ID [OF k] by (simp add: cloudResourcesC_def)
      then show ?thesis using k by (force simp: infos_def infoOf_def)
    qed
    then show ?thesis using P Inr by (simp add: listed_def)
  qed simp
  have one: "triple (listed I) (bnd (wr_call W c) (\<lambda>_. bnd (attempt (cloudInsert (v \<lparr> cr_Data := dat \<rparr>))) (\<lambda>_. ret ()))) (\<lambda>_. listed I) (listed I)"
    if "(cr_ID v, cr_ServiceID v, cr_ExternalID v, cr_ProjectID v) \<in> I" for c v dat
  proof (rule triple_skip [OF _ tables_listed])
    show "quiet (wr_call W c)" using W by (simp add: cloud_only_def)
    show "triple (listed I) (bnd (attempt (cloudInsert (v \<lparr> cr_Data := dat \<rparr>))) (\<lambda>_. ret ())) (\<lambda>_. listed I) (listed I)"
      by (rule triple_bnd [OF triple_attempt [OF cloudInsert_listed]]) (use that in \<open>auto intro!: triple_ret split: sum.splits\<close>)
  qed
  show ?thesis
    unfolding detachServerVolumes_def
  proof (rule triple_know [OF _ tables_listed, where R = ?K])
    show "quiet (attempt (FindByProjectAndType (cr_ProjectID server) ''VOLUME''))"
      unfolding FindByProjectAndType_def by (intro quiet_intros)
  next
    fix vols :: "CloudResource list res"
    assume K: "?K vols"
    show "triple (listed I) (case vols of Inl _ \<Rightarrow> ret () | Inr vols \<Rightarrow> forS (\<lambda>v _.
         if ServerIsVolumeBacked (cr_Data server) \<and> (volumeIsRootOf (cr_Data v) (cr_ID server) \<or> volumeIsRootOf (cr_Data v) (cr_ExternalID server)) then ret ()
         else case find (\<lambda>a. let sid = attServerID a in sid \<noteq> '''' \<and> (sid = cr_ID server \<or> sid = cr_ExternalID server)) (volumeAttachments (cr_Data v)) of
             None \<Rightarrow> ret ()
           | Some a \<Rightarrow> bnd (wr_call W (DetachVolume (cr_ExternalID server) (cr_ExternalID v))) (\<lambda>_.
               bnd (attempt (cloudInsert (v \<lparr> cr_Data := withoutAttachment (cr_Data v) (attServerID a) \<rparr>))) (\<lambda>_. ret ()))) vols ())
       (\<lambda>_. listed I) (listed I)"
    proof (cases vols)
      case (Inr vs)
      then show ?thesis using K by (auto intro!: triple_forS [where I = "\<lambda>_. listed I"] triple_if triple_option triple_ret one)
    qed (simp add: triple_ret)
  qed (use known in blast)+
qed

lemma answered_listed: "quiet m \<Longrightarrow> triple (listed I) (answered m) (\<lambda>_. listed I) (listed I)"
proof -
  assume "quiet m"
  then have "quiet (answered m)"
    unfolding answered_def by (intro quiet_bnd) (auto intro: quiet_intros split: cloud_answer.split)
  then show ?thesis by (rule triple_quiet [OF _ tables_listed])
qed

lemma deleteCloudObject_listed:
  assumes W: "cloud_only W"
  shows "triple (listed I) (deleteCloudObject W cr) (\<lambda>_. listed I) (listed I)"
proof -
  have q: "quiet (wr_call W c)" for c using W by (simp add: cloud_only_def)
  have vol: "quiet (bnd (novaRootVolumeDeletionInProgress W cr) (\<lambda>going. if going then ret ()
       else bnd (wr_call W (DeleteVolume (cr_ExternalID cr))) (\<lambda>a. case a of CloudFault s \<Rightarrow> throw (Failure s) | _ \<Rightarrow> ret ())))"
    by (intro quiet_intros quiet_nova W q) (auto intro: quiet_intros split: cloud_answer.split)
  show ?thesis
    unfolding deleteCloudObject_def
    by (intro triple_if triple_option answered_listed q triple_quiet [OF vol tables_listed] triple_throw
        triple_bnd [OF detachServerVolumes_listed [OF W]])
qed

section \<open>Removing rows\<close>

lemma cache_ok_filter: "cache_ok V \<Longrightarrow> cache_ok (filter P V)"
  by (auto simp: cache_ok_def distinct_map_filter)

lemma apart_cloud [simp]: "apart cloudResourcesC historyC" "apart projectsC cloudResourcesC" "apart projectsC historyC"
  by (simp_all add: apart_def view_def cloudResourcesC_def historyC_def projectsC_def)

lemma archive_confined: "triple (confined I) (archive res now) (\<lambda>_. confined I) (confined I)"
proof -
  have "leaves cloudResourcesC (archive res now)"
    unfolding archive_def
    by (intro leaves_intros cloudResources.leaves_quiet [OF quiet_reads(5)] cloudResources.leaves_writes(4)) simp
  from keeps_triple [OF this, of "\<lambda>V. cache_ok V \<and> infoOf ` set V \<subseteq> I"] show ?thesis by (simp add: confined_def [abs_def] infos_def)
qed

lemma DeleteAndArchive_confined:
  assumes "cr_ID res \<noteq> ''''"
  shows "triple (confined I) (DeleteAndArchive res now) (\<lambda>_. confined {x \<in> I. fst x \<noteq> cr_ID res}) (confined I)"
proof -
  let ?J = "{x \<in> I. fst x \<noteq> cr_ID res}"
  have del: "triple (confined I) (bnd (dbDeleteByID cloudResourcesC (cr_ID res)) (\<lambda>_. ret ())) (\<lambda>_. confined ?J) (confined I)"
  proof (rule tripleI)
    fix w r w'
    assume P: "confined I w" and run: "bnd (dbDeleteByID cloudResourcesC (cr_ID res)) (\<lambda>_. ret ()) w = (r, w')"
    show "case r of Inl e \<Rightarrow> confined I w' | Inr x \<Rightarrow> confined ?J w'"
    proof (cases r)
      case (Inl e)
      then have "dbDeleteByID cloudResourcesC (cr_ID res) w = (Inl e, w')" using run by (auto simp: bnd_Inl ret_def)
      then have "stored w' = stored w" by (rule failed_writes)
      from tablesD [OF tables_confined this P] show ?thesis by (simp add: Inl)
    next
      case (Inr x)
      then obtain b where "dbDeleteByID cloudResourcesC (cr_ID res) w = (Inr b, w')" using run by (auto simp: bnd_Inr ret_def)
      from cloudResources.delete_run(2) [OF this] have V': "view cloudResourcesC w' = filter (\<lambda>r. fst r \<noteq> cr_ID res) (view cloudResourcesC w)" .
      then have "confined ?J w'" using P by (auto simp: confined_def infos_def infoOf_def cache_ok_filter)
      then show ?thesis by (simp add: Inr)
    qed
  qed
  have "triple (confined ?J) (archive res now) (\<lambda>_. confined ?J) (confined I)"
    by (rule triple_conseq [OF archive_confined [of ?J]]) (auto elim: confined_mono)
  then show ?thesis unfolding DeleteAndArchive_def using assms by (auto intro: triple_bnd [OF del])
qed

lemma cloudDelete_confined:
  assumes W: "cloud_only W"
  shows "triple (confined I) (cloudDelete W s e) (\<lambda>_. confined {(k, s', e', p) \<in> I. (s', e') \<noteq> (s, e)}) (confined I)"
proof (rule tripleI)
  fix w r w'
  assume P: "confined I w" and run: "cloudDelete W s e w = (r, w')"
  let ?V = "view cloudResourcesC w" and ?J = "{(k, s', e', p) \<in> I. (s', e') \<noteq> (s, e)}"
  have ok: "cache_ok ?V" using P by (simp add: confined_def)
  have keep: "triple (confined (infos w)) (deleteCloudObject W cr) (\<lambda>_. confined (infos w)) (confined (infos w))" for cr
    by (rule confined_listed [OF deleteCloudObject_listed [OF W]])
  have now: "triple (confined (infos w)) (bnd timeNow (DeleteAndArchive cr)) (\<lambda>_. confined {x \<in> infos w. fst x \<noteq> cr_ID cr}) (confined (infos w))"
    if "cr_ID cr \<noteq> ''''" for cr
    by (rule triple_skip [OF quiet_timeNow tables_confined _ DeleteAndArchive_confined [OF that]])
  have P0: "confined (infos w) w" using P by (simp add: confined_def)
  have I: "infos w \<subseteq> I" using P by (simp add: confined_def)
  show "case r of Inl e \<Rightarrow> confined I w' | Inr x \<Rightarrow> confined ?J w'"
  proof (cases "FindByServiceIDAndExternalID s e w")
    case (Pair found w1)
    have w1: "stored w1 = stored w" using quietD [OF quiet_reads(4)] Pair unfolding FindByServiceIDAndExternalID_def by blast
    have P1: "confined (infos w) w1" by (rule tablesD [OF tables_confined w1 P0])
    show ?thesis
    proof (cases found)
      case (Inl x)
      then show ?thesis using run Pair confined_mono [OF P1 I] by (auto simp: cloudDelete_def bnd_def)
    next
      case (Inr cr)
      from Pair Inr have "dbFindOne cloudResourcesC (\<lambda>r. cloudKey r = (s, e)) w = (Inr cr, w1)" by (simp add: FindByServiceIDAndExternalID_def)
      from cloudResources.find_one_run [OF this] have cr: "cr = map_option snd (storeFindOne (\<lambda>r. cloudKey r = (s, e)) ?V)" by simp
      show ?thesis
      proof (cases cr)
        case None
        then have "\<not> storeExists (\<lambda>r. cloudKey r = (s, e)) ?V" using cr by (simp add: storeFindOne_None [symmetric])
        then have "infos w \<subseteq> ?J" using I by (auto simp: infos_def infoOf_def storeExists_def cloudKey_def)
        then show ?thesis using run Pair Inr None confined_mono [OF P1] by (auto simp: cloudDelete_def bnd_def ret_def)
      next
        case (Some c)
        then obtain k where "storeFindOne (\<lambda>r. cloudKey r = (s, e)) ?V = Some (k, c)" using cr by auto
        from storeFindOne_Some(1,2) [OF this] have k: "(k, c) \<in> set ?V" and key: "cloudKey c = (s, e)" by simp_all
        have id: "cr_ID c = k" using cloudResources.view_ID [OF k] by (simp add: cloudResourcesC_def)
        then have "cr_ID c \<noteq> ''''" using k ok by (force simp: cache_ok_def)
        from triple_bnd [OF keep now [OF this]] have
          tri: "triple (confined (infos w)) (bnd (deleteCloudObject W c) (\<lambda>_. bnd timeNow (DeleteAndArchive c)))
            (\<lambda>_. confined {x \<in> infos w. fst x \<noteq> k}) (confined (infos w))" by (simp add: id)
        have "bnd (deleteCloudObject W c) (\<lambda>_. bnd timeNow (DeleteAndArchive c)) w1 = (r, w')"
          using run Pair Inr Some by (simp add: cloudDelete_def bnd_def)
        note tripleD [OF tri P1 this]
        moreover have "{x \<in> infos w. fst x \<noteq> k} \<subseteq> ?J"
          using I same_row [OF ok _ k] key by (fastforce simp: infos_def infoOf_def cloudKey_def)
        ultimately show ?thesis using confined_mono I by (cases r) auto
      qed
    qed
  qed
qed

section \<open>A cascade that succeeds leaves nothing behind\<close>

text \<open>The rows that are of other projects than the given ones, or whose object is still to be deleted.\<close>

definition pending :: "string set \<Rightarrow> CloudResource list \<Rightarrow> row_info set" where
  "pending ps rs = {(k, s, e, p). p \<in> ps \<longrightarrow> (s, e) \<in> cloudKey ` set rs}"

lemma sweepOnce_confined:
  assumes W: "cloud_only W"
  shows "triple (confined (I \<inter> pending ps rs)) (sweepOnce W rs) (\<lambda>out. confined (I \<inter> pending ps out)) (confined I)"
proof -
  let ?f = "\<lambda>r stillLeft. bnd (attempt (cloudDelete W (cr_ServiceID r) (cr_ExternalID r))) (\<lambda>a.
     ret (case a of Inl _ \<Rightarrow> stillLeft @ [r] | Inr _ \<Rightarrow> stillLeft))"
  have loop: "triple (confined (I \<inter> pending ps (acc @ rs))) (forS ?f rs acc) (\<lambda>out. confined (I \<inter> pending ps out)) (confined I)" for acc
  proof (induction rs arbitrary: acc)
    case Nil
    show ?case by (simp add: triple_ret)
  next
    case (Cons r rs)
    have "triple (confined (I \<inter> pending ps (acc @ r # rs))) (?f r acc) (\<lambda>out. confined (I \<inter> pending ps (out @ rs))) (confined I)"
    proof (rule triple_bnd)
      let ?K = "I \<inter> pending ps (acc @ r # rs)"
      let ?K' = "{(k, s', e', p) \<in> ?K. (s', e') \<noteq> (cr_ServiceID r, cr_ExternalID r)}"
      show "triple (confined ?K) (attempt (cloudDelete W (cr_ServiceID r) (cr_ExternalID r)))
          (\<lambda>a w. case a of Inl _ \<Rightarrow> confined ?K w | Inr _ \<Rightarrow> confined ?K' w) (confined I)"
        by (rule triple_conseq [OF triple_attempt [OF cloudDelete_confined [OF W, of ?K]]]) (auto elim: confined_mono)
      show "triple (\<lambda>w. case a of Inl _ \<Rightarrow> confined ?K w | Inr _ \<Rightarrow> confined ?K' w)
        (ret (case a of Inl _ \<Rightarrow> acc @ [r] | Inr _ \<Rightarrow> acc)) (\<lambda>out. confined (I \<inter> pending ps (out @ rs))) (confined I)" for a :: "unit res"
        by (cases a) (auto intro!: triple_ret elim!: confined_mono simp: pending_def cloudKey_def)
    qed
    from triple_bnd [OF this Cons.IH] show ?case by simp
  qed
  show ?thesis unfolding sweepOnce_def using loop [of "[]"] by simp
qed

lemma sweeps_confined:
  assumes W: "cloud_only W"
  shows "triple (confined (I \<inter> pending ps rs)) (sweeps W n rs) (\<lambda>out. confined (I \<inter> pending ps out)) (confined I)"
proof (induction n arbitrary: rs)
  case 0
  show ?case by (simp add: triple_ret)
next
  case (Suc n)
  show ?case using triple_bnd [OF sweepOnce_confined [OF W] Suc.IH] by (auto intro: triple_ret)
qed

text \<open>The managed rows: archived when the service accepted the delete.\<close>

definition managed_only :: "managed \<Rightarrow> bool" where
  "managed_only m \<longleftrightarrow> (\<forall>es del p e. m es = Inr del \<longrightarrow> quiet (del p e))"

definition cascade_ok :: "cascade \<Rightarrow> bool" where
  "cascade_ok C \<longleftrightarrow> (\<forall>W. cas_client C = Some W \<longrightarrow> cloud_only W) \<and> (\<forall>g i. cas_esGet C = Some g \<longrightarrow> quiet (g i)) \<and>
     (\<forall>m. cas_kamajiFor C = Some m \<or> cas_dbaasFor C = Some m \<longrightarrow> managed_only m)"

lemma managedDelete_confined:
  assumes "managed_only m" and "cr_ID res \<noteq> ''''"
  shows "triple (confined I) (managedDelete m es pid res now)
    (\<lambda>failed. confined (if failed then I else {x \<in> I. fst x \<noteq> cr_ID res})) (confined I)"
proof (cases "m es")
  case (Inl e)
  then show ?thesis by (simp add: managedDelete_def triple_ret)
next
  case (Inr del)
  then have q: "quiet (attempt (del pid (cr_ExternalID res)))" using assms(1) by (intro quiet_attempt) (simp add: managed_only_def)
  have arch: "triple (confined I) (bnd (attempt (DeleteAndArchive res now)) (\<lambda>r. ret (case r of Inl _ \<Rightarrow> True | Inr _ \<Rightarrow> False)))
      (\<lambda>failed. confined (if failed then I else {x \<in> I. fst x \<noteq> cr_ID res})) (confined I)"
    by (rule triple_bnd [OF triple_attempt [OF DeleteAndArchive_confined [OF assms(2)]]]) (auto intro!: triple_ret split: sum.splits)
  show ?thesis
    unfolding managedDelete_def Inr sum.case
    by (rule triple_skip [OF q tables_confined]) (auto intro!: triple_ret arch split: sum.split)
qed

text \<open>
  The loop over the rows that the listing found: as long as nothing has failed, what is left is
  what is kept or still to be looked at.
\<close>

definition leftover :: "row_info set \<Rightarrow> string \<Rightarrow> CloudResource list \<times> bool \<Rightarrow> CloudResource list \<Rightarrow> row_info set" where
  "leftover I pid acc rest = I \<inter> pending (if snd acc then {} else {pid}) (fst acc @ rest)"

lemma splitManaged_confined:
  assumes C: "cascade_ok C" and ids: "\<And>r. r \<in> set rs \<Longrightarrow> cr_ID r \<noteq> ''''"
    and one: "\<And>r k p. r \<in> set rs \<Longrightarrow> (k, cr_ServiceID r, cr_ExternalID r, p) \<in> I \<Longrightarrow> k = cr_ID r"
  shows "triple (confined (I \<inter> pending {pid} rs)) (splitManaged C pid rs)
    (\<lambda>out. confined (leftover I pid out [])) (confined I)"
proof (cases "cas_esGet C")
  case None
  then show ?thesis by (simp add: splitManaged_def triple_ret leftover_def)
next
  case get: (Some g)
  show ?thesis
  proof (cases "cas_kamajiFor C")
    case None
    then show ?thesis by (simp add: splitManaged_def get triple_ret leftover_def)
  next
    case (Some kam)
    define f where "f = (\<lambda>now res (kept, failed).
         bnd (attempt (g (cr_ServiceID res))) (\<lambda>es. case es of
             Inl _ \<Rightarrow> ret (kept @ [res], failed)
           | Inr es \<Rightarrow>
               if IsDbaas es then (case cas_dbaasFor C of None \<Rightarrow> ret (kept @ [res], failed)
                 | Some dbaasFor \<Rightarrow> bnd (managedDelete dbaasFor es pid res now) (\<lambda>f. ret (kept, failed \<or> f)))
               else if IsKamaji es then bnd (managedDelete kam es pid res now) (\<lambda>f. ret (kept, failed \<or> f))
               else ret (kept @ [res], failed)))"
    have managed: "managed_only kam" "\<And>m. cas_dbaasFor C = Some m \<Longrightarrow> managed_only m" using C Some by (auto simp: cascade_ok_def)
    have q: "quiet (attempt (g i))" for i using C get by (intro quiet_attempt) (simp add: cascade_ok_def)
    let ?L = "leftover I pid"
    have bound: "?L acc rest \<subseteq> I" for acc rest by (auto simp: leftover_def)
    have step: "triple (confined (?L (kept, failed) (r # rest))) (f now r (kept, failed)) (\<lambda>out. confined (?L out rest)) (confined I)"
      if r: "r \<in> set rs" for now r rest kept failed
    proof -
      let ?K = "?L (kept, failed) (r # rest)"
      have kept: "triple (confined ?K) (ret (kept @ [r], failed)) (\<lambda>out. confined (?L out rest)) (confined I)"
        by (rule triple_ret) (erule confined_mono, auto simp: leftover_def pending_def)
      have gone: "(if f then ?K else {x \<in> ?K. fst x \<noteq> cr_ID r}) \<subseteq> ?L (kept, failed \<or> f) rest" for f
        using one [OF r] by (auto simp: leftover_def pending_def cloudKey_def)
      have del: "triple (confined ?K) (bnd (managedDelete m es pid r now) (\<lambda>f. ret (kept, failed \<or> f))) (\<lambda>out. confined (?L out rest)) (confined I)"
        if "managed_only m" for m es
        by (rule triple_seq [OF managedDelete_confined [OF that ids [OF r]]], erule confined_mono [OF _ bound], rule triple_ret)
          (erule confined_mono [OF _ gone])
      show ?thesis
        unfolding f_def prod.case
        by (rule triple_skip [OF q tables_confined]) (auto intro!: kept del managed triple_if triple_option elim: confined_mono [OF _ bound] split: sum.split)
    qed
    have loop: "set xs \<subseteq> set rs \<Longrightarrow> triple (confined (?L acc xs)) (forS (f now) xs acc) (\<lambda>out. confined (?L out [])) (confined I)" for now xs acc
    proof (induction xs arbitrary: acc)
      case Nil
      show ?case by (simp add: triple_ret)
    next
      case (Cons r xs)
      obtain kept failed where acc: "acc = (kept, failed)" by (cases acc)
      show ?case unfolding forS.simps acc by (rule triple_bnd [OF step Cons.IH]) (use Cons.prems in auto)
    qed
    have eq: "splitManaged C pid rs = bnd timeNow (\<lambda>now. forS (f now) rs ([], False))" by (simp add: splitManaged_def get Some f_def)
    have "triple (confined (I \<inter> pending {pid} rs)) (forS (f now) rs ([], False)) (\<lambda>out. confined (?L out [])) (confined I)" for now
      using loop [of rs "([], False)" now] by (simp add: leftover_def)
    then show ?thesis unfolding eq by (intro triple_skip [OF quiet_timeNow tables_confined]) (auto elim: confined_mono)
  qed
qed

lemma DeleteProjectResources_confined:
  assumes C: "cascade_ok C"
  shows "triple (listed I) (DeleteProjectResources C pid) (\<lambda>_. confined {(k, s, e, p) \<in> I. p \<noteq> pid}) (confined I)"
proof (cases "cas_client C")
  case None
  then show ?thesis by (simp add: DeleteProjectResources_def triple_throw listed_confined)
next
  case (Some W)
  then have W: "cloud_only W" using C by (simp add: cascade_ok_def)
  let ?find = "dbFind cloudResourcesC (\<lambda>r. cr_ProjectID r = pid)"
  let ?ok = "\<lambda>rs. (\<forall>r\<in>set rs. cr_ID r \<noteq> '''' \<and> (\<forall>k p. (k, cr_ServiceID r, cr_ExternalID r, p) \<in> I \<longrightarrow> k = cr_ID r)) \<and> I \<subseteq> pending {pid} rs"
  have found: "?ok rs" if P: "listed I w" and run: "?find w = (Inr rs, w')" for w rs w'
  proof -
    let ?V = "view cloudResourcesC w"
    have rs: "rs = storeFind (\<lambda>r. cr_ProjectID r = pid) ?V" using cloudResources.find_run [OF run] by simp
    have ok: "cache_ok ?V" and I: "I = infoOf ` set ?V" using P by (simp_all add: listed_def infos_def)
    have "cr_ID r \<noteq> '''' \<and> (\<forall>k p. (k, cr_ServiceID r, cr_ExternalID r, p) \<in> I \<longrightarrow> k = cr_ID r)" if r: "r \<in> set rs" for r
    proof -
      obtain k where k: "(k, r) \<in> set ?V" using r unfolding rs by (auto simp: storeFind_def)
      then have id: "cr_ID r = k" using cloudResources.view_ID [OF k] by (simp add: cloudResourcesC_def)
      have "k' = k" if row: "(k', cr_ServiceID r, cr_ExternalID r, p) \<in> I" for k' p
      proof -
        obtain d where "(k', d) \<in> set ?V" "cloudKey r = cloudKey d" using row by (auto simp: I infoOf_def cloudKey_def)
        from same_row [OF ok k this] show ?thesis by simp
      qed
      moreover have "k \<noteq> ''''" using k ok by (force simp: cache_ok_def)
      ultimately show ?thesis using id by simp
    qed
    moreover have "I \<subseteq> pending {pid} rs"
      unfolding I rs by (force simp: infoOf_def pending_def storeFind_def cloudKey_def image_iff)
    ultimately show ?thesis by blast
  qed
  let ?finish = "\<lambda>failed remaining. if remaining \<noteq> ([] :: CloudResource list) then throw (Failure ''scheduled project deletion left resources'')
           else if failed then throw (Failure ''scheduled project deletion'') else ret ()"
  have rest: "triple (listed I) (bnd (splitManaged C pid (SortCloudResourcesForDeletion rs)) (\<lambda>(kept, failed). bnd (sweeps W 3 kept) (?finish failed)))
      (\<lambda>_. confined {(k, s, e, p) \<in> I. p \<noteq> pid}) (confined I)"
    if "?ok rs" for rs
  proof (rule triple_bnd)
    let ?rs = "SortCloudResourcesForDeletion rs"
    have set: "set ?rs = set rs" by (simp add: SortCloudResourcesForDeletion_def)
    then have "pending {pid} ?rs = pending {pid} rs" by (simp add: pending_def)
    then have start: "listed I w \<Longrightarrow> confined (I \<inter> pending {pid} ?rs) w" for w using that by (auto simp: listed_def confined_def)
    show "triple (listed I) (splitManaged C pid ?rs) (\<lambda>out. confined (leftover I pid out [])) (confined I)"
      by (rule triple_pre [OF splitManaged_confined [OF C]]) (use that set start in blast)+
    fix out :: "CloudResource list \<times> bool"
    obtain kept failed where out: "out = (kept, failed)" by (cases out)
    have sweep: "triple (confined (leftover I pid out [])) (sweeps W 3 kept) (\<lambda>left. confined (leftover I pid (left, failed) [])) (confined I)"
      using sweeps_confined [OF W, of I "if failed then {} else {pid}" kept] by (simp add: leftover_def out)
    show "triple (confined (leftover I pid out [])) (case out of (kept, failed) \<Rightarrow> bnd (sweeps W 3 kept) (?finish failed))
       (\<lambda>_. confined {(k, s, e, p) \<in> I. p \<noteq> pid}) (confined I)"
      unfolding out prod.case
      by (rule triple_bnd [OF sweep [unfolded out]], intro triple_if triple_throw triple_ret)
        (auto elim!: confined_mono simp: leftover_def pending_def)
  qed
  show ?thesis
    unfolding DeleteProjectResources_def Some option.case FindAllByProjectID_def
    by (rule triple_know [OF quiet_reads(2) tables_listed, where R = ?ok], erule listed_confined, erule (1) found, erule rest)
qed

section \<open>The projects are left alone\<close>

context collection
begin

lemma leaves_withTx: "leaves c m \<Longrightarrow> leaves c (withTx m)"
  unfolding keeps_def
proof (intro allI impI)
  fix w r w'
  assume m: "\<forall>w r w'. m w = (r, w') \<longrightarrow> view c w' = view c w" and run: "withTx m w = (r, w')"
  show "view c w' = view c w"
  proof (cases r)
    case (Inl e)
    then show ?thesis using run withTx_Inl view_stored by blast
  next
    case (Inr x)
    with run obtain w0 w1 where "stored w0 = stored w" "m w0 = (Inr x, w1)" "stored w' = stored w1" by (metis withTx_Inr)
    then show ?thesis using m view_stored by metis
  qed
qed

end

lemmas reads_leave_projects = quiet_reads [THEN projects.leaves_quiet] quiet_timeNow [THEN projects.leaves_quiet] quiet_ensureCloud [THEN projects.leaves_quiet]

lemma cloud_writes_leave_projects:
  "leaves projectsC (cloudInsert v)" "leaves projectsC (DeleteAndArchive res now)"
  unfolding cloudInsert_def postImage_def DeleteAndArchive_def archive_def
  by (intro leaves_intros keeps_prod projects.leaves_withTx reads_leave_projects projects.leaves_writes projects.leaves_more_writes apart_cloud)+

lemma cloudDelete_leaves_projects:
  assumes W: "cloud_only W"
  shows "leaves projectsC (cloudDelete W s e)"
proof -
  have q: "leaves projectsC (wr_call W c)" for c using W by (intro projects.leaves_quiet) (simp add: cloud_only_def)
  have ans: "leaves projectsC (answered (wr_call W c))" for c
    unfolding answered_def by (intro leaves_bnd q) (auto intro: leaves_intros split: cloud_answer.split)
  have obj: "leaves projectsC (deleteCloudObject W cr)" for cr
    unfolding deleteCloudObject_def detachServerVolumes_def FindByProjectAndType_def
    by (intro leaves_intros ans q reads_leave_projects cloud_writes_leave_projects quiet_nova [OF W, THEN projects.leaves_quiet])
      (auto intro: leaves_intros split: cloud_answer.split)
  show ?thesis
    unfolding cloudDelete_def FindByServiceIDAndExternalID_def
    by (intro leaves_intros obj reads_leave_projects cloud_writes_leave_projects)
qed

lemma DeleteProjectResources_leaves_projects:
  assumes C: "cascade_ok C"
  shows "leaves projectsC (DeleteProjectResources C pid)"
proof -
  have managed: "leaves projectsC (managedDelete m es pid res now)" if "managed_only m" for m es res now
  proof (cases "m es")
    case (Inr del)
    then have "leaves projectsC (del pid e)" for e using that by (intro projects.leaves_quiet) (simp add: managed_only_def)
    then show ?thesis unfolding managedDelete_def Inr sum.case by (intro leaves_intros cloud_writes_leave_projects)
  qed (simp add: managedDelete_def leaves_simple)
  have get: "leaves projectsC (g i)" if "cas_esGet C = Some g" for g i using C that by (intro projects.leaves_quiet) (simp add: cascade_ok_def)
  have m: "managed_only m" if "cas_kamajiFor C = Some m \<or> cas_dbaasFor C = Some m" for m using C that by (auto simp: cascade_ok_def)
  have split: "leaves projectsC (splitManaged C pid rs)" for rs
    unfolding splitManaged_def
    by (auto intro!: leaves_intros keeps_prod get managed m reads_leave_projects split: option.split)
  have sweep: "leaves projectsC (sweeps W n rs)" if "cloud_only W" for W n rs
    by (induction n arbitrary: rs) (auto simp: sweepOnce_def intro!: leaves_intros cloudDelete_leaves_projects that)
  show ?thesis
    unfolding DeleteProjectResources_def FindAllByProjectID_def
    by (intro leaves_intros keeps_prod split sweep reads_leave_projects) (use C in \<open>simp add: cascade_ok_def\<close>)
qed

end
