(* ===== verification/Project_Deletion.thy ===== *)
theory Project_Deletion
  imports Project_Handlers Cloud_Teardown
begin

text \<open>
  The deletion cron of \<open>project/deletion.go\<close>, run with the cascade of \<open>cmd/api/main.go\<close>: which
  projects it touches, and what is left of a project that it removes.
\<close>

section \<open>The job\<close>

definition removeProject :: "(string \<Rightarrow> unit svc) \<Rightarrow> Project \<Rightarrow> bool svc" where
  "removeProject deleter p = bnd (attempt (deleter (prj_ID p))) (\<lambda>r. case r of
       Inl _ \<Rightarrow> bnd (attempt (projSave (p \<lparr> prj_Status := ProjectEnabled \<rparr>))) (\<lambda>_. ret False)
     | Inr _ \<Rightarrow> bnd (attempt (projDelete (prj_ID p))) (\<lambda>r. ret (case r of Inl _ \<Rightarrow> False | Inr _ \<Rightarrow> True)))"

definition deleteProject :: "(string \<Rightarrow> unit svc) \<Rightarrow> Project \<Rightarrow> bool svc" where
  "deleteProject deleter p = (if prj_Status p = ProjectEnabled then ret False
     else if prj_Status p = StatusScheduledForDeletion then
       bnd (attempt (projSave (p \<lparr> prj_Status := StatusDeleteInProgress \<rparr>))) (\<lambda>r. case r of
           Inl _ \<Rightarrow> ret False | Inr p \<Rightarrow> removeProject deleter p)
     else removeProject deleter p)"

definition ExecuteAll :: "(string \<Rightarrow> unit svc) \<Rightarrow> int svc" where
  "ExecuteAll deleter = bnd timeNow (\<lambda>now. bnd (ScheduledForDeletion now) (\<lambda>projects.
     forS (\<lambda>p n. bnd (deleteProject deleter p) (\<lambda>b. ret (if b then n + 1 else n))) projects 0))"

section \<open>Rows that a call leaves alone\<close>

definition rowOf :: "string \<Rightarrow> world \<Rightarrow> Project option" where
  "rowOf k w = map_of (view projectsC w) k"

lemma keeps_row_leaves: "leaves projectsC m \<Longrightarrow> keeps (rowOf k) m"
  unfolding keeps_def rowOf_def by metis

lemma map_of_filter_key: "k \<noteq> i \<Longrightarrow> map_of (filter (\<lambda>r. fst r \<noteq> i) t) k = map_of t k"
  by (induction t) auto

lemma projDelete_run:
  assumes "projDelete i w = (r, w')"
  shows "stored w' = stored w \<and> (\<exists>e. r = Inl e) \<or> view projectsC w' = filter (\<lambda>x. fst x \<noteq> i) (view projectsC w) \<and> r = Inr ()"
proof (cases r)
  case (Inl e)
  then have "dbDeleteByID projectsC i w = (Inl e, w')" using assms by (auto simp: projDelete_def bnd_Inl ret_def)
  then show ?thesis using Inl failed_writes(3) by blast
next
  case (Inr x)
  then obtain b where "dbDeleteByID projectsC i w = (Inr b, w')" using assms by (auto simp: projDelete_def bnd_Inr ret_def)
  from projects.delete_run(2) [OF this] show ?thesis using Inr by simp
qed

lemma keeps_row_delete: "i \<noteq> k \<Longrightarrow> keeps (rowOf k) (projDelete i)"
  unfolding keeps_def rowOf_def
proof (intro allI impI)
  fix w r w'
  assume k: "i \<noteq> k" and run: "projDelete i w = (r, w')"
  from projDelete_run [OF run] show "map_of (view projectsC w') k = map_of (view projectsC w) k"
  proof (elim disjE conjE)
    assume "stored w' = stored w"
    from projects.view_stored [OF this] show ?thesis by simp
  qed (use k map_of_filter_key [of k i] in simp)
qed

lemma keeps_row_save: "prj_ID q \<noteq> k \<Longrightarrow> keeps (rowOf k) (projSave q)"
  unfolding keeps_def rowOf_def
proof (intro allI impI)
  fix w r w'
  assume "prj_ID q \<noteq> k" and "projSave q w = (r, w')"
  then show "map_of (view projectsC w') k = map_of (view projectsC w) k"
    using projSave_run by (fastforce simp: map_of_replaceRow split: option.split)
qed

lemma keeps_forS_set: "(\<And>x acc. x \<in> set xs \<Longrightarrow> keeps f (m x acc)) \<Longrightarrow> keeps f (forS m xs acc)"
  by (induction xs arbitrary: acc) (auto intro: leaves_intros)

lemma keeps_row_deleteProject:
  assumes del: "\<And>i. leaves projectsC (deleter i)" and "prj_ID p \<noteq> k"
  shows "keeps (rowOf k) (deleteProject deleter p)"
proof -
  have rest: "keeps (rowOf k) (removeProject deleter q)" if "prj_ID q \<noteq> k" for q
    unfolding removeProject_def
    by (intro leaves_intros keeps_row_leaves [OF del] keeps_row_save keeps_row_delete) (use that in simp_all)
  have mark: "keeps (rowOf k) (bnd (attempt (projSave (p \<lparr> prj_Status := StatusDeleteInProgress \<rparr>))) (\<lambda>r. case r of
           Inl _ \<Rightarrow> ret False | Inr p \<Rightarrow> removeProject deleter p))"
    unfolding keeps_def
  proof (intro allI impI)
    fix w r w'
    let ?q = "p \<lparr> prj_Status := StatusDeleteInProgress \<rparr>"
    assume run: "bnd (attempt (projSave ?q)) (\<lambda>r. case r of Inl _ \<Rightarrow> ret False | Inr p \<Rightarrow> removeProject deleter p) w = (r, w')"
    obtain s w1 where save: "projSave ?q w = (s, w1)" by (cases "projSave ?q w")
    have w1: "rowOf k w1 = rowOf k w" using leavesD [OF keeps_row_save save] assms(2) by simp
    show "rowOf k w' = rowOf k w"
    proof (cases s)
      case (Inr x)
      then have "prj_ID x \<noteq> k" using save assms(2) by (auto simp: projSave_def bnd_Inr ret_def)
      moreover have "removeProject deleter x w1 = (r, w')" using run save Inr by (simp add: bnd_def attempt_def)
      ultimately show ?thesis using leavesD [OF rest] w1 by metis
    next
      case (Inl e)
      then show ?thesis using run save w1 by (cases e) (auto simp: bnd_def attempt_def ret_def)
    qed
  qed
  show ?thesis unfolding deleteProject_def using mark rest [OF assms(2)] by (auto intro: leaves_intros)
qed

text \<open>The job selects by the stored documents, so that a project that is not due is not touched.\<close>

lemma ExecuteAll_spares:
  assumes del: "\<And>i. leaves projectsC (deleter i)" and run: "ExecuteAll deleter w = (r, w')"
    and dist: "distinct (map fst (view projectsC w))" and row: "map_of (view projectsC w) k = Some p"
    and "\<not> deletionDue (w_time (snd (timeNow w))) p"
  shows "map_of (view projectsC w') k = Some p"
proof -
  obtain now w1 where now: "timeNow w = (Inr now, w1)" using timeNow_run by (cases "timeNow w") auto
  have w1: "stored w1 = stored w" "now = w_time w1" using timeNow_run [OF now] by simp_all
  have V1: "view projectsC w1 = view projectsC w" by (rule projects.view_stored [OF w1(1)])
  have notdue: "\<not> deletionDue now p" using assms(5) now w1 by simp
  let ?loop = "\<lambda>ps. forS (\<lambda>p n. bnd (deleteProject deleter p) (\<lambda>b. ret (if b then n + 1 else n))) ps (0::int)"
  have body: "bnd (ScheduledForDeletion now) ?loop w1 = (r, w')" using run now by (simp add: ExecuteAll_def bnd_def)
  obtain s w2 where find: "dbFind projectsC (deletionDue now) w1 = (s, w2)" by (cases "dbFind projectsC (deletionDue now) w1")
  have w2: "stored w2 = stored w1" using quietD [OF quiet_reads(2) find] .
  have V2: "view projectsC w2 = view projectsC w" using projects.view_stored [OF w2] V1 by simp
  show ?thesis
  proof (cases s)
    case (Inl e)
    then show ?thesis using body find V2 row by (auto simp: bnd_def ScheduledForDeletion_def)
  next
    case (Inr ps)
    have ps: "ps = storeFind (deletionDue now) (view projectsC w)" using projects.find_run [of "deletionDue now" w1 ps w2] find Inr V1 by simp
    have "prj_ID q \<noteq> k" if q: "q \<in> set ps" for q
    proof
      assume k: "prj_ID q = k"
      obtain i where i: "(i, q) \<in> set (view projectsC w)" "deletionDue now q" using q unfolding ps by (auto simp: storeFind_def)
      then have "i = k" using projects.view_ID [OF i(1)] k by (simp add: projectsC_def)
      then have "q = p" using i(1) row dist by (simp add: map_of_is_SomeI)
      then show False using i(2) notdue by simp
    qed
    then have "keeps (rowOf k) (?loop ps)" by (intro keeps_forS_set leaves_intros keeps_row_deleteProject [OF del]) simp
    moreover have "?loop ps w2 = (r, w')" using body find Inr by (simp add: bnd_def ScheduledForDeletion_def)
    ultimately have "rowOf k w' = rowOf k w2" by (rule leavesD)
    then show ?thesis using row V2 by (simp add: rowOf_def)
  qed
qed

section \<open>What is left of a removed project\<close>

definition owners :: "world \<Rightarrow> string set" where
  "owners w = (\<lambda>r. cr_ProjectID (snd r)) ` set (view cloudResourcesC w)"

text \<open>Every project of \<open>K\<close> is still stored, or no cached resource is of it.\<close>

definition clean :: "string set \<Rightarrow> world \<Rightarrow> bool" where
  "clean K w \<longleftrightarrow> cache_ok (view cloudResourcesC w) \<and> (\<forall>k\<in>K. k \<in> fst ` set (view projectsC w) \<or> k \<notin> owners w)"

lemma apart_cache [simp]: "apart cloudResourcesC projectsC"
  by (simp add: apart_def view_def cloudResourcesC_def projectsC_def)

lemma owners_infos: "owners w = (\<lambda>(k, s, e, p). p) ` infos w"
  by (force simp: owners_def infos_def infoOf_def)

lemma clean_stored:
  assumes "stored w' = stored w" and "clean K w"
  shows "clean K w'"
  using assms(2) unfolding clean_def owners_def cloudResources.view_stored [OF assms(1)] projects.view_stored [OF assms(1)] .

lemma clean_save: "triple (clean K) (projSave q) (\<lambda>_. clean K) (clean K)"
proof (rule tripleI)
  fix w r w'
  assume P: "clean K w" and run: "projSave q w = (r, w')"
  have "leaves cloudResourcesC (projSave q)"
    unfolding projSave_def by (intro leaves_intros cloudResources.leaves_quiet [OF quiet_timeNow] cloudResources.leaves_more_writes) simp
  then have cloud: "view cloudResourcesC w' = view cloudResourcesC w" using run by (rule leavesD)
  have "fst ` set (view projectsC w') = fst ` set (view projectsC w)" using projSave_run [OF run] replaceRow_key_set by metis
  then have "clean K w'" using P by (simp add: clean_def owners_def cloud)
  then show "case r of Inl e \<Rightarrow> clean K w' | Inr x \<Rightarrow> clean K w'" by (cases r) simp_all
qed

lemma clean_cascade:
  assumes C: "cascade_ok C"
  shows "triple (clean K) (DeleteProjectResources C i) (\<lambda>_ w. clean K w \<and> i \<notin> owners w) (clean K)"
proof (rule tripleI)
  fix w r w'
  assume P: "clean K w" and run: "DeleteProjectResources C i w = (r, w')"
  have "listed (infos w) w" using P by (simp add: clean_def listed_def)
  from tripleD [OF DeleteProjectResources_confined [OF C] this run]
  have post: "case r of Inl e \<Rightarrow> confined (infos w) w' | Inr x \<Rightarrow> confined {(k, s, e, p) \<in> infos w. p \<noteq> i} w'" .
  then have "confined (infos w) w'" by (cases r) (auto elim: confined_mono)
  then have "owners w' \<subseteq> owners w" "cache_ok (view cloudResourcesC w')" unfolding confined_def owners_infos by (blast intro: image_mono)+
  moreover have "view projectsC w' = view projectsC w" using leavesD [OF DeleteProjectResources_leaves_projects [OF C] run] .
  ultimately have "clean K w'" using P by (auto simp: clean_def)
  then show "case r of Inl e \<Rightarrow> clean K w' | Inr x \<Rightarrow> clean K w' \<and> i \<notin> owners w'"
    using post by (cases r) (auto simp: confined_def owners_infos)
qed

lemma clean_delete: "triple (\<lambda>w. clean K w \<and> i \<notin> owners w) (projDelete i) (\<lambda>_. clean K) (clean K)"
proof (rule tripleI)
  fix w r w'
  assume P: "clean K w \<and> i \<notin> owners w" and run: "projDelete i w = (r, w')"
  have "leaves cloudResourcesC (projDelete i)" unfolding projDelete_def by (intro leaves_intros cloudResources.leaves_writes) simp
  then have cloud: "view cloudResourcesC w' = view cloudResourcesC w" using run by (rule leavesD)
  from projDelete_run [OF run] have "clean K w'"
  proof (elim disjE conjE)
    assume "stored w' = stored w"
    from clean_stored [OF this] P show ?thesis by simp
  next
    assume "view projectsC w' = filter (\<lambda>x. fst x \<noteq> i) (view projectsC w)"
    then have "fst ` set (view projectsC w') = fst ` set (view projectsC w) - {i}" by auto
    moreover have "owners w' = owners w" by (simp add: owners_def cloud)
    ultimately have "k \<in> fst ` set (view projectsC w') \<or> k \<notin> owners w'" if "k \<in> K" for k
      using P that by (cases "k = i") (auto simp: clean_def)
    then show ?thesis using P by (simp add: clean_def cloud)
  qed
  then show "case r of Inl e \<Rightarrow> clean K w' | Inr x \<Rightarrow> clean K w'" by (cases r) simp_all
qed

lemma clean_removeProject:
  assumes C: "cascade_ok C"
  shows "triple (clean K) (removeProject (DeleteProjectResources C) p) (\<lambda>_. clean K) (clean K)"
  unfolding removeProject_def
proof (rule triple_bnd [OF triple_attempt [OF clean_cascade [OF C]]])
  fix r :: "unit res"
  have save: "triple (clean K) (bnd (attempt (projSave q)) (\<lambda>_. ret False)) (\<lambda>_. clean K) (clean K)" for q
    by (rule triple_bnd [OF triple_attempt [OF clean_save]]) (auto intro!: triple_ret split: sum.splits)
  have del: "triple (\<lambda>w. clean K w \<and> prj_ID p \<notin> owners w) (bnd (attempt (projDelete (prj_ID p))) (\<lambda>r. ret (case r of Inl _ \<Rightarrow> False | Inr _ \<Rightarrow> True)))
      (\<lambda>_. clean K) (clean K)"
    by (rule triple_bnd [OF triple_attempt [OF clean_delete]]) (auto intro!: triple_ret split: sum.splits)
  show "triple (\<lambda>w. case r of Inl _ \<Rightarrow> clean K w | Inr x \<Rightarrow> clean K w \<and> prj_ID p \<notin> owners w)
     (case r of Inl _ \<Rightarrow> bnd (attempt (projSave (p \<lparr> prj_Status := ProjectEnabled \<rparr>))) (\<lambda>_. ret False)
      | Inr _ \<Rightarrow> bnd (attempt (projDelete (prj_ID p))) (\<lambda>r. ret (case r of Inl _ \<Rightarrow> False | Inr _ \<Rightarrow> True))) (\<lambda>_. clean K) (clean K)"
    using save del by (cases r) auto
qed

lemma clean_ExecuteAll:
  assumes C: "cascade_ok C"
  shows "triple (clean K) (ExecuteAll (DeleteProjectResources C)) (\<lambda>_. clean K) (clean K)"
proof -
  note rem = clean_removeProject [OF C]
  have mark: "triple (clean K) (bnd (attempt (projSave q)) (\<lambda>r. case r of Inl _ \<Rightarrow> ret False | Inr p \<Rightarrow> removeProject (DeleteProjectResources C) p))
      (\<lambda>_. clean K) (clean K)" for q
    by (rule triple_bnd [OF triple_attempt [OF clean_save]]) (auto intro!: triple_ret rem split: sum.splits)
  have one: "triple (clean K) (deleteProject (DeleteProjectResources C) p) (\<lambda>_. clean K) (clean K)" for p
    unfolding deleteProject_def by (intro triple_if triple_ret mark rem)
  have loop: "triple (clean K) (forS (\<lambda>p n. bnd (deleteProject (DeleteProjectResources C) p) (\<lambda>b. ret (if b then n + 1 else n))) ps n) (\<lambda>_. clean K) (clean K)"
    for ps and n :: int
    by (rule triple_forS, rule triple_bnd [OF one]) (auto intro: triple_ret)
  have tab: "tables (clean K)" unfolding tables_def using clean_stored by blast
  show ?thesis
    unfolding ExecuteAll_def ScheduledForDeletion_def
    by (intro triple_skip [OF quiet_timeNow tab] triple_skip [OF quiet_reads(2) tab] loop)
qed

text \<open>
  C20. The deletion cron, with the cascade it runs in production. It leaves a project alone that is
  not due: one that is not scheduled for deletion or being deleted, or whose five minutes of grace
  are not over at the time of the run. And it removes the document of a project only when nothing
  of the project is left in the cache of cloud resources: whatever the clouds answer, whichever of
  the three sweeps fails and whichever database call does.
\<close>

theorem cron_removes_cleanly:
  assumes "cascade_ok C" and "ExecuteAll (DeleteProjectResources C) w = (r, w')"
    and "distinct (map fst (view projectsC w))" and "cache_ok (view cloudResourcesC w)" and "map_of (view projectsC w) k = Some p"
  shows "(\<not> deletionDue (w_time (snd (timeNow w))) p \<longrightarrow> map_of (view projectsC w') k = Some p) \<and>
    (map_of (view projectsC w') k = None \<longrightarrow> (\<forall>(i, d) \<in> set (view cloudResourcesC w'). cr_ProjectID d \<noteq> k))"
proof
  show "\<not> deletionDue (w_time (snd (timeNow w))) p \<longrightarrow> map_of (view projectsC w') k = Some p"
    using ExecuteAll_spares [OF DeleteProjectResources_leaves_projects [OF assms(1)] assms(2,3,5)] by blast
  have "clean {k} w" using assms(4,5) by (auto simp: clean_def dest!: map_of_SomeD intro: rev_image_eqI)
  from tripleD [OF clean_ExecuteAll [OF assms(1)] this assms(2)] have "clean {k} w'" by (cases r) simp_all
  then show "map_of (view projectsC w') k = None \<longrightarrow> (\<forall>(i, d) \<in> set (view cloudResourcesC w'). cr_ProjectID d \<noteq> k)"
    by (force simp: clean_def owners_def map_of_eq_None_iff)
qed

definition ex_cascade :: cascade where
  "ex_cascade = \<lparr> cas_client = Some \<lparr> wr_call = (\<lambda>_. ret Done), wr_getVolume = None \<rparr>, cas_esGet = None, cas_kamajiFor = None, cas_dbaasFor = None \<rparr>"

definition ex_condemned :: world where
  "ex_condemned = ex_world \<lparr>
     w_projects := [(''p1'', (newProject ''old'' ''ann'' ''g1'' []) \<lparr> prj_ID := ''p1'', prj_Status := StatusScheduledForDeletion, prj_ScheduledForDeletionAt := Some 0 \<rparr>)],
     w_cloudResources := [(''r1'', emptyResource \<lparr> cr_ID := ''r1'', cr_ProjectID := ''p1'', cr_ServiceID := ''os'', cr_ExternalID := ''x1'', cr_Type := ''FLOATING_IP'' \<rparr>)] \<rparr>"

theorem cron_removes_cleanly_witness:
  "map_of (view projectsC (snd (ExecuteAll (DeleteProjectResources ex_cascade) ex_condemned))) ''p1'' = None \<and>
   filter (\<lambda>(i, d). cr_ProjectID d = ''p1'') (view cloudResourcesC (snd (ExecuteAll (DeleteProjectResources ex_cascade) ex_condemned))) = []"
proof -
  let ?run = "ExecuteAll (DeleteProjectResources ex_cascade) ex_condemned"
  have gone: "map_of (view projectsC (snd ?run)) ''p1'' = None" by code_simp
  have "cascade_ok ex_cascade" by (simp add: cascade_ok_def cloud_only_def ex_cascade_def quiet_ret)
  moreover have "distinct (map fst (view projectsC ex_condemned))" "cache_ok (view cloudResourcesC ex_condemned)"
    by (simp_all add: view_def projectsC_def cloudResourcesC_def ex_condemned_def cache_ok_def)
  moreover obtain p where "map_of (view projectsC ex_condemned) ''p1'' = Some p"
    by (simp add: view_def projectsC_def ex_condemned_def)
  ultimately have "\<forall>(i, d) \<in> set (view cloudResourcesC (snd ?run)). cr_ProjectID d \<noteq> ''p1''"
    using cron_removes_cleanly [of ex_cascade ex_condemned "fst ?run" "snd ?run" "''p1''"] gone by simp
  then show ?thesis using gone by (simp add: filter_empty_conv case_prod_beta)
qed

end
