(* ===== verification/Shed_Lock.thy ===== *)
theory Shed_Lock
  imports Service_Logic
begin

text \<open>
  \<open>internal/platform/lock/shedlock.go\<close>, \<open>internal/platform/scheduler/scheduler.go\<close> and the job list of
  \<open>cmd/api/main.go\<close>: cron jobs that run once across the fleet, because each run takes a row of a
  shared table first. The fleet is a step relation: pods take locks, work and release locks in any
  interleaving. Two theorems say what the lock is worth: as long as every run ends within its
  ceiling a job never runs twice at a time nor starts again too early, and without that it does.
\<close>

section \<open>The lock\<close>

text \<open>\<open>INSERT ... ON CONFLICT (id) DO UPDATE ... WHERE lockUntil <= now\<close>: whether a row was affected.\<close>

definition lockExec :: "LockRow \<Rightarrow> time \<Rightarrow> bool svc" where
  "lockExec row now = db (\<lambda>w. case map_of (view locksC w) (lk_ID row) of
       None \<Rightarrow> (Inr True, c_upd locksC (\<lambda>t. t @ [(lk_ID row, row)]) w)
     | Some old \<Rightarrow> if lk_LockUntil old \<le> now then (Inr True, c_upd locksC (replaceRow (lk_ID row) (\<lambda>_. row)) w) else (Inr False, w))"

text \<open>A failure may be a missing table: create it and try once more.\<close>

definition Lock :: "string \<Rightarrow> string \<Rightarrow> int \<Rightarrow> time \<Rightarrow> bool svc" where
  "Lock host name atMostFor now =
    (let exec = lockExec \<lparr> lk_ID = name, lk_LockUntil = now + atMostFor, lk_LockedAt = now, lk_LockedBy = host \<rparr> now in
     bnd (attempt exec) (\<lambda>r. case r of Inr b \<Rightarrow> ret b
       | Inl e \<Rightarrow> bnd (attempt dbStatement) (\<lambda>t. case t of Inl _ \<Rightarrow> throw e | Inr _ \<Rightarrow> exec)))"

definition Unlock :: "string \<Rightarrow> int \<Rightarrow> time \<Rightarrow> time \<Rightarrow> unit svc" where
  "Unlock name atLeastFor acquiredAt now =
    (let floor = acquiredAt + atLeastFor; until = (if floor > now then floor else now) in
     bnd (dbSetByID locksC name (\<lambda>d. d \<lparr> lk_LockUntil := until \<rparr>)) (\<lambda>_. ret ()))"

section \<open>The scheduler\<close>

record Job =
  job_Name :: string
  job_Spec :: string
  job_AtMostFor :: int
  job_AtLeastFor :: int

text \<open>A panic of the job is recovered and logged; the deferred release runs in any case, its error is dropped.\<close>

definition runRecovered :: "unit svc \<Rightarrow> unit svc" where
  "runRecovered fn w = (Inr (), snd (fn w))"

definition RunLocked :: "string \<Rightarrow> string \<Rightarrow> int \<Rightarrow> int \<Rightarrow> time \<Rightarrow> unit svc \<Rightarrow> bool svc" where
  "RunLocked host name atMostFor atLeastFor now fn = bnd (Lock host name atMostFor now) (\<lambda>ok.
     if \<not> ok then ret False
     else bnd (runRecovered fn) (\<lambda>_. bnd timeNow (\<lambda>done'. bnd (attempt (Unlock name atLeastFor now done')) (\<lambda>_. ret True))))"

definition nativeOnly :: "string set" where
  "nativeOnly = {''savingsContractExpiration'', ''savingsContractExpiryReminders'', ''reminderNotifications'',
     ''paymentGatewayTransactionScanning'', ''autoSuspensionJob'', ''monthlyBill'', ''monthlyCollect''}"

definition job :: "string \<Rightarrow> string \<Rightarrow> int \<Rightarrow> int \<Rightarrow> Job" where
  "job name spec most least = \<lparr> job_Name = name, job_Spec = spec, job_AtMostFor = most, job_AtLeastFor = least \<rparr>"

definition allJobs :: "Job list" where
  "allJobs = [
     job ''minutelyCharge'' ''30 * * * * *'' (5 * minute) (30 * second),
     job ''hourlyCharge'' ''0 0 * * * *'' (5 * minute) (30 * second),
     job ''monthlyCharge'' ''0 0 * * * *'' (5 * minute) (30 * second),
     job ''gnocchiMetricsFetch'' ''0 0 * * * *'' (10 * minute) (30 * second),
     job ''savingsContractExpiration'' ''0 0 0 * * *'' (10 * minute) (30 * second),
     job ''savingsContractExpiryReminders'' ''0 0 0 * * *'' (10 * minute) (30 * second),
     job ''reminderNotifications'' ''0 0 * * * *'' (10 * minute) (30 * second),
     job ''paymentGatewayTransactionScanning'' ''0 */20 * * * *'' (10 * minute) (30 * second),
     job ''autoSuspensionJob'' ''0 */30 * * * *'' (20 * minute) (5 * minute),
     job ''monthlyBill'' ''0 0 0 * * *'' (60 * minute) (30 * second),
     job ''monthlyCollect'' ''0 0 7 1,5,9,13,16 * *'' (60 * minute) (30 * second),
     job ''servicesSync'' ''0 */15 * * * *'' (10 * minute) (30 * second),
     job ''executeProjectDeletion'' ''30 * * * * *'' minute (30 * second)]"

definition registeredJobs :: "bool \<Rightarrow> Job list" where
  "registeredJobs external = filter (\<lambda>j. \<not> (external \<and> job_Name j \<in> nativeOnly)) allJobs"

section \<open>The fleet\<close>

text \<open>A run in progress: the pod, the job and the instant at which the lock was taken.\<close>

record fleet =
  fl_world :: world
  fl_running :: "(string \<times> Job \<times> time) list"
  fl_starts :: "(string \<times> time) list"

text \<open>
  The steps. A pod tries to take the lock of a registered job, with the time it has just read; the
  jobs, and everything else that uses the database, work on the shared world but not on the lock
  rows; a pod that is done releases the lock, or fails to.
\<close>

inductive fleet_step :: "Job list \<Rightarrow> fleet \<Rightarrow> fleet \<Rightarrow> bool" for js where
  fire: "j \<in> set js \<Longrightarrow> timeNow (fl_world F) = (Inr now, w0) \<Longrightarrow> Lock host (job_Name j) (job_AtMostFor j) now w0 = (r, w) \<Longrightarrow>
    fleet_step js F (F \<lparr> fl_world := w,
      fl_running := (if r = Inr True then (host, j, now) # fl_running F else fl_running F),
      fl_starts := (if r = Inr True then (job_Name j, now) # fl_starts F else fl_starts F) \<rparr>)"
| work: "leaves locksC (m :: unit svc) \<Longrightarrow> (\<And>v r v'. m v = (r, v') \<Longrightarrow> w_time v \<le> w_time v') \<Longrightarrow> m (fl_world F) = (r, w) \<Longrightarrow> fleet_step js F (F \<lparr> fl_world := w \<rparr>)"
| release: "(host, j, t) \<in> set (fl_running F) \<Longrightarrow> timeNow (fl_world F) = (Inr now, w0) \<Longrightarrow> Unlock (job_Name j) (job_AtLeastFor j) t now w0 = (r, w) \<Longrightarrow>
    fleet_step js F (F \<lparr> fl_world := w, fl_running := remove1 (host, j, t) (fl_running F) \<rparr>)"

text \<open>Every run is within its ceiling.\<close>

definition punctual :: "fleet \<Rightarrow> bool" where
  "punctual F \<longleftrightarrow> (\<forall>(host, j, t) \<in> set (fl_running F). w_time (fl_world F) < t + job_AtMostFor j)"

inductive fleet_reach :: "Job list \<Rightarrow> fleet \<Rightarrow> fleet \<Rightarrow> bool" for js F where
  refl: "fleet_reach js F F"
| step: "fleet_reach js F G \<Longrightarrow> fleet_step js G H \<Longrightarrow> punctual H \<Longrightarrow> fleet_reach js F H"

section \<open>What a call does to the lock rows\<close>

abbreviation lockRow :: "world \<Rightarrow> string \<Rightarrow> LockRow option" where
  "lockRow w \<equiv> map_of (view locksC w)"

lemma lockExec_cases:
  assumes "lockExec row now w = (r, w')"
  shows "w_time w' = w_time w \<and>
    (if r = Inr True then (\<forall>old. lockRow w (lk_ID row) = Some old \<longrightarrow> lk_LockUntil old \<le> now) \<and> lockRow w' = (lockRow w) (lk_ID row \<mapsto> row)
     else view locksC w' = view locksC w)"
proof -
  have fault: "view locksC (w \<lparr> w_faults := fs \<rparr>) = view locksC w" for fs by (rule locks.view_stored) simp
  have ins: "lockRow (c_upd locksC (\<lambda>t. t @ [(lk_ID row, row)]) v) = (lockRow v) (lk_ID row \<mapsto> row)" if "lockRow v (lk_ID row) = None" for v
    using that by (auto simp: view_def locksC_def fun_eq_iff map_add_def split: option.split)
  have upd: "lockRow (c_upd locksC (replaceRow (lk_ID row) (\<lambda>_. row)) v) = (lockRow v) (lk_ID row \<mapsto> row)" if "lockRow v (lk_ID row) = Some old" for v old
  proof -
    have "view locksC (c_upd locksC (replaceRow (lk_ID row) (\<lambda>_. row)) v) = replaceRow (lk_ID row) (\<lambda>_. row) (view locksC v)"
      unfolding view_def locks.table_upd locks.view_replaceRow by (simp add: locksC_def)
    then show ?thesis using that by (simp add: map_of_replaceRow)
  qed
  have time: "w_time (c_upd locksC f v) = w_time v" for f v by (rule locks.upd_time)
  show ?thesis
    using assms ins upd fault time unfolding lockExec_def db_def Let_def
    by (auto split: list.splits if_splits option.splits)
qed

lemma Lock_run:
  assumes "Lock host n most now w = (r, w')"
  shows "w_time w' = w_time w \<and>
    (if r = Inr True then (\<forall>old. lockRow w n = Some old \<longrightarrow> lk_LockUntil old \<le> now) \<and>
       lockRow w' = (lockRow w) (n \<mapsto> \<lparr> lk_ID = n, lk_LockUntil = now + most, lk_LockedAt = now, lk_LockedBy = host \<rparr>)
     else view locksC w' = view locksC w)"
proof -
  let ?row = "\<lparr> lk_ID = n, lk_LockUntil = now + most, lk_LockedAt = now, lk_LockedBy = host \<rparr>"
  obtain r1 w1 where e1: "lockExec ?row now w = (r1, w1)" by (cases "lockExec ?row now w")
  note c1 = lockExec_cases [OF e1]
  show ?thesis
  proof (cases r1)
    case (Inr b)
    then have "r = Inr b" "w' = w1" using assms e1 by (auto simp: Lock_def Let_def bnd_def attempt_def ret_def)
    then show ?thesis using c1 Inr by simp
  next
    case (Inl e)
    then have V1: "view locksC w1 = view locksC w" "w_time w1 = w_time w" using c1 by simp_all
    obtain r2 w2 where e2: "dbStatement w1 = (r2, w2)" by (cases "dbStatement w1")
    have V2: "view locksC w2 = view locksC w" "w_time w2 = w_time w" using dbStatement_run [OF e2] locks.view_stored [of w2 w1] V1 by simp_all
    have np: "e \<noteq> Panic p" "r2 \<noteq> Inl (Panic p)" for p
      using e1 e2 Inl by (auto simp: lockExec_def dbStatement_def db_def Let_def split: list.splits if_splits option.splits)
    show ?thesis
    proof (cases r2)
      case Inl2: (Inl e2')
      then have "r = Inl e" "w' = w2" using assms e1 e2 Inl np by (auto simp: Lock_def Let_def bnd_def attempt_def throw_def split: error.splits)
      then show ?thesis using V2 by simp
    next
      case (Inr u)
      then have "lockExec ?row now w2 = (r, w')" using assms e1 e2 Inl np by (auto simp: Lock_def Let_def bnd_def attempt_def split: error.splits)
      from lockExec_cases [OF this] show ?thesis using V2 by simp
    qed
  qed
qed

lemma Unlock_run:
  assumes "Unlock n least t now w = (r, w')"
  shows "w_time w' = w_time w \<and> (view locksC w' = view locksC w \<or>
    lockRow w' = (\<lambda>m. if m = n then map_option (\<lambda>d. d \<lparr> lk_LockUntil := max (t + least) now \<rparr>) (lockRow w n) else lockRow w m))"
proof -
  let ?f = "\<lambda>d. d \<lparr> lk_LockUntil := max (t + least) now \<rparr>"
  have later: "(if now < t + least then t + least else now) = max (t + least) now" by simp
  obtain s w1 where s: "dbSetByID locksC n ?f w = (s, w1)" by (cases "dbSetByID locksC n ?f w")
  have w': "w' = w1" using assms s unfolding Unlock_def Let_def later by (cases s) (auto simp: bnd_def ret_def)
  show ?thesis
  proof (cases s)
    case (Inl e)
    then have "stored w1 = stored w" using s failed_writes(2) by blast
    moreover have "w_time w1 = w_time w" using s by (auto simp: dbSetByID_def db_def Let_def locks.upd_time split: list.splits if_splits)
    moreover note locks.view_stored [OF \<open>stored w1 = stored w\<close>]
    ultimately show ?thesis using w' by simp
  next
    case (Inr b)
    have "view locksC w1 = replaceRow n ?f (view locksC w)"
      by (rule locks.set_by_id_run(3) [OF s [unfolded Inr]]) (simp add: locksC_def)
    then have "lockRow w1 = (\<lambda>m. if m = n then map_option ?f (lockRow w n) else lockRow w m)"
      by (auto simp: map_of_replaceRow fun_eq_iff split: option.split)
    then show ?thesis using locks.set_by_id_run(2) [OF s [unfolded Inr]] w' by simp
  qed
qed

section \<open>Exclusion\<close>

definition jobs_ok :: "Job list \<Rightarrow> bool" where
  "jobs_ok js \<longleftrightarrow> distinct (map job_Name js) \<and> list_all (\<lambda>j. 0 \<le> job_AtLeastFor j \<and> job_AtLeastFor j \<le> job_AtMostFor j) js"

lemma registeredJobs_ok: "jobs_ok (registeredJobs external)"
proof -
  have "jobs_ok allJobs" by code_simp
  then show ?thesis by (simp add: jobs_ok_def registeredJobs_def distinct_map_filter list_all_iff)
qed

abbreviation runJob :: "string \<times> Job \<times> time \<Rightarrow> string" where
  "runJob x \<equiv> job_Name (fst (snd x))"

definition spaced :: "Job list \<Rightarrow> (string \<times> time) list \<Rightarrow> bool" where
  "spaced js ts \<longleftrightarrow> sorted_wrt (\<lambda>(n, t) (n', t'). \<forall>j\<in>set js. job_Name j = n \<and> n' = n \<longrightarrow> t' + job_AtLeastFor j \<le> t) ts"

text \<open>
  The invariant: the row of a run in progress is locked to the run's ceiling, the run is the last
  start of its job, and every start has locked its row for the least time at least.
\<close>

definition fleet_ok :: "Job list \<Rightarrow> fleet \<Rightarrow> bool" where
  "fleet_ok js F \<longleftrightarrow>
    (\<forall>(h, j, t) \<in> set (fl_running F). j \<in> set js \<and> (job_Name j, t) \<in> set (fl_starts F) \<and> (\<forall>t'. (job_Name j, t') \<in> set (fl_starts F) \<longrightarrow> t' \<le> t) \<and>
      (\<exists>row. lockRow (fl_world F) (job_Name j) = Some row \<and> lk_LockUntil row = t + job_AtMostFor j)) \<and>
    distinct (map runJob (fl_running F)) \<and>
    (\<forall>(n, t) \<in> set (fl_starts F). \<exists>row. lockRow (fl_world F) n = Some row \<and> (\<forall>j\<in>set js. job_Name j = n \<longrightarrow> t + job_AtLeastFor j \<le> lk_LockUntil row)) \<and>
    spaced js (fl_starts F)"

lemma fleet_ok_world:
  assumes "fleet_ok js F" and "view locksC w = view locksC (fl_world F)"
  shows "fleet_ok js (F \<lparr> fl_world := w \<rparr>)"
  using assms by (simp add: fleet_ok_def)

lemma same_job: "jobs_ok js \<Longrightarrow> j \<in> set js \<Longrightarrow> j' \<in> set js \<Longrightarrow> job_Name j = job_Name j' \<Longrightarrow> j = j'"
  by (auto simp: jobs_ok_def distinct_map dest: inj_onD)

lemma fleet_ok_fire:
  assumes js: "jobs_ok js" and ok: "fleet_ok js F" and j: "j \<in> set js" and now: "timeNow (fl_world F) = (Inr now, w0)"
    and lock: "Lock host (job_Name j) (job_AtMostFor j) now w0 = (Inr True, w)"
    and punct: "punctual (F \<lparr> fl_world := w, fl_running := (host, j, now) # fl_running F, fl_starts := (job_Name j, now) # fl_starts F \<rparr>)"
  shows "fleet_ok js (F \<lparr> fl_world := w, fl_running := (host, j, now) # fl_running F, fl_starts := (job_Name j, now) # fl_starts F \<rparr>)"
proof -
  let ?n = "job_Name j" and ?row = "\<lparr> lk_ID = job_Name j, lk_LockUntil = now + job_AtMostFor j, lk_LockedAt = now, lk_LockedBy = host \<rparr>"
  have V0: "view locksC w0 = view locksC (fl_world F)" using timeNow_run [OF now] locks.view_stored [of w0 "fl_world F"] by simp
  have w: "w_time w = now" "lockRow w = (lockRow (fl_world F)) (?n \<mapsto> ?row)"
    and free: "\<And>old. lockRow (fl_world F) ?n = Some old \<Longrightarrow> lk_LockUntil old \<le> now"
    using Lock_run [OF lock] timeNow_run [OF now] V0 by simp_all
  have idle: "?n \<notin> set (map runJob (fl_running F))"
  proof
    assume "?n \<in> set (map runJob (fl_running F))"
    then obtain h j' t where r: "(h, j', t) \<in> set (fl_running F)" "job_Name j' = ?n" by auto
    then obtain row where "lockRow (fl_world F) ?n = Some row" "lk_LockUntil row = t + job_AtMostFor j'" using ok by (force simp: fleet_ok_def)
    then have "t + job_AtMostFor j' \<le> now" using free by metis
    moreover have "now < t + job_AtMostFor j'" using punct r(1) w(1) by (force simp: punctual_def)
    ultimately show False by simp
  qed
  have least: "0 \<le> job_AtLeastFor j'" "job_AtLeastFor j' \<le> job_AtMostFor j'" if "j' \<in> set js" for j'
    using js that by (simp_all add: jobs_ok_def list_all_iff)
  have earlier: "t + job_AtLeastFor j' \<le> now" if "(?n, t) \<in> set (fl_starts F)" "j' \<in> set js" "job_Name j' = ?n" for t j'
    using ok that free by (force simp: fleet_ok_def)
  have last: "t \<le> now" if "(?n, t) \<in> set (fl_starts F)" for t using earlier [OF that j] least [OF j] by simp
  have new: "\<forall>j'\<in>set js. job_Name j' = ?n \<longrightarrow> now + job_AtLeastFor j' \<le> lk_LockUntil ?row" using same_job [OF js j] least by force
  have spread: "\<exists>row. lockRow w n = Some row \<and> (\<forall>j'\<in>set js. job_Name j' = n \<longrightarrow> t + job_AtLeastFor j' \<le> lk_LockUntil row)"
    if "(n, t) \<in> set (fl_starts F)" for n t
  proof (cases "n = ?n")
    case True
    then show ?thesis using that w(2) new last by force
  next
    case False
    then show ?thesis using that ok w(2) by (force simp: fleet_ok_def)
  qed
  have "spaced js ((?n, now) # fl_starts F)" using ok earlier by (auto simp: fleet_ok_def spaced_def)
  moreover have "\<forall>(h, j', t) \<in> set (fl_running F). j' \<in> set js \<and> (job_Name j', t) \<in> set (fl_starts F) \<and>
      (\<forall>t'. (job_Name j', t') \<in> set ((?n, now) # fl_starts F) \<longrightarrow> t' \<le> t) \<and>
      (\<exists>row. lockRow w (job_Name j') = Some row \<and> lk_LockUntil row = t + job_AtMostFor j')"
    using ok idle w(2) by (force simp: fleet_ok_def)
  ultimately show ?thesis using ok idle j w(2) new last spread by (auto simp: fleet_ok_def)
qed

lemma fleet_ok_release:
  assumes js: "jobs_ok js" and ok: "fleet_ok js F" and run: "(host, j, t) \<in> set (fl_running F)" and now: "timeNow (fl_world F) = (Inr now, w0)"
    and unlock: "Unlock (job_Name j) (job_AtLeastFor j) t now w0 = (r, w)"
  shows "fleet_ok js (F \<lparr> fl_world := w, fl_running := remove1 (host, j, t) (fl_running F) \<rparr>)"
proof -
  let ?n = "job_Name j" and ?rest = "remove1 (host, j, t) (fl_running F)"
  have V0: "view locksC w0 = view locksC (fl_world F)" using timeNow_run [OF now] locks.view_stored [of w0 "fl_world F"] by simp
  have j: "j \<in> set js" and latest: "\<And>t'. (?n, t') \<in> set (fl_starts F) \<Longrightarrow> t' \<le> t" using ok run by (force simp: fleet_ok_def)+
  have dist: "distinct (map runJob (fl_running F))" using ok by (simp add: fleet_ok_def)
  then have inj: "inj_on runJob (set (fl_running F))" "distinct (fl_running F)" by (simp_all add: distinct_map)
  then have rest: "set ?rest = set (fl_running F) - {(host, j, t)}" by simp
  then have sub: "set ?rest \<subseteq> set (fl_running F)" by simp
  have fresh: "job_Name j' \<noteq> ?n" if "(h, j', t') \<in> set ?rest" for h j' t'
    using that run inj_onD [OF inj(1), of "(h, j', t')" "(host, j, t)"] unfolding rest by auto
  have dist': "distinct (map runJob ?rest)"
    using inj(2) inj_on_subset [OF inj(1) sub] by (simp add: distinct_map del: set_remove1_eq)
  from Unlock_run [OF unlock, unfolded V0] consider "view locksC w = view locksC (fl_world F)"
    | "lockRow w = (\<lambda>m. if m = ?n then map_option (\<lambda>d. d \<lparr> lk_LockUntil := max (t + job_AtLeastFor j) now \<rparr>) (lockRow (fl_world F) ?n) else lockRow (fl_world F) m)"
    by blast
  then show ?thesis
  proof cases
    case 1
    then show ?thesis using ok sub dist' unfolding fleet_ok_def by simp blast
  next
    case 2
    have running: "lockRow w (job_Name j') = lockRow (fl_world F) (job_Name j')" if "(h, j', t') \<in> set ?rest" for h j' t'
      using fresh [OF that] 2 by simp
    have starts: "\<exists>row. lockRow w n = Some row \<and> (\<forall>j'\<in>set js. job_Name j' = n \<longrightarrow> t' + job_AtLeastFor j' \<le> lk_LockUntil row)"
      if st: "(n, t') \<in> set (fl_starts F)" for n t'
    proof -
      have "\<exists>row. lockRow (fl_world F) n = Some row \<and> (\<forall>j'\<in>set js. job_Name j' = n \<longrightarrow> t' + job_AtLeastFor j' \<le> lk_LockUntil row)"
        using ok st unfolding fleet_ok_def by fast
      then obtain row where row: "lockRow (fl_world F) n = Some row" "\<forall>j'\<in>set js. job_Name j' = n \<longrightarrow> t' + job_AtLeastFor j' \<le> lk_LockUntil row"
        by blast
      have "t' + job_AtLeastFor j' \<le> max (t + job_AtLeastFor j) now" if "j' \<in> set js" "job_Name j' = n" "n = ?n" for j'
      proof -
        have "j' = j" using same_job [OF js that(1) j] that(2,3) by simp
        then show ?thesis using latest [of t'] st that(3) by simp
      qed
      then show ?thesis using 2 row by (cases "n = ?n") auto
    qed
    have "\<forall>(h, j', t') \<in> set ?rest. j' \<in> set js \<and> (job_Name j', t') \<in> set (fl_starts F) \<and> (\<forall>t1. (job_Name j', t1) \<in> set (fl_starts F) \<longrightarrow> t1 \<le> t') \<and>
      (\<exists>row. lockRow w (job_Name j') = Some row \<and> lk_LockUntil row = t' + job_AtMostFor j')"
    proof (clarify)
      fix h j' t'
      assume x: "(h, j', t') \<in> set ?rest"
      then have "(h, j', t') \<in> set (fl_running F)" using sub by blast
      with ok show "j' \<in> set js \<and> (job_Name j', t') \<in> set (fl_starts F) \<and> (\<forall>t1. (job_Name j', t1) \<in> set (fl_starts F) \<longrightarrow> t1 \<le> t') \<and>
          (\<exists>row. lockRow w (job_Name j') = Some row \<and> lk_LockUntil row = t' + job_AtMostFor j')"
        unfolding running [OF x] fleet_ok_def by fast
    qed
    moreover have "\<forall>(n, t') \<in> set (fl_starts F). \<exists>row. lockRow w n = Some row \<and> (\<forall>j'\<in>set js. job_Name j' = n \<longrightarrow> t' + job_AtLeastFor j' \<le> lk_LockUntil row)"
      using starts by blast
    ultimately show ?thesis using ok dist' by (simp add: fleet_ok_def)
  qed
qed

lemma fleet_ok_reach:
  assumes js: "jobs_ok js" and "fleet_reach js F G" and "fleet_ok js F"
  shows "fleet_ok js G"
  using assms(2)
proof (induction rule: fleet_reach.induct)
  case (step G H)
  show ?case
    using step.hyps(2)
  proof (cases rule: fleet_step.cases)
    case (fire j now w0 host r w)
    show ?thesis
    proof (cases "r = Inr True")
      case True
      then show ?thesis using fleet_ok_fire [OF js step.IH fire(2,3)] fire(1,4) step.hyps(3) by simp
    next
      case False
      have "view locksC w = view locksC (fl_world G)"
        using Lock_run [OF fire(4)] False timeNow_run [OF fire(3)] locks.view_stored [of w0 "fl_world G"] by simp
      then show ?thesis using fleet_ok_world [OF step.IH] fire(1) False by simp
    qed
  next
    case (work m r w)
    then show ?thesis using fleet_ok_world [OF step.IH] leavesD [OF work(2,4)] by simp
  next
    case (release host j t now w0 r w)
    then show ?thesis using fleet_ok_release [OF js step.IH] by simp
  qed
qed (rule assms(3))

text \<open>
  C22. The lock keeps the fleet from doubling a job. Whatever the pods of a fleet do, in whatever
  interleaving, whichever database calls fail and whatever was in the lock table: as long as every
  run of a job ends within the job's ceiling (\<open>AtMostFor\<close>), no registered job runs twice at a time,
  on one pod or on two, and two starts of a job are at least its \<open>AtLeastFor\<close> apart.
\<close>

theorem fleet_exclusion:
  assumes "fleet_reach (registeredJobs external) F G" and "fl_running F = []" and "fl_starts F = []"
  shows "distinct (map runJob (fl_running G)) \<and> spaced (registeredJobs external) (fl_starts G)"
proof -
  have "fleet_ok (registeredJobs external) F" using assms(2,3) by (simp add: fleet_ok_def spaced_def)
  from fleet_ok_reach [OF registeredJobs_ok assms(1) this] show ?thesis by (simp add: fleet_ok_def)
qed

section \<open>An overrun\<close>

definition deletionJob :: Job where
  "deletionJob = job ''executeProjectDeletion'' ''30 * * * * *'' minute (30 * second)"

definition sleep :: "int \<Rightarrow> unit svc" where
  "sleep d w = (Inr (), w \<lparr> w_time := w_time w + max 0 d \<rparr>)"

definition fleetAt :: "time \<Rightarrow> LockRow table \<Rightarrow> (string \<times> Job \<times> time) list \<Rightarrow> (string \<times> time) list \<Rightarrow> fleet" where
  "fleetAt t locks run starts = \<lparr> fl_world = ex_world \<lparr> w_time := t, w_ticks := [], w_locks := locks \<rparr>, fl_running = run, fl_starts = starts \<rparr>"

definition deletionLock :: "time \<Rightarrow> time \<Rightarrow> string \<Rightarrow> LockRow table" where
  "deletionLock until t host = [(''executeProjectDeletion'', \<lparr> lk_ID = ''executeProjectDeletion'', lk_LockUntil = until, lk_LockedAt = t, lk_LockedBy = host \<rparr>)]"

lemma deletionJob_simps [simp]:
  "job_Name deletionJob = ''executeProjectDeletion''" "job_AtMostFor deletionJob = minute" "job_AtLeastFor deletionJob = 30 * second"
  by (simp_all add: deletionJob_def job_def)

lemma deletionJob_registered: "deletionJob \<in> set (registeredJobs external)"
  by (simp add: registeredJobs_def allJobs_def deletionJob_def nativeOnly_def job_def)

lemmas run_defs = timeNow_def Lock_def lockExec_def db_def bnd_def attempt_def ret_def Let_def view_def locksC_def

lemma fire_at:
  assumes "locks = [] \<or> (\<exists>u t' h. locks = deletionLock u t' h \<and> u \<le> t)"
  shows "fleet_step (registeredJobs external) (fleetAt t locks run starts)
    (fleetAt t (deletionLock (t + minute) t host) ((host, deletionJob, t) # run) ((''executeProjectDeletion'', t) # starts))"
proof -
  let ?F = "fleetAt t locks run starts" and ?w = "ex_world \<lparr> w_time := t, w_ticks := [], w_locks := deletionLock (t + minute) t host \<rparr>"
  have now: "timeNow (fl_world ?F) = (Inr t, fl_world ?F)" by (simp add: fleetAt_def timeNow_def)
  have "Lock host (job_Name deletionJob) (job_AtMostFor deletionJob) t (fl_world ?F) = (Inr True, ?w)"
    using assms by (auto simp: run_defs fleetAt_def deletionLock_def ex_world_def)
  from fleet_step.fire [OF deletionJob_registered now this] show ?thesis by (simp add: fleetAt_def)
qed

lemma fire_expired:
  "u \<le> t \<Longrightarrow> fleet_step (registeredJobs external) (fleetAt t (deletionLock u t' h) run starts)
    (fleetAt t (deletionLock (t + minute) t host) ((host, deletionJob, t) # run) ((''executeProjectDeletion'', t) # starts))"
  by (rule fire_at) blast

lemma sleep_at: "0 \<le> d \<Longrightarrow> fleet_step js (fleetAt t locks run starts) (fleetAt (t + d) locks run starts)"
proof -
  assume d: "0 \<le> d"
  let ?F = "fleetAt t locks run starts" and ?w = "ex_world \<lparr> w_time := t + d, w_ticks := [], w_locks := locks \<rparr>"
  have "leaves locksC (sleep d)" unfolding keeps_def
  proof (intro allI impI)
    fix w r w'
    assume "sleep d w = (r, w')"
    then have "stored w' = stored w" by (auto simp: sleep_def)
    then show "view locksC w' = view locksC w" by (rule locks.view_stored)
  qed
  moreover have "w_time v \<le> w_time v'" if "sleep d v = (r, v')" for v r v' using that by (auto simp: sleep_def)
  moreover have "sleep d (fl_world ?F) = (Inr (), ?w)" using d by (simp add: sleep_def fleetAt_def)
  ultimately have "fleet_step js ?F (?F \<lparr> fl_world := ?w \<rparr>)" by (rule fleet_step.work)
  then show ?thesis by (simp add: fleetAt_def)
qed

lemma release_at:
  assumes "(host, deletionJob, t) \<in> set run"
  shows "fleet_step js (fleetAt now (deletionLock u t' h) run starts)
    (fleetAt now (deletionLock (max (t + 30 * second) now) t' h) (remove1 (host, deletionJob, t) run) starts)"
proof -
  let ?F = "fleetAt now (deletionLock u t' h) run starts"
  let ?w = "ex_world \<lparr> w_time := now, w_ticks := [], w_locks := deletionLock (max (t + 30 * second) now) t' h \<rparr>"
  have time: "timeNow (fl_world ?F) = (Inr now, fl_world ?F)" by (simp add: fleetAt_def timeNow_def)
  have unlock: "Unlock (job_Name deletionJob) (job_AtLeastFor deletionJob) t now (fl_world ?F) = (Inr (), ?w)"
    by (simp add: Unlock_def dbSetByID_def storeSetByID_def run_defs fleetAt_def deletionLock_def ex_world_def)
  have "(host, deletionJob, t) \<in> set (fl_running ?F)" using assms by (simp add: fleetAt_def)
  from fleet_step.release [OF this time unlock] show ?thesis by (simp add: fleetAt_def)
qed

text \<open>
  Without the ceiling the lock is worth nothing to others. The first pod is a second late and
  releases the lock that the second one holds by then: a third starts beside the second, although
  the runs of both are within their own ceilings.
\<close>

definition overrun :: fleet where
  "overrun = fleetAt (62 * second) (deletionLock (122 * second) (62 * second) ''c'')
     [(''c'', deletionJob, 62 * second), (''b'', deletionJob, 61 * second)]
     [(''executeProjectDeletion'', 62 * second), (''executeProjectDeletion'', 61 * second), (''executeProjectDeletion'', 0)]"

lemma overrun_breaks_exclusion:
  "rtranclp (fleet_step (registeredJobs external)) (fleetAt 0 [] [] []) overrun \<and> punctual overrun \<and>
   map runJob (fl_running overrun) = [''executeProjectDeletion'', ''executeProjectDeletion'']"
proof -
  let ?R = "rtranclp (fleet_step (registeredJobs external))"
  let ?n = "''executeProjectDeletion''"
  let ?a = "(''a'', deletionJob, 0)" and ?b = "(''b'', deletionJob, 61 * second)"
  have s1: "fleet_step (registeredJobs external) (fleetAt 0 [] [] []) (fleetAt 0 (deletionLock minute 0 ''a'') [?a] [(?n, 0)])"
    using fire_at [of "[]" 0 external "[]" "[]" "''a''"] by simp
  have s2: "fleet_step (registeredJobs external) (fleetAt 0 (deletionLock minute 0 ''a'') [?a] [(?n, 0)]) (fleetAt (61 * second) (deletionLock minute 0 ''a'') [?a] [(?n, 0)])"
    using sleep_at [of "61 * second" "registeredJobs external" 0 "deletionLock minute 0 ''a''" "[?a]" "[(?n, 0)]"] by simp
  have s3: "fleet_step (registeredJobs external) (fleetAt (61 * second) (deletionLock minute 0 ''a'') [?a] [(?n, 0)])
      (fleetAt (61 * second) (deletionLock (121 * second) (61 * second) ''b'') [?b, ?a] [(?n, 61 * second), (?n, 0)])"
    using fire_expired [of minute "61 * second" external 0 "''a''" "[?a]" "[(?n, 0)]" "''b''"] by simp
  have s4: "fleet_step (registeredJobs external) (fleetAt (61 * second) (deletionLock (121 * second) (61 * second) ''b'') [?b, ?a] [(?n, 61 * second), (?n, 0)])
      (fleetAt (61 * second) (deletionLock (61 * second) (61 * second) ''b'') [?b] [(?n, 61 * second), (?n, 0)])"
    using release_at [of "''a''" 0 "[?b, ?a]" "registeredJobs external" "61 * second" "121 * second" "61 * second" "''b''" "[(?n, 61 * second), (?n, 0)]"] by simp
  have s5: "fleet_step (registeredJobs external) (fleetAt (61 * second) (deletionLock (61 * second) (61 * second) ''b'') [?b] [(?n, 61 * second), (?n, 0)])
      (fleetAt (62 * second) (deletionLock (61 * second) (61 * second) ''b'') [?b] [(?n, 61 * second), (?n, 0)])"
    using sleep_at [of second "registeredJobs external" "61 * second" "deletionLock (61 * second) (61 * second) ''b''" "[?b]" "[(?n, 61 * second), (?n, 0)]"] by simp
  have s6: "fleet_step (registeredJobs external) (fleetAt (62 * second) (deletionLock (61 * second) (61 * second) ''b'') [?b] [(?n, 61 * second), (?n, 0)]) overrun"
    using fire_expired [of "61 * second" "62 * second" external "61 * second" "''b''" "[?b]" "[(?n, 61 * second), (?n, 0)]" "''c''"]
    by (simp add: overrun_def)
  note chain = rtranclp.rtrancl_into_rtrancl [of "fleet_step (registeredJobs external)"]
  have "?R (fleetAt 0 [] [] []) overrun"
    by (rule chain [OF chain [OF chain [OF chain [OF chain [OF chain [OF rtranclp.rtrancl_refl s1] s2] s3] s4] s5] s6])
  then show ?thesis by (simp add: overrun_def punctual_def fleetAt_def)
qed

theorem fleet_exclusion_witness:
  "distinct (map runJob (fl_running (fleetAt 0 (deletionLock minute 0 ''a'') [(''a'', deletionJob, 0)] [(''executeProjectDeletion'', 0)]))) \<and>
   fleet_reach (registeredJobs True) (fleetAt 0 [] [] []) (fleetAt 0 (deletionLock minute 0 ''a'') [(''a'', deletionJob, 0)] [(''executeProjectDeletion'', 0)])"
proof -
  let ?G = "fleetAt 0 (deletionLock minute 0 ''a'') [(''a'', deletionJob, 0)] [(''executeProjectDeletion'', 0)]"
  have "fleet_step (registeredJobs True) (fleetAt 0 [] [] []) ?G" using fire_at [of "[]" 0 True "[]" "[]" "''a''"] by simp
  moreover have "punctual ?G" by (simp add: punctual_def fleetAt_def)
  ultimately have reach: "fleet_reach (registeredJobs True) (fleetAt 0 [] [] []) ?G" by (rule fleet_reach.step [OF fleet_reach.refl])
  moreover have "fl_running (fleetAt 0 [] [] []) = []" "fl_starts (fleetAt 0 [] [] []) = []" by (simp_all add: fleetAt_def)
  ultimately show ?thesis using fleet_exclusion [of True "fleetAt 0 [] [] []" ?G] by blast
qed

end
