(* ===== verification/Spec2Isabelle.thy ===== *)
theory Spec2Isabelle
  imports Rating_Engine Tax_Rates Exchange Doc_Store Plan_Selection Bill_Build Settlement
    Adjustments Suspension_Rules Decimal_Reference Service_World Bill_Repo
    Billing_Repo Go_Fmt Billing_Resource Charge_Job Service_Logic Suspension_Job Activation
    Bill_Payment Savings Payment_Gateway Payment_Repo Card_Collect Add_Funds Payment_Scan
    Rbac User_Repo Org_Repo Tenancy Organizations Org_Handlers Projects Project_Handlers Platform_Access
    Cloud_Repo Cloud_Teardown Project_Deletion Shed_Lock
begin

text \<open>
  A verification development of stratos, the control plane of a cloud (\<open>src/internal\<close>). Stratos rates the
  cloud resources of its customers by price plans, charges them onto the bill of the month, adjusts, sends
  and settles the bills, reminds and suspends customers who do not pay, and takes their payments. Its
  customers are users in organisations with roles, who share projects; projects own the cached cloud
  resources that are billed and that are torn down with the project. Scheduled jobs drive both halves and run on
  a fleet of pods under a distributed lock. The theories go from pure arithmetic to the services that
  run on the database, first for billing, then for the platform.

  \<^bold>\<open>Language and libraries.\<close> \<open>Go_Prelude\<close> has errors (\<open>HTTPError\<close>, \<open>Failure\<close>, \<open>Panic\<close>) as values of a sum type,
  loops over slices that may fail, string helpers and 64-bit integers; \<open>Go_Time\<close> instants and the calendar;
  \<open>Go_Float\<close> IEEE 754 doubles on bit patterns; \<open>Go_Fmt\<close> the number formatting used. The two decimal packages the sources
  import and do not contain are a parameter: \<open>Decimal_Lib\<close> has the record \<open>declib\<close> of their operations and, in the
  locales \<open>decimal_arith\<close> and \<open>decimal_lib\<close>, their documented laws. \<open>Decimal_Reference\<close> interprets them on an executable library
  (\<open>ref_lib\<close>), so the laws can hold and the examples evaluate.

  \<^bold>\<open>Pricing\<close> (\<open>platform/pricing\<close>). \<open>Pricing_Domain\<close>: \<open>domain.go\<close>, \<open>bill.go\<close>, \<open>credit.go\<close>, \<open>resource.go\<close>, \<open>suspension.go\<close> types.
  \<open>Pricing_Convert\<close>: \<open>convert.go\<close>, \<open>mathctx.go\<close>. \<open>Rating_Engine\<close>: \<open>engine.go\<close>, filters, tiers, proration; the lemmas show what tiers bill,
  how proration rounds, which rules apply and when a rating aborts (C1 to C5). \<open>Tax_Rates\<close>: \<open>tax.go\<close>, the gross amount in closed form, its
  bounds and the selection of rates (C6, C8). \<open>Exchange\<close>: \<open>fx.go\<close> (C9). \<open>Plan_Selection\<close>: \<open>planselect.go\<close> over the interfaces
  \<open>price_plan_source\<close> and \<open>price_plan_rule_source\<close>, interpreted on the repository adapters (C10). \<open>Bill_Build\<close>: \<open>bill_build.go\<close>, counters and
  caps of bill items (C11 to C14). \<open>Settlement\<close>: \<open>settle.go\<close>, \<open>billagg.go\<close>, a refinement of draining balances in order (C15 to C17).
  \<open>Adjustments\<close>: \<open>adjustments.go\<close> (C19) and the bounds of a savings discount. \<open>Suspension_Rules\<close>: \<open>suspension.go\<close>, the limits
  and notifications of dunning, which C35 and C36 build on.

  \<^bold>\<open>The database and the process.\<close> \<open>Doc_Store\<close>: the contract of \<open>pgdoc/store.go\<close>, a table of documents by id, as the
  locale \<open>document_store\<close>, interpreted on the list model. \<open>Service_World\<close>: a service call is a function from the world (all tables, the clock, the state of
  \<open>pgdoc.NewID\<close>, the log of calls to hooks) to a result or an error and the world it leaves. Two oracles make the environment explicit:
  how far the clock moves between readings, and which database calls fail; they are finite lists, and an exhausted one means no more
  movement and no more faults, so no theorem depends on their length. \<open>withTx\<close> is \<open>DB.WithTx\<close>. The locale \<open>collection\<close> is what a
  repository relies on; it is interpreted for each of the thirty-one tables. Ids minted by one process increase (C25).
  \<open>Service_Logic\<close> is the program logic of the later theories: triples with an error postcondition,
  calls that only read (\<open>quiet\<close>), that never panic (\<open>calm\<close>), and that keep an observation (\<open>keeps\<close>, \<open>leaves\<close>).

  \<^bold>\<open>Charging.\<close> \<open>Bill_Repo\<close>: \<open>billrepo.go\<close>, \<open>charge.go\<close>, \<open>apiadapter.go\<close>, \<open>repo.go\<close>, the lease on the bill of the cycle and the atomic charge (C26 to C28).
  \<open>Billing_Repo\<close>: \<open>platform/billing\<close> repositories and balances (C29) over the documents of \<open>Billing_Domain\<close> and \<open>Cloud_Domain\<close>.
  \<open>Billing_Resource\<close>: \<open>cloud/billingresource\<close>; the locale \<open>billing_provider\<close> is interpreted for the seven providers and
  \<open>billing_registry\<close> for their registry (C30). \<open>Charge_Job\<close>: \<open>billingjob\<close>, the cron and the queue consumer (C32 to C34).

  \<^bold>\<open>The life of a profile and of its bills\<close> (\<open>platform/billing\<close>). \<open>Suspension_Job\<close>: \<open>suspension_job.go\<close> (C35, C36). \<open>Activation\<close>: \<open>activation.go\<close>, \<open>activationservice.go\<close>,
  \<open>update.go\<close> (C37). \<open>Bill_Payment\<close>: \<open>paybill.go\<close>, \<open>sendbill.go\<close> (C38, C39). \<open>Savings\<close>: \<open>savings.go\<close>, \<open>reminder.go\<close>,
  \<open>reminder_repo.go\<close> (C40).

  \<^bold>\<open>Payments\<close> (\<open>platform/payment\<close>). \<open>Payment_Gateway\<close>: the gateway interface of \<open>stripe.go\<close> as the locale \<open>payment_gateway\<close>, interpreted on the Stripe implementation;
  the Stripe client may answer anything, as a function of the request and of all calls so far. \<open>Payment_Repo\<close>: cards, gateways,
  transactions, orders. \<open>Card_Collect\<close>: \<open>collect.go\<close>, a bill is booked as paid only when the very charge was reported as succeeded (C18).
  \<open>Add_Funds\<close>: \<open>addfunds.go\<close>, \<open>registercard.go\<close>, a deposit is credited once (C21). \<open>Payment_Scan\<close>: \<open>scanner.go\<close>, paid bills are left alone (C31).

  \<^bold>\<open>Users, organisations and projects\<close> (\<open>platform/user\<close>, \<open>platform/org\<close>, \<open>platform/rbac\<close>, \<open>platform/project\<close>). \<open>Platform_Domain\<close> has the documents,
  \<open>Rbac\<close> the permission patterns and static roles, \<open>User_Repo\<close> \<open>user.go\<close>, \<open>Org_Repo\<close> \<open>repo.go\<close> and \<open>policy.go\<close>, \<open>Organizations\<close> the services and views,
  \<open>Org_Handlers\<close> every endpoint of \<open>handler.go\<close> and \<open>role_handler.go\<close>; \<open>Projects\<close> and \<open>Project_Handlers\<close> the same for a project. A handler takes the
  decoded request and the claims of the token. \<open>Tenancy\<close> has the abstract state, organisations with seats and roles, and the
  permission test over it; \<open>Org_Handlers\<close> and \<open>Project_Handlers\<close> show that whatever a request does, database faults included, is a sequence of steps of
  an inductive relation in which each step names the permission it needs. \<open>Platform_Access\<close> joins the two routers and their histories:
  a change of a project was made by a caller allowed to make it (C7), the tables keep their form under every history of requests (C23), and
  a change of a seat or a custom role was authorised (C24).

  \<^bold>\<open>The cloud cache and deletion.\<close> \<open>Cloud_Repo\<close>: \<open>cloud/repo.go\<close>, the cache keyed by service and external id and its history. \<open>Cloud_Teardown\<close>: the order of deletion,
  the delete dispatch of \<open>providers/write.go\<close> and the cascade \<open>projectCloudDeleter\<close> of \<open>cmd/api/main.go\<close>; the cloud client and the managed
  services are parameters that may answer anything but do not write to the tables. \<open>Project_Deletion\<close>: \<open>deletion.go\<close>, the cron removes a project only
  when it was due and nothing of it is left in the cache, and leaves a project alone that is not due (C20).

  \<^bold>\<open>Locks and jobs.\<close> \<open>Shed_Lock\<close>: \<open>lock/shedlock.go\<close>, \<open>scheduler.go\<close> and the job table of \<open>cmd/api/main.go\<close>. A fleet of pods is a step relation over
  the lock table, the clock and the runs in progress; as long as no run outlives its ceiling a job never runs twice at a time
  nor starts again before its floor (C22), and an example shows that one overrun breaks this.

  \<^bold>\<open>Fuel and bounds.\<close> Every function is total. The retry loops count down as in the source: the five attempts to claim a bill, and C27 shows
  that five are enough; the seven readings of a root volume and the three sweeps of a cascade, after which the source gives up too. Machine integers wrap where the sources could overflow (\<open>i64\<close>); the id counter is taken modulo \<open>2 ^ 64\<close>.

  \<^bold>\<open>Interleaving.\<close> A service call runs to its end; the calls of the lock are interleaved between pods (C22), other concurrent calls are not.
  The claims on leases (C26, C27), on repeated
  charges (C13), on runs that fail and are repeated (C35) and on repeated callbacks (C21) are stated for
  every world a call may start in, which is what a second process relies on.

  \<^bold>\<open>Not modelled.\<close> The decoding and encoding of HTTP requests and tokens (handlers of the billing, administration and cloud endpoints altogether);
  JSON codecs, DTOs of billing and PDF rendering; the variables of mail templates; SQL text and index creation; the OpenStack, Ceph,
  Kubernetes and Prometheus clients, the creation of and the actions on cloud resources, and the jobs that only move data between them and the
  tables (their results are table contents here); AES decryption of secrets (a parameter); the matching of cron expressions; promotion codes,
  affiliates and invites by mail; the administrator's teardown of a project; the frontends.
\<close>

end
